(* ===== verification/Ntapi_Prelude.thy ===== *)
theory Ntapi_Prelude
  imports Main "HOL-Library.Word"
begin

text \<open>
  Shared vocabulary of the development: the C integer types as words, single-bit tests,
  the bit scans that the code obtains from compiler builtins, bounds-checked byte copies,
  and the decimal and hexadecimal conversions of printf.  Everything a component theory
  needs from C or from libc and that is used by more than one component is here.
\<close>

unbundle bit_operations_syntax

named_theorems c_defs \<open>definitions of C helpers that proofs unfold\<close>

section \<open>Machine integers\<close>

type_synonym u8 = "8 word"
type_synonym u16 = "16 word"
type_synonym u32 = "32 word"
type_synonym u64 = "64 word"

text \<open>\<open>(int32_t) w\<close> and the widening of an \<open>int\<close> operand to 64 bits.\<close>

definition sext32_64 :: "u32 \<Rightarrow> u64" where
  "sext32_64 w = signed_take_bit 31 (ucast w)"

text \<open>A flag test \<open>w & f\<close> used as a condition.\<close>

definition flagged :: "'a::len word \<Rightarrow> 'a word \<Rightarrow> bool" where
  "flagged w f \<longleftrightarrow> w AND f \<noteq> 0"

section \<open>Bit scans\<close>

text \<open>\<open>__builtin_ctz\<close> and \<open>__builtin_popcount\<close>.  For a zero argument \<open>__builtin_ctz\<close> is undefined;
  the model returns the width, and every use proves its argument non-zero.\<close>

definition ctz :: "'a::len word \<Rightarrow> nat" where
  "ctz w = length (takeWhile (\<lambda>i. \<not> bit w i) [0..<LENGTH('a)])"

definition popcount :: "'a::len word \<Rightarrow> nat" where
  "popcount w = length (filter (bit w) [0..<LENGTH('a)])"

lemma takeWhile_upt_least:
  assumes "P k" "k < n" "\<And>i. i < k \<Longrightarrow> \<not> P i"
  shows "takeWhile (\<lambda>i. \<not> P i) [0..<n] = [0..<k]"
proof -
  have "[0..<n] = [0..<k] @ k # [Suc k..<n]"
    using assms(2) upt_add_eq_append [of 0 k "n - k"] upt_conv_Cons [of k n] by simp
  then have "takeWhile (\<lambda>i. \<not> P i) [0..<n] = [0..<k] @ takeWhile (\<lambda>i. \<not> P i) (k # [Suc k..<n])"
    using assms(3) by (metis (no_types, lifting) atLeastLessThan_iff set_upt takeWhile_append2)
  with assms(1) show ?thesis by simp
qed

lemma word_nonzero_bit: "w \<noteq> 0 \<Longrightarrow> \<exists>i < LENGTH('a). bit (w :: 'a::len word) i"
  by (metis bit_0_eq bit_imp_le_length bit_word_eqI bot_apply bot_bool_def)

lemma ctz_least:
  fixes w :: "'a::len word"
  assumes "w \<noteq> 0"
  shows "bit w (ctz w)" "ctz w < LENGTH('a)" "\<And>i. i < ctz w \<Longrightarrow> \<not> bit w i"
proof -
  define k where "k = (LEAST i. bit w i)"
  obtain j where j: "bit w j" "j < LENGTH('a)"
    using word_nonzero_bit [OF assms] by blast
  have k: "bit w k" unfolding k_def using j(1) by (rule LeastI)
  have kl: "k < LENGTH('a)"
    using j unfolding k_def by (metis Least_le le_less_trans)
  have least: "\<And>i. i < k \<Longrightarrow> \<not> bit w i"
    unfolding k_def by (rule not_less_Least)
  have "ctz w = k"
    unfolding ctz_def by (simp add: takeWhile_upt_least [where P = "bit w", OF k kl least])
  with k kl least show "bit w (ctz w)" "ctz w < LENGTH('a)" "\<And>i. i < ctz w \<Longrightarrow> \<not> bit w i"
    by auto
qed


lemma ctz_eqI:
  fixes w :: "'a::len word"
  assumes "bit w k" "\<And>i. i < k \<Longrightarrow> \<not> bit w i"
  shows "ctz w = k"
proof -
  have "k < LENGTH('a)" using assms(1) by (rule bit_imp_le_length)
  with assms show ?thesis
    unfolding ctz_def by (simp add: takeWhile_upt_least [where P = "bit w"])
qed

text \<open>\<open>w &= w - 1\<close> clears exactly the lowest set bit.\<close>

lemma bit_pred_below:
  fixes w :: "'a::len word"
  assumes w: "w = push_bit k (2 * v + 1)" and k: "k < LENGTH('a)"
  shows "w - 1 = push_bit (Suc k) v OR mask k"
proof -
  have "push_bit (Suc k) v AND mask k = 0"
    by (rule bit_word_eqI) (auto simp: bit_simps simp del: push_bit_Suc)
  then have "push_bit (Suc k) v OR mask k = push_bit (Suc k) v + mask k"
    by (simp add: disjunctive_add_eq_or)
  also have "\<dots> = w - 1"
    by (simp add: w push_bit_eq_mult mask_eq_exp_minus_1 algebra_simps)
  finally show ?thesis by simp
qed

lemma clear_lowest:
  fixes w :: "'a::len word"
  assumes "w \<noteq> 0"
  shows "bit (w AND (w - 1)) i \<longleftrightarrow> bit w i \<and> i \<noteq> ctz w"
proof -
  let ?k = "ctz w"
  note l = ctz_least [OF assms]
  define v where "v = drop_bit (Suc ?k) w"
  have "w = push_bit (Suc ?k) v OR 2 ^ ?k"
  proof (rule bit_word_eqI)
    fix i assume "i < LENGTH('a)"
    then show "bit w i \<longleftrightarrow> bit (push_bit (Suc ?k) v OR 2 ^ ?k) i"
      using l by (cases "i < ?k") (auto simp: v_def bit_simps not_less Suc_le_eq simp del: push_bit_Suc)
  qed
  moreover have "push_bit (Suc ?k) v AND 2 ^ ?k = 0"
    by (rule bit_word_eqI) (auto simp: bit_simps simp del: push_bit_Suc)
  ultimately have "w = push_bit (Suc ?k) v + 2 ^ ?k"
    by (simp add: disjunctive_add_eq_or)
  then have w: "w = push_bit ?k (2 * v + 1)"
    by (simp add: push_bit_eq_mult algebra_simps)
  have "bit (w - 1) i \<longleftrightarrow> i < LENGTH('a) \<and> (i < ?k \<or> Suc ?k \<le> i \<and> bit w i)"
    unfolding bit_pred_below [OF w l(2)]
    by (auto simp: v_def bit_simps simp del: push_bit_Suc dest: bit_imp_le_length)
  then show ?thesis
    using l by (auto simp: bit_simps dest: bit_imp_le_length)
qed

section \<open>One-bit masks\<close>

lemma flagged_or [simp]: "flagged (a OR b) f \<longleftrightarrow> flagged a f \<or> flagged b f"
proof -
  have "(a OR b) AND f = (a AND f) OR (b AND f)"
    by (rule bit_word_eqI) (auto simp: bit_simps)
  then show ?thesis by (simp add: flagged_def or_eq_0_iff)
qed

lemma flagged_push_bit:
  "flagged (w :: 'a::len word) (push_bit k 1) \<longleftrightarrow> bit w k"
proof
  assume "flagged w (push_bit k 1)"
  then obtain i where "bit (w AND push_bit k 1) i"
    unfolding flagged_def using word_nonzero_bit by blast
  then show "bit w k" by (auto simp: bit_simps)
next
  assume b: "bit w k"
  then have "bit (w AND push_bit k 1) k"
    by (auto simp: bit_simps dest: bit_imp_le_length)
  then show "flagged w (push_bit k 1)" unfolding flagged_def by auto
qed

lemma flagged_mono: "flagged w f \<Longrightarrow> f AND g = f \<Longrightarrow> flagged w g"
proof -
  assume "flagged w f" "f AND g = f"
  then obtain i where "bit (w AND f) i"
    unfolding flagged_def using word_nonzero_bit by blast
  moreover from \<open>f AND g = f\<close> this have "bit g i"
    by (metis bit_and_iff)
  ultimately have "bit (w AND g) i" by (simp add: bit_simps)
  then show "flagged w g" unfolding flagged_def by auto
qed

end
