(* ===== verification/Libc.thy ===== *)
theory Libc
  imports Ntapi_Prelude
begin

text \<open>
  The part of libc that the programs rely on: bounded byte copies (\<open>memcpy\<close>, with an
  out-of-range copy as the failure \<open>None\<close>), the integer conversions of \<open>printf\<close> and the
  truncation rule of \<open>snprintf\<close>, and \<open>strtol\<close>/\<open>strtoull\<close> with their end pointer and range
  error.  C strings are Isabelle strings without the terminating NUL.
\<close>

section \<open>memcpy\<close>

definition memcpy :: "'a list \<Rightarrow> nat \<Rightarrow> 'a list \<Rightarrow> nat \<Rightarrow> nat \<Rightarrow> 'a list option" where
  "memcpy dst d src s n =
     (if d + n \<le> length dst \<and> s + n \<le> length src
      then Some (take d dst @ take n (drop s src) @ drop (d + n) dst) else None)"

lemma memcpy_length: "memcpy dst d src s n = Some r \<Longrightarrow> length r = length dst"
  by (auto simp: memcpy_def split: if_splits)

lemma memcpy_SomeD:
  "memcpy dst d src s n = Some r \<Longrightarrow>
     d + n \<le> length dst \<and> s + n \<le> length src \<and> length r = length dst"
  by (auto simp: memcpy_def split: if_splits)

text \<open>Copying into one slot of a buffer that is given as its consecutive slots.\<close>

lemma memcpy_slot1:
  "\<lbrakk>n = length A; s + n \<le> length src\<rbrakk> \<Longrightarrow> memcpy (A @ X) 0 src s n = Some (take n (drop s src) @ X)"
  by (simp add: memcpy_def)

lemma memcpy_slot2:
  "\<lbrakk>d = length A; n = length B; s + n \<le> length src\<rbrakk> \<Longrightarrow>
     memcpy (A @ B @ X) d src s n = Some (A @ take n (drop s src) @ X)"
  by (simp add: memcpy_def)

lemma memcpy_slot3:
  "\<lbrakk>d = length A + length B; n = length C; s + n \<le> length src\<rbrakk> \<Longrightarrow>
     memcpy (A @ B @ C @ X) d src s n = Some (A @ B @ take n (drop s src) @ X)"
  using memcpy_slot2 [of d "A @ B" n C s src X] by simp

lemma memcpy_slot4:
  "\<lbrakk>d = length A + length B + length C; n = length D; s + n \<le> length src\<rbrakk> \<Longrightarrow>
     memcpy (A @ B @ C @ D @ X) d src s n = Some (A @ B @ C @ take n (drop s src) @ X)"
  using memcpy_slot2 [of d "A @ B @ C" n D s src X] by simp

lemmas memcpy_slots = memcpy_slot1 memcpy_slot2 memcpy_slot3 memcpy_slot4

lemma list_four_slots:
  assumes "la + lb + lc + ld \<le> length xs"
  obtains A B C D where "xs = A @ B @ C @ D @ drop (la + lb + lc + ld) xs"
    "length A = la" "length B = lb" "length C = lc" "length D = ld"
proof
  let ?A = "take la xs" and ?B = "take lb (drop la xs)" and ?C = "take lc (drop (la + lb) xs)"
    and ?D = "take ld (drop (la + lb + lc) xs)"
  show "xs = ?A @ ?B @ ?C @ ?D @ drop (la + lb + lc + ld) xs"
    by (metis add.commute append_take_drop_id drop_drop)
  show "length ?A = la" "length ?B = lb" "length ?C = lc" "length ?D = ld"
    using assms by simp_all
qed

lemma memcpy_Some_iff:
  "(\<exists>r. memcpy dst d src s n = Some r) \<longleftrightarrow> d + n \<le> length dst \<and> s + n \<le> length src"
  by (auto simp: memcpy_def)

lemma memcpy_nth:
  assumes "memcpy dst d src s n = Some r" "i < length dst"
  shows "r ! i = (if d \<le> i \<and> i < d + n then src ! (s + (i - d)) else dst ! i)"
proof -
  have b: "d + n \<le> length dst" "s + n \<le> length src"
    and r: "r = take d dst @ take n (drop s src) @ drop (d + n) dst"
    using assms(1) by (auto simp: memcpy_def split: if_splits)
  have "length (take n (drop s src)) = n" "length (take d dst) = d" using b by auto
  with b assms(2) show ?thesis unfolding r by (simp add: nth_append) linarith
qed

section \<open>printf conversions\<close>

definition digit_char :: "nat \<Rightarrow> char" where
  "digit_char d = char_of (if d < 10 then 48 + d else 55 + d)"

fun show_base :: "nat \<Rightarrow> nat \<Rightarrow> string" where
  "show_base b n = (if b < 2 \<or> n < b then [digit_char n]
                    else show_base b (n div b) @ [digit_char (n mod b)])"

declare show_base.simps [simp del]

text \<open>\<open>%u\<close>, \<open>%lu\<close>; \<open>%d\<close>; \<open>%X\<close>; and zero padding as in \<open>%05X\<close>.\<close>

definition show_dec :: "nat \<Rightarrow> string" where
  "show_dec n = show_base 10 n"

definition show_int :: "int \<Rightarrow> string" where
  "show_int i = (if i < 0 then ''-'' @ show_dec (nat (- i)) else show_dec (nat i))"

definition show_hex :: "nat \<Rightarrow> string" where
  "show_hex n = show_base 16 n"

text \<open>The lower-case digits of \<open>%x\<close>.\<close>

definition lower_hex :: "char \<Rightarrow> char" where
  "lower_hex c = (let n = of_char c :: nat in if 65 \<le> n \<and> n \<le> 90 then char_of (n + 32) else c)"

definition pad_left :: "char \<Rightarrow> nat \<Rightarrow> string \<Rightarrow> string" where
  "pad_left c w s = replicate (w - length s) c @ s"

definition pad_right :: "char \<Rightarrow> nat \<Rightarrow> string \<Rightarrow> string" where
  "pad_right c w s = s @ replicate (w - length s) c"

text \<open>\<open>snprintf(str, sz, ...)\<close>: what lands in the buffer before the NUL, and the returned length.\<close>

definition snprintf :: "nat \<Rightarrow> string \<Rightarrow> string \<times> nat" where
  "snprintf sz s = (take (sz - 1) s, length s)"

lemma snprintf_fits: "length s < sz \<Longrightarrow> snprintf sz s = (s, length s)"
  by (simp add: snprintf_def)

text \<open>
  The idiom \<open>ret = snprintf(str, sz, ...); if (ret >= sz) return tot + ret; str += ret;
  sz -= ret; tot += ret;\<close> repeated over a sequence of fields: the bytes in the buffer and the
  returned total.
\<close>

fun snprintf_seq :: "nat \<Rightarrow> nat \<Rightarrow> string \<Rightarrow> string list \<Rightarrow> string \<times> nat" where
  "snprintf_seq sz tot buf [] = (buf, tot)"
| "snprintf_seq sz tot buf (f # fs) =
     (let (out, ret) = snprintf sz f in
      if sz \<le> ret then (buf @ out, tot + ret)
      else snprintf_seq (sz - ret) (tot + ret) (buf @ out) fs)"

text \<open>The buffer always ends up with the longest prefix of the concatenated fields that fits, and
  the return value tells a truncation.\<close>

lemma snprintf_seq_buffer:
  "0 < sz \<Longrightarrow> fst (snprintf_seq sz tot buf fs) = buf @ take (sz - 1) (concat fs)"
  by (induction sz tot buf fs rule: snprintf_seq.induct) (auto simp: snprintf_def Let_def)

lemma snprintf_seq_total:
  "0 < sz \<Longrightarrow> tot \<le> snd (snprintf_seq sz tot buf fs)
     \<and> snd (snprintf_seq sz tot buf fs) \<le> tot + length (concat fs)
     \<and> (length (concat fs) < sz \<longrightarrow> snd (snprintf_seq sz tot buf fs) = tot + length (concat fs))
     \<and> (sz \<le> length (concat fs) \<longrightarrow> tot + sz \<le> snd (snprintf_seq sz tot buf fs))"
proof (induction sz tot buf fs rule: snprintf_seq.induct)
  case (1 sz tot buf)
  then show ?case by simp
next
  case (2 sz tot buf f fs)
  show ?case
  proof (cases "sz \<le> length f")
    case True
    then show ?thesis by (auto simp: snprintf_def)
  next
    case False
    with "2.IH" [of "snprintf sz f" "take (sz - 1) f" "length f"] have
      "tot + length f \<le> snd (snprintf_seq (sz - length f) (tot + length f) (buf @ f) fs)"
      "snd (snprintf_seq (sz - length f) (tot + length f) (buf @ f) fs)
         \<le> tot + length f + length (concat fs)"
      "length (concat fs) < sz - length f \<Longrightarrow>
         snd (snprintf_seq (sz - length f) (tot + length f) (buf @ f) fs) = tot + length f + length (concat fs)"
      "sz - length f \<le> length (concat fs) \<Longrightarrow>
         tot + length f + (sz - length f) \<le> snd (snprintf_seq (sz - length f) (tot + length f) (buf @ f) fs)"
      by (auto simp: snprintf_def)
    with False show ?thesis by (auto simp: snprintf_def Let_def)
  qed
qed

section \<open>strtol and strtoull\<close>

definition is_space :: "char \<Rightarrow> bool" where
  "is_space c \<longleftrightarrow> (let n = of_char c :: nat in n = 32 \<or> 9 \<le> n \<and> n \<le> 13)"

definition digit_val :: "char \<Rightarrow> nat option" where
  "digit_val c = (let n = of_char c :: nat in
     if 48 \<le> n \<and> n \<le> 57 then Some (n - 48)
     else if 97 \<le> n \<and> n \<le> 122 then Some (n - 87)
     else if 65 \<le> n \<and> n \<le> 90 then Some (n - 55)
     else None)"

fun scan_digits :: "nat \<Rightarrow> nat \<Rightarrow> string \<Rightarrow> nat \<times> string" where
  "scan_digits b acc [] = (acc, [])"
| "scan_digits b acc (c # cs) =
     (case digit_val c of
        Some d \<Rightarrow> if d < b then scan_digits b (acc * b + d) cs else (acc, c # cs)
      | None \<Rightarrow> (acc, c # cs))"

definition starts_digit :: "nat \<Rightarrow> string \<Rightarrow> bool" where
  "starts_digit b s = (case s of [] \<Rightarrow> False
     | c # _ \<Rightarrow> (case digit_val c of Some d \<Rightarrow> d < b | None \<Rightarrow> False))"

text \<open>Base prefix: with base 0 a \<open>0x\<close> that is followed by a hexadecimal digit selects base 16,
  a leading 0 base 8, anything else base 10.\<close>

definition strip_base :: "nat \<Rightarrow> string \<Rightarrow> nat \<times> string" where
  "strip_base b s =
     (if (b = 0 \<or> b = 16) \<and> (take 2 s = ''0x'' \<or> take 2 s = ''0X'') \<and> starts_digit 16 (drop 2 s)
      then (16, drop 2 s)
      else if b = 0 then (if take 1 s = ''0'' then (8, s) else (10, s))
      else (b, s))"

text \<open>Sign, magnitude and rest of the subject sequence; \<open>None\<close> when there is no number.\<close>

definition scan_number :: "nat \<Rightarrow> string \<Rightarrow> (bool \<times> nat \<times> string) option" where
  "scan_number b s =
     (let s1 = dropWhile is_space s;
          neg = (take 1 s1 = ''-'');
          s2 = (if neg \<or> take 1 s1 = ''+'' then drop 1 s1 else s1);
          (b', s3) = strip_base b s2
      in if starts_digit b' s3
         then (let (m, rest) = scan_digits b' 0 s3 in Some (neg, m, rest))
         else None)"

record strto_result =
  st_value :: int
  st_end :: string
  st_erange :: bool

definition strtol :: "nat \<Rightarrow> string \<Rightarrow> strto_result" where
  "strtol b s =
     (case scan_number b s of
        None \<Rightarrow> \<lparr>st_value = 0, st_end = s, st_erange = False\<rparr>
      | Some (neg, m, rest) \<Rightarrow>
          (let v = (if neg then - int m else int m) in
           if v > 2 ^ 63 - 1 then \<lparr>st_value = 2 ^ 63 - 1, st_end = rest, st_erange = True\<rparr>
           else if v < - (2 ^ 63) then \<lparr>st_value = - (2 ^ 63), st_end = rest, st_erange = True\<rparr>
           else \<lparr>st_value = v, st_end = rest, st_erange = False\<rparr>))"

definition strtoull :: "nat \<Rightarrow> string \<Rightarrow> strto_result" where
  "strtoull b s =
     (case scan_number b s of
        None \<Rightarrow> \<lparr>st_value = 0, st_end = s, st_erange = False\<rparr>
      | Some (neg, m, rest) \<Rightarrow>
          if m > 2 ^ 64 - 1 then \<lparr>st_value = 2 ^ 64 - 1, st_end = rest, st_erange = True\<rparr>
          else \<lparr>st_value = (if neg then (- int m) mod 2 ^ 64 else int m),
                st_end = rest, st_erange = False\<rparr>)"

section \<open>Reading back what printf prints\<close>

lemma digit_val_digit_char:
  assumes "d < 16" shows "digit_val (digit_char d) = Some d"
  using assms by (auto simp: digit_val_def digit_char_def Let_def take_bit_eq_mod)

lemma scan_digits_append:
  assumes "\<And>c. c \<in> set ds \<Longrightarrow> \<exists>d < b. digit_val c = Some d"
  shows "scan_digits b acc (ds @ s) = scan_digits b (fst (scan_digits b acc ds)) s"
  using assms
proof (induction ds arbitrary: acc)
  case Nil
  then show ?case by simp
next
  case (Cons c ds)
  from Cons.prems [of c] obtain d where "d < b" "digit_val c = Some d" by auto
  with Cons.IH Cons.prems show ?case by simp
qed

lemma show_base_digits:
  assumes "2 \<le> b" "b \<le> 16" "c \<in> set (show_base b n)"
  shows "\<exists>d < b. digit_val c = Some d"
  using assms
proof (induction b n rule: show_base.induct)
  case (1 b n)
  show ?case
  proof (cases "n < b")
    case True
    with 1 show ?thesis by (simp add: show_base.simps [of b n] digit_val_digit_char)
  next
    case False
    then have "c \<in> set (show_base b (n div b)) \<or> c = digit_char (n mod b)"
      using "1.prems" by (auto simp: show_base.simps [of b n])
    moreover have "n mod b < b" using 1 by simp
    moreover have "digit_val (digit_char (n mod b)) = Some (n mod b)"
      using \<open>n mod b < b\<close> "1.prems"(2) by (simp add: digit_val_digit_char)
    moreover have "c \<in> set (show_base b (n div b)) \<Longrightarrow> \<exists>d < b. digit_val c = Some d"
      using 1 False by simp
    ultimately show ?thesis by blast
  qed
qed

lemma scan_show_base:
  assumes "2 \<le> b" "b \<le> 16"
  shows "fst (scan_digits b 0 (show_base b n)) = n"
  using assms
proof (induction b n rule: show_base.induct)
  case (1 b n)
  show ?case
  proof (cases "n < b")
    case True
    with 1 show ?thesis by (simp add: show_base.simps [of b n] digit_val_digit_char)
  next
    case False
    have m: "n mod b < b" using 1 by simp
    have "scan_digits b 0 (show_base b (n div b) @ [digit_char (n mod b)])
          = scan_digits b (n div b) [digit_char (n mod b)]"
      using 1 False by (subst scan_digits_append) (auto simp: show_base_digits)
    moreover have "digit_val (digit_char (n mod b)) = Some (n mod b)"
      using m "1.prems"(2) by (simp add: digit_val_digit_char)
    ultimately show ?thesis
      using 1 False m by (simp add: show_base.simps [of b n])
  qed
qed

lemma length_show_base: "2 \<le> b \<Longrightarrow> n < b ^ k \<Longrightarrow> 0 < k \<Longrightarrow> length (show_base b n) \<le> k"
proof (induction k arbitrary: n)
  case (Suc k)
  show ?case
  proof (cases "n < b")
    case False
    then have "k \<noteq> 0" using Suc.prems by (cases k) auto
    moreover have "n div b < b ^ k" using Suc.prems by (simp add: less_mult_imp_div_less mult.commute)
    ultimately have "length (show_base b (n div b)) \<le> k" using Suc by simp
    with False show ?thesis by (subst show_base.simps) simp
  qed (subst show_base.simps, simp)
qed simp

lemma show_base_nonempty: "show_base b n \<noteq> []"
  by (subst show_base.simps) simp

lemma digit_not_special:
  assumes "digit_val c = Some d"
  shows "\<not> is_space c" "c \<noteq> CHR ''-''" "c \<noteq> CHR ''+''" "c \<noteq> CHR ''.''"
proof -
  have "\<not> is_space c" "digit_val (CHR ''-'') = None" "digit_val (CHR ''+'') = None" "digit_val (CHR ''.'') = None"
    using assms by (auto simp: digit_val_def is_space_def Let_def split: if_splits)
  with assms show "\<not> is_space c" "c \<noteq> CHR ''-''" "c \<noteq> CHR ''+''" "c \<noteq> CHR ''.''" by auto
qed

lemma snd_scan_digits:
  "(\<And>c. c \<in> set ds \<Longrightarrow> \<exists>d < b. digit_val c = Some d) \<Longrightarrow> snd (scan_digits b acc ds) = []"
proof (induction ds arbitrary: acc)
  case (Cons c ds)
  from Cons.prems [of c] obtain d where "d < b" "digit_val c = Some d" by auto
  with Cons.IH Cons.prems show ?case by simp
qed simp

lemma show_dec_digits: "c \<in> set (show_dec n) \<Longrightarrow> \<exists>d < 10. digit_val c = Some d"
  unfolding show_dec_def by (rule show_base_digits) auto

lemma scan_number_dec: "scan_number 10 (show_dec n) = Some (False, n, [])"
proof -
  obtain c cs where s: "show_dec n = c # cs"
    unfolding show_dec_def using show_base_nonempty by (cases "show_base 10 n") auto
  then obtain d where d: "d < 10" "digit_val c = Some d" using show_dec_digits [of c n] by auto
  note c = digit_not_special [OF d(2)]
  have "scan_digits 10 0 (show_dec n) = (n, [])"
    using scan_show_base [of 10 n] snd_scan_digits [of "show_dec n" 10 0] show_dec_digits [of _ n]
    by (simp add: show_dec_def prod_eq_iff)
  with d c show ?thesis
    by (simp add: scan_number_def s strip_base_def starts_digit_def Let_def)
qed

lemma strtol_show_dec: "n < 2 ^ 63 \<Longrightarrow> strtol 10 (show_dec n) = \<lparr>st_value = int n, st_end = [], st_erange = False\<rparr>"
  by (simp add: strtol_def scan_number_dec)

text \<open>\<open>strstr\<close> and \<open>std::string::find\<close>: where the pattern occurs first.\<close>

fun find_sub :: "string \<Rightarrow> string \<Rightarrow> nat option" where
  "find_sub pat [] = (if pat = [] then Some 0 else None)"
| "find_sub pat (c # cs) = (if take (length pat) (c # cs) = pat then Some 0 else map_option Suc (find_sub pat cs))"

end
