(* ===== verification/Flow_Key.thy ===== *)
theory Flow_Key
  imports Libc "HOL-Library.Monad_Syntax"
begin

text \<open>
  \<open>ntnetflow/flowkey.h\<close>: the colour bits that the NTPL filters attach to a packet and the
  flow key that is cut out of its layer 3 and layer 4 headers.  The key of a packet seen on
  the downstream port is built with addresses and ports exchanged, so that both directions of
  a connection share one entry of the flow table.
\<close>

section \<open>Colours and key sizes\<close>

definition FLOW_COLOR_TYPE_MASK :: "'a::len word" where "FLOW_COLOR_TYPE_MASK = 0xff"
definition FLOW_COLOR_DOWNSTREAM :: "'a::len word" where "FLOW_COLOR_DOWNSTREAM = push_bit 0 1"
definition FLOW_COLOR_IPV6 :: "'a::len word" where "FLOW_COLOR_IPV6 = push_bit 1 1"
definition FLOW_COLOR_TCP :: "'a::len word" where "FLOW_COLOR_TCP = push_bit 2 1"
definition FLOW_COLOR_MONITOR :: "'a::len word" where "FLOW_COLOR_MONITOR = push_bit 3 1"
definition FLOW_COLOR_MISS :: "'a::len word" where "FLOW_COLOR_MISS = push_bit 9 1"
definition FLOW_COLOR_UNHANDLED :: "'a::len word" where "FLOW_COLOR_UNHANDLED = push_bit 10 1"
definition FLOW_COLOR_OTHER :: "'a::len word" where "FLOW_COLOR_OTHER = push_bit 11 1"

lemmas flow_color_defs =
  FLOW_COLOR_TYPE_MASK_def FLOW_COLOR_DOWNSTREAM_def FLOW_COLOR_IPV6_def FLOW_COLOR_TCP_def
  FLOW_COLOR_MONITOR_def FLOW_COLOR_MISS_def FLOW_COLOR_UNHANDLED_def FLOW_COLOR_OTHER_def

definition FLOW_MAX_KEY_LEN :: nat where "FLOW_MAX_KEY_LEN = 40"
definition FLOW_IPV4_KEY_LEN :: nat where "FLOW_IPV4_KEY_LEN = 12"
definition FLOW_IPV6_KEY_LEN :: nat where "FLOW_IPV6_KEY_LEN = 36"

definition FLOW_KEY_ID_IPV4 :: nat where "FLOW_KEY_ID_IPV4 = 1"
definition FLOW_KEY_ID_IPV6 :: nat where "FLOW_KEY_ID_IPV6 = 2"
definition FLOW_KEYSET_ID_BYPASS :: nat where "FLOW_KEYSET_ID_BYPASS = 3"
definition FLOW_KEYSET_ID_MONITOR :: nat where "FLOW_KEYSET_ID_MONITOR = 4"

lemmas flow_len_defs = FLOW_MAX_KEY_LEN_def FLOW_IPV4_KEY_LEN_def FLOW_IPV6_KEY_LEN_def

text \<open>The number of key bytes that the code copies and compares for a colour.\<close>

definition key_len :: "'a::len word \<Rightarrow> nat" where
  "key_len color = (if flagged color FLOW_COLOR_IPV6 then FLOW_IPV6_KEY_LEN else FLOW_IPV4_KEY_LEN)"

lemma key_len_le: "key_len color \<le> FLOW_MAX_KEY_LEN"
  by (simp add: key_len_def flow_len_defs)

section \<open>Building the key\<close>

definition fk_create :: "u8 list \<Rightarrow> u8 list \<Rightarrow> u8 list \<Rightarrow> u8 \<Rightarrow> u8 list option" where
  "fk_create dst l3 l4 src_color =
     (let downstream = flagged src_color FLOW_COLOR_DOWNSTREAM in
      if flagged src_color FLOW_COLOR_IPV6 then do {
        dst \<leftarrow> memcpy dst (if downstream then 16 else 0) l3 8 16;
        dst \<leftarrow> memcpy dst (if downstream then 0 else 16) l3 24 16;
        dst \<leftarrow> memcpy dst (if downstream then 34 else 32) l4 0 2;
        memcpy dst (if downstream then 32 else 34) l4 2 2
      } else do {
        dst \<leftarrow> memcpy dst (if downstream then 4 else 0) l3 12 4;
        dst \<leftarrow> memcpy dst (if downstream then 0 else 4) l3 16 4;
        dst \<leftarrow> memcpy dst (if downstream then 10 else 8) l4 0 2;
        memcpy dst (if downstream then 8 else 10) l4 2 2
      })"

definition fk_key_id :: "u8 \<Rightarrow> nat" where
  "fk_key_id color = (if flagged color FLOW_COLOR_IPV6 then FLOW_KEY_ID_IPV6 else FLOW_KEY_ID_IPV4)"

definition fk_proto :: "u8 \<Rightarrow> u8" where
  "fk_proto color = (if flagged color FLOW_COLOR_TCP then 0x06 else 0x11)"

section \<open>The flow a packet belongs to\<close>

text \<open>
  The specification: the flow of a packet is the quadruple of upstream address, downstream
  address, upstream port and downstream port.  A packet that arrives downstream carries the
  upstream side as its destination.
\<close>

definition l3_addrs :: "u8 \<Rightarrow> u8 list \<Rightarrow> u8 list \<times> u8 list" where
  "l3_addrs color l3 =
     (if flagged color FLOW_COLOR_IPV6 then (take 16 (drop 8 l3), take 16 (drop 24 l3))
      else (take 4 (drop 12 l3), take 4 (drop 16 l3)))"

definition flow_of :: "u8 \<Rightarrow> u8 list \<Rightarrow> u8 list \<Rightarrow> u8 list \<times> u8 list \<times> u8 list \<times> u8 list" where
  "flow_of color l3 l4 =
     (let (src, dst) = l3_addrs color l3; sport = take 2 l4; dport = take 2 (drop 2 l4)
      in if flagged color FLOW_COLOR_DOWNSTREAM then (dst, src, dport, sport)
         else (src, dst, sport, dport))"

definition l3_need :: "u8 \<Rightarrow> nat" where
  "l3_need color = (if flagged color FLOW_COLOR_IPV6 then 40 else 20)"

text \<open>\<open>fk_create\<close> lays the four parts out back to back and leaves the rest of the buffer alone.\<close>

lemma fk_create_layout:
  assumes "key_len color \<le> length dst" "l3_need color \<le> length l3" "4 \<le> length l4"
    and "flow_of color l3 l4 = (a, b, p, q)"
  shows "fk_create dst l3 l4 color = Some (a @ b @ p @ q @ drop (key_len color) dst)"
proof -
  let ?v6 = "flagged color FLOW_COLOR_IPV6"
  let ?n = "if ?v6 then 16 else 4 :: nat"
  have kl: "key_len color = ?n + ?n + 2 + 2" by (simp add: key_len_def flow_len_defs)
  obtain A B P Q where dst: "dst = A @ B @ P @ Q @ drop (key_len color) dst"
    and l: "length A = ?n" "length B = ?n" "length P = 2" "length Q = 2"
    using list_four_slots [of ?n ?n 2 2 dst] assms(1) unfolding kl by metis
  have "fk_create (A @ B @ P @ Q @ R) l3 l4 color = Some (a @ b @ p @ q @ R)" for R
    using assms(2-4) l
    by (cases ?v6; cases "flagged color FLOW_COLOR_DOWNSTREAM")
      (auto simp: fk_create_def flow_of_def l3_addrs_def l3_need_def memcpy_slots)
  then show ?thesis by (subst dst)
qed

lemma fk_create_defined:
  "(\<exists>k. fk_create dst l3 l4 color = Some k) \<longleftrightarrow>
     key_len color \<le> length dst \<and> l3_need color \<le> length l3 \<and> 4 \<le> length l4"
proof
  assume "\<exists>k. fk_create dst l3 l4 color = Some k"
  then show "key_len color \<le> length dst \<and> l3_need color \<le> length l3 \<and> 4 \<le> length l4"
    by (cases "flagged color FLOW_COLOR_IPV6"; cases "flagged color FLOW_COLOR_DOWNSTREAM")
      (auto simp: fk_create_def l3_need_def key_len_def flow_len_defs bind_eq_Some_conv
        dest!: memcpy_SomeD)
next
  assume "key_len color \<le> length dst \<and> l3_need color \<le> length l3 \<and> 4 \<le> length l4"
  then show "\<exists>k. fk_create dst l3 l4 color = Some k"
    using fk_create_layout by (metis prod_cases4)
qed

lemma flow_of_lengths:
  assumes "l3_need color \<le> length l3" "4 \<le> length l4" "flow_of color l3 l4 = (a, b, p, q)"
  shows "length a + length b + length p + length q = key_len color"
    "length a = (if flagged color FLOW_COLOR_IPV6 then 16 else 4)" "length b = length a"
    "length p = 2" "length q = 2"
  using assms
  by (auto simp: flow_of_def l3_addrs_def l3_need_def key_len_def flow_len_defs Let_def
      split: if_splits)

lemma fk_create_take:
  assumes "fk_create dst l3 l4 color = Some k" "flow_of color l3 l4 = (a, b, p, q)"
  shows "take (key_len color) k = a @ b @ p @ q" "length k = length dst"
proof -
  have n: "key_len color \<le> length dst" "l3_need color \<le> length l3" "4 \<le> length l4"
    using assms(1) fk_create_defined by blast+
  have k: "k = (a @ b @ p @ q) @ drop (key_len color) dst"
    using fk_create_layout [OF n assms(2)] assms(1) by simp
  have len: "length (a @ b @ p @ q) = key_len color"
    using flow_of_lengths(1) [OF n(2,3) assms(2)] by simp
  show "take (key_len color) k = a @ b @ p @ q"
    unfolding k using len by simp
  show "length k = length dst"
    unfolding k using len n(1) by simp
qed

text \<open>C1: Two packets of the same IP version get the same key bytes exactly if they belong to the
  same flow, whichever of the two ports each of them was seen on: the key merges the two
  directions of a connection and keeps different connections apart.\<close>

theorem fk_create_same_flow:
  assumes "fk_create d1 l3 l4 c = Some k1" "fk_create d2 l3' l4' c' = Some k2"
    and "flagged c FLOW_COLOR_IPV6 \<longleftrightarrow> flagged c' FLOW_COLOR_IPV6"
  shows "take (key_len c) k1 = take (key_len c') k2 \<longleftrightarrow> flow_of c l3 l4 = flow_of c' l3' l4'"
proof -
  obtain a b p q where f: "flow_of c l3 l4 = (a, b, p, q)" by (metis prod_cases4)
  obtain a' b' p' q' where f': "flow_of c' l3' l4' = (a', b', p', q')" by (metis prod_cases4)
  have n: "l3_need c \<le> length l3" "4 \<le> length l4" "l3_need c' \<le> length l3'" "4 \<le> length l4'"
    using assms(1,2) fk_create_defined by blast+
  note len = flow_of_lengths(2-5) [OF n(1,2) f] flow_of_lengths(2-5) [OF n(3,4) f']
  have "a @ b @ p @ q = a' @ b' @ p' @ q' \<longleftrightarrow> a = a' \<and> b = b' \<and> p = p' \<and> q = q'"
    using len assms(3) by (simp add: append_eq_append_conv)
  then show ?thesis
    using fk_create_take(1) [OF assms(1) f] fk_create_take(1) [OF assms(2) f'] f f' by simp
qed

theorem fk_create_same_flow_witness:
  "let up = replicate 12 0 @ [10, 0, 0, 1, 10, 0, 0, 2]; down = replicate 12 0 @ [10, 0, 0, 2, 10, 0, 0, 1];
       ku = the (fk_create (replicate 40 0) up [0, 80, 4, 1] 4);
       kd = the (fk_create (replicate 40 0) down [4, 1, 0, 80] 5)
   in take (key_len (4 :: u8)) ku = take (key_len (5 :: u8)) kd"
proof -
  let ?up = "replicate 12 0 @ [10, 0, 0, 1, 10, 0, 0, 2] :: u8 list"
  let ?down = "replicate 12 0 @ [10, 0, 0, 2, 10, 0, 0, 1] :: u8 list"
  have u: "fk_create (replicate 40 0) ?up [0, 80, 4, 1] 4
           = Some (the (fk_create (replicate 40 0) ?up [0, 80, 4, 1] 4))"
    by (simp add: fk_create_def memcpy_def flagged_def flow_color_defs numeral_eq_Suc)
  have d: "fk_create (replicate 40 0) ?down [4, 1, 0, 80] 5
           = Some (the (fk_create (replicate 40 0) ?down [4, 1, 0, 80] 5))"
    by (simp add: fk_create_def memcpy_def flagged_def flow_color_defs numeral_eq_Suc)
  have v: "flagged (4 :: u8) FLOW_COLOR_IPV6 \<longleftrightarrow> flagged (5 :: u8) FLOW_COLOR_IPV6"
    by (simp add: flagged_def flow_color_defs)
  have "flow_of 4 ?up [0, 80, 4, 1] = flow_of 5 ?down [4, 1, 0, 80]"
    by (simp add: flow_of_def l3_addrs_def flagged_def flow_color_defs numeral_eq_Suc)
  with fk_create_same_flow [OF u d v] show ?thesis by (simp add: Let_def)
qed

end
