(* ===== verification/Flow_Info.thy ===== *)
theory Flow_Info
  imports Ntapi_Prelude
begin

text \<open>
  \<open>ntnetflow/flowinfo.c\<close>: the per-flow counters of the two directions and the two time stamps
  from which the flow learner decides whether a flow is still active.  The mutex of the C
  structure makes each function atomic and is not represented.
\<close>

record flow_info_stream =
  fis_packets :: u64
  fis_octets :: u64
  fis_flags :: u16

record flow_info =
  fi_stream :: "flow_info_stream list"
  fi_ts :: u64
  fi_last_ts :: u64

text \<open>The fields of NTAPI's \<open>struct NtFlowInfo_s\<close> that the program reads.\<close>

record nt_flow_info =
  nfi_id :: u64
  nfi_cause :: nat
  nfi_ts :: u64
  nfi_packetsA :: u64
  nfi_octetsA :: u64
  nfi_flagsA :: u16
  nfi_packetsB :: u64
  nfi_octetsB :: u64
  nfi_flagsB :: u16

definition zero_stream :: flow_info_stream where
  "zero_stream = \<lparr>fis_packets = 0, fis_octets = 0, fis_flags = 0\<rparr>"

definition fi_init :: flow_info where
  "fi_init = \<lparr>fi_stream = [zero_stream, zero_stream], fi_ts = 0, fi_last_ts = 0\<rparr>"

definition fi_increment_stream ::
    "flow_info_stream \<Rightarrow> u64 \<Rightarrow> u64 \<Rightarrow> u16 \<Rightarrow> flow_info_stream" where
  "fi_increment_stream stream packets octets flags =
     stream\<lparr>fis_packets := fis_packets stream + packets,
            fis_octets := fis_octets stream + octets,
            fis_flags := fis_flags stream OR flags\<rparr>"

definition fi_update :: "flow_info \<Rightarrow> nt_flow_info \<Rightarrow> bool \<times> flow_info" where
  "fi_update info oth =
     (let s0 = fi_increment_stream (fi_stream info ! 0) (nfi_packetsA oth) (nfi_octetsA oth) (nfi_flagsA oth);
          s1 = fi_increment_stream (fi_stream info ! 1) (nfi_packetsB oth) (nfi_octetsB oth) (nfi_flagsB oth);
          changed = (fi_last_ts info \<noteq> nfi_ts oth)
      in (changed, info\<lparr>fi_stream := (fi_stream info)[0 := s0, 1 := s1],
                        fi_last_ts := fi_ts info, fi_ts := nfi_ts oth\<rparr>))"

definition fi_increment :: "flow_info \<Rightarrow> u16 \<Rightarrow> u64 \<Rightarrow> bool \<Rightarrow> bool \<times> flow_info" where
  "fi_increment info flags ts downstream =
     (let i = (if downstream then 1 else 0);
          s = fi_increment_stream (fi_stream info ! i) 1 1 flags;
          changed = (fi_last_ts info \<noteq> ts)
      in (changed, info\<lparr>fi_stream := (fi_stream info)[i := s],
                        fi_last_ts := fi_ts info, fi_ts := ts\<rparr>))"

section \<open>Counters\<close>

definition fi_ok :: "flow_info \<Rightarrow> bool" where
  "fi_ok info \<longleftrightarrow> length (fi_stream info) = 2"

lemma fi_ok_init [simp]: "fi_ok fi_init"
  by (simp add: fi_ok_def fi_init_def)

lemma fi_ok_update [simp]: "fi_ok (snd (fi_update info oth)) \<longleftrightarrow> fi_ok info"
  by (simp add: fi_ok_def fi_update_def Let_def)

lemma fi_ok_increment [simp]: "fi_ok (snd (fi_increment info f t d)) \<longleftrightarrow> fi_ok info"
  by (simp add: fi_ok_def fi_increment_def Let_def)

text \<open>What happens to a flow: packets that reach software and records read from the adapter.\<close>

datatype fi_event = Packet u16 u64 bool | Record nt_flow_info

fun fi_step :: "flow_info \<Rightarrow> fi_event \<Rightarrow> flow_info" where
  "fi_step info (Packet flags ts downstream) = snd (fi_increment info flags ts downstream)"
| "fi_step info (Record r) = snd (fi_update info r)"

fun ev_packets :: "bool \<Rightarrow> fi_event \<Rightarrow> u64" where
  "ev_packets downstream (Packet _ _ d) = (if d = downstream then 1 else 0)"
| "ev_packets downstream (Record r) = (if downstream then nfi_packetsB r else nfi_packetsA r)"

fun ev_octets :: "bool \<Rightarrow> fi_event \<Rightarrow> u64" where
  "ev_octets downstream (Packet _ _ d) = (if d = downstream then 1 else 0)"
| "ev_octets downstream (Record r) = (if downstream then nfi_octetsB r else nfi_octetsA r)"

fun ev_flags :: "bool \<Rightarrow> fi_event \<Rightarrow> u16" where
  "ev_flags downstream (Packet f _ d) = (if d = downstream then f else 0)"
| "ev_flags downstream (Record r) = (if downstream then nfi_flagsB r else nfi_flagsA r)"

definition dir_stream :: "flow_info \<Rightarrow> bool \<Rightarrow> flow_info_stream" where
  "dir_stream info downstream = fi_stream info ! (if downstream then 1 else 0)"

lemma fi_step_ok [simp]: "fi_ok (fi_step info e) \<longleftrightarrow> fi_ok info"
  by (cases e) simp_all

lemma fi_step_stream:
  "fi_ok info \<Longrightarrow> dir_stream (fi_step info e) d =
     fi_increment_stream (dir_stream info d) (ev_packets d e) (ev_octets d e) (ev_flags d e)"
  by (cases e; cases d)
    (auto simp: fi_ok_def fi_update_def fi_increment_def dir_stream_def Let_def
      fi_increment_stream_def nth_list_update)

lemma fi_run_stream:
  "fi_ok info \<Longrightarrow> dir_stream (foldl fi_step info es) d =
     \<lparr>fis_packets = fis_packets (dir_stream info d) + sum_list (map (ev_packets d) es),
      fis_octets = fis_octets (dir_stream info d) + sum_list (map (ev_octets d) es),
      fis_flags = foldl (OR) (fis_flags (dir_stream info d)) (map (ev_flags d) es)\<rparr>"
  by (induction es arbitrary: info)
    (simp_all add: fi_step_stream fi_increment_stream_def add.assoc)

text \<open>For a flow that starts empty, the counters of each direction are the sums (modulo \<open>2^64\<close>)
  of what packets and adapter records contributed to that direction, and the TCP flags are the
  union of the flags seen; nothing is attributed to the other direction.\<close>

theorem fi_counters_accumulate:
  "dir_stream (foldl fi_step fi_init es) d =
     \<lparr>fis_packets = sum_list (map (ev_packets d) es),
      fis_octets = sum_list (map (ev_octets d) es),
      fis_flags = foldl (OR) 0 (map (ev_flags d) es)\<rparr>"
  using fi_run_stream [of fi_init es d]
  by (simp add: fi_init_def dir_stream_def zero_stream_def fi_ok_def)

section \<open>Activity\<close>

text \<open>The activity verdict of a record compares its time stamp with the one before the previous
  record: after records with time stamps \<open>a\<close> and \<open>b\<close>, a third record counts as a change exactly if its
  time stamp differs from \<open>a\<close>.  A flow that just became idle (\<open>b = c\<close>, \<open>a\<close> older) is still reported
  as changed.\<close>

theorem fi_changed_two_back:
  "fst (fi_update (snd (fi_update (snd (fi_update info r1)) r2)) r3) \<longleftrightarrow> nfi_ts r1 \<noteq> nfi_ts r3"
  by (auto simp: fi_update_def Let_def)

end
