(* ===== verification/Sw_Stats.thy ===== *)
theory Sw_Stats
  imports Libc
begin

text \<open>
  \<open>ntnetflow/stats.c\<close>: the program-wide counters, the timer handler that turns them into rates,
  and the live and CSV printers.  Signal and timer system calls appear as outcomes that are
  passed in.
\<close>

datatype stat_id = STAT_LEARN | STAT_UNLEARN | STAT_REFRESH | STAT_PROBE | STAT_FLOW | STAT_QUEUE

definition stat_ids :: "stat_id list" where
  "stat_ids = [STAT_LEARN, STAT_UNLEARN, STAT_REFRESH, STAT_PROBE, STAT_FLOW, STAT_QUEUE]"

fun stat_name :: "stat_id \<Rightarrow> string" where
  "stat_name STAT_LEARN = ''learn''"
| "stat_name STAT_UNLEARN = ''unlearn''"
| "stat_name STAT_REFRESH = ''refresh''"
| "stat_name STAT_PROBE = ''probe''"
| "stat_name STAT_FLOW = ''flows''"
| "stat_name STAT_QUEUE = ''queue''"

record stats_entry =
  se_count :: u64
  se_last :: u64
  se_rate :: u64

record stats =
  st_entry :: "stat_id \<Rightarrow> stats_entry"
  st_on :: bool
  st_interval :: u64
  st_ticks :: u64

definition stats_zero :: stats where
  "stats_zero = \<lparr>st_entry = (\<lambda>_. \<lparr>se_count = 0, se_last = 0, se_rate = 0\<rparr>),
                 st_on = False, st_interval = 1000, st_ticks = 0\<rparr>"

section \<open>Updates and the timer\<close>

definition stats_update :: "stats \<Rightarrow> stat_id \<Rightarrow> u64 \<Rightarrow> stats" where
  "stats_update s e v =
     s\<lparr>st_entry := (st_entry s)(e := (st_entry s e)\<lparr>se_count := se_count (st_entry s e) + v\<rparr>)\<rparr>"

definition tick_entry :: "stats_entry \<Rightarrow> stats_entry" where
  "tick_entry x = x\<lparr>se_last := se_count x, se_rate := se_count x - se_last x\<rparr>"

definition stats_timer_handler :: "stats \<Rightarrow> stats" where
  "stats_timer_handler s =
     (let s1 = foldl (\<lambda>s i. s\<lparr>st_entry := (st_entry s)(i := tick_entry (st_entry s i))\<rparr>) s stat_ids
      in s1\<lparr>st_ticks := st_ticks s1 + 1\<rparr>)"

lemma stats_timer_handler_entry:
  "st_entry (stats_timer_handler s) i = tick_entry (st_entry s i)"
  by (cases i) (simp_all add: stats_timer_handler_def stat_ids_def Let_def)

definition stats_updates :: "stats \<Rightarrow> (stat_id \<times> u64) list \<Rightarrow> stats" where
  "stats_updates s us = foldl (\<lambda>s (e, v). stats_update s e v) s us"

lemma stats_updates_count:
  "se_count (st_entry (stats_updates s us) i)
     = se_count (st_entry s i) + sum_list (map snd (filter (\<lambda>(e, v). e = i) us))"
  unfolding stats_updates_def
  by (induction us arbitrary: s) (auto simp: stats_update_def)

lemma stats_updates_last:
  "se_last (st_entry (stats_updates s us) i) = se_last (st_entry s i)"
  unfolding stats_updates_def
  by (induction us arbitrary: s) (auto simp: stats_update_def)

text \<open>After a timer tick the rate of every counter is the sum of the updates made to that
  counter since the previous tick, in 64-bit arithmetic, whatever else was updated meanwhile.\<close>

theorem stats_rate_counts_interval:
  "se_rate (st_entry (stats_timer_handler (stats_updates (stats_timer_handler s) us)) i)
     = sum_list (map snd (filter (\<lambda>(e, v). e = i) us))"
  by (simp add: stats_timer_handler_entry tick_entry_def stats_updates_count stats_updates_last)

section \<open>Start-up\<close>

record itimerspec =
  it_sec :: int
  it_nsec :: int

text \<open>\<open>stats_init\<close>: \<open>Inl\<close> of the -1 exits, with the timer deleted if its arming failed; \<open>Inr\<close> the
  armed interval and the new state.  The four flags tell whether \<open>sigaction\<close>, \<open>stats_stop\<close>,
  \<open>timer_create\<close> and \<open>timer_settime\<close> succeed.\<close>

datatype stats_init_failure = Sigaction_failed | Stop_failed | Timer_create_failed | Timer_deleted

definition stats_init ::
    "int \<Rightarrow> bool \<Rightarrow> bool \<Rightarrow> bool \<Rightarrow> bool \<Rightarrow> stats \<Rightarrow> (stats_init_failure + itimerspec) \<times> stats" where
  "stats_init interval sigaction_ok stop_ok create_ok settime_ok s =
     (if \<not> sigaction_ok then (Inl Sigaction_failed, s)
      else if \<not> stop_ok then (Inl Stop_failed, s)
      else if \<not> create_ok then (Inl Timer_create_failed, s)
      else (let s = s\<lparr>st_interval := word_of_int interval\<rparr>;
                sec = sgn interval * (\<bar>interval\<bar> div 1000);
                its = \<lparr>it_sec = sec, it_nsec = (interval - sec * 1000) * 1000000\<rparr>
            in if \<not> settime_ok then (Inl Timer_deleted, s)
               else (Inr its, s\<lparr>st_on := True\<rparr>)))"

lemma stats_init_interval:
  assumes "0 \<le> interval" "stats_init interval a b c d s = (Inr its, s')"
  shows "it_sec its * 1000000000 + it_nsec its = interval * 1000000"
    "0 \<le> it_nsec its" "it_nsec its < 1000000000" "st_on s'"
proof -
  have its: "its = \<lparr>it_sec = interval div 1000, it_nsec = (interval - interval div 1000 * 1000) * 1000000\<rparr>"
    and "st_on s'"
    using assms by (auto simp: stats_init_def Let_def sgn_if split: if_splits)
  then show "st_on s'" by simp
  have m: "interval - interval div 1000 * 1000 = interval mod 1000"
    by (simp add: minus_div_mult_eq_mod)
  show "it_sec its * 1000000000 + it_nsec its = interval * 1000000"
    unfolding its by simp
  have "0 \<le> interval mod 1000" "interval mod 1000 < 1000" by simp_all
  then show "0 \<le> it_nsec its" "it_nsec its < 1000000000"
    unfolding its by (simp_all only: m itimerspec.simps)
qed

section \<open>Printers\<close>

text \<open>
  The live line: four rates and two levels.  \<open>fmt_rate\<close> stands for the floating-point conversion
  \<open>%11.0f\<close> of \<open>rate / (interval / 1000.0)\<close>.
\<close>

definition live_fields :: "(u64 \<Rightarrow> u64 \<Rightarrow> string) \<Rightarrow> stats \<Rightarrow> char \<Rightarrow> string list" where
  "live_fields fmt_rate s line_ending =
     map (\<lambda>i. stat_name i @ '': '' @ fmt_rate (se_rate (st_entry s i)) (st_interval s) @ '' f/s | '')
       [STAT_LEARN, STAT_UNLEARN, STAT_REFRESH, STAT_PROBE]
     @ map (\<lambda>i. stat_name i @ '': '' @ pad_left CHR '' '' 9 (show_dec (unat (se_count (st_entry s i))))
              @ '' flows '' @ [if i = STAT_QUEUE then line_ending else CHR ''|''] @ '' '')
       [STAT_FLOW, STAT_QUEUE]"

definition stats_snprintf ::
    "(u64 \<Rightarrow> u64 \<Rightarrow> string) \<Rightarrow> nat \<Rightarrow> stats \<Rightarrow> char \<Rightarrow> string \<times> nat" where
  "stats_snprintf fmt_rate sz s line_ending = snprintf_seq sz 0 [] (live_fields fmt_rate s line_ending)"

definition stats_fprintf :: "(u64 \<Rightarrow> u64 \<Rightarrow> string) \<Rightarrow> stats \<Rightarrow> char \<Rightarrow> string" where
  "stats_fprintf fmt_rate s line_ending = fst (stats_snprintf fmt_rate 1024 s line_ending)"

text \<open>
  The CSV line: the elapsed milliseconds, and for each index from 1 to \<open>STAT_END\<close> the counter at
  that index.  Index 0, the first counter, is left out, and \<open>stats[STAT_END]\<close> lies behind the array:
  what that read finds is the parameter \<open>beyond\<close>.
\<close>

definition stats_count_at :: "u64 \<Rightarrow> stats \<Rightarrow> nat \<Rightarrow> u64" where
  "stats_count_at beyond s i = (if i < length stat_ids then se_count (st_entry s (stat_ids ! i)) else beyond)"

definition csv_values :: "u64 \<Rightarrow> stats \<Rightarrow> u64 list" where
  "csv_values beyond s =
     st_interval s * (st_ticks s - 1) # map (stats_count_at beyond s) [1..<Suc (length stat_ids)]"

definition csv_fields :: "u64 \<Rightarrow> stats \<Rightarrow> char \<Rightarrow> string list" where
  "csv_fields beyond s line_ending =
     (let csv = csv_values beyond s; end = length csv
      in map (\<lambda>i. show_dec (unat (csv ! i)) @ [if i = end - 1 then line_ending else CHR '' ''])
           [0..<end])"

definition stats_csv_snprintf :: "u64 \<Rightarrow> nat \<Rightarrow> stats \<Rightarrow> char \<Rightarrow> string \<times> nat" where
  "stats_csv_snprintf beyond sz s line_ending = snprintf_seq sz 0 [] (csv_fields beyond s line_ending)"

definition stats_csv_fprintf :: "u64 \<Rightarrow> stats \<Rightarrow> char \<Rightarrow> string" where
  "stats_csv_fprintf beyond s line_ending = fst (stats_csv_snprintf beyond 1024 s line_ending)"

definition stats_enabled :: "stats \<Rightarrow> bool" where
  "stats_enabled s = st_on s"

lemma show_base_length: "2 \<le> b \<Longrightarrow> n < b ^ k \<Longrightarrow> 0 < k \<Longrightarrow> length (show_base b n) \<le> k"
proof (induction b n arbitrary: k rule: show_base.induct)
  case (1 b n)
  show ?case
  proof (cases "n < b")
    case True
    with 1 show ?thesis by (simp add: show_base.simps [of b n])
  next
    case False
    with 1 have k: "1 < k" by (cases k) (auto intro: ccontr simp: not_less_eq)
    have "n div b < b ^ (k - 1)"
      using 1(3) k by (simp add: less_mult_imp_div_less mult.commute flip: power_Suc)
    with 1 False k have "length (show_base b (n div b)) \<le> k - 1" by simp
    with False 1 k show ?thesis by (simp add: show_base.simps [of b n])
  qed
qed

lemma show_dec_u64_length: "length (show_dec (unat (w :: u64))) \<le> 20"
proof -
  have "unat w < 2 ^ LENGTH(64)" by (rule unsigned_less)
  then have "unat w < 10 ^ 20" by simp
  then show ?thesis unfolding show_dec_def by (rule show_base_length [rotated]) simp_all
qed

text \<open>The CSV writer never truncates: for every state of the counters the 1024-byte buffer takes
  the whole line, which is the seven decimal values separated by blanks and closed by the line
  ending.\<close>

theorem stats_csv_line_complete:
  "stats_csv_fprintf beyond s line_ending = concat (csv_fields beyond s line_ending)"
proof -
  have f: "length f \<le> 21" if "f \<in> set (csv_fields beyond s line_ending)" for f
    using that show_dec_u64_length by (fastforce simp: csv_fields_def Let_def)
  have n: "length (csv_fields beyond s line_ending) = 7"
    by (simp add: csv_fields_def csv_values_def stat_ids_def)
  have "length (concat fs) \<le> length fs * 21" if "\<forall>f \<in> set fs. length f \<le> 21" for fs :: "string list"
    using that by (induction fs) auto
  with f have "length (concat (csv_fields beyond s line_ending)) \<le> length (csv_fields beyond s line_ending) * 21"
    by blast
  with n show ?thesis
    by (simp add: stats_csv_fprintf_def stats_csv_snprintf_def snprintf_seq_buffer)
qed

text \<open>Both printers fill a caller's buffer with the longest prefix of the full line that fits and
  report a value of at least the buffer size exactly when the line did not fit.\<close>

theorem stats_printers_truncate:
  assumes "0 < sz"
  shows "fst (stats_csv_snprintf beyond sz s le) = take (sz - 1) (concat (csv_fields beyond s le))
      \<and> fst (stats_snprintf fmt sz s le) = take (sz - 1) (concat (live_fields fmt s le))
      \<and> (sz \<le> snd (stats_csv_snprintf beyond sz s le) \<longleftrightarrow> sz \<le> length (concat (csv_fields beyond s le)))
      \<and> (sz \<le> snd (stats_snprintf fmt sz s le) \<longleftrightarrow> sz \<le> length (concat (live_fields fmt s le)))"
proof -
  have "sz \<le> snd (snprintf_seq sz 0 [] fs) \<longleftrightarrow> sz \<le> length (concat fs)" for fs
    using snprintf_seq_total [OF assms, of 0 "[]" fs] by linarith
  with assms show ?thesis
    by (simp add: stats_csv_snprintf_def stats_snprintf_def snprintf_seq_buffer)
qed

theorem stats_printers_truncate_witness:
  "fst (stats_csv_snprintf 0 3 stats_zero CHR ''x'') = ''18''"
proof -
  have "csv_values 0 stats_zero = [- 1000, 0, 0, 0, 0, 0, 0]"
    by (simp add: csv_values_def stats_count_at_def stats_zero_def stat_ids_def upt_rec nth_Cons')
  then have "take 2 (concat (csv_fields 0 stats_zero CHR ''x'')) = ''18''"
    by (simp add: csv_fields_def show_dec_def show_base.simps digit_char_def upt_rec char_of_def bit_0 Let_def)
  with stats_printers_truncate [of 3 0 stats_zero "CHR ''x''"] show ?thesis by simp
qed

text \<open>The CSV line leaves out the number of learnt flows and ends in a value that is no counter.\<close>

lemma csv_leaves_out_learn:
  "csv_fields beyond (stats_update s STAT_LEARN v) line_ending = csv_fields beyond s line_ending"
  "last (csv_values beyond s) = beyond"
  by (simp_all add: csv_fields_def csv_values_def stats_count_at_def stats_update_def stat_ids_def
      Let_def upt_rec)

section \<open>Delivery of the timer signal\<close>

text \<open>
  \<open>stats_start\<close>, \<open>stats_stop\<close> and \<open>stats_deinit\<close> on the set of blocked signals of the calling thread.
  \<open>SIG_SETMASK\<close> replaces the whole set.  A flag tells whether \<open>sigprocmask\<close> succeeds.
\<close>

datatype sig_how = SIG_BLOCK | SIG_UNBLOCK | SIG_SETMASK

definition SIGALRM :: nat where
  "SIGALRM = 14"

definition sigprocmask :: "bool \<Rightarrow> sig_how \<Rightarrow> nat set \<Rightarrow> nat set \<Rightarrow> int \<times> nat set" where
  "sigprocmask ok how sigs blocked =
     (if ok then (0, case how of SIG_BLOCK \<Rightarrow> blocked \<union> sigs | SIG_UNBLOCK \<Rightarrow> blocked - sigs
                     | SIG_SETMASK \<Rightarrow> sigs)
      else (-1, blocked))"

definition stats_start :: "bool \<Rightarrow> nat set \<Rightarrow> int \<times> nat set" where
  "stats_start ok blocked = sigprocmask ok SIG_UNBLOCK {SIGALRM} blocked"

definition stats_stop :: "bool \<Rightarrow> nat set \<Rightarrow> int \<times> nat set" where
  "stats_stop ok blocked = sigprocmask ok SIG_SETMASK {SIGALRM} blocked"

text \<open>The result of \<open>stats_deinit\<close> is the mask and whether the timer exists.\<close>

definition stats_deinit :: "bool \<Rightarrow> nat set \<times> bool \<Rightarrow> nat set \<times> bool" where
  "stats_deinit ok st = (snd (stats_stop ok (fst st)), False)"

text \<open>Stopping and starting the statistics unblocks every signal the program had blocked before.\<close>

lemma stats_stop_start_unblocks_all:
  "snd (stats_start True (snd (stats_stop True blocked))) = {}"
  by (simp add: stats_start_def stats_stop_def sigprocmask_def)

end
