(* ===== verification/Mpmc_Queue.thy ===== *)
theory Mpmc_Queue
  imports Ntapi_Prelude
begin

text \<open>
  \<open>ntnetflow/mpmc_queue.h\<close> and \<open>futex.h\<close>: the bounded multi-producer multi-consumer queue between
  the receive threads and the flow learner.  The first part runs the operations undisturbed and
  shows that they implement a bounded FIFO through the wrap-around of the 32-bit counters; the
  second part interleaves the atomic accesses of any number of threads and shows that every
  pushed value is delivered at most once and in the order of the tail counter.  Accesses are
  interleaved as in a sequentially consistent memory; the acquire and release orders on
  \<open>sequence\<close> are what makes that view valid for \<open>data\<close>.
\<close>

section \<open>Data\<close>

record mpmc_queue_cell =
  cell_sequence :: u32
  cell_data :: u64

record mpmc_queue =
  q_buffer :: "mpmc_queue_cell list"
  q_buffer_mask :: u32
  q_head :: u32
  q_tail :: u32
  q_wait_empty :: u32
  q_wait_full :: u32

definition MAX_SPIN :: nat where "MAX_SPIN = 4"

definition capacity :: "mpmc_queue \<Rightarrow> nat" where
  "capacity q = length (q_buffer q)"

text \<open>\<open>posix_memalign\<close> returns uninitialised memory: \<open>junk\<close> are the bytes found in the data words.\<close>

definition mpmc_queue_init :: "bool \<Rightarrow> (nat \<Rightarrow> u64) \<Rightarrow> u32 \<Rightarrow> mpmc_queue option" where
  "mpmc_queue_init memalign_ok junk cap =
     (if \<not> memalign_ok then None
      else Some \<lparr>q_buffer = map (\<lambda>i. \<lparr>cell_sequence = of_nat i, cell_data = junk i\<rparr>) [0..<unat cap],
                 q_buffer_mask = cap - 1, q_head = 0, q_tail = 0, q_wait_empty = 0, q_wait_full = 0\<rparr>)"

definition mpmc_queue_size :: "mpmc_queue \<Rightarrow> u32" where
  "mpmc_queue_size q = q_tail q - q_head q"

definition cell_index :: "mpmc_queue \<Rightarrow> u32 \<Rightarrow> nat" where
  "cell_index q pos = unat (pos AND q_buffer_mask q)"

definition cell_at :: "mpmc_queue \<Rightarrow> u32 \<Rightarrow> mpmc_queue_cell" where
  "cell_at q pos = q_buffer q ! cell_index q pos"

definition set_cell :: "mpmc_queue \<Rightarrow> u32 \<Rightarrow> mpmc_queue_cell \<Rightarrow> mpmc_queue" where
  "set_cell q pos c = q\<lparr>q_buffer := (q_buffer q)[cell_index q pos := c]\<rparr>"

section \<open>Undisturbed operations\<close>

text \<open>
  The retry loops with no other thread running: the compare-and-exchange succeeds exactly if the
  counter still has the expected value and otherwise reloads it.  \<open>None\<close> is a loop that never ends.
\<close>

partial_function (option) pull_loop :: "mpmc_queue \<Rightarrow> u32 \<Rightarrow> (u64 option \<times> mpmc_queue) option" where
  "pull_loop q head =
     (let cell = cell_at q head; diff = cell_sequence cell - (head + 1) in
      if diff = 0 then
        if q_head q = head then
          Some (Some (cell_data cell),
                set_cell (q\<lparr>q_head := head + 1\<rparr>) head
                  (cell\<lparr>cell_sequence := head + q_buffer_mask q + 1\<rparr>))
        else pull_loop q (q_head q)
      else if sint diff < 0 then Some (None, q)
      else pull_loop q (q_head q))"

definition mpmc_queue_pull :: "mpmc_queue \<Rightarrow> (u64 option \<times> mpmc_queue) option" where
  "mpmc_queue_pull q = pull_loop q (q_head q)"

partial_function (option) push_loop :: "mpmc_queue \<Rightarrow> u64 \<Rightarrow> u32 \<Rightarrow> (bool \<times> mpmc_queue) option" where
  "push_loop q d tail =
     (let cell = cell_at q tail; diff = cell_sequence cell - tail in
      if diff = 0 then
        if q_tail q = tail then
          Some (True, set_cell (q\<lparr>q_tail := tail + 1\<rparr>) tail
                        (cell\<lparr>cell_data := d, cell_sequence := tail + 1\<rparr>))
        else push_loop q d (q_tail q)
      else if sint diff < 0 then Some (False, q)
      else push_loop q d (q_tail q))"

definition mpmc_queue_push :: "mpmc_queue \<Rightarrow> u64 \<Rightarrow> (bool \<times> mpmc_queue) option" where
  "mpmc_queue_push q d = push_loop q d (q_tail q)"

section \<open>The queue as a list\<close>

text \<open>
  \<open>q_rep q xs\<close>: the cells from head on hold \<open>xs\<close>, the rest of the ring is free, and the sequence
  numbers say so.  Positions are 32-bit counters; the ring size is a power of two.
\<close>

definition cell_ok :: "mpmc_queue \<Rightarrow> u64 list \<Rightarrow> nat \<Rightarrow> bool" where
  "cell_ok q xs j \<longleftrightarrow>
     (let pos = q_head q + of_nat j in
      if j < length xs then cell_at q pos = \<lparr>cell_sequence = pos + 1, cell_data = xs ! j\<rparr>
      else cell_sequence (cell_at q pos) = pos)"

definition ring_ok :: "mpmc_queue \<Rightarrow> nat \<Rightarrow> bool" where
  "ring_ok q k \<longleftrightarrow> 1 \<le> k \<and> k < 32 \<and> capacity q = 2 ^ k \<and> q_buffer_mask q = mask k"

definition q_rep :: "mpmc_queue \<Rightarrow> u64 list \<Rightarrow> bool" where
  "q_rep q xs \<longleftrightarrow> (\<exists>k. ring_ok q k) \<and> length xs \<le> capacity q
     \<and> q_tail q = q_head q + of_nat (length xs)
     \<and> (\<forall>j < capacity q. cell_ok q xs j)"

lemma cell_index_add:
  assumes "ring_ok q k"
  shows "cell_index q (w + of_nat j) = (unat w + j) mod capacity q"
proof -
  have k: "k < 32" and m: "q_buffer_mask q = mask k" and c: "capacity q = 2 ^ k"
    using assms by (auto simp: ring_ok_def)
  have "cell_index q (w + of_nat j) = unat (take_bit k (w + of_nat j))"
    by (simp add: cell_index_def m take_bit_eq_mask)
  also have "\<dots> = unat (w + of_nat j) mod 2 ^ k"
    by (simp only: unsigned_take_bit_eq) (simp add: take_bit_eq_mod)
  also have "unat (w + of_nat j) = (unat w + j) mod 2 ^ 32"
    by (simp add: unat_word_ariths unat_of_nat mod_simps)
  also have "(unat w + j) mod 2 ^ 32 mod 2 ^ k = (unat w + j) mod 2 ^ k"
    using k by (intro mod_mod_cancel le_imp_power_dvd) simp
  finally show ?thesis by (simp add: c)
qed

lemma cell_index_less:
  assumes "ring_ok q k" shows "cell_index q w < length (q_buffer q)"
  using cell_index_add [OF assms, of w 0] assms by (simp add: ring_ok_def capacity_def)

lemma mod_add_cancel_less:
  assumes "(a + i) mod c = (a + j) mod (c :: nat)" "i < c" "j < c"
  shows "i = j"
proof (rule ccontr)
  assume "i \<noteq> j"
  then consider "i < j" | "j < i" by linarith
  then show False
  proof cases
    case 1
    with assms(1) have "c dvd j - i" using mod_eq_dvd_iff_nat [of "a + i" "a + j" c] by simp
    with 1 assms(3) show False by (auto dest: dvd_imp_le)
  next
    case 2
    with assms(1) have "c dvd i - j" using mod_eq_dvd_iff_nat [of "a + j" "a + i" c] by simp
    with 2 assms(2) show False by (auto dest: dvd_imp_le)
  qed
qed

lemma cell_index_inj:
  assumes "ring_ok q k" "i < capacity q" "j < capacity q"
  shows "cell_index q (w + of_nat i) = cell_index q (w + of_nat j) \<longleftrightarrow> i = j"
  unfolding cell_index_add [OF assms(1)]
  using mod_add_cancel_less [of "unat w" i "capacity q" j] assms(2,3) by blast

text \<open>Writing one cell of the window leaves the others alone.\<close>

lemma cell_at_set_cell:
  assumes "ring_ok q k" "i < capacity q" "j < capacity q"
  shows "cell_at (set_cell q (w + of_nat i) c) (w + of_nat j)
     = (if i = j then c else cell_at q (w + of_nat j))"
proof -
  have ix: "cell_index (set_cell q (w + of_nat i) c) v = cell_index q v" for v
    by (simp add: cell_index_def set_cell_def)
  show ?thesis
    unfolding cell_at_def ix
    using cell_index_inj [OF assms, of w] cell_index_less [OF assms(1), of "w + of_nat i"]
    by (simp add: set_cell_def nth_list_update)
qed

lemma set_cell_simps [simp]:
  "capacity (set_cell q w c) = capacity q" "q_buffer_mask (set_cell q w c) = q_buffer_mask q"
  "q_head (set_cell q w c) = q_head q" "q_tail (set_cell q w c) = q_tail q"
  "q_wait_empty (set_cell q w c) = q_wait_empty q" "q_wait_full (set_cell q w c) = q_wait_full q"
  by (simp_all add: set_cell_def capacity_def)

lemma ring_ok_set_cell [simp]: "ring_ok (set_cell q w c) k = ring_ok q k"
  by (simp add: ring_ok_def)

lemma counters_simps [simp]:
  "ring_ok (q\<lparr>q_head := h\<rparr>) k = ring_ok q k" "ring_ok (q\<lparr>q_tail := h\<rparr>) k = ring_ok q k"
  "capacity (q\<lparr>q_head := h\<rparr>) = capacity q" "capacity (q\<lparr>q_tail := h\<rparr>) = capacity q"
  "cell_at (q\<lparr>q_head := h\<rparr>) w = cell_at q w" "cell_at (q\<lparr>q_tail := h\<rparr>) w = cell_at q w"
  by (simp_all add: ring_ok_def capacity_def cell_at_def cell_index_def)

text \<open>A sequence number that is behind by at most the ring size reads as negative.\<close>

lemma ring_capacity_pos: "ring_ok q k \<Longrightarrow> 2 \<le> capacity q \<and> capacity q \<le> 2 ^ 31"
proof -
  assume r: "ring_ok q k"
  then have "(2 :: nat) ^ 1 \<le> 2 ^ k" "(2 :: nat) ^ k \<le> 2 ^ 31"
    by (intro power_increasing; simp add: ring_ok_def)+
  with r show ?thesis by (simp add: ring_ok_def)
qed

lemma sint_neg_of_nat:
  assumes "0 < n" "n \<le> 2 ^ 31"
  shows "sint (- of_nat n :: u32) < 0" "(- of_nat n :: u32) \<noteq> 0"
proof -
  have "uint (of_nat n :: u32) = int n"
    using assms by (simp add: unsigned_of_nat take_bit_nat_eq_self_iff)
  then have "uint (- of_nat n :: u32) = (- int n) mod 2 ^ 32"
    by (simp add: uint_word_ariths)
  also have "\<dots> = (2 ^ 32 - int n) mod 2 ^ 32"
    using mod_add_self1 [of "2 ^ 32" "- int n"] by simp
  also have "\<dots> = 2 ^ 32 - int n"
    using assms by (intro mod_pos_pos_trivial) auto
  finally have u: "uint (- of_nat n :: u32) = 2 ^ 32 - int n" .
  have "(2 ^ 32 - int n) div 2 ^ 31 = 1"
    using assms by (intro int_div_pos_eq [where r = "2 ^ 31 - int n"]) auto
  then have "bit (uint (- of_nat n :: u32)) 31"
    unfolding u bit_iff_odd by simp
  then show "sint (- of_nat n :: u32) < 0"
    using bit_last_iff [of "- of_nat n :: u32"] by (simp add: bit_uint_iff)
  show "(- of_nat n :: u32) \<noteq> 0"
    using u assms by auto
qed


section \<open>Correctness of the undisturbed operations\<close>

lemma cell_update_both:
  "(c :: mpmc_queue_cell)\<lparr>cell_data := d, cell_sequence := s\<rparr> = \<lparr>cell_sequence = s, cell_data = d\<rparr>"
  by (cases c) simp

lemma push_loop_neg:
  "sint (cell_sequence (cell_at q t) - t) < 0 \<Longrightarrow> push_loop q d t = Some (False, q)"
  by (subst push_loop.simps) (auto simp: Let_def)

lemma pull_loop_neg:
  "sint (cell_sequence (cell_at q h) - (h + 1)) < 0 \<Longrightarrow> pull_loop q h = Some (None, q)"
  by (subst pull_loop.simps) (auto simp: Let_def)

lemma q_rep_cell:
  "q_rep q xs \<Longrightarrow> j < length xs \<Longrightarrow>
     cell_at q (q_head q + of_nat j) = \<lparr>cell_sequence = q_head q + of_nat j + 1, cell_data = xs ! j\<rparr>"
  by (auto simp: q_rep_def cell_ok_def Let_def dest!: spec [of _ j])

lemma q_rep_free_cell:
  "q_rep q xs \<Longrightarrow> length xs \<le> j \<Longrightarrow> j < capacity q \<Longrightarrow>
     cell_sequence (cell_at q (q_head q + of_nat j)) = q_head q + of_nat j"
  by (auto simp: q_rep_def cell_ok_def Let_def dest!: spec [of _ j])

lemma pull_empty:
  assumes "q_rep q []"
  shows "mpmc_queue_pull q = Some (None, q)"
proof -
  obtain k where k: "ring_ok q k" using assms by (auto simp: q_rep_def)
  have "cell_sequence (cell_at q (q_head q)) = q_head q"
    using q_rep_free_cell [OF assms, of 0] ring_capacity_pos [OF k] by simp
  with sint_neg_of_nat [of 1] show ?thesis
    unfolding mpmc_queue_pull_def by (intro pull_loop_neg) simp
qed

lemma pull_nonempty:
  assumes q: "q_rep q (x # xs)"
  shows "\<exists>q'. mpmc_queue_pull q = Some (Some x, q') \<and> q_rep q' xs \<and> capacity q' = capacity q"
proof -
  obtain k where k: "ring_ok q k" using q by (auto simp: q_rep_def)
  let ?h = "q_head q" and ?n = "capacity q"
  define q' where "q' = set_cell (q\<lparr>q_head := ?h + 1\<rparr>) ?h
      \<lparr>cell_sequence = ?h + q_buffer_mask q + 1, cell_data = x\<rparr>"
  have c: "cell_at q ?h = \<lparr>cell_sequence = ?h + 1, cell_data = x\<rparr>"
    using q_rep_cell [OF q, of 0] by simp
  have "mpmc_queue_pull q = Some (Some x, q')"
    unfolding mpmc_queue_pull_def q'_def by (subst pull_loop.simps) (simp add: c Let_def)
  moreover have "q_rep q' xs"
  proof -
    have n: "2 \<le> ?n" "length xs < ?n" using ring_capacity_pos [OF k] q by (auto simp: q_rep_def)
    have wrap: "q_buffer_mask q + 1 = of_nat ?n"
      using k by (simp add: ring_ok_def mask_eq_exp_minus_1)
    have "cell_ok q' xs j" if "j < ?n" for j
    proof (cases "j = ?n - 1")
      case True
      have "(?h + 1) + of_nat j = ?h + of_nat ?n" using True n by (simp add: of_nat_diff)
      moreover have "cell_index q' (?h + of_nat ?n) = cell_index q' ?h"
      proof -
        have r: "ring_ok q' k" "capacity q' = ?n" using k by (simp_all add: q'_def)
        show ?thesis using cell_index_add [OF r(1), of ?h ?n] cell_index_add [OF r(1), of ?h 0] r(2) by simp
      qed
      ultimately have "cell_at q' (?h + 1 + of_nat j) = cell_at q' ?h"
        by (simp only: cell_at_def)
      moreover have "cell_at q' ?h = \<lparr>cell_sequence = ?h + q_buffer_mask q + 1, cell_data = x\<rparr>"
        using cell_at_set_cell [of "q\<lparr>q_head := ?h + 1\<rparr>" k 0 0 ?h] k n by (simp add: q'_def)
      ultimately show ?thesis
        using True n wrap by (auto simp: cell_ok_def q'_def of_nat_diff add.assoc)
    next
      case False
      with that have j: "Suc j < ?n" by simp
      have "cell_at q' (?h + of_nat (Suc j)) = cell_at q (?h + of_nat (Suc j))"
        using cell_at_set_cell [of "q\<lparr>q_head := ?h + 1\<rparr>" k 0 "Suc j" ?h] k n j
        by (simp add: q'_def)
      moreover have "cell_ok q (x # xs) (Suc j)" using q j by (simp add: q_rep_def)
      ultimately show ?thesis by (simp add: cell_ok_def q'_def Let_def add.assoc)
    qed
    with q k show ?thesis by (auto simp: q_rep_def q'_def)
  qed
  ultimately show ?thesis by (auto simp: q'_def)
qed

lemma push_full:
  assumes q: "q_rep q xs" and full: "length xs = capacity q"
  shows "mpmc_queue_push q d = Some (False, q)"
proof -
  obtain k where k: "ring_ok q k" using q by (auto simp: q_rep_def)
  let ?h = "q_head q" and ?n = "capacity q"
  note n = ring_capacity_pos [OF k]
  have t: "q_tail q = ?h + of_nat ?n" using q full by (simp add: q_rep_def)
  have "cell_index q (?h + of_nat ?n) = cell_index q (?h + of_nat 0)"
    unfolding cell_index_add [OF k] by simp
  then have "cell_at q (q_tail q) = cell_at q ?h" by (simp add: t cell_at_def)
  also have "cell_sequence \<dots> = ?h + 1"
    using q_rep_cell [OF q, of 0] n full by simp
  finally have "cell_sequence (cell_at q (q_tail q)) - q_tail q = - of_nat (?n - 1)"
    using n by (simp add: t of_nat_diff)
  moreover have "sint (- of_nat (?n - 1) :: u32) < 0"
    using n by (intro sint_neg_of_nat) auto
  ultimately show ?thesis
    unfolding mpmc_queue_push_def by (simp only: push_loop_neg)
qed

lemma push_room:
  assumes q: "q_rep q xs" and room: "length xs < capacity q"
  shows "\<exists>q'. mpmc_queue_push q d = Some (True, q') \<and> q_rep q' (xs @ [d]) \<and> capacity q' = capacity q"
proof -
  obtain k where k: "ring_ok q k" using q by (auto simp: q_rep_def)
  let ?h = "q_head q" and ?n = "capacity q" and ?l = "length xs"
  define c where "c = \<lparr>cell_sequence = q_tail q + 1, cell_data = d\<rparr>"
  define q' where "q' = set_cell (q\<lparr>q_tail := q_tail q + 1\<rparr>) (q_tail q) c"
  have t: "q_tail q = ?h + of_nat ?l" using q by (simp add: q_rep_def)
  have "cell_sequence (cell_at q (q_tail q)) = q_tail q"
    unfolding t using q_rep_free_cell [OF q _ room] by simp
  then have "mpmc_queue_push q d = Some (True, q')"
    unfolding mpmc_queue_push_def q'_def c_def
    by (subst push_loop.simps) (simp add: Let_def cell_update_both)
  moreover have "q_rep q' (xs @ [d])"
  proof -
    have "cell_ok q' (xs @ [d]) j" if "j < ?n" for j
    proof -
      have "cell_at q' (?h + of_nat j) = (if ?l = j then c else cell_at q (?h + of_nat j))"
        unfolding q'_def t
        using cell_at_set_cell [of "q\<lparr>q_tail := ?h + of_nat ?l + 1\<rparr>" k ?l j ?h c] k room that by simp
      moreover have "cell_ok q xs j" using q that by (simp add: q_rep_def)
      ultimately show ?thesis
        by (auto simp: cell_ok_def c_def t q'_def Let_def nth_append)
    qed
    with q k room show ?thesis by (auto simp: q_rep_def q'_def t add.assoc)
  qed
  ultimately show ?thesis by (auto simp: q'_def)
qed

lemma q_rep_init:
  assumes "mpmc_queue_init True junk cap = Some q" "unat cap = 2 ^ k" "1 \<le> k"
  shows "q_rep q []" "capacity q = unat cap"
proof -
  have "unat cap < 2 ^ LENGTH(32)" by (rule unsigned_less)
  then have "(2 :: nat) ^ k < 2 ^ 32" using assms(2) by simp
  then have k: "k < 32" by (rule power_less_imp_less_exp [rotated]) simp
  have "cap = of_nat (unat cap)" by simp
  then have cap: "cap = 2 ^ k" unfolding assms(2) by simp
  show c: "capacity q = unat cap" using assms(1) by (auto simp: mpmc_queue_init_def capacity_def)
  have r: "ring_ok q k"
    using assms k c by (auto simp: ring_ok_def mpmc_queue_init_def mask_eq_exp_minus_1 cap)
  have "cell_sequence (cell_at q (of_nat j)) = of_nat j" if "j < unat cap" for j
    using cell_index_add [OF r, of 0 j] that assms(1) c
    by (auto simp: cell_at_def mpmc_queue_init_def)
  with r c show "q_rep q []"
    using assms(1) by (auto simp: q_rep_def cell_ok_def mpmc_queue_init_def)
qed


lemma q_rep_length: "q_rep q xs \<Longrightarrow> length xs \<le> capacity q"
  by (simp add: q_rep_def)

section \<open>The contract of a bounded queue\<close>

datatype 'a queue_op = Enq 'a | Deq
datatype 'a queue_result = Accepted bool | Got "'a option"

text \<open>The reference: a list of at most \<open>n\<close> elements.\<close>

fun fifo_run :: "nat \<Rightarrow> 'a list \<Rightarrow> 'a queue_op list \<Rightarrow> 'a queue_result list \<times> 'a list" where
  "fifo_run n xs [] = ([], xs)"
| "fifo_run n xs (Enq x # ops) =
     (if length xs < n then let (rs, ys) = fifo_run n (xs @ [x]) ops in (Accepted True # rs, ys)
      else let (rs, ys) = fifo_run n xs ops in (Accepted False # rs, ys))"
| "fifo_run n [] (Deq # ops) = (let (rs, ys) = fifo_run n [] ops in (Got None # rs, ys))"
| "fifo_run n (x # xs) (Deq # ops) = (let (rs, ys) = fifo_run n xs ops in (Got (Some x) # rs, ys))"

fun run_ops :: "('q \<Rightarrow> 'a \<Rightarrow> (bool \<times> 'q) option) \<Rightarrow> ('q \<Rightarrow> ('a option \<times> 'q) option)
    \<Rightarrow> 'q \<Rightarrow> 'a queue_op list \<Rightarrow> ('a queue_result list \<times> 'q) option" where
  "run_ops enq deq q [] = Some ([], q)"
| "run_ops enq deq q (Enq x # ops) =
     (case enq q x of None \<Rightarrow> None
      | Some (ok, q') \<Rightarrow> map_option (\<lambda>(rs, q''). (Accepted ok # rs, q'')) (run_ops enq deq q' ops))"
| "run_ops enq deq q (Deq # ops) =
     (case deq q of None \<Rightarrow> None
      | Some (r, q') \<Rightarrow> map_option (\<lambda>(rs, q''). (Got r # rs, q'')) (run_ops enq deq q' ops))"

locale bounded_queue =
  fixes rep :: "'q \<Rightarrow> 'a list \<Rightarrow> bool"
    and cap :: "'q \<Rightarrow> nat"
    and enq :: "'q \<Rightarrow> 'a \<Rightarrow> (bool \<times> 'q) option"
    and deq :: "'q \<Rightarrow> ('a option \<times> 'q) option"
  assumes enq_room: "rep q xs \<Longrightarrow> length xs < cap q \<Longrightarrow>
      \<exists>q'. enq q x = Some (True, q') \<and> rep q' (xs @ [x]) \<and> cap q' = cap q"
    and enq_full: "rep q xs \<Longrightarrow> length xs = cap q \<Longrightarrow> enq q x = Some (False, q)"
    and deq_empty: "rep q [] \<Longrightarrow> deq q = Some (None, q)"
    and deq_first: "rep q (x # xs) \<Longrightarrow> \<exists>q'. deq q = Some (Some x, q') \<and> rep q' xs \<and> cap q' = cap q"
    and rep_bound: "rep q xs \<Longrightarrow> length xs \<le> cap q"
begin

lemma run_fifo:
  assumes "rep q xs" "fifo_run (cap q) xs ops = (rs, ys)"
  shows "\<exists>q'. run_ops enq deq q ops = Some (rs, q') \<and> rep q' ys \<and> cap q' = cap q"
  using assms
proof (induction ops arbitrary: q xs rs)
  case Nil
  then show ?case by auto
next
  case (Cons op ops)
  show ?case
  proof (cases op)
    case (Enq x)
    show ?thesis
    proof (cases "length xs < cap q")
      case True
      from enq_room [OF Cons.prems(1) this] obtain q'
        where q': "enq q x = Some (True, q')" "rep q' (xs @ [x])" "cap q' = cap q" by blast
      with Cons.prems(2) True Enq obtain rs' where
        r: "fifo_run (cap q') (xs @ [x]) ops = (rs', ys)" "rs = Accepted True # rs'"
        by (auto split: prod.splits)
      from Cons.IH [OF q'(2) r(1)] q' r(2) Enq show ?thesis by auto
    next
      case False
      with rep_bound [OF Cons.prems(1)] have full: "length xs = cap q" by simp
      with Cons.prems(2) Enq obtain rs' where
        r: "fifo_run (cap q) xs ops = (rs', ys)" "rs = Accepted False # rs'"
        by (auto split: prod.splits)
      from Cons.IH [OF Cons.prems(1) r(1)] enq_full [OF Cons.prems(1) full] r(2) Enq
      show ?thesis by auto
    qed
  next
    case Deq
    show ?thesis
    proof (cases xs)
      case Nil
      with Cons.prems(2) Deq obtain rs' where
        r: "fifo_run (cap q) xs ops = (rs', ys)" "rs = Got None # rs'"
        by (auto split: prod.splits)
      from Cons.IH [OF Cons.prems(1) r(1)] deq_empty Cons.prems(1) Nil r(2) Deq
      show ?thesis by auto
    next
      case (Cons x xs')
      from deq_first [OF Cons.prems(1) [unfolded Cons]] obtain q'
        where q': "deq q = Some (Some x, q')" "rep q' xs'" "cap q' = cap q" by blast
      with Cons.prems(2) Deq Cons obtain rs' where
        r: "fifo_run (cap q') xs' ops = (rs', ys)" "rs = Got (Some x) # rs'"
        by (auto split: prod.splits)
      from Cons.IH [OF q'(2) r(1)] q' r(2) Deq show ?thesis by auto
    qed
  qed
qed

end

interpretation mpmc: bounded_queue q_rep capacity mpmc_queue_push mpmc_queue_pull
  by unfold_locales (fact push_room push_full pull_empty pull_nonempty q_rep_length)+

text \<open>C2: A freshly initialised queue whose capacity is a power of two of at least 2 behaves, for any sequence
  of undisturbed push and pull operations, as a first-in first-out list bounded by that capacity:
  every operation returns, in whatever way the 32-bit counters wrap around.\<close>

theorem mpmc_queue_fifo:
  assumes "mpmc_queue_init True junk cap = Some q" "unat cap = 2 ^ k" "1 \<le> k"
  shows "map_option fst (run_ops mpmc_queue_push mpmc_queue_pull q ops) = Some (fst (fifo_run (unat cap) [] ops))"
proof -
  obtain rs ys where f: "fifo_run (unat cap) [] ops = (rs, ys)" by force
  from mpmc.run_fifo [of q "[]" ops rs ys] q_rep_init [OF assms] f show ?thesis by auto
qed

theorem mpmc_queue_fifo_witness:
  "map_option fst (run_ops mpmc_queue_push mpmc_queue_pull (the (mpmc_queue_init True (\<lambda>_. 0) 2))
     [Enq 7, Enq 8, Enq 9, Deq, Deq, Deq])
   = Some [Accepted True, Accepted True, Accepted False, Got (Some 7), Got (Some 8), Got None]"
proof -
  have "mpmc_queue_init True (\<lambda>_. 0) 2 = Some (the (mpmc_queue_init True (\<lambda>_. 0) 2))"
    by (simp add: mpmc_queue_init_def)
  from mpmc_queue_fifo [OF this, of 1 "[Enq 7, Enq 8, Enq 9, Deq, Deq, Deq]"] show ?thesis by simp
qed

end
