(* ===== verification/Mpmc_Concurrent.thy ===== *)
theory Mpmc_Concurrent
  imports Mpmc_Queue
begin

text \<open>
  Any number of threads inside \<open>mpmc_queue_pull\<close> and \<open>mpmc_queue_push\<close> (\<open>ntnetflow/mpmc_queue.h\<close>),
  one atomic access per step, the compare-and-exchange being allowed to fail spuriously.  The
  state carries ghost fields that no guard reads: the number of successful increments of \<open>head\<close>
  and \<open>tail\<close> without wrap-around, the pushed values in the order of \<open>tail\<close>, and the pulled values
  with their positions.
\<close>

section \<open>Threads and their steps\<close>

text \<open>The program counters: \<open>h\<close> is the register \<open>head\<close> or \<open>tail\<close>, \<open>g\<close> its ghost position.\<close>

datatype pc =
    Idle
  | Pull_Load
  | Pull_Check u32 nat
  | Pull_Cas u32 nat
  | Pull_Read u32 nat
  | Pull_Release u32 nat u64
  | Push_Load u64
  | Push_Check u32 nat u64
  | Push_Cas u32 nat u64
  | Push_Write u32 nat u64
  | Push_Release u32 nat u64

record cstate =
  cq :: mpmc_queue
  pcs :: "nat \<Rightarrow> pc"
  pulls :: nat
  plog :: "u64 list"
  delivered :: "(nat \<times> u64) list"

definition goto :: "cstate \<Rightarrow> nat \<Rightarrow> pc \<Rightarrow> cstate" where
  "goto s t p = s\<lparr>pcs := (pcs s)(t := p)\<rparr>"

inductive mpmc_step :: "cstate \<Rightarrow> cstate \<Rightarrow> bool" where
  pull_call: "pcs s t = Idle \<Longrightarrow> mpmc_step s (goto s t Pull_Load)"
| pull_load: "pcs s t = Pull_Load \<Longrightarrow> mpmc_step s (goto s t (Pull_Check (q_head (cq s)) (pulls s)))"
| pull_match: "pcs s t = Pull_Check h g \<Longrightarrow> cell_sequence (cell_at (cq s) h) - (h + 1) = 0 \<Longrightarrow>
    mpmc_step s (goto s t (Pull_Cas h g))"
| pull_none: "pcs s t = Pull_Check h g \<Longrightarrow> sint (cell_sequence (cell_at (cq s) h) - (h + 1)) < 0 \<Longrightarrow>
    mpmc_step s (goto s t Idle)"
| pull_reload: "pcs s t = Pull_Check h g \<Longrightarrow> 0 < sint (cell_sequence (cell_at (cq s) h) - (h + 1)) \<Longrightarrow>
    mpmc_step s (goto s t Pull_Load)"
| pull_cas: "pcs s t = Pull_Cas h g \<Longrightarrow> q_head (cq s) = h \<Longrightarrow>
    mpmc_step s (goto (s\<lparr>cq := (cq s)\<lparr>q_head := h + 1\<rparr>, pulls := pulls s + 1\<rparr>) t (Pull_Read h (pulls s)))"
| pull_cas_fail: "pcs s t = Pull_Cas h g \<Longrightarrow>
    mpmc_step s (goto s t (Pull_Check (q_head (cq s)) (pulls s)))"
| pull_read: "pcs s t = Pull_Read h g \<Longrightarrow>
    mpmc_step s (goto s t (Pull_Release h g (cell_data (cell_at (cq s) h))))"
| pull_release: "pcs s t = Pull_Release h g d \<Longrightarrow>
    mpmc_step s (goto (s\<lparr>cq := set_cell (cq s) h
        ((cell_at (cq s) h)\<lparr>cell_sequence := h + q_buffer_mask (cq s) + 1\<rparr>),
      delivered := delivered s @ [(g, d)]\<rparr>) t Idle)"
| push_call: "pcs s t = Idle \<Longrightarrow> mpmc_step s (goto s t (Push_Load d))"
| push_load: "pcs s t = Push_Load d \<Longrightarrow>
    mpmc_step s (goto s t (Push_Check (q_tail (cq s)) (length (plog s)) d))"
| push_match: "pcs s t = Push_Check h g d \<Longrightarrow> cell_sequence (cell_at (cq s) h) - h = 0 \<Longrightarrow>
    mpmc_step s (goto s t (Push_Cas h g d))"
| push_none: "pcs s t = Push_Check h g d \<Longrightarrow> sint (cell_sequence (cell_at (cq s) h) - h) < 0 \<Longrightarrow>
    mpmc_step s (goto s t Idle)"
| push_reload: "pcs s t = Push_Check h g d \<Longrightarrow> 0 < sint (cell_sequence (cell_at (cq s) h) - h) \<Longrightarrow>
    mpmc_step s (goto s t (Push_Load d))"
| push_cas: "pcs s t = Push_Cas h g d \<Longrightarrow> q_tail (cq s) = h \<Longrightarrow>
    mpmc_step s (goto (s\<lparr>cq := (cq s)\<lparr>q_tail := h + 1\<rparr>, plog := plog s @ [d]\<rparr>) t
      (Push_Write h (length (plog s)) d))"
| push_cas_fail: "pcs s t = Push_Cas h g d \<Longrightarrow>
    mpmc_step s (goto s t (Push_Check (q_tail (cq s)) (length (plog s)) d))"
| push_write: "pcs s t = Push_Write h g d \<Longrightarrow>
    mpmc_step s (goto (s\<lparr>cq := set_cell (cq s) h ((cell_at (cq s) h)\<lparr>cell_data := d\<rparr>)\<rparr>) t
      (Push_Release h g d))"
| push_release: "pcs s t = Push_Release h g d \<Longrightarrow>
    mpmc_step s (goto (s\<lparr>cq := set_cell (cq s) h ((cell_at (cq s) h)\<lparr>cell_sequence := h + 1\<rparr>)\<rparr>) t Idle)"

text \<open>
  The counters have 32 bits, so a thread that sleeps between reading a counter and its
  compare-and-exchange for a whole multiple of \<open>2^32\<close> operations would see an equal value.  \<open>timely\<close>
  excludes exactly that.
\<close>

definition timely :: "cstate \<Rightarrow> bool" where
  "timely s \<longleftrightarrow> (\<forall>t. case pcs s t of
       Pull_Cas h g \<Rightarrow> pulls s - g < 2 ^ 32
     | Push_Cas h g d \<Rightarrow> length (plog s) - g < 2 ^ 32
     | _ \<Rightarrow> True)"

inductive mpmc_reach :: "u32 \<Rightarrow> cstate \<Rightarrow> bool" for cap where
  reach_init: "mpmc_queue_init True junk cap = Some q \<Longrightarrow>
     mpmc_reach cap \<lparr>cq = q, pcs = (\<lambda>_. Idle), pulls = 0, plog = [], delivered = []\<rparr>"
| reach_step: "mpmc_reach cap s \<Longrightarrow> timely s \<Longrightarrow> mpmc_step s s' \<Longrightarrow> mpmc_reach cap s'"

section \<open>The invariant\<close>

fun pull_pos :: "pc \<Rightarrow> nat option" where
  "pull_pos (Pull_Read h g) = Some g"
| "pull_pos (Pull_Release h g d) = Some g"
| "pull_pos _ = None"

fun push_pos :: "pc \<Rightarrow> nat option" where
  "push_pos (Push_Write h g d) = Some g"
| "push_pos (Push_Release h g d) = Some g"
| "push_pos _ = None"

definition cellp :: "mpmc_queue \<Rightarrow> nat \<Rightarrow> mpmc_queue_cell" where
  "cellp q p = q_buffer q ! (p mod capacity q)"

definition seqp :: "mpmc_queue \<Rightarrow> nat \<Rightarrow> u32" where
  "seqp q p = cell_sequence (cellp q p)"

text \<open>What a thread may rely on at each program point.\<close>

fun pc_ok :: "mpmc_queue \<Rightarrow> nat \<Rightarrow> u64 list \<Rightarrow> pc \<Rightarrow> bool" where
  "pc_ok q H l Idle = True"
| "pc_ok q H l Pull_Load = True"
| "pc_ok q H l (Pull_Check h g) = (h = of_nat g \<and> g \<le> H)"
| "pc_ok q H l (Pull_Cas h g) =
     (h = of_nat g \<and> g \<le> H \<and> (g = H \<longrightarrow> H < length l \<and> seqp q H = of_nat H + 1))"
| "pc_ok q H l (Pull_Read h g) =
     (h = of_nat g \<and> g < H \<and> length l \<le> g + capacity q \<and> seqp q g = of_nat g + 1
      \<and> cell_data (cellp q g) = l ! g)"
| "pc_ok q H l (Pull_Release h g d) =
     (h = of_nat g \<and> g < H \<and> length l \<le> g + capacity q \<and> seqp q g = of_nat g + 1 \<and> d = l ! g)"
| "pc_ok q H l (Push_Load d) = True"
| "pc_ok q H l (Push_Check h g d) = (h = of_nat g \<and> g \<le> length l)"
| "pc_ok q H l (Push_Cas h g d) =
     (h = of_nat g \<and> g \<le> length l
      \<and> (g = length l \<longrightarrow> length l < H + capacity q \<and> seqp q (length l) = of_nat (length l)))"
| "pc_ok q H l (Push_Write h g d) =
     (h = of_nat g \<and> H \<le> g \<and> g < length l \<and> seqp q g = of_nat g \<and> d = l ! g)"
| "pc_ok q H l (Push_Release h g d) =
     (h = of_nat g \<and> H \<le> g \<and> g < length l \<and> seqp q g = of_nat g \<and> d = l ! g
      \<and> cell_data (cellp q g) = d)"

definition base_ok :: "mpmc_queue \<Rightarrow> nat \<Rightarrow> u64 list \<Rightarrow> bool" where
  "base_ok q H l \<longleftrightarrow> (\<exists>k. ring_ok q k) \<and> q_head q = of_nat H \<and> q_tail q = of_nat (length l)
     \<and> H \<le> length l \<and> length l \<le> H + capacity q"

text \<open>The cells from head to tail are full or being filled, the rest are free or being emptied.\<close>

definition full_ok :: "mpmc_queue \<Rightarrow> nat \<Rightarrow> u64 list \<Rightarrow> (nat \<Rightarrow> pc) \<Rightarrow> bool" where
  "full_ok q H l ps \<longleftrightarrow> (\<forall>p. H \<le> p \<and> p < length l \<longrightarrow>
       seqp q p = of_nat p \<and> (\<exists>t. push_pos (ps t) = Some p)
     \<or> seqp q p = of_nat p + 1 \<and> cell_data (cellp q p) = l ! p)"

definition free_ok :: "mpmc_queue \<Rightarrow> nat \<Rightarrow> u64 list \<Rightarrow> (nat \<Rightarrow> pc) \<Rightarrow> bool" where
  "free_ok q H l ps \<longleftrightarrow> (\<forall>p. length l \<le> p \<and> p < H + capacity q \<longrightarrow>
       seqp q p = of_nat p
     \<or> capacity q \<le> p \<and> seqp q p = of_nat p - of_nat (capacity q) + 1
       \<and> (\<exists>t. pull_pos (ps t) = Some (p - capacity q)))"

definition unique_ok :: "(nat \<Rightarrow> pc) \<Rightarrow> bool" where
  "unique_ok ps \<longleftrightarrow> (\<forall>t u g. (pull_pos (ps t) = Some g \<and> pull_pos (ps u) = Some g
      \<or> push_pos (ps t) = Some g \<and> push_pos (ps u) = Some g) \<longrightarrow> t = u)"

definition delivered_ok :: "nat \<Rightarrow> u64 list \<Rightarrow> (nat \<Rightarrow> pc) \<Rightarrow> (nat \<times> u64) list \<Rightarrow> bool" where
  "delivered_ok H l ps dl \<longleftrightarrow> distinct (map fst dl)
     \<and> (\<forall>(g, d) \<in> set dl. g < H \<and> d = l ! g \<and> (\<forall>t. pull_pos (ps t) \<noteq> Some g))
     \<and> (\<forall>g < H. g \<in> fst ` set dl \<or> (\<exists>t. pull_pos (ps t) = Some g))"

definition minv :: "cstate \<Rightarrow> bool" where
  "minv s \<longleftrightarrow> base_ok (cq s) (pulls s) (plog s)
     \<and> (\<forall>t. pc_ok (cq s) (pulls s) (plog s) (pcs s t))
     \<and> full_ok (cq s) (pulls s) (plog s) (pcs s) \<and> free_ok (cq s) (pulls s) (plog s) (pcs s)
     \<and> unique_ok (pcs s) \<and> delivered_ok (pulls s) (plog s) (pcs s) (delivered s)"


section \<open>Positions and cells\<close>

lemma of_nat_near:
  assumes "(of_nat a :: u32) = of_nat b" "b \<le> a" "a - b < 2 ^ 32"
  shows "a = b"
proof -
  have "(of_nat (a - b) :: u32) = 0" using assms(1,2) by (simp add: of_nat_diff)
  moreover have "unat (of_nat (a - b) :: u32) = a - b"
    using assms(3) by (simp add: unat_of_nat)
  ultimately show ?thesis using assms(2) by simp
qed

lemma capacity_words:
  assumes "ring_ok q k"
  shows "(of_nat (capacity q) :: u32) \<noteq> 0" "(of_nat (capacity q) :: u32) \<noteq> 1"
    "2 \<le> capacity q" "q_buffer_mask q + 1 = of_nat (capacity q)"
proof -
  note b = ring_capacity_pos [OF assms]
  show "2 \<le> capacity q" using b by simp
  show "(of_nat (capacity q) :: u32) \<noteq> 0"
    using of_nat_near [of "capacity q" 0] b by auto
  show "(of_nat (capacity q) :: u32) \<noteq> 1"
    using of_nat_near [of "capacity q" 1] b by fastforce
  show "q_buffer_mask q + 1 = of_nat (capacity q)"
    using assms by (simp add: ring_ok_def mask_eq_exp_minus_1)
qed

lemma cell_at_of_nat: "ring_ok q k \<Longrightarrow> cell_at q (of_nat p) = cellp q p"
  using cell_index_add [of q k 0 p] by (simp add: cell_at_def cellp_def)

lemma same_cell_near:
  assumes "p mod c = g mod (c :: nat)" "p < g + c" "g < p + c"
  shows "p = g"
proof -
  have "p - min p g < c" "g - min p g < c" using assms(2,3) by auto
  then show ?thesis
    using mod_add_cancel_less [of "min p g" "p - min p g" c "g - min p g"] assms(1) by auto
qed

lemma cellp_set_cell:
  assumes "ring_ok q k"
  shows "cellp (set_cell q (of_nat g) c) p = (if p mod capacity q = g mod capacity q then c else cellp q p)"
proof -
  have "g mod capacity q < length (q_buffer q)"
    using capacity_words(3) [OF assms] by (intro mod_less_divisor[THEN less_le_trans]) (auto simp: capacity_def)
  with cell_index_add [OF assms, of 0 g] show ?thesis
    by (simp add: cellp_def set_cell_def capacity_def nth_list_update)
qed

lemma cellp_counters [simp]:
  "cellp (q\<lparr>q_head := h\<rparr>) p = cellp q p" "cellp (q\<lparr>q_tail := h\<rparr>) p = cellp q p"
  "seqp (q\<lparr>q_head := h\<rparr>) p = seqp q p" "seqp (q\<lparr>q_tail := h\<rparr>) p = seqp q p"
  by (simp_all add: cellp_def seqp_def)

lemma goto_simps [simp]:
  "cq (goto s t p) = cq s" "pulls (goto s t p) = pulls s" "plog (goto s t p) = plog s"
  "delivered (goto s t p) = delivered s" "pcs (goto s t p) = (pcs s)(t := p)"
  by (simp_all add: goto_def)

section \<open>The invariant is kept\<close>

text \<open>Steps that only move a thread without claiming or giving up a position.\<close>

lemma minv_goto:
  assumes "minv s" "pull_pos p = pull_pos (pcs s t)" "push_pos p = push_pos (pcs s t)"
    and "pc_ok (cq s) (pulls s) (plog s) p"
  shows "minv (goto s t p)"
proof -
  have "pull_pos (((pcs s)(t := p)) u) = pull_pos (pcs s u)" "push_pos (((pcs s)(t := p)) u) = push_pos (pcs s u)"
    for u using assms(2,3) by auto
  with assms(1,4) show ?thesis
    by (simp add: minv_def full_ok_def free_ok_def unique_ok_def delivered_ok_def)
qed

lemma minv_D:
  assumes "minv s"
  obtains k where "ring_ok (cq s) k" "q_head (cq s) = of_nat (pulls s)"
    "q_tail (cq s) = of_nat (length (plog s))" "pulls s \<le> length (plog s)"
    "length (plog s) \<le> pulls s + capacity (cq s)"
    "\<And>t. pc_ok (cq s) (pulls s) (plog s) (pcs s t)"
    "full_ok (cq s) (pulls s) (plog s) (pcs s)" "free_ok (cq s) (pulls s) (plog s) (pcs s)"
    "unique_ok (pcs s)" "delivered_ok (pulls s) (plog s) (pcs s) (delivered s)"
  using assms by (auto simp: minv_def base_ok_def)

lemma full_cases:
  assumes "full_ok q H l ps" "H \<le> p" "p < length l"
  obtains t where "seqp q p = of_nat p" "push_pos (ps t) = Some p"
  | "seqp q p = of_nat p + 1" "cell_data (cellp q p) = l ! p"
  using assms by (auto simp: full_ok_def)

lemma free_cases:
  assumes "free_ok q H l ps" "length l \<le> p" "p < H + capacity q"
  obtains "seqp q p = of_nat p"
  | t where "capacity q \<le> p" "seqp q p = of_nat p - of_nat (capacity q) + 1"
    "pull_pos (ps t) = Some (p - capacity q)"
  using assms by (auto simp: free_ok_def)

text \<open>A cell whose sequence number is one more than the head position is full.\<close>

lemma match_full:
  assumes m: "minv s" and seq: "seqp (cq s) (pulls s) = of_nat (pulls s) + 1"
  shows "pulls s < length (plog s)"
proof (rule ccontr)
  assume "\<not> pulls s < length (plog s)"
  with m obtain k where k: "ring_ok (cq s) k" and l: "length (plog s) = pulls s"
    and f: "free_ok (cq s) (pulls s) (plog s) (pcs s)" by (auto elim!: minv_D)
  show False
    by (rule free_cases [OF f, of "pulls s"]) (use l seq capacity_words [OF k] in auto)
qed

text \<open>A cell whose sequence number is the tail position is free.\<close>

lemma match_free:
  assumes m: "minv s" and seq: "seqp (cq s) (length (plog s)) = of_nat (length (plog s))"
  shows "length (plog s) < pulls s + capacity (cq s)"
proof (rule ccontr)
  let ?c = "capacity (cq s)"
  assume "\<not> length (plog s) < pulls s + ?c"
  with m obtain k where k: "ring_ok (cq s) k" and l: "length (plog s) = pulls s + ?c"
    and f: "full_ok (cq s) (pulls s) (plog s) (pcs s)" by (auto elim!: minv_D)
  have "seqp (cq s) (pulls s) = of_nat (pulls s) + of_nat ?c"
    using seq l by (simp add: seqp_def cellp_def)
  then show False
    by - (rule full_cases [OF f, of "pulls s"], use l capacity_words [OF k] in auto)
qed


lemma other_cell: "p \<noteq> g \<Longrightarrow> p < g + c \<Longrightarrow> g < p + c \<Longrightarrow> p mod c \<noteq> g mod (c :: nat)"
  using same_cell_near by blast

lemma seqp_set_cell:
  "ring_ok q k \<Longrightarrow> seqp (set_cell q (of_nat g) c) p
     = (if p mod capacity q = g mod capacity q then cell_sequence c else seqp q p)"
  by (simp add: seqp_def cellp_set_cell)

lemma seqp_wrap: "seqp q (p + capacity q) = seqp q p"
  by (simp add: seqp_def cellp_def)

text \<open>What the other threads rely on survives each of the changes of the queue.\<close>

lemma pc_ok_pull_cas:
  assumes "pc_ok q H l p" "seqp q H = of_nat H + 1"
  shows "pc_ok (q\<lparr>q_head := x\<rparr>) (Suc H) l p"
  using assms by (cases p) (auto simp: capacity_def Suc_le_eq le_less)

lemma pc_ok_push_cas:
  assumes k: "ring_ok q k" and p: "pc_ok q H l p" and s: "seqp q (length l) = of_nat (length l)"
    and H: "H \<le> length l"
  shows "pc_ok (q\<lparr>q_tail := x\<rparr>) H (l @ [d]) p"
proof -
  have room: "Suc (length l) \<le> g + capacity q" if "length l \<le> g + capacity q" "seqp q g = of_nat g + 1" for g
  proof (rule ccontr)
    assume "\<not> Suc (length l) \<le> g + capacity q"
    with that have "length l = g + capacity q" by simp
    with s that(2) have "of_nat g + of_nat (capacity q) = (of_nat g + 1 :: u32)"
      by (simp add: seqp_wrap)
    with capacity_words(2) [OF k] show False by simp
  qed
  show ?thesis
  proof (cases p)
    case (Pull_Read h g)
    with p room [of g] H show ?thesis by (simp add: nth_append capacity_def)
  next
    case (Pull_Release h g d)
    with p room [of g] H show ?thesis by (simp add: nth_append capacity_def)
  qed (use p H in \<open>simp_all add: nth_append\<close>)
qed

lemma pc_ok_fill:
  assumes k: "ring_ok q k" and p: "pc_ok q H l p" "push_pos p \<noteq> Some g0"
    and g0: "H \<le> g0" "g0 < length l" "length l \<le> H + capacity q" "seqp q g0 = of_nat g0"
  shows "pc_ok (set_cell q (of_nat g0) c) H l p"
proof (cases p)
  case (Pull_Cas h g)
  have "H mod capacity q \<noteq> g0 mod capacity q" if "seqp q H = of_nat H + 1"
  proof
    assume "H mod capacity q = g0 mod capacity q"
    then have "H = g0" by (rule same_cell_near) (use g0 in auto)
    with that g0(4) show False by simp
  qed
  with p Pull_Cas show ?thesis by (cases "g = H") (simp_all add: seqp_set_cell [OF k])
next
  case (Push_Cas h g d)
  have "length l mod capacity q \<noteq> g0 mod capacity q" if "length l < H + capacity q"
    using that g0 by (intro other_cell) auto
  with p Push_Cas show ?thesis by (cases "g = length l") (simp_all add: seqp_set_cell [OF k])
next
  case (Pull_Read h g)
  with p g0 have "g mod capacity q \<noteq> g0 mod capacity q" by (intro other_cell) auto
  with p Pull_Read show ?thesis by (auto simp: seqp_set_cell [OF k] cellp_set_cell [OF k])
next
  case (Pull_Release h g d)
  with p g0 have "g mod capacity q \<noteq> g0 mod capacity q" by (intro other_cell) auto
  with p Pull_Release show ?thesis by (auto simp: seqp_set_cell [OF k])
next
  case (Push_Write h g d)
  with p g0 have "g mod capacity q \<noteq> g0 mod capacity q" by (intro other_cell) auto
  with p Push_Write show ?thesis by (auto simp: seqp_set_cell [OF k])
next
  case (Push_Release h g d)
  with p g0 have "g mod capacity q \<noteq> g0 mod capacity q" by (intro other_cell) auto
  with p Push_Release show ?thesis by (auto simp: seqp_set_cell [OF k] cellp_set_cell [OF k])
qed (use p in auto)

lemma pc_ok_empty:
  assumes k: "ring_ok q k" and p: "pc_ok q H l p" "pull_pos p \<noteq> Some g0"
    and g0: "g0 < H" "H \<le> length l" "length l \<le> g0 + capacity q" "seqp q g0 = of_nat g0 + 1"
  shows "pc_ok (set_cell q (of_nat g0) c) H l p"
proof (cases p)
  case (Pull_Cas h g)
  have "H mod capacity q \<noteq> g0 mod capacity q" if "H < length l"
    using that g0 by (intro other_cell) auto
  with p Pull_Cas show ?thesis by (cases "g = H") (simp_all add: seqp_set_cell [OF k])
next
  case (Push_Cas h g d)
  have "length l mod capacity q \<noteq> g0 mod capacity q" if s: "seqp q (length l) = of_nat (length l)"
  proof (cases "length l = g0 + capacity q")
    case True
    with s g0(4) have "of_nat g0 + of_nat (capacity q) = (of_nat g0 + 1 :: u32)"
      by (simp add: seqp_wrap)
    with capacity_words(2) [OF k] show ?thesis by simp
  qed (use g0 in \<open>intro other_cell, auto\<close>)
  with p Push_Cas show ?thesis by (cases "g = length l") (simp_all add: seqp_set_cell [OF k])
next
  case (Pull_Read h g)
  with p g0 have "g mod capacity q \<noteq> g0 mod capacity q" by (intro other_cell) auto
  with p Pull_Read show ?thesis by (auto simp: seqp_set_cell [OF k] cellp_set_cell [OF k])
next
  case (Pull_Release h g d)
  with p g0 have "g mod capacity q \<noteq> g0 mod capacity q" by (intro other_cell) auto
  with p Pull_Release show ?thesis by (auto simp: seqp_set_cell [OF k])
next
  case (Push_Write h g d)
  with p g0 have "g mod capacity q \<noteq> g0 mod capacity q" by (intro other_cell) auto
  with p Push_Write show ?thesis by (auto simp: seqp_set_cell [OF k])
next
  case (Push_Release h g d)
  with p g0 have "g mod capacity q \<noteq> g0 mod capacity q" by (intro other_cell) auto
  with p Push_Release show ?thesis by (auto simp: seqp_set_cell [OF k] cellp_set_cell [OF k])
qed (use p in auto)


lemma ex_upd_None: "f (ps t) = None \<Longrightarrow> f p = None \<Longrightarrow> (\<exists>u. f ((ps(t := p)) u) = Some g) \<longleftrightarrow> (\<exists>u. f (ps u) = Some g)"
  by (metis fun_upd_apply option.distinct(1))

lemma ex_upd_Some: "f (ps t) = None \<Longrightarrow> f p = Some x \<Longrightarrow>
    (\<exists>u. f ((ps(t := p)) u) = Some g) \<longleftrightarrow> g = x \<or> (\<exists>u. f (ps u) = Some g)"
  by (metis fun_upd_apply option.distinct(1) option.inject)

lemma minv_pull_cas:
  assumes m: "minv s" and t: "pcs s t = Pull_Cas h g" and h: "q_head (cq s) = h"
    and near: "pulls s - g < 2 ^ 32"
  shows "minv (goto (s\<lparr>cq := (cq s)\<lparr>q_head := h + 1\<rparr>, pulls := pulls s + 1\<rparr>) t (Pull_Read h (pulls s)))"
proof -
  let ?H = "pulls s" and ?l = "plog s" and ?q = "cq s" and ?q' = "(cq s)\<lparr>q_head := h + 1\<rparr>"
  let ?ps = "(pcs s)(t := Pull_Read h (pulls s))"
  from m obtain k where k: "ring_ok ?q k" and hd: "q_head ?q = of_nat ?H" and tl: "q_tail ?q = of_nat (length ?l)"
    and len: "length ?l \<le> ?H + capacity ?q"
    and pc: "\<And>u. pc_ok ?q ?H ?l (pcs s u)"
    and full: "full_ok ?q ?H ?l (pcs s)" and free: "free_ok ?q ?H ?l (pcs s)"
    and un: "unique_ok (pcs s)" and del: "delivered_ok ?H ?l (pcs s) (delivered s)"
    by (elim minv_D) blast
  from pc [of t] t have g: "h = of_nat g" "g \<le> ?H" by simp_all
  with h hd near have gH: "g = ?H" using of_nat_near [of ?H g] by simp
  with pc [of t] t have HT: "?H < length ?l" and sq: "seqp ?q ?H = of_nat ?H + 1" by simp_all
  have dat: "cell_data (cellp ?q ?H) = ?l ! ?H"
    using full HT sq by (auto elim!: full_cases [of _ _ _ _ ?H])
  have Hpull: "pull_pos (pcs s u) \<noteq> Some ?H" for u
    using pc [of u] by (cases "pcs s u") auto
  have upd: "(\<exists>u. pull_pos (?ps u) = Some x) \<longleftrightarrow> x = ?H \<or> (\<exists>u. pull_pos (pcs s u) = Some x)"
      "(\<exists>u. push_pos (?ps u) = Some x) \<longleftrightarrow> (\<exists>u. push_pos (pcs s u) = Some x)" for x
    by (rule ex_upd_Some [where f = pull_pos] ex_upd_None [where f = push_pos]; simp add: t)+
  have "base_ok ?q' (Suc ?H) ?l"
    using k tl len HT g gH by (auto simp: base_ok_def)
  moreover have "pc_ok ?q' (Suc ?H) ?l (?ps u)" for u
    using pc_ok_pull_cas [OF pc sq] dat sq g gH len by (auto simp: capacity_def)
  moreover have "full_ok ?q' (Suc ?H) ?l ?ps"
    using full unfolding full_ok_def upd by auto
  moreover have "free_ok ?q' (Suc ?H) ?l ?ps"
    using free sq seqp_wrap [of ?q ?H] unfolding free_ok_def upd
    by (auto simp: less_Suc_eq capacity_def)
  moreover have "unique_ok ?ps"
    using un Hpull t by (auto simp: unique_ok_def split: if_splits)
  moreover have "delivered_ok (Suc ?H) ?l ?ps (delivered s)"
    using del t unfolding delivered_ok_def upd by (auto simp: less_Suc_eq split: if_splits)
  ultimately show ?thesis by (simp add: minv_def)
qed

lemma minv_push_cas:
  assumes m: "minv s" and t: "pcs s t = Push_Cas h g d" and h: "q_tail (cq s) = h"
    and near: "length (plog s) - g < 2 ^ 32"
  shows "minv (goto (s\<lparr>cq := (cq s)\<lparr>q_tail := h + 1\<rparr>, plog := plog s @ [d]\<rparr>) t
      (Push_Write h (length (plog s)) d))"
proof -
  let ?H = "pulls s" and ?l = "plog s" and ?q = "cq s" and ?q' = "(cq s)\<lparr>q_tail := h + 1\<rparr>"
  let ?T = "length (plog s)"
  let ?ps = "(pcs s)(t := Push_Write h ?T d)"
  from m obtain k where k: "ring_ok ?q k" and hd: "q_head ?q = of_nat ?H" and tl: "q_tail ?q = of_nat ?T"
    and HT: "?H \<le> ?T"
    and pc: "\<And>u. pc_ok ?q ?H ?l (pcs s u)"
    and full: "full_ok ?q ?H ?l (pcs s)" and free: "free_ok ?q ?H ?l (pcs s)"
    and un: "unique_ok (pcs s)" and del: "delivered_ok ?H ?l (pcs s) (delivered s)"
    by (elim minv_D) blast
  from pc [of t] t have g: "h = of_nat g" "g \<le> ?T" by simp_all
  with h tl near have gT: "g = ?T" using of_nat_near [of ?T g] by simp
  with pc [of t] t have room: "?T < ?H + capacity ?q" and sq: "seqp ?q ?T = of_nat ?T" by simp_all
  have Tpush: "push_pos (pcs s u) \<noteq> Some ?T" for u
    using pc [of u] by (cases "pcs s u") auto
  have upd: "(\<exists>u. push_pos (?ps u) = Some x) \<longleftrightarrow> x = ?T \<or> (\<exists>u. push_pos (pcs s u) = Some x)"
      "(\<exists>u. pull_pos (?ps u) = Some x) \<longleftrightarrow> (\<exists>u. pull_pos (pcs s u) = Some x)" for x
    by (rule ex_upd_Some [where f = push_pos] ex_upd_None [where f = pull_pos]; simp add: t)+
  have same: "pull_pos (?ps u) = pull_pos (pcs s u)" for u using t by simp
  have "base_ok ?q' ?H (?l @ [d])"
    using k hd HT room g gT by (auto simp: base_ok_def)
  moreover have "pc_ok ?q' ?H (?l @ [d]) (?ps u)" for u
    using pc_ok_push_cas [OF k pc sq HT] sq HT g gT by auto
  moreover have "full_ok ?q' ?H (?l @ [d]) ?ps"
    using full sq unfolding full_ok_def upd by (auto simp: less_Suc_eq nth_append)
  moreover have "free_ok ?q' ?H (?l @ [d]) ?ps"
    using free unfolding free_ok_def upd by (auto simp: capacity_def)
  moreover have "unique_ok ?ps"
    using un Tpush t by (auto simp: unique_ok_def split: if_splits)
  moreover have "delivered_ok ?H (?l @ [d]) ?ps (delivered s)"
    using del HT unfolding delivered_ok_def same by (auto simp: nth_append)
  ultimately show ?thesis by (simp add: minv_def)
qed


lemma ex_upd_done: "f (ps t) = Some x \<Longrightarrow> f p = None \<Longrightarrow> (\<And>u. f (ps u) = Some x \<Longrightarrow> u = t) \<Longrightarrow>
    (\<exists>u. f ((ps(t := p)) u) = Some g) \<longleftrightarrow> g \<noteq> x \<and> (\<exists>u. f (ps u) = Some g)"
  by (metis fun_upd_apply option.distinct(1) option.inject)

text \<open>Filling a cell: the write of the data and the release of the sequence number.\<close>

lemma minv_push_write:
  assumes m: "minv s" and t: "pcs s t = Push_Write h g d"
  shows "minv (goto (s\<lparr>cq := set_cell (cq s) h ((cell_at (cq s) h)\<lparr>cell_data := d\<rparr>)\<rparr>) t (Push_Release h g d))"
proof -
  let ?H = "pulls s" and ?l = "plog s" and ?q = "cq s"
  let ?q' = "set_cell (cq s) h ((cell_at (cq s) h)\<lparr>cell_data := d\<rparr>)"
  let ?ps = "(pcs s)(t := Push_Release h g d)"
  from m obtain k where k: "ring_ok ?q k" and hd: "q_head ?q = of_nat ?H" and tl: "q_tail ?q = of_nat (length ?l)"
    and HT: "?H \<le> length ?l" and len: "length ?l \<le> ?H + capacity ?q"
    and pc: "\<And>u. pc_ok ?q ?H ?l (pcs s u)"
    and full: "full_ok ?q ?H ?l (pcs s)" and free: "free_ok ?q ?H ?l (pcs s)"
    and un: "unique_ok (pcs s)" and del: "delivered_ok ?H ?l (pcs s) (delivered s)"
    by (elim minv_D) blast
  from pc [of t] t have g: "h = of_nat g" "?H \<le> g" "g < length ?l" "seqp ?q g = of_nat g" "d = ?l ! g"
    by simp_all
  have sq: "seqp ?q' p = seqp ?q p" for p
  proof (cases "p mod capacity ?q = g mod capacity ?q")
    case True
    then have "cellp ?q p = cellp ?q g" by (simp add: cellp_def)
    with True show ?thesis
      using seqp_set_cell [OF k, of g] by (simp add: g(1) cell_at_of_nat [OF k]) (simp add: seqp_def)
  qed (simp add: g(1) seqp_set_cell [OF k])
  have dt: "cell_data (cellp ?q' p) = cell_data (cellp ?q p)"
    if "?H \<le> p" "p < ?H + capacity ?q" "p \<noteq> g" for p
  proof -
    have "p mod capacity ?q \<noteq> g mod capacity ?q" using that g len by (intro other_cell) auto
    then show ?thesis by (simp add: g(1) cellp_set_cell [OF k])
  qed
  have dg: "cell_data (cellp ?q' g) = d" by (simp add: g(1) cellp_set_cell [OF k])
  have same: "push_pos (?ps u) = push_pos (pcs s u)" "pull_pos (?ps u) = pull_pos (pcs s u)" for u
    using t by auto
  have other: "push_pos (pcs s u) \<noteq> Some g" if "u \<noteq> t" for u
    using un t that by (auto simp: unique_ok_def)
  have "base_ok ?q' ?H ?l" using k hd tl HT len by (auto simp: base_ok_def)
  moreover have "pc_ok ?q' ?H ?l (?ps u)" for u
    using pc_ok_fill [OF k pc [of u] other g(2,3) len g(4), folded g(1)] dg sq g by (cases "u = t") auto
  moreover have "full_ok ?q' ?H ?l ?ps"
    using full dt g len unfolding full_ok_def same sq
    by (metis add_cancel_right_right less_le_trans one_neq_zero)
  moreover have "free_ok ?q' ?H ?l ?ps"
    using free unfolding free_ok_def same sq by simp
  moreover have "unique_ok ?ps" using un unfolding unique_ok_def same .
  moreover have "delivered_ok ?H ?l ?ps (delivered s)" using del unfolding delivered_ok_def same .
  ultimately show ?thesis by (simp add: minv_def)
qed

lemma minv_push_release:
  assumes m: "minv s" and t: "pcs s t = Push_Release h g d"
  shows "minv (goto (s\<lparr>cq := set_cell (cq s) h ((cell_at (cq s) h)\<lparr>cell_sequence := h + 1\<rparr>)\<rparr>) t Idle)"
proof -
  let ?H = "pulls s" and ?l = "plog s" and ?q = "cq s"
  let ?q' = "set_cell (cq s) h ((cell_at (cq s) h)\<lparr>cell_sequence := h + 1\<rparr>)"
  let ?ps = "(pcs s)(t := Idle)"
  from m obtain k where k: "ring_ok ?q k" and hd: "q_head ?q = of_nat ?H" and tl: "q_tail ?q = of_nat (length ?l)"
    and HT: "?H \<le> length ?l" and len: "length ?l \<le> ?H + capacity ?q"
    and pc: "\<And>u. pc_ok ?q ?H ?l (pcs s u)"
    and full: "full_ok ?q ?H ?l (pcs s)" and free: "free_ok ?q ?H ?l (pcs s)"
    and un: "unique_ok (pcs s)" and del: "delivered_ok ?H ?l (pcs s) (delivered s)"
    by (elim minv_D) blast
  from pc [of t] t have g: "h = of_nat g" "?H \<le> g" "g < length ?l" "seqp ?q g = of_nat g" "d = ?l ! g"
    and gd: "cell_data (cellp ?q g) = d" by simp_all
  have other: "push_pos (pcs s u) \<noteq> Some g" if "u \<noteq> t" for u
    using un t that by (auto simp: unique_ok_def)
  have far: "cellp ?q' p = cellp ?q p" if "?H \<le> p" "p < ?H + capacity ?q" "p \<noteq> g" for p
  proof -
    have "p mod capacity ?q \<noteq> g mod capacity ?q" using that g len by (intro other_cell) auto
    then show ?thesis by (simp add: g(1) cellp_set_cell [OF k])
  qed
  have at: "seqp ?q' g = of_nat g + 1" "cell_data (cellp ?q' g) = d"
    using gd by (simp_all add: g(1) cellp_set_cell [OF k] seqp_def cell_at_of_nat [OF k])
  have upd: "(\<exists>u. push_pos (?ps u) = Some x) \<longleftrightarrow> x \<noteq> g \<and> (\<exists>u. push_pos (pcs s u) = Some x)" for x
    by (rule ex_upd_done [where f = push_pos]) (use t other in auto)
  have same: "pull_pos (?ps u) = pull_pos (pcs s u)" for u using t by simp
  have "base_ok ?q' ?H ?l" using k hd tl HT len by (auto simp: base_ok_def)
  moreover have "pc_ok ?q' ?H ?l (?ps u)" for u
    using pc_ok_fill [OF k pc [of u] other g(2,3) len g(4), folded g(1)] by (cases "u = t") auto
  moreover have "full_ok ?q' ?H ?l ?ps"
    unfolding full_ok_def
  proof (intro allI impI)
    fix p assume p: "?H \<le> p \<and> p < length ?l"
    show "seqp ?q' p = of_nat p \<and> (\<exists>t. push_pos (?ps t) = Some p)
        \<or> seqp ?q' p = of_nat p + 1 \<and> cell_data (cellp ?q' p) = ?l ! p"
    proof (cases "p = g")
      case False
      have "cellp ?q' p = cellp ?q p" by (rule far) (use p len False in auto)
      with full p False show ?thesis unfolding full_ok_def upd seqp_def by simp
    qed (use at g in simp)
  qed
  moreover have "free_ok ?q' ?H ?l ?ps"
  proof -
    have "seqp ?q' p = seqp ?q p" if "length ?l \<le> p" "p < ?H + capacity ?q" for p
      unfolding seqp_def by (subst far) (use that g HT in auto)
    with free show ?thesis unfolding free_ok_def same by simp
  qed
  moreover have "unique_ok ?ps" using un t by (auto simp: unique_ok_def)
  moreover have "delivered_ok ?H ?l ?ps (delivered s)" using del unfolding delivered_ok_def same .
  ultimately show ?thesis by (simp add: minv_def)
qed


lemma minv_pull_release:
  assumes m: "minv s" and t: "pcs s t = Pull_Release h g d"
  shows "minv (goto (s\<lparr>cq := set_cell (cq s) h
        ((cell_at (cq s) h)\<lparr>cell_sequence := h + q_buffer_mask (cq s) + 1\<rparr>),
      delivered := delivered s @ [(g, d)]\<rparr>) t Idle)"
proof -
  let ?H = "pulls s" and ?l = "plog s" and ?q = "cq s"
  let ?q' = "set_cell (cq s) h ((cell_at (cq s) h)\<lparr>cell_sequence := h + q_buffer_mask (cq s) + 1\<rparr>)"
  let ?ps = "(pcs s)(t := Idle)"
  from m obtain k where k: "ring_ok ?q k" and hd: "q_head ?q = of_nat ?H" and tl: "q_tail ?q = of_nat (length ?l)"
    and HT: "?H \<le> length ?l" and len: "length ?l \<le> ?H + capacity ?q"
    and pc: "\<And>u. pc_ok ?q ?H ?l (pcs s u)"
    and full: "full_ok ?q ?H ?l (pcs s)" and free: "free_ok ?q ?H ?l (pcs s)"
    and un: "unique_ok (pcs s)" and del: "delivered_ok ?H ?l (pcs s) (delivered s)"
    by (elim minv_D) blast
  from pc [of t] t have g: "h = of_nat g" "g < ?H" "length ?l \<le> g + capacity ?q" "seqp ?q g = of_nat g + 1"
    and d: "d = ?l ! g" by simp_all
  have other: "pull_pos (pcs s u) \<noteq> Some g" if "u \<noteq> t" for u
    using un t that by (auto simp: unique_ok_def)
  have wrap: "of_nat g + q_buffer_mask ?q + 1 = of_nat (g + capacity ?q)"
    using capacity_words(4) [OF k] by (simp add: add.assoc)
  have far: "cellp ?q' p = cellp ?q p" if "?H \<le> p" "p < ?H + capacity ?q" "p \<noteq> g + capacity ?q" for p
  proof -
    have "p mod capacity ?q \<noteq> (g + capacity ?q) mod capacity ?q"
      using that g HT by (intro other_cell) auto
    then show ?thesis by (simp add: g(1) cellp_set_cell [OF k])
  qed
  have at: "seqp ?q' (g + capacity ?q) = of_nat (g + capacity ?q)"
    unfolding g(1) seqp_set_cell [OF k] wrap by simp
  have upd: "(\<exists>u. pull_pos (?ps u) = Some x) \<longleftrightarrow> x \<noteq> g \<and> (\<exists>u. pull_pos (pcs s u) = Some x)" for x
    by (rule ex_upd_done [where f = pull_pos]) (use t other in auto)
  have same: "push_pos (?ps u) = push_pos (pcs s u)" for u using t by simp
  have "base_ok ?q' ?H ?l" using k hd tl HT len by (auto simp: base_ok_def)
  moreover have "pc_ok ?q' ?H ?l (?ps u)" for u
    using pc_ok_empty [OF k pc [of u] other g(2) HT g(3,4), folded g(1)] by (cases "u = t") auto
  moreover have "full_ok ?q' ?H ?l ?ps"
  proof -
    have "cellp ?q' p = cellp ?q p" if "?H \<le> p" "p < length ?l" for p
      by (rule far) (use that g len in auto)
    with full show ?thesis unfolding full_ok_def same seqp_def by simp
  qed
  moreover have "free_ok ?q' ?H ?l ?ps"
    unfolding free_ok_def upd
  proof (intro allI impI)
    fix p assume p: "length ?l \<le> p \<and> p < ?H + capacity ?q'"
    show "seqp ?q' p = of_nat p \<or> capacity ?q' \<le> p \<and> seqp ?q' p = of_nat p - of_nat (capacity ?q') + 1
        \<and> p - capacity ?q' \<noteq> g \<and> (\<exists>u. pull_pos (pcs s u) = Some (p - capacity ?q'))"
    proof (cases "p = g + capacity ?q")
      case False
      have "seqp ?q' p = seqp ?q p"
        unfolding seqp_def by (subst far) (use p HT False in auto)
      moreover have "seqp ?q p = of_nat p \<or> capacity ?q \<le> p \<and> seqp ?q p = of_nat p - of_nat (capacity ?q) + 1
          \<and> (\<exists>u. pull_pos (pcs s u) = Some (p - capacity ?q))"
        using free p unfolding free_ok_def set_cell_simps by blast
      moreover have "p - capacity ?q \<noteq> g" if "capacity ?q \<le> p" using that False by simp
      ultimately show ?thesis unfolding set_cell_simps by metis
    next
      case True
      show ?thesis using at unfolding True by blast
    qed
  qed
  moreover have "unique_ok ?ps" using un t by (auto simp: unique_ok_def)
  moreover have "delivered_ok ?H ?l ?ps (delivered s @ [(g, d)])"
  proof -
    have iff: "delivered_ok H l ps dl \<longleftrightarrow> distinct (map fst dl)
        \<and> (\<forall>(g, d) \<in> set dl. g < H \<and> d = l ! g \<and> \<not> (\<exists>t. pull_pos (ps t) = Some g))
        \<and> (\<forall>g < H. g \<in> fst ` set dl \<or> (\<exists>t. pull_pos (ps t) = Some g))" for H l ps dl
      by (simp add: delivered_ok_def)
    have "\<exists>u. pull_pos (pcs s u) = Some g" using t by (metis pull_pos.simps(2))
    moreover from this del have "g \<notin> fst ` set (delivered s)" unfolding iff by force
    ultimately show ?thesis using del d g(2) unfolding iff upd by auto
  qed
  ultimately show ?thesis by (simp add: minv_def)
qed

lemma minv_loads:
  assumes "minv s"
  shows "pc_ok (cq s) (pulls s) (plog s) (Pull_Check (q_head (cq s)) (pulls s))"
    "pc_ok (cq s) (pulls s) (plog s) (Push_Check (q_tail (cq s)) (length (plog s)) d)"
  using assms by (auto elim!: minv_D)

lemma minv_step: "mpmc_step s s' \<Longrightarrow> timely s \<Longrightarrow> minv s \<Longrightarrow> minv s'"
proof (induction rule: mpmc_step.induct)
  case (pull_match s t h g)
  obtain k where k: "ring_ok (cq s) k" and pc: "pc_ok (cq s) (pulls s) (plog s) (Pull_Check h g)"
    using pull_match by (metis minv_D)
  then have "seqp (cq s) g = of_nat g + 1"
    using pull_match(2) by (simp add: cell_at_of_nat seqp_def)
  with pc match_full [OF \<open>minv s\<close>] pull_match show ?case
    by (intro minv_goto) auto
next
  case (push_match s t h g d)
  obtain k where k: "ring_ok (cq s) k" and pc: "pc_ok (cq s) (pulls s) (plog s) (Push_Check h g d)"
    using push_match by (metis minv_D)
  then have "seqp (cq s) g = of_nat g"
    using push_match(2) by (simp add: cell_at_of_nat seqp_def)
  with pc match_free [OF \<open>minv s\<close>] push_match show ?case
    by (intro minv_goto) auto
next
  case (pull_read s t h g)
  obtain k where k: "ring_ok (cq s) k" and pc: "pc_ok (cq s) (pulls s) (plog s) (Pull_Read h g)"
    using pull_read by (metis minv_D)
  with pull_read show ?case by (intro minv_goto) (auto simp: cell_at_of_nat)
next
  case (pull_cas s t h g)
  then have "pulls s - g < 2 ^ 32" by (auto simp: timely_def dest!: spec [of _ t])
  with pull_cas show ?case by (intro minv_pull_cas)
next
  case (push_cas s t h g d)
  then have "length (plog s) - g < 2 ^ 32" by (auto simp: timely_def dest!: spec [of _ t])
  with push_cas show ?case by (intro minv_push_cas)
qed (auto intro: minv_push_write minv_push_release minv_pull_release minv_goto dest: minv_loads)

lemma minv_init:
  assumes "mpmc_queue_init True junk cap = Some q" "unat cap = 2 ^ k" "1 \<le> k"
  shows "minv \<lparr>cq = q, pcs = (\<lambda>_. Idle), pulls = 0, plog = [], delivered = []\<rparr>"
proof -
  have q: "q_rep q []" "capacity q = unat cap" using q_rep_init [OF assms] by simp_all
  then obtain j where j: "ring_ok q j" by (auto simp: q_rep_def)
  have hd: "q_head q = 0" "q_tail q = 0" using assms(1) by (auto simp: mpmc_queue_init_def)
  have "seqp q p = of_nat p" if "p < capacity q" for p
    using q_rep_free_cell [OF q(1), of p] that hd cell_at_of_nat [OF j, of p] by (simp add: seqp_def)
  with j hd show ?thesis
    by (auto simp: minv_def base_ok_def full_ok_def free_ok_def unique_ok_def delivered_ok_def)
qed

lemma mpmc_reach_inv:
  "mpmc_reach cap s \<Longrightarrow> unat cap = 2 ^ k \<Longrightarrow> 1 \<le> k \<Longrightarrow> minv s"
  by (induction rule: mpmc_reach.induct) (auto intro: minv_init minv_step)


section \<open>What every schedule guarantees\<close>

lemma mpmc_step_capacity: "mpmc_step s s' \<Longrightarrow> capacity (cq s') = capacity (cq s)"
  by (induction rule: mpmc_step.induct) (auto simp: capacity_def set_cell_def)

lemma mpmc_reach_capacity: "mpmc_reach cap s \<Longrightarrow> capacity (cq s) = unat cap"
  by (induction rule: mpmc_reach.induct)
    (auto simp: mpmc_step_capacity mpmc_queue_init_def capacity_def [of "mpmc_queue_ext _ _ _ _ _ _ _"])

text \<open>C3: In every interleaving of any number of pushing and pulling threads, values come out in the
  order in which their pushes advanced \<open>tail\<close>: the pull that took position \<open>g\<close> delivers exactly the
  value of the push that took position \<open>g\<close>, no position is delivered twice, and the number of
  positions claimed but not yet pulled stays within the capacity.\<close>

theorem mpmc_exactly_once:
  assumes "mpmc_reach cap s" "unat cap = 2 ^ k" "1 \<le> k"
  shows "distinct (map fst (delivered s)) \<and> (\<forall>(g, d) \<in> set (delivered s). g < pulls s \<and> d = plog s ! g)
     \<and> pulls s \<le> length (plog s) \<and> length (plog s) \<le> pulls s + unat cap"
  using mpmc_reach_inv [OF assms] mpmc_reach_capacity [OF assms(1)]
  by (auto simp: minv_def delivered_ok_def base_ok_def)

text \<open>C4: Nothing is lost: whenever no thread is inside an operation, the queue represents exactly the
  values pushed and not yet pulled, in order, and every pulled position has been delivered.\<close>

theorem mpmc_quiescent:
  assumes "mpmc_reach cap s" "unat cap = 2 ^ k" "1 \<le> k" and idle: "pcs s = (\<lambda>_. Idle)"
  shows "q_rep (cq s) (drop (pulls s) (plog s)) \<and> fst ` set (delivered s) = {..<pulls s}"
proof
  let ?H = "pulls s" and ?l = "plog s" and ?q = "cq s"
  from mpmc_reach_inv [OF assms(1-3)] obtain j where k: "ring_ok ?q j" and hd: "q_head ?q = of_nat ?H"
    and tl: "q_tail ?q = of_nat (length ?l)" and HT: "?H \<le> length ?l" and len: "length ?l \<le> ?H + capacity ?q"
    and full: "full_ok ?q ?H ?l (pcs s)" and free: "free_ok ?q ?H ?l (pcs s)"
    and del: "delivered_ok ?H ?l (pcs s) (delivered s)"
    by (elim minv_D) blast
  have "cell_ok ?q (drop ?H ?l) i" if i: "i < capacity ?q" for i
  proof -
    have pos: "q_head ?q + of_nat i = of_nat (?H + i)" by (simp add: hd)
    show ?thesis
    proof (cases "?H + i < length ?l")
      case True
      then have "seqp ?q (?H + i) = of_nat (?H + i) + 1" "cell_data (cellp ?q (?H + i)) = ?l ! (?H + i)"
        using full idle unfolding full_ok_def by auto
      then show ?thesis
        using True HT unfolding cell_ok_def Let_def pos cell_at_of_nat [OF k]
        by (cases "cellp ?q (?H + i)") (auto simp: seqp_def)
    next
      case False
      then have "seqp ?q (?H + i) = of_nat (?H + i)"
        using free idle i unfolding free_ok_def by auto
      then show ?thesis
        using False HT unfolding cell_ok_def Let_def pos cell_at_of_nat [OF k] by (auto simp: seqp_def)
    qed
  qed
  with k tl hd HT len show "q_rep ?q (drop ?H ?l)" by (auto simp: q_rep_def of_nat_diff)
  show "fst ` set (delivered s) = {..<?H}"
    using del idle unfolding delivered_ok_def by force
qed

section \<open>A run\<close>

text \<open>One thread pushes 7 and pulls it again on a ring of two cells.\<close>

lemma mpmc_run: "\<exists>s. mpmc_reach 2 s \<and> delivered s = [(0, 7)] \<and> plog s = [7] \<and> pulls s = 1 \<and> pcs s = (\<lambda>_. Idle)"
proof -
  let ?S = "\<lambda>s0 d0 hd tl p H l dl. \<lparr>cq = \<lparr>q_buffer = [\<lparr>cell_sequence = s0, cell_data = d0\<rparr>,
        \<lparr>cell_sequence = 1, cell_data = 0\<rparr>], q_buffer_mask = 1, q_head = hd, q_tail = tl,
        q_wait_empty = 0, q_wait_full = 0\<rparr>, pcs = (\<lambda>_. Idle)(0 := p), pulls = H, plog = l, delivered = dl\<rparr>"
  note ev = goto_def set_cell_def cell_at_def cell_index_def
  have tm: "timely (?S s0 d0 hd tl p H l dl)" if "H < 2 ^ 32" "length l < 2 ^ 32" for s0 d0 hd tl p H l dl
    using that unfolding timely_def by (auto split: pc.split)
  have two: "[0..<2] = [0, 1]" by (simp add: numeral_2_eq_2)
  have r0: "mpmc_reach 2 (?S 0 0 0 0 Idle 0 [] [])"
    using reach_init [of "\<lambda>_. 0" 2] by (simp add: mpmc_queue_init_def two fun_upd_idem)
  have r1: "mpmc_reach 2 (?S 0 0 0 0 (Push_Load 7) 0 [] [])"
    using push_call [of "?S 0 0 0 0 Idle 0 [] []" 0 7]
    by (intro reach_step [OF r0] tm) (simp_all add: ev)
  have r2: "mpmc_reach 2 (?S 0 0 0 0 (Push_Check 0 0 7) 0 [] [])"
    using push_load [of "?S 0 0 0 0 (Push_Load 7) 0 [] []" 0 7]
    by (intro reach_step [OF r1] tm) (simp_all add: ev)
  have r3: "mpmc_reach 2 (?S 0 0 0 0 (Push_Cas 0 0 7) 0 [] [])"
    using push_match [of "?S 0 0 0 0 (Push_Check 0 0 7) 0 [] []" 0 0 0 7]
    by (intro reach_step [OF r2] tm) (simp_all add: ev)
  have r4: "mpmc_reach 2 (?S 0 0 0 1 (Push_Write 0 0 7) 0 [7] [])"
    using push_cas [of "?S 0 0 0 0 (Push_Cas 0 0 7) 0 [] []" 0 0 0 7]
    by (intro reach_step [OF r3] tm) (simp_all add: ev)
  have r5: "mpmc_reach 2 (?S 0 7 0 1 (Push_Release 0 0 7) 0 [7] [])"
    using push_write [of "?S 0 0 0 1 (Push_Write 0 0 7) 0 [7] []" 0 0 0 7]
    by (intro reach_step [OF r4] tm) (simp_all add: ev)
  have r6: "mpmc_reach 2 (?S 1 7 0 1 Idle 0 [7] [])"
    using push_release [of "?S 0 7 0 1 (Push_Release 0 0 7) 0 [7] []" 0 0 0 7]
    by (intro reach_step [OF r5] tm) (simp_all add: ev)
  have r7: "mpmc_reach 2 (?S 1 7 0 1 Pull_Load 0 [7] [])"
    using pull_call [of "?S 1 7 0 1 Idle 0 [7] []" 0]
    by (intro reach_step [OF r6] tm) (simp_all add: ev)
  have r8: "mpmc_reach 2 (?S 1 7 0 1 (Pull_Check 0 0) 0 [7] [])"
    using pull_load [of "?S 1 7 0 1 Pull_Load 0 [7] []" 0]
    by (intro reach_step [OF r7] tm) (simp_all add: ev)
  have r9: "mpmc_reach 2 (?S 1 7 0 1 (Pull_Cas 0 0) 0 [7] [])"
    using pull_match [of "?S 1 7 0 1 (Pull_Check 0 0) 0 [7] []" 0 0 0]
    by (intro reach_step [OF r8] tm) (simp_all add: ev)
  have r10: "mpmc_reach 2 (?S 1 7 1 1 (Pull_Read 0 0) 1 [7] [])"
    using pull_cas [of "?S 1 7 0 1 (Pull_Cas 0 0) 0 [7] []" 0 0 0]
    by (intro reach_step [OF r9] tm) (simp_all add: ev)
  have r11: "mpmc_reach 2 (?S 1 7 1 1 (Pull_Release 0 0 7) 1 [7] [])"
    using pull_read [of "?S 1 7 1 1 (Pull_Read 0 0) 1 [7] []" 0 0 0]
    by (intro reach_step [OF r10] tm) (simp_all add: ev)
  have "mpmc_reach 2 (?S 2 7 1 1 Idle 1 [7] [(0, 7)])"
    using pull_release [of "?S 1 7 1 1 (Pull_Release 0 0 7) 1 [7] []" 0 0 0 7]
    by (intro reach_step [OF r11] tm) (simp_all add: ev)
  note r12 = this
  show ?thesis by (rule exI, rule conjI, rule r12) (simp add: fun_upd_idem)
qed

theorem mpmc_exactly_once_witness:
  "\<exists>s. mpmc_reach 2 s \<and> delivered s = [(0, 7)] \<and> pulls s \<le> length (plog s)"
  using mpmc_run mpmc_exactly_once [where cap = 2 and k = 1] by (auto 0 3)

theorem mpmc_quiescent_witness: "\<exists>s. mpmc_reach 2 s \<and> delivered s \<noteq> [] \<and> q_rep (cq s) []"
proof -
  obtain s where s: "mpmc_reach 2 s" "delivered s = [(0, 7)]" "plog s = [7]" "pulls s = 1" "pcs s = (\<lambda>_. Idle)"
    using mpmc_run by blast
  with mpmc_quiescent [of 2 s 1] have "q_rep (cq s) []" by simp
  with s show ?thesis by auto
qed

end
