(* ===== verification/Mpmc_Wait.thy ===== *)
theory Mpmc_Wait
  imports Mpmc_Queue
begin

text \<open>
  \<open>ntnetflow/futex.h\<close> and the blocking wrappers of \<open>ntnetflow/mpmc_queue.h\<close>.  What the other
  threads and the kernel do in between is an explicit schedule: each element says how the others
  change the queue before the next access of this thread, whether \<open>app_running\<close> is still set, and
  how a futex system call issued at that point ends.  A schedule that runs out leaves the thread
  blocked (\<open>None\<close>).
\<close>

section \<open>Schedules\<close>

datatype futex_outcome = Woken | Eagain | Futex_error

record wait_event =
  ev_act :: "mpmc_queue \<Rightarrow> mpmc_queue"
  ev_running :: bool
  ev_futex :: futex_outcome

section \<open>futex\<close>

text \<open>\<open>futex_wait\<close>: \<open>True\<close> is the return value 0, \<open>False\<close> the return value -1.\<close>

fun futex_wait :: "(mpmc_queue \<Rightarrow> u32) \<Rightarrow> u32 \<Rightarrow> wait_event list \<Rightarrow> mpmc_queue
    \<Rightarrow> (bool \<times> wait_event list \<times> mpmc_queue) option" where
  "futex_wait addr val [] q = None"
| "futex_wait addr val (e # es) q =
     (let q = ev_act e q in
      if \<not> ev_running e then Some (False, es, q)
      else if addr q \<noteq> val then Some (True, es, q)
      else case ev_futex e of
          Futex_error \<Rightarrow> Some (False, es, q)
        | _ \<Rightarrow> futex_wait addr val es q)"

lemma futex_wait_rest: "futex_wait addr val es q = Some (r, es', q') \<Longrightarrow> length es' \<le> length es"
  by (induction addr val es q rule: futex_wait.induct)
    (auto simp: Let_def split: if_splits futex_outcome.splits)

section \<open>Spinning and waiting\<close>

text \<open>
  Both wrappers have the same shape: \<open>attempt\<close> is the non-blocking operation (\<open>Some None\<close> when it
  could not be carried out), \<open>addr\<close> the counter to sleep on, and \<open>adj\<close> adds to the waiter count.
\<close>

fun spin :: "(mpmc_queue \<Rightarrow> ('r option \<times> mpmc_queue) option) \<Rightarrow> nat \<Rightarrow> wait_event list \<Rightarrow> mpmc_queue
    \<Rightarrow> ('r option \<times> wait_event list \<times> mpmc_queue) option" where
  "spin attempt 0 es q = Some (None, es, q)"
| "spin attempt (Suc n) [] q = None"
| "spin attempt (Suc n) (e # es) q =
     (case attempt (ev_act e q) of
        None \<Rightarrow> None
      | Some (Some r, q') \<Rightarrow> Some (Some r, es, q')
      | Some (None, q') \<Rightarrow> spin attempt n es q')"

function wait_loop :: "(mpmc_queue \<Rightarrow> ('r option \<times> mpmc_queue) option) \<Rightarrow> (mpmc_queue \<Rightarrow> u32)
    \<Rightarrow> (u32 \<Rightarrow> mpmc_queue \<Rightarrow> mpmc_queue) \<Rightarrow> wait_event list \<Rightarrow> mpmc_queue
    \<Rightarrow> ('r option \<times> wait_event list \<times> mpmc_queue) option" where
  "wait_loop attempt addr adj [] q = None"
| "wait_loop attempt addr adj (e # es) q =
     (let q = ev_act e q in
      if \<not> ev_running e then Some (None, es, adj (- 1) q)
      else case es of
          [] \<Rightarrow> None
        | e2 # es2 \<Rightarrow>
            (case attempt (ev_act e2 q) of
               None \<Rightarrow> None
             | Some (Some r, q') \<Rightarrow> Some (Some r, es2, adj (- 1) q')
             | Some (None, q') \<Rightarrow>
                 (case futex_wait addr (addr q) es2 q' of
                    None \<Rightarrow> None
                  | Some (False, es3, q'') \<Rightarrow> Some (None, es3, adj (- 1) q'')
                  | Some (True, es3, q'') \<Rightarrow> wait_loop attempt addr adj es3 q'')))"
  by pat_completeness auto
termination
  by (relation "measure (\<lambda>(attempt, addr, adj, es, q). length es)") (auto dest!: futex_wait_rest)

definition add_wait_empty :: "u32 \<Rightarrow> mpmc_queue \<Rightarrow> mpmc_queue" where
  "add_wait_empty n q = q\<lparr>q_wait_empty := q_wait_empty q + n\<rparr>"

definition add_wait_full :: "u32 \<Rightarrow> mpmc_queue \<Rightarrow> mpmc_queue" where
  "add_wait_full n q = q\<lparr>q_wait_full := q_wait_full q + n\<rparr>"

definition wait_op :: "(mpmc_queue \<Rightarrow> ('r option \<times> mpmc_queue) option) \<Rightarrow> (mpmc_queue \<Rightarrow> u32)
    \<Rightarrow> (u32 \<Rightarrow> mpmc_queue \<Rightarrow> mpmc_queue) \<Rightarrow> wait_event list \<Rightarrow> mpmc_queue
    \<Rightarrow> ('r option \<times> wait_event list \<times> mpmc_queue) option" where
  "wait_op attempt addr adj es q =
     (case spin attempt MAX_SPIN es q of
        None \<Rightarrow> None
      | Some (Some r, es', q') \<Rightarrow> Some (Some r, es', q')
      | Some (None, es', q') \<Rightarrow> wait_loop attempt addr adj es' (adj 1 q'))"

definition mpmc_queue_pull_wait :: "wait_event list \<Rightarrow> mpmc_queue
    \<Rightarrow> (u64 option \<times> wait_event list \<times> mpmc_queue) option" where
  "mpmc_queue_pull_wait es q = wait_op mpmc_queue_pull q_tail add_wait_empty es q"

text \<open>A push that is refused counts as an attempt that could not be carried out.\<close>

definition try_push :: "u64 \<Rightarrow> mpmc_queue \<Rightarrow> (unit option \<times> mpmc_queue) option" where
  "try_push d q = map_option (\<lambda>(ok, q'). (if ok then Some () else None, q')) (mpmc_queue_push q d)"

definition mpmc_queue_push_wait :: "u64 \<Rightarrow> wait_event list \<Rightarrow> mpmc_queue
    \<Rightarrow> (unit option \<times> wait_event list \<times> mpmc_queue) option" where
  "mpmc_queue_push_wait d es q = wait_op (try_push d) q_head add_wait_full es q"

text \<open>Waking: \<open>woken\<close> are the results of successive \<open>futex_wake\<close> calls, \<open>counts\<close> the waiter counts
  that are read before each; the result is the number of system calls made.\<close>

fun wake_loop :: "(u32 \<times> int) list \<Rightarrow> nat option" where
  "wake_loop [] = None"
| "wake_loop ((count, woken) # rest) =
     (if count = 0 then Some 0
      else if woken \<noteq> 0 then Some 1
      else map_option Suc (wake_loop rest))"

lemma wake_loop_no_waiters: "wake_loop ((0, w) # rest) = Some 0"
  by simp

section \<open>The waiter counts balance\<close>

text \<open>
  \<open>sched_adds c f es\<close>: the other threads change the counter \<open>c\<close> by \<open>f e\<close> in event \<open>e\<close>.  \<open>net c f es
  rest q q'\<close>: after the events up to \<open>rest\<close>, the counter has changed by exactly what they added.
\<close>

definition sched_adds :: "(mpmc_queue \<Rightarrow> u32) \<Rightarrow> (wait_event \<Rightarrow> u32) \<Rightarrow> wait_event list \<Rightarrow> bool" where
  "sched_adds c f es \<longleftrightarrow> (\<forall>e \<in> set es. \<forall>q. c (ev_act e q) = c q + f e)"

definition net :: "(mpmc_queue \<Rightarrow> u32) \<Rightarrow> (wait_event \<Rightarrow> u32) \<Rightarrow> wait_event list \<Rightarrow> wait_event list
    \<Rightarrow> u32 \<Rightarrow> u32 \<Rightarrow> bool" where
  "net c f es rest a b \<longleftrightarrow> (\<exists>used. es = used @ rest \<and> b = a + sum_list (map f used))"

lemma net_refl [simp]: "net c f es es a a"
  by (simp add: net_def)

lemma net_Cons: "net c f es rest (a + f e) b \<Longrightarrow> net c f (e # es) rest a b"
  unfolding net_def by (metis append_Cons list.simps(9) sum_list.Cons add.assoc)

lemma net_trans: "net c f es mid a b \<Longrightarrow> net c f mid rest b d \<Longrightarrow> net c f es rest a d"
proof -
  assume "net c f es mid a b" "net c f mid rest b d"
  then obtain u v where "es = u @ mid" "b = a + sum_list (map f u)" "mid = v @ rest"
    "d = b + sum_list (map f v)" by (auto simp: net_def)
  then have "es = (u @ v) @ rest \<and> d = a + sum_list (map f (u @ v))" by (simp add: add.assoc)
  then show ?thesis unfolding net_def by blast
qed

lemma net_shift: "net c f es rest a b \<Longrightarrow> net c f es rest (a + x) (b + x)"
  by (auto simp: net_def algebra_simps)

lemma net_adds: "net c f es rest a b \<Longrightarrow> sched_adds c f es \<Longrightarrow> sched_adds c f rest"
  by (auto simp: net_def sched_adds_def)

lemma futex_wait_net:
  "sched_adds c f es \<Longrightarrow> futex_wait addr val es q = Some (r, rest, q') \<Longrightarrow> net c f es rest (c q) (c q')"
proof (induction es arbitrary: q)
  case (Cons e es)
  have c: "c (ev_act e q) = c q + f e" "sched_adds c f es"
    using Cons.prems(1) by (auto simp: sched_adds_def)
  show ?case
  proof (cases "ev_running e \<and> addr (ev_act e q) = val \<and> ev_futex e \<noteq> Futex_error")
    case True
    with Cons.prems have "futex_wait addr val es (ev_act e q) = Some (r, rest, q')"
      by (auto simp: Let_def split: futex_outcome.splits)
    from Cons.IH [OF c(2) this] c(1) show ?thesis by (simp add: net_Cons)
  next
    case False
    with Cons.prems(2) have "rest = es" "q' = ev_act e q"
      by (auto simp: Let_def split: if_splits futex_outcome.splits)
    with c show ?thesis by (intro net_Cons) simp
  qed
qed simp

lemma spin_net:
  assumes att: "\<And>q r q'. attempt q = Some (r, q') \<Longrightarrow> c q' = c q"
  shows "sched_adds c f es \<Longrightarrow> spin attempt n es q = Some (r, rest, q') \<Longrightarrow> net c f es rest (c q) (c q')"
proof (induction n arbitrary: es q)
  case (Suc n)
  then obtain e es' where es: "es = e # es'" by (cases es) auto
  with Suc.prems obtain r1 q1 where a: "attempt (ev_act e q) = Some (r1, q1)"
    by (auto split: option.splits)
  have c: "c q1 = c q + f e" "sched_adds c f es'"
    using Suc.prems(1) att [OF a] es by (auto simp: sched_adds_def)
  have "net c f es' rest (c q1) (c q')"
    using Suc.IH [OF c(2), of q1] Suc.prems(2) a es by (cases r1) auto
  with c(1) es show ?case by (simp add: net_Cons)
qed simp

lemma wait_loop_net:
  assumes att: "\<And>q r q'. attempt q = Some (r, q') \<Longrightarrow> c q' = c q"
    and adj: "\<And>n q. c (adj n q) = c q + n"
  shows "sched_adds c f es \<Longrightarrow> wait_loop attempt addr adj es q = Some (r, rest, q')
     \<Longrightarrow> net c f es rest (c q - 1) (c q')"
proof (induction "length es" arbitrary: es q rule: less_induct)
  case less
  from less.prems obtain e es1 where es: "es = e # es1" by (cases es) auto
  let ?q = "ev_act e q"
  have c: "c ?q = c q + f e" "sched_adds c f es1" using less.prems(1) es by (auto simp: sched_adds_def)
  have "net c f es1 rest (c ?q - 1) (c q')"
  proof (cases "ev_running e")
    case False
    with less.prems(2) es adj show ?thesis by (auto simp: Let_def)
  next
    case True
    with less.prems(2) es obtain e2 es2 where es1: "es1 = e2 # es2"
      by (auto simp: Let_def split: list.splits)
    with less.prems(2) es True obtain r1 q1 where a: "attempt (ev_act e2 ?q) = Some (r1, q1)"
      by (auto simp: Let_def split: option.splits)
    have c1: "c q1 = c ?q + f e2" "sched_adds c f es2"
      using c(2) es1 att [OF a] by (auto simp: sched_adds_def)
    have "net c f es2 rest (c q1 - 1) (c q')"
    proof (cases r1)
      case (Some x)
      with less.prems(2) es es1 True a adj show ?thesis by (auto simp: Let_def)
    next
      case None
      with less.prems(2) es es1 True a obtain ok es3 q2 where
        w: "futex_wait addr (addr ?q) es2 q1 = Some (ok, es3, q2)"
        by (auto simp: Let_def split: option.splits)
      from futex_wait_net [OF c1(2) w] have n: "net c f es2 es3 (c q1) (c q2)" .
      have "net c f es3 rest (c q2 - 1) (c q')"
      proof (cases ok)
        case True2: True
        with None w less.prems(2) es es1 True a have "wait_loop attempt addr adj es3 q2 = Some (r, rest, q')"
          by (simp add: Let_def)
        with less.hyps [of es3 q2] net_adds [OF n c1(2)] futex_wait_rest [OF w] es es1 show ?thesis by simp
      next
        case False
        with None w less.prems(2) es es1 True a adj show ?thesis by (auto simp: Let_def)
      qed
      with net_shift [OF n, of "- 1"] show ?thesis by (auto intro: net_trans)
    qed
    with es1 net_Cons [of c f es2 rest "c ?q - 1" e2] c1(1) show ?thesis by (simp add: algebra_simps)
  qed
  with es net_Cons [of c f es1 rest "c q - 1" e] c(1) show ?case by (simp add: algebra_simps)
qed


lemma wait_op_net:
  assumes att: "\<And>q r q'. attempt q = Some (r, q') \<Longrightarrow> c q' = c q"
    and adj: "\<And>n q. c (adj n q) = c q + n"
    and es: "sched_adds c f es" and op: "wait_op attempt addr adj es q = Some (r, rest, q')"
  shows "net c f es rest (c q) (c q')"
proof -
  from op obtain r1 es1 q1 where s: "spin attempt MAX_SPIN es q = Some (r1, es1, q1)"
    by (auto simp: wait_op_def split: option.splits)
  from spin_net [OF att es s] have n: "net c f es es1 (c q) (c q1)" .
  show ?thesis
  proof (cases r1)
    case None
    with op s have "wait_loop attempt addr adj es1 (adj 1 q1) = Some (r, rest, q')"
      by (simp add: wait_op_def)
    from wait_loop_net [OF att adj net_adds [OF n es] this] adj n show ?thesis
      by (auto intro: net_trans)
  qed (use op s n in \<open>auto simp: wait_op_def\<close>)
qed

lemma pull_keeps_waiters:
  "mpmc_queue_pull q = Some (r, q') \<Longrightarrow> q_wait_empty q' = q_wait_empty q"
proof -
  have "pull_loop q h = Some y \<Longrightarrow> q_wait_empty (snd y) = q_wait_empty q" for h y
    by (rule pull_loop.raw_induct [of "\<lambda>q h y. q_wait_empty (snd y) = q_wait_empty q"])
      (auto simp: Let_def split: if_splits)
  then show "mpmc_queue_pull q = Some (r, q') \<Longrightarrow> q_wait_empty q' = q_wait_empty q"
    unfolding mpmc_queue_pull_def by fastforce
qed

lemma push_keeps_waiters:
  "try_push d q = Some (r, q') \<Longrightarrow> q_wait_full q' = q_wait_full q"
proof -
  have "push_loop q d h = Some y \<Longrightarrow> q_wait_full (snd y) = q_wait_full q" for h y
    by (rule push_loop.raw_induct [of "\<lambda>q d h y. q_wait_full (snd y) = q_wait_full q"])
      (auto simp: Let_def split: if_splits)
  then show "try_push d q = Some (r, q') \<Longrightarrow> q_wait_full q' = q_wait_full q"
    unfolding try_push_def mpmc_queue_push_def by fastforce
qed

text \<open>C5: However a blocking pull or push ends (the element moved while spinning or after waiting, the
  shutdown flag, a failed system call), the waiter counts it announced are taken back: they differ
  from their old values only by what the other threads added meanwhile.\<close>

theorem mpmc_wait_balanced:
  assumes "sched_adds q_wait_empty f es" "mpmc_queue_pull_wait es q = Some (r, rest, q')"
    and "sched_adds q_wait_full g fs" "mpmc_queue_push_wait d fs p = Some (r2, rest2, p')"
  shows "net q_wait_empty f es rest (q_wait_empty q) (q_wait_empty q')
     \<and> net q_wait_full g fs rest2 (q_wait_full p) (q_wait_full p')"
proof
  show "net q_wait_empty f es rest (q_wait_empty q) (q_wait_empty q')"
    by (rule wait_op_net [OF pull_keeps_waiters _ assms(1)])
      (use assms(2) in \<open>auto simp: mpmc_queue_pull_wait_def add_wait_empty_def\<close>)
  show "net q_wait_full g fs rest2 (q_wait_full p) (q_wait_full p')"
    by (rule wait_op_net [OF push_keeps_waiters _ assms(3)])
      (use assms(4) in \<open>auto simp: mpmc_queue_push_wait_def add_wait_full_def\<close>)
qed

lemma q_rep_add_wait [simp]: "q_rep (add_wait_empty n q) xs = q_rep q xs"
  by (simp add: q_rep_def ring_ok_def capacity_def cell_ok_def cell_at_def cell_index_def add_wait_empty_def)

theorem mpmc_wait_balanced_witness:
  "\<exists>q q' p'. let e = \<lparr>ev_act = id, ev_running = True, ev_futex = Woken\<rparr>;
       es = replicate 7 e @ [e\<lparr>ev_running := False\<rparr>]
     in mpmc_queue_pull_wait es q = Some (None, [], q')
        \<and> net q_wait_empty (\<lambda>_. 0) es [] (q_wait_empty q) (q_wait_empty q')
        \<and> mpmc_queue_push_wait 5 [e] q = Some (Some (), [], p')"
proof -
  let ?e = "\<lparr>ev_act = id, ev_running = True, ev_futex = Woken\<rparr>"
  let ?es = "replicate 7 ?e @ [?e\<lparr>ev_running := False\<rparr>]"
  obtain q where q: "mpmc_queue_init True (\<lambda>_. 0) 2 = Some q" by (simp add: mpmc_queue_init_def)
  from q_rep_init [OF q, of 1] have r: "q_rep q []" "capacity q = 2" by simp_all
  obtain p' where p: "mpmc_queue_push q 5 = Some (True, p')" using push_room [OF r(1), of 5] r(2) by auto
  have pull: "mpmc_queue_pull (add_wait_empty n q) = Some (None, add_wait_empty n q)"
    "mpmc_queue_pull q = Some (None, q)" for n using r pull_empty by simp_all
  have a: "sched_adds q_wait_empty (\<lambda>_. 0) ?es" "sched_adds q_wait_full (\<lambda>_. 0) [?e]"
    by (auto simp: sched_adds_def)
  have b: "mpmc_queue_pull_wait ?es q = Some (None, [], add_wait_empty (- 1) (add_wait_empty 1 q))"
    by (simp add: mpmc_queue_pull_wait_def wait_op_def MAX_SPIN_def numeral_eq_Suc pull Let_def)
  have c: "mpmc_queue_push_wait 5 [?e] q = Some (Some (), [], p')"
    by (simp add: mpmc_queue_push_wait_def wait_op_def MAX_SPIN_def numeral_eq_Suc try_push_def p)
  from mpmc_wait_balanced [OF a(1) b a(2) c] b c show ?thesis unfolding Let_def by blast
qed

end
