(* ===== verification/Flow_Table.thy ===== *)
theory Flow_Table
  imports Flow_Key Flow_Info Sw_Stats
begin

text \<open>
  \<open>ntnetflow/flowtable.c\<close>: a hash table of bucket chains.  Buckets live in a store from addresses
  to buckets: the first bucket of each chain is part of the table, later ones come from calloc.
  An entry is addressed by its bucket and its index.  Functions return \<open>None\<close> where the C code
  dereferences a null or freed bucket, shifts out of range, scans a zero word or does not return.
  The read/write locks make each function a step; \<open>trylock\<close> tells for which buckets
  \<open>pthread_rwlock_trywrlock\<close> succeeds.  Addresses are not reused after free.
\<close>

section \<open>Flags and data\<close>

definition FLOW_FLAGS_UNLEARN :: u32 where "FLOW_FLAGS_UNLEARN = push_bit 0 1"
definition FLOW_FLAGS_LEARN :: u32 where "FLOW_FLAGS_LEARN = push_bit 1 1"
definition FLOW_FLAGS_REFRESH :: u32 where "FLOW_FLAGS_REFRESH = push_bit 2 1"
definition FLOW_FLAGS_PROBE :: u32 where "FLOW_FLAGS_PROBE = push_bit 3 1"
definition FLOW_FLAGS_TRACK :: u32 where "FLOW_FLAGS_TRACK = push_bit 4 1"
definition FLOW_FLAGS_SOFTWARE :: u32 where "FLOW_FLAGS_SOFTWARE = push_bit 7 1"
definition FLOW_FLAGS_UNCHANGED :: u32 where "FLOW_FLAGS_UNCHANGED = push_bit 8 1"
definition FLOW_FLAGS_UNLEARN_PENDING :: u32 where "FLOW_FLAGS_UNLEARN_PENDING = push_bit 8 1"
definition FLOW_FLAGS_LEARN_PENDING :: u32 where "FLOW_FLAGS_LEARN_PENDING = push_bit 9 1"
definition FLOW_FLAGS_REFRESH_PENDING :: u32 where "FLOW_FLAGS_REFRESH_PENDING = push_bit 10 1"
definition FLOW_FLAGS_PROBE_PENDING :: u32 where "FLOW_FLAGS_PROBE_PENDING = push_bit 11 1"

definition FLOW_FLAGS_PENDING :: u32 where
  "FLOW_FLAGS_PENDING = FLOW_FLAGS_UNLEARN_PENDING OR FLOW_FLAGS_LEARN_PENDING
     OR FLOW_FLAGS_REFRESH_PENDING OR FLOW_FLAGS_PROBE_PENDING"

definition FLOW_FLAGS_CLEAR :: u32 where
  "FLOW_FLAGS_CLEAR = NOT (FLOW_FLAGS_UNLEARN OR FLOW_FLAGS_LEARN OR FLOW_FLAGS_REFRESH
     OR FLOW_FLAGS_PROBE OR FLOW_FLAGS_UNLEARN_PENDING OR FLOW_FLAGS_LEARN_PENDING
     OR FLOW_FLAGS_REFRESH_PENDING OR FLOW_FLAGS_PROBE_PENDING)"

lemmas flow_flag_defs =
  FLOW_FLAGS_UNLEARN_def FLOW_FLAGS_LEARN_def FLOW_FLAGS_REFRESH_def FLOW_FLAGS_PROBE_def
  FLOW_FLAGS_TRACK_def FLOW_FLAGS_SOFTWARE_def FLOW_FLAGS_UNCHANGED_def
  FLOW_FLAGS_UNLEARN_PENDING_def FLOW_FLAGS_LEARN_PENDING_def FLOW_FLAGS_REFRESH_PENDING_def
  FLOW_FLAGS_PROBE_PENDING_def FLOW_FLAGS_PENDING_def FLOW_FLAGS_CLEAR_def

definition BUCKET_DYNAMIC :: u64 where "BUCKET_DYNAMIC = 1"
definition BUCKET_TO_FREE :: u64 where "BUCKET_TO_FREE = 2"

datatype bptr = First nat | Dyn nat

type_synonym eptr = "bptr \<times> nat"

record flow_poll_list =
  poll_prev :: "eptr option"
  poll_next :: "eptr option"
  poll_skip :: u64
  poll_due :: u64

record flow_entry =
  e_bucket :: "bptr option"
  e_hash :: u32
  e_stream_id :: u8
  e_index :: u8
  e_color :: u16
  e_rc :: u32
  e_flags :: u32
  e_key_data :: "u8 list"
  e_info :: flow_info
  e_poll :: flow_poll_list

record flow_bucket =
  b_parent :: nat
  b_prev :: "bptr option"
  b_next :: "bptr option"
  b_flags :: u64
  b_unused :: u64
  b_entries :: "flow_entry list"

record flow_table =
  t_mem :: "bptr \<Rightarrow> flow_bucket option"
  t_last :: "nat \<Rightarrow> bptr option"
  t_size :: u64
  t_mask :: u64
  t_bucket_size :: u64
  t_bucket_mask :: u64
  t_fresh :: nat
  t_stats :: stats

text \<open>What calloc leaves in an entry.\<close>

definition zero_entry :: flow_entry where
  "zero_entry = \<lparr>e_bucket = None, e_hash = 0, e_stream_id = 0, e_index = 0, e_color = 0, e_rc = 0,
     e_flags = 0, e_key_data = replicate FLOW_MAX_KEY_LEN 0,
     e_info = \<lparr>fi_stream = [zero_stream, zero_stream], fi_ts = 0, fi_last_ts = 0\<rparr>,
     e_poll = \<lparr>poll_prev = None, poll_next = None, poll_skip = 0, poll_due = 0\<rparr>\<rparr>"

text \<open>The table before \<open>ft_init\<close>: the static initialisers.\<close>

definition ft_static :: "stats \<Rightarrow> flow_table" where
  "ft_static st = \<lparr>t_mem = (\<lambda>_. None), t_last = (\<lambda>_. None), t_size = 0, t_mask = 0,
     t_bucket_size = 4, t_bucket_mask = push_bit 4 1 - 1, t_fresh = 0, t_stats = st\<rparr>"

definition upd_bucket :: "flow_table \<Rightarrow> bptr \<Rightarrow> (flow_bucket \<Rightarrow> flow_bucket) \<Rightarrow> flow_table" where
  "upd_bucket t p f = t\<lparr>t_mem := (t_mem t)(p := map_option f (t_mem t p))\<rparr>"

definition upd_entry :: "flow_table \<Rightarrow> eptr \<Rightarrow> (flow_entry \<Rightarrow> flow_entry) \<Rightarrow> flow_table" where
  "upd_entry t e f = upd_bucket t (fst e)
     (\<lambda>b. b\<lparr>b_entries := (b_entries b)[snd e := f (b_entries b ! snd e)]\<rparr>)"

definition get_entry :: "flow_table \<Rightarrow> eptr \<Rightarrow> flow_entry option" where
  "get_entry t e = (case t_mem t (fst e) of
      None \<Rightarrow> None
    | Some b \<Rightarrow> if snd e < length (b_entries b) then Some (b_entries b ! snd e) else None)"

section \<open>Creating the table\<close>

text \<open>\<open>ft_init_bucket\<close> on zeroed memory.\<close>

definition ft_init_bucket :: "flow_table \<Rightarrow> bptr \<Rightarrow> nat \<Rightarrow> bptr option \<Rightarrow> bool \<Rightarrow> flow_table" where
  "ft_init_bucket t p parent prev dynamic =
     (let t = (case prev of None \<Rightarrow> t | Some q \<Rightarrow> upd_bucket t q (\<lambda>b. b\<lparr>b_next := Some p\<rparr>))
      in upd_bucket t p (\<lambda>b. b\<lparr>b_parent := parent, b_prev := prev,
           b_flags := (if dynamic then BUCKET_DYNAMIC else 0), b_unused := NOT 0, b_next := None\<rparr>))"

definition zero_bucket :: "flow_table \<Rightarrow> flow_bucket" where
  "zero_bucket t = \<lparr>b_parent = 0, b_prev = None, b_next = None, b_flags = 0, b_unused = 0,
     b_entries = replicate (unat (t_bucket_size t)) zero_entry\<rparr>"

text \<open>\<open>ft_add_bucket\<close>: \<open>calloc_ok\<close> tells whether the allocation succeeds.\<close>

definition ft_add_bucket :: "bool \<Rightarrow> flow_table \<Rightarrow> nat \<Rightarrow> bptr option \<Rightarrow> bool \<Rightarrow> bptr option \<times> flow_table" where
  "ft_add_bucket calloc_ok t parent prev dynamic =
     (if \<not> calloc_ok then (None, t)
      else let p = Dyn (t_fresh t);
               t = t\<lparr>t_mem := (t_mem t)(p \<mapsto> zero_bucket t), t_fresh := t_fresh t + 1\<rparr>
           in (Some p, ft_init_bucket t p parent prev dynamic))"

text \<open>The inner loop of \<open>ft_init\<close>: \<open>n\<close> more buckets for chain \<open>i\<close>; \<open>Inl\<close> when calloc fails.
  Returns the last value of \<open>prev\<close>, which is what \<open>chain->last\<close> is set to.\<close>

fun ft_init_chain :: "(nat \<Rightarrow> bool) \<Rightarrow> flow_table \<Rightarrow> nat \<Rightarrow> bptr \<Rightarrow> bptr \<Rightarrow> nat \<Rightarrow> flow_table + (bptr \<times> flow_table)" where
  "ft_init_chain calloc t i prev bucket 0 = Inr (prev, t)"
| "ft_init_chain calloc t i prev bucket (Suc n) =
     (case ft_add_bucket (calloc (t_fresh t)) t i (Some bucket) False of
        (None, t) \<Rightarrow> Inl (upd_bucket t bucket (\<lambda>b. b\<lparr>b_next := None\<rparr>))
      | (Some new, t) \<Rightarrow>
          ft_init_chain calloc (upd_bucket t bucket (\<lambda>b. b\<lparr>b_next := Some new\<rparr>)) i bucket new n)"

text \<open>Free the calloc'ed part of a chain; \<open>fuel\<close> bounds the list walk.\<close>

fun free_chain :: "nat \<Rightarrow> flow_table \<Rightarrow> bptr option \<Rightarrow> flow_table option" where
  "free_chain fuel t None = Some t"
| "free_chain 0 t (Some p) = None"
| "free_chain (Suc fuel) t (Some p) =
     (case t_mem t p of
        None \<Rightarrow> None
      | Some b \<Rightarrow> free_chain fuel (t\<lparr>t_mem := (t_mem t)(p := None)\<rparr>) (b_next b))"

text \<open>The loops of \<open>free_table\<close> and of \<open>ft_deinit\<close>: chains \<open>n - 1\<close> down to 0.\<close>

fun free_chains :: "flow_table \<Rightarrow> nat \<Rightarrow> flow_table option" where
  "free_chains t 0 = Some t"
| "free_chains t (Suc i) =
     (case t_mem t (First i) of
        None \<Rightarrow> None
      | Some b \<Rightarrow> (case free_chain (t_fresh t) t (b_next b) of
                     None \<Rightarrow> None | Some t \<Rightarrow> free_chains t i))"

text \<open>\<open>free(flow_table)\<close> releases the first buckets.\<close>

definition free_table :: "flow_table \<Rightarrow> flow_table" where
  "free_table t = t\<lparr>t_mem := (\<lambda>p. case p of First _ \<Rightarrow> None | Dyn _ \<Rightarrow> t_mem t p)\<rparr>"

definition ft_deinit :: "flow_table \<Rightarrow> flow_table option" where
  "ft_deinit t = map_option free_table (free_chains t (unat (t_size t)))"

fun ft_init_chains :: "(nat \<Rightarrow> bool) \<Rightarrow> flow_table \<Rightarrow> nat \<Rightarrow> nat list \<Rightarrow> (nat \<times> flow_table) + flow_table" where
  "ft_init_chains calloc t n [] = Inr t"
| "ft_init_chains calloc t n (i # is) =
     (let t = ft_init_bucket t (First i) i None False in
      case ft_init_chain calloc t i (First i) (First i) n of
        Inl t \<Rightarrow> Inl (i, t)
      | Inr (prev, t) \<Rightarrow> ft_init_chains calloc (t\<lparr>t_last := (t_last t)(i \<mapsto> prev)\<rparr>) n is)"

datatype ft_init_error = Einval | Enomem

definition ft_set_params :: "flow_table \<Rightarrow> nat \<Rightarrow> nat \<Rightarrow> flow_table" where
  "ft_set_params t pow2 bucket_size =
     t\<lparr>t_size := push_bit pow2 1, t_mask := push_bit pow2 1 - 1,
       t_bucket_size := of_nat bucket_size, t_bucket_mask := push_bit bucket_size 1 - 1\<rparr>"

text \<open>The zeroed array of chains.\<close>

definition ft_calloc_table :: "flow_table \<Rightarrow> nat \<Rightarrow> flow_table" where
  "ft_calloc_table t pow2 = t\<lparr>t_mem := (\<lambda>p. case p of
       First i \<Rightarrow> (if i < 2 ^ pow2 then Some (zero_bucket t) else None)
     | Dyn _ \<Rightarrow> t_mem t p)\<rparr>"

text \<open>\<open>ft_init\<close>; the buckets of one chain are counted by an \<open>int\<close> from 1.  Shifts by 64 or more are
  undefined, and so is the chain counter, an \<open>int\<close>, for \<open>2^31\<close> chains or more.\<close>

definition ft_init :: "bool \<Rightarrow> (nat \<Rightarrow> bool) \<Rightarrow> flow_table \<Rightarrow> nat \<Rightarrow> nat \<Rightarrow> nat
    \<Rightarrow> (ft_init_error + unit) option \<times> flow_table" where
  "ft_init table_ok calloc t pow2 chain_size bucket_size =
     (if 64 \<le> pow2 \<or> 64 \<le> bucket_size then (None, t)
      else let t = ft_set_params t pow2 bucket_size in
      if bucket_size < 1 \<or> of_nat bucket_size AND (of_nat bucket_size - 1 :: u64) \<noteq> 0 then (Some (Inl Einval), t)
      else if \<not> table_ok then (Some (Inl Enomem), t)
      else if 31 \<le> pow2 then (None, t)
      else case ft_init_chains calloc (ft_calloc_table t pow2) (chain_size - 1) [0..<2 ^ pow2] of
        Inr t \<Rightarrow> (Some (Inr ()), t)
      | Inl (i, t) \<Rightarrow>
          (case free_chains t (i + 1) of
             None \<Rightarrow> (None, t)
           | Some t \<Rightarrow> (Some (Inl Enomem), free_table t)))"

section \<open>Reference counts\<close>

definition ft_ref :: "flow_table \<Rightarrow> eptr \<Rightarrow> u32 \<Rightarrow> flow_table" where
  "ft_ref t e count = upd_entry t e (\<lambda>x. x\<lparr>e_rc := e_rc x + count\<rparr>)"


section \<open>Adding an entry\<close>

definition chain_of :: "flow_table \<Rightarrow> u32 \<Rightarrow> nat" where
  "chain_of t hash = unat (ucast hash AND t_mask t)"

definition has_room :: "flow_table \<Rightarrow> flow_bucket \<Rightarrow> bool" where
  "has_room t b \<longleftrightarrow> \<not> flagged (b_flags b) BUCKET_TO_FREE \<and> flagged (b_unused b) (t_bucket_mask t)"

text \<open>The traversal of \<open>ft_add\<close>: the first bucket from \<open>p\<close> on that has room and whose write lock
  can be taken; \<open>Some None\<close> at the end of the chain.\<close>

partial_function (option) find_room :: "(bptr \<Rightarrow> bool) \<Rightarrow> flow_table \<Rightarrow> bptr \<Rightarrow> bptr option option" where
  "find_room trylock t p =
     (case t_mem t p of
        None \<Rightarrow> None
      | Some b \<Rightarrow>
          if has_room t b \<and> trylock p then Some (Some p)
          else (case b_next b of None \<Rightarrow> Some None | Some q \<Rightarrow> find_room trylock t q))"

text \<open>\<open>__builtin_ctz\<close> takes an \<open>unsigned int\<close>: it sees the low 32 bits, and zero is undefined.\<close>

definition ctz_int :: "u64 \<Rightarrow> nat option" where
  "ctz_int w = (let v = ucast w :: u32 in if v = 0 then None else Some (ctz v))"

definition init_entry :: "u32 \<Rightarrow> u8 list \<Rightarrow> u16 \<Rightarrow> bptr \<Rightarrow> flow_entry \<Rightarrow> flow_entry option" where
  "init_entry hash key color p x =
     (case memcpy (e_key_data x) 0 key 0 (key_len color) of
        None \<Rightarrow> None
      | Some kd \<Rightarrow> Some (x\<lparr>e_bucket := Some p, e_hash := hash, e_flags := 0, e_color := color,
                          e_info := fi_init, e_key_data := kd\<rparr>))"

definition set_index :: "nat \<Rightarrow> flow_entry \<Rightarrow> flow_entry" where
  "set_index i x = x\<lparr>e_index := of_nat i\<rparr>"

text \<open>The end of \<open>ft_add\<close> from \<open>init_entry\<close> on.\<close>

definition ft_finish :: "flow_table \<Rightarrow> eptr \<Rightarrow> u32 \<Rightarrow> u8 list \<Rightarrow> u16 \<Rightarrow> (eptr option \<times> flow_table) option" where
  "ft_finish t e hash key color =
     (case get_entry t e of
        None \<Rightarrow> None
      | Some x \<Rightarrow>
          (case init_entry hash key color (fst e) x of
             None \<Rightarrow> None
           | Some y \<Rightarrow>
               let t = upd_entry t e (\<lambda>_. y);
                   t = t\<lparr>t_stats := stats_update (stats_update (t_stats t) STAT_LEARN 1) STAT_FLOW 1\<rparr>
               in Some (Some e, ft_ref t e 1)))"

text \<open>A new bucket is appended behind \<open>chain->last\<close>, which is then overwritten by the result of
  \<open>ft_add_bucket\<close>, null included.\<close>

definition ft_append :: "bool \<Rightarrow> flow_table \<Rightarrow> nat \<Rightarrow> (bptr option \<times> flow_table) option" where
  "ft_append calloc_ok t i =
     (case t_last t i of
        None \<Rightarrow> None
      | Some l \<Rightarrow>
          (case t_mem t l of
             None \<Rightarrow> None
           | Some _ \<Rightarrow>
               let (new, t) = ft_add_bucket calloc_ok t i (Some l) True;
                   t = upd_bucket t l (\<lambda>b. b\<lparr>b_next := new\<rparr>)
               in Some (new, t\<lparr>t_last := (t_last t)(i := new)\<rparr>)))"

definition ft_add :: "(bptr \<Rightarrow> bool) \<Rightarrow> bool \<Rightarrow> flow_table \<Rightarrow> u32 \<Rightarrow> u8 list \<Rightarrow> u16
    \<Rightarrow> (eptr option \<times> flow_table) option" where
  "ft_add trylock calloc_ok t hash key color =
     (let i = chain_of t hash in
      case find_room trylock t (First i) of
        None \<Rightarrow> None
      | Some (Some p) \<Rightarrow>
          (case t_mem t p of
             None \<Rightarrow> None
           | Some b \<Rightarrow>
               (case ctz_int (b_unused b) of
                  None \<Rightarrow> None
                | Some u \<Rightarrow>
                    let t = upd_bucket t p (\<lambda>b. b\<lparr>b_unused := b_unused b AND (b_unused b - 1)\<rparr>);
                        t = upd_entry t (p, u) (set_index u)
                    in ft_finish t (p, u) hash key color))
      | Some None \<Rightarrow>
          (case ft_append calloc_ok t i of
             None \<Rightarrow> None
           | Some (None, t) \<Rightarrow> Some (None, t)
           | Some (Some p, t) \<Rightarrow>
               let t = upd_bucket t p (\<lambda>b. b\<lparr>b_unused := NOT 1\<rparr>);
                   t = upd_entry t (p, 0) (set_index 0)
               in ft_finish t (p, 0) hash key color))"

section \<open>Removing an entry\<close>

text \<open>\<open>1 << entry->index\<close> is an \<open>int\<close>, widened to 64 bits with its sign; only indices below 32 shift
  in range.\<close>

definition index_bit :: "u8 \<Rightarrow> u64 option" where
  "index_bit idx = (if unat idx < 32 then Some (sext32_64 (push_bit (unat idx) 1)) else None)"

definition unlink_bucket :: "flow_table \<Rightarrow> bptr \<Rightarrow> flow_bucket \<Rightarrow> flow_table option" where
  "unlink_bucket t p b =
     (let i = b_parent b;
          t = t\<lparr>t_last := (if t_last t i = Some p then (t_last t)(i := b_prev b) else t_last t)\<rparr>;
          t = (case b_prev b of None \<Rightarrow> t | Some q \<Rightarrow> upd_bucket t q (\<lambda>c. c\<lparr>b_next := b_next b\<rparr>));
          t = (case b_next b of None \<Rightarrow> t | Some q \<Rightarrow> upd_bucket t q (\<lambda>c. c\<lparr>b_prev := b_prev b\<rparr>))
      in Some (t\<lparr>t_mem := (t_mem t)(p := None)\<rparr>))"

definition ft_remove :: "flow_table \<Rightarrow> eptr \<Rightarrow> flow_table option" where
  "ft_remove t e =
     (case get_entry t e of
        None \<Rightarrow> None
      | Some x \<Rightarrow>
     (case e_bucket x of
        None \<Rightarrow> None
      | Some p \<Rightarrow>
     (case (t_mem t p, index_bit (e_index x)) of
        (Some b, Some m) \<Rightarrow>
          if flagged (b_unused b) m then Some t
          else
            let unused = b_unused b OR m;
                to_free = flagged (b_flags b) BUCKET_DYNAMIC \<and> NOT unused AND t_bucket_mask t = 0;
                b = b\<lparr>b_unused := unused, b_flags := (if to_free then b_flags b OR BUCKET_TO_FREE else b_flags b)\<rparr>;
                t = upd_bucket t p (\<lambda>_. b)
            in (case (if to_free then unlink_bucket t p b else Some t) of
                  None \<Rightarrow> None
                | Some t \<Rightarrow> Some (t\<lparr>t_stats :=
                    stats_update (stats_update (t_stats t) STAT_UNLEARN 1) STAT_FLOW (- 1)\<rparr>))
      | _ \<Rightarrow> None)))"

definition ft_deref :: "flow_table \<Rightarrow> eptr \<Rightarrow> u32 \<Rightarrow> flow_table option" where
  "ft_deref t e count =
     (case get_entry t e of
        None \<Rightarrow> None
      | Some x \<Rightarrow>
          let t = upd_entry t e (\<lambda>x. x\<lparr>e_rc := e_rc x - count\<rparr>)
          in if e_rc x \<le> count then ft_remove t e else Some t)"

section \<open>Looking up\<close>

definition ft_compare :: "flow_entry \<Rightarrow> u32 \<Rightarrow> u8 list \<Rightarrow> u32 \<Rightarrow> nat" where
  "ft_compare x hash key color =
     (if e_hash x \<noteq> hash then 1 else 0)
     + (if ucast (e_color x) AND (FLOW_COLOR_TYPE_MASK :: u32) \<noteq> color AND FLOW_COLOR_TYPE_MASK then 1 else 0)
     + (if take (key_len color) (e_key_data x) \<noteq> take (key_len color) key then 1 else 0)"

text \<open>The scan of one bucket: lowest used index first.\<close>

function scan_used :: "(nat \<Rightarrow> bool) \<Rightarrow> u64 \<Rightarrow> nat option option" where
  "scan_used found used =
     (if used = 0 then Some None
      else (case ctz_int used of
              None \<Rightarrow> None
            | Some i \<Rightarrow> if found i then Some (Some i) else scan_used found (used AND (used - 1))))"
  by pat_completeness auto
termination
proof (relation "measure (\<lambda>(found, used). unat used)")
  fix found :: "nat \<Rightarrow> bool" and used :: u64 and i
  assume "used \<noteq> 0"
  then have "unat (used - 1) < unat used"
    by (rule measure_unat)
  moreover have "unat (used AND (used - 1)) \<le> unat (used - 1)"
    by (simp add: word_and_le1 flip: word_le_nat_alt)
  ultimately show "((found, used AND (used - 1)), found, used) \<in> measure (\<lambda>(found, used). unat used)"
    by simp
qed simp

declare scan_used.simps [simp del]

partial_function (option) ft_visit :: "(eptr \<Rightarrow> flow_entry \<Rightarrow> bool) \<Rightarrow> flow_table \<Rightarrow> bptr \<Rightarrow> eptr option option" where
  "ft_visit found t p =
     (case t_mem t p of
        None \<Rightarrow> None
      | Some b \<Rightarrow>
          (case scan_used (\<lambda>i. found (p, i) (b_entries b ! i)) (NOT (b_unused b) AND t_bucket_mask t) of
             None \<Rightarrow> None
           | Some (Some i) \<Rightarrow> Some (Some (p, i))
           | Some None \<Rightarrow> (case b_next b of None \<Rightarrow> Some None | Some q \<Rightarrow> ft_visit found t q)))"

definition ft_lookup :: "flow_table \<Rightarrow> u32 \<Rightarrow> u8 list \<Rightarrow> u16 \<Rightarrow> eptr option option" where
  "ft_lookup t hash key color =
     ft_visit (\<lambda>_ x. ft_compare x hash key (ucast color) = 0) t (First (chain_of t hash))"

text \<open>\<open>ft_validate\<close>: 0 (here \<open>False\<close>) if the pointer is the address of a live entry of the chain.\<close>

definition ft_validate :: "flow_table \<Rightarrow> u32 \<Rightarrow> eptr \<Rightarrow> bool option" where
  "ft_validate t hash e =
     map_option (\<lambda>r. r = None) (ft_visit (\<lambda>e' _. e' = e) t (First (chain_of t hash)))"

end
