(* ===== verification/Flow_Table_Inv.thy ===== *)
theory Flow_Table_Inv
  imports Flow_Table
begin

text \<open>
  The representation invariant of the flow table of \<open>ntnetflow/flowtable.c\<close> and what adding, removing and
  looking up entries do to the set of live entries.  A chain is a doubly linked list of buckets
  whose \<open>last\<close> pointer names its last bucket; the live entries of a chain, in the order in which
  lookups visit them, are its abstract value.
\<close>

section \<open>Scanning a word\<close>

lemma filter_lowest:
  fixes w :: "'a::len word"
  assumes "w \<noteq> 0" "ctz w < n"
  shows "filter (bit w) [0..<n] = ctz w # filter (bit (w AND (w - 1))) [0..<n]"
proof -
  let ?k = "ctz w"
  have s: "[0..<n] = [0..<?k] @ ?k # [Suc ?k..<n]"
    using assms(2) upt_add_eq_append [of 0 ?k "n - ?k"] upt_conv_Cons [of ?k n] by simp
  have "filter (bit w) [0..<?k] = []" "filter (bit (w AND (w - 1))) [0..<?k] = []"
    using ctz_least(3) [OF assms(1)] clear_lowest [OF assms(1)] by (auto simp: filter_empty_conv)
  moreover have "filter (bit (w AND (w - 1))) [Suc ?k..<n] = filter (bit w) [Suc ?k..<n]"
    by (rule filter_cong) (auto simp: clear_lowest [OF assms(1)])
  ultimately show ?thesis
    using ctz_least(1) [OF assms(1)] clear_lowest [OF assms(1), of ?k] unfolding s by simp
qed

lemma ctz_int_eq:
  assumes "bit w j" "j < 32"
  shows "ctz_int w = Some (ctz w)" "ctz w \<le> j" "w \<noteq> 0"
proof -
  show nz: "w \<noteq> 0" using assms(1) by auto
  note l = ctz_least [OF nz]
  show le: "ctz w \<le> j" using l(3) assms(1) by (meson not_le)
  have v: "bit (ucast w :: u32) i \<longleftrightarrow> i < 32 \<and> bit w i" for i
    by (auto simp: bit_simps dest: bit_imp_le_length)
  have "ctz (ucast w :: u32) = ctz w"
    using l le assms by (intro ctz_eqI) (auto simp: v)
  moreover have "(ucast w :: u32) \<noteq> 0" using assms v by (metis bit_0_eq bot_apply bot_bool_def)
  ultimately show "ctz_int w = Some (ctz w)" by (simp add: ctz_int_def Let_def)
qed

lemma scan_used_find:
  assumes "\<And>j. bit used j \<Longrightarrow> j < 32"
  shows "scan_used found used = Some (find found (filter (bit used) [0..<32]))"
  using assms
proof (induction found used rule: scan_used.induct)
  case (1 found used)
  show ?case
  proof (cases "used = 0")
    case True
    then show ?thesis by (simp add: scan_used.simps)
  next
    case False
    note l = ctz_least [OF False]
    have k: "ctz used < 32" using 1(2) l(1) by blast
    have c: "ctz_int used = Some (ctz used)" using ctz_int_eq(1) [OF l(1) k] .
    have "scan_used found (used AND (used - 1)) = Some (find found (filter (bit (used AND (used - 1))) [0..<32]))"
      if "\<not> found (ctz used)"
      by (rule 1(1) [OF False c that]) (use 1(2) in \<open>auto simp: clear_lowest [OF False]\<close>)
    then show ?thesis
      using filter_lowest [OF False k] False c by (subst scan_used.simps) simp
  qed
qed

section \<open>Linked segments\<close>

definition head_or :: "bptr list \<Rightarrow> bptr option \<Rightarrow> bptr option" where
  "head_or ps nx = (case ps of [] \<Rightarrow> nx | q # _ \<Rightarrow> Some q)"

definition last_or :: "bptr option \<Rightarrow> bptr list \<Rightarrow> bptr option" where
  "last_or pv ps = (if ps = [] then pv else Some (last ps))"

lemma head_or_simps [simp]: "head_or [] nx = nx" "head_or (q # qs) nx = Some q"
  by (simp_all add: head_or_def)

lemma last_or_simps [simp]: "last_or pv [] = pv" "last_or pv (p # ps) = last_or (Some p) ps"
  by (simp_all add: last_or_def)

fun seg :: "(bptr \<Rightarrow> flow_bucket option) \<Rightarrow> bptr option \<Rightarrow> bptr list \<Rightarrow> bptr option \<Rightarrow> bool" where
  "seg m pv [] nx = True"
| "seg m pv (p # ps) nx = (case m p of None \<Rightarrow> False | Some b \<Rightarrow>
     b_prev b = pv \<and> b_next b = head_or ps nx \<and> seg m (Some p) ps nx)"

lemma seg_append: "seg m pv (xs @ ys) nx \<longleftrightarrow> seg m pv xs (head_or ys nx) \<and> seg m (last_or pv xs) ys nx"
proof (induction xs arbitrary: pv)
  case (Cons x xs)
  have "head_or (xs @ ys) nx = head_or xs (head_or ys nx)" by (cases xs) simp_all
  with Cons show ?case by (auto split: option.splits)
qed simp

lemma seg_cong:
  "(\<And>p. p \<in> set ps \<Longrightarrow> m' p = m p) \<Longrightarrow> seg m' pv ps nx = seg m pv ps nx"
proof (induction ps arbitrary: pv)
  case (Cons p ps)
  then show ?case by (simp cong: option.case_cong)
qed simp

lemma seg_cong_links:
  "(\<And>p. p \<in> set ps \<Longrightarrow> map_option (\<lambda>b. (b_prev b, b_next b)) (m' p) = map_option (\<lambda>b. (b_prev b, b_next b)) (m p))
    \<Longrightarrow> seg m' pv ps nx = seg m pv ps nx"
proof (induction ps arbitrary: pv)
  case (Cons p ps)
  have "seg m' (Some p) ps nx = seg m (Some p) ps nx" using Cons by simp
  moreover have "map_option (\<lambda>b. (b_prev b, b_next b)) (m' p) = map_option (\<lambda>b. (b_prev b, b_next b)) (m p)"
    using Cons.prems by simp
  ultimately show ?case by (cases "m p"; cases "m' p") simp_all
qed simp

lemma seg_live: "seg m pv ps nx \<Longrightarrow> p \<in> set ps \<Longrightarrow> \<exists>b. m p = Some b"
  by (induction ps arbitrary: pv) (auto split: option.splits)

text \<open>Changing the outward pointers of a segment.\<close>

lemma seg_set_next:
  assumes "seg m pv xs nx" "distinct xs" "xs \<noteq> []" "m (last xs) = Some b"
  shows "seg (m(last xs \<mapsto> b\<lparr>b_next := nx'\<rparr>)) pv xs nx'"
  using assms
proof (induction xs arbitrary: pv rule: rev_induct)
  case (snoc x xs)
  then have a: "seg m pv xs (Some x)" "b_prev b = last_or pv xs" by (auto simp: seg_append)
  have "seg (m(x \<mapsto> b\<lparr>b_next := nx'\<rparr>)) pv xs (Some x) = seg m pv xs (Some x)"
    using snoc.prems(2) by (intro seg_cong) auto
  with a show ?case by (simp add: seg_append del: fun_upd_apply) simp
qed simp

lemma seg_set_prev:
  assumes "seg m pv (p # ps) nx" "distinct (p # ps)" "m p = Some b"
  shows "seg (m(p \<mapsto> b\<lparr>b_prev := pv'\<rparr>)) pv' (p # ps) nx"
proof -
  have "seg (m(p \<mapsto> b\<lparr>b_prev := pv'\<rparr>)) (Some p) ps nx = seg m (Some p) ps nx"
    using assms(2) by (intro seg_cong) auto
  with assms show ?thesis by simp
qed

section \<open>The invariant\<close>

definition bsize :: "flow_table \<Rightarrow> nat" where
  "bsize t = unat (t_bucket_size t)"

definition params_ok :: "flow_table \<Rightarrow> bool" where
  "params_ok t \<longleftrightarrow> 1 \<le> bsize t \<and> bsize t < 32 \<and> t_bucket_mask t = mask (bsize t)
     \<and> (\<exists>k \<le> 30. t_size t = 2 ^ k \<and> t_mask t = mask k)"

definition bucket_ok :: "flow_table \<Rightarrow> nat \<Rightarrow> bptr \<Rightarrow> flow_bucket \<Rightarrow> bool" where
  "bucket_ok t i p b \<longleftrightarrow> b_parent b = i \<and> length (b_entries b) = bsize t
     \<and> (\<forall>j. bsize t \<le> j \<and> j < 64 \<longrightarrow> bit (b_unused b) j)
     \<and> \<not> flagged (b_flags b) BUCKET_TO_FREE
     \<and> (flagged (b_flags b) BUCKET_DYNAMIC \<longrightarrow> p \<noteq> First i)
     \<and> (\<forall>x \<in> set (b_entries b). length (e_key_data x) = FLOW_MAX_KEY_LEN)
     \<and> (\<forall>j < bsize t. \<not> bit (b_unused b) j \<longrightarrow>
          e_bucket (b_entries b ! j) = Some p \<and> e_index (b_entries b ! j) = of_nat j)"

definition chain_ok :: "flow_table \<Rightarrow> nat \<Rightarrow> bptr list \<Rightarrow> bool" where
  "chain_ok t i ps \<longleftrightarrow> ps \<noteq> [] \<and> hd ps = First i \<and> distinct ps \<and> seg (t_mem t) None ps None
     \<and> t_last t i = Some (last ps)
     \<and> (\<forall>p \<in> set ps. \<forall>b. t_mem t p = Some b \<longrightarrow> bucket_ok t i p b)"

definition table_ok :: "flow_table \<Rightarrow> (nat \<Rightarrow> bptr list) \<Rightarrow> bool" where
  "table_ok t P \<longleftrightarrow> params_ok t \<and> (\<forall>n \<ge> t_fresh t. t_mem t (Dyn n) = None)
     \<and> (\<forall>i < unat (t_size t). chain_ok t i (P i))"

text \<open>The live entries, in visiting order.\<close>

definition used_slots :: "flow_table \<Rightarrow> flow_bucket \<Rightarrow> nat list" where
  "used_slots t b = filter (\<lambda>j. \<not> bit (b_unused b) j) [0..<bsize t]"

definition live_in :: "flow_table \<Rightarrow> bptr \<Rightarrow> eptr list" where
  "live_in t p = (case t_mem t p of None \<Rightarrow> [] | Some b \<Rightarrow> map (Pair p) (used_slots t b))"

definition live :: "flow_table \<Rightarrow> bptr list \<Rightarrow> eptr list" where
  "live t ps = concat (map (live_in t) ps)"

lemma unat_pow2_64: "k \<le> 30 \<Longrightarrow> unat (2 ^ k :: u64) = 2 ^ k"
proof -
  assume "k \<le> 30"
  then have "(2 :: nat) ^ k \<le> 2 ^ 30" by (intro power_increasing) auto
  then have "unat (of_nat (2 ^ k) :: u64) = 2 ^ k"
    by (subst unat_of_nat) (simp add: mod_less del: of_nat_power)
  then show ?thesis by simp
qed

lemma chain_of_less:
  assumes "params_ok t" shows "chain_of t h < unat (t_size t)"
proof -
  from assms obtain k where k: "k \<le> 30" "t_size t = 2 ^ k" "t_mask t = mask k"
    by (auto simp: params_ok_def)
  then have "unat (t_size t) = 2 ^ k" by (simp add: unat_pow2_64)
  moreover have "chain_of t h = unat (take_bit k (ucast h :: u64))"
    by (simp add: chain_of_def k take_bit_eq_mask)
  moreover have "unat (take_bit k (ucast h :: u64)) < 2 ^ k"
    unfolding unsigned_take_bit_eq by (rule take_bit_nat_less_exp)
  ultimately show ?thesis by simp
qed

lemma table_chain: "table_ok t P \<Longrightarrow> chain_ok t (chain_of t h) (P (chain_of t h))"
  using chain_of_less by (auto simp: table_ok_def)


section \<open>Traversals\<close>

lemma filter_upt_shrink:
  assumes "m \<le> n" "\<And>j. m \<le> j \<Longrightarrow> j < n \<Longrightarrow> \<not> P j"
  shows "filter P [0..<n] = filter P [0..<m]"
proof -
  have "[0..<n] = [0..<m] @ [m..<n]" using assms(1) upt_add_eq_append [of 0 m "n - m"] by simp
  moreover have "filter P [m..<n] = []" using assms(2) by (auto simp: filter_empty_conv)
  ultimately show ?thesis by simp
qed

lemma used_word:
  assumes "params_ok t"
  shows "bit (NOT (b_unused b) AND t_bucket_mask t) j \<longleftrightarrow> j < bsize t \<and> \<not> bit (b_unused b) j"
  using assms by (auto simp: params_ok_def bit_simps)

lemma scan_bucket:
  assumes "params_ok t"
  shows "scan_used f (NOT (b_unused b) AND t_bucket_mask t) = Some (find f (used_slots t b))"
proof -
  let ?w = "NOT (b_unused b) AND t_bucket_mask t"
  have b: "bsize t < 32" using assms by (simp add: params_ok_def)
  have high: "\<And>j. bsize t \<le> j \<Longrightarrow> \<not> bit ?w j" unfolding used_word [OF assms] by simp
  have low: "\<And>j. bit ?w j \<Longrightarrow> j < 32" unfolding used_word [OF assms] using b by simp
  have "filter (bit ?w) [0..<32] = filter (bit ?w) [0..<bsize t]"
    by (rule filter_upt_shrink) (use b high in auto)
  also have "\<dots> = used_slots t b"
    unfolding used_slots_def by (rule filter_cong) (auto simp: used_word [OF assms])
  finally show ?thesis
    using scan_used_find [of ?w f, OF low] by simp
qed

lemma find_append: "find P (xs @ ys) = (case find P xs of None \<Rightarrow> find P ys | Some x \<Rightarrow> Some x)"
  by (induction xs) auto

lemma find_map_Pair: "find P (map (Pair p) xs) = map_option (Pair p) (find (\<lambda>i. P (p, i)) xs)"
  by (induction xs) auto

lemma live_Cons: "live t (p # ps) = live_in t p @ live t ps"
  by (simp add: live_def)

definition entry :: "flow_table \<Rightarrow> eptr \<Rightarrow> flow_entry" where
  "entry t e = b_entries (the (t_mem t (fst e))) ! snd e"

lemma ft_visit_path:
  assumes "params_ok t"
  shows "seg (t_mem t) pv (p # ps) None \<Longrightarrow>
    ft_visit found t p = Some (find (\<lambda>e. found e (entry t e)) (live t (p # ps)))"
proof (induction ps arbitrary: p pv)
  case Nil
  then obtain b where b: "t_mem t p = Some b" "b_next b = None" by (auto split: option.splits)
  then show ?case
    by (subst ft_visit.simps)
      (auto simp: scan_bucket [OF assms] live_def live_in_def entry_def find_map_Pair split: option.splits)
next
  case (Cons q ps)
  then obtain b where b: "t_mem t p = Some b" "b_next b = Some q" and s: "seg (t_mem t) (Some p) (q # ps) None"
    by (auto split: option.splits)
  have "ft_visit found t p = (case find (\<lambda>i. found (p, i) (b_entries b ! i)) (used_slots t b) of
      Some i \<Rightarrow> Some (Some (p, i)) | None \<Rightarrow> ft_visit found t q)"
    by (subst ft_visit.simps) (simp add: b scan_bucket [OF assms] split: option.splits)
  also have "\<dots> = Some (find (\<lambda>e. found e (entry t e)) (live_in t p @ live t (q # ps)))"
    using Cons.IH [OF s] b
    by (auto simp: find_append live_in_def find_map_Pair entry_def split: option.splits)
  finally show ?case by (simp add: live_Cons)
qed

lemma find_room_path:
  shows "seg (t_mem t) pv (p # ps) None \<Longrightarrow>
    find_room trylock t p = Some (find (\<lambda>q. has_room t (the (t_mem t q)) \<and> trylock q) (p # ps))"
proof (induction ps arbitrary: p pv)
  case Nil
  then obtain b where b: "t_mem t p = Some b" "b_next b = None" by (auto split: option.splits)
  then show ?case by (subst find_room.simps) auto
next
  case (Cons q ps)
  then obtain b where b: "t_mem t p = Some b" "b_next b = Some q" and s: "seg (t_mem t) (Some p) (q # ps) None"
    by (auto split: option.splits)
  then show ?case using Cons.IH [OF s] by (subst find_room.simps) auto
qed

lemma chain_ok_cons: "chain_ok t i ps \<Longrightarrow> \<exists>qs. ps = First i # qs"
  by (cases ps) (auto simp: chain_ok_def)

lemma lookup_path:
  assumes "table_ok t P"
  shows "ft_visit found t (First (chain_of t h))
     = Some (find (\<lambda>e. found e (entry t e)) (live t (P (chain_of t h))))"
proof -
  note c = table_chain [OF assms, of h]
  from chain_ok_cons [OF c] obtain qs where q: "P (chain_of t h) = First (chain_of t h) # qs" ..
  with c assms ft_visit_path [of t None "First (chain_of t h)" qs] show ?thesis
    by (simp add: chain_ok_def table_ok_def del: seg.simps)
qed

lemma set_live: "(p, j) \<in> set (live t ps) \<longleftrightarrow>
    p \<in> set ps \<and> (\<exists>b. t_mem t p = Some b \<and> j < bsize t \<and> \<not> bit (b_unused b) j)"
proof -
  have "(p, j) \<in> set (live_in t q) \<longleftrightarrow> p = q \<and> (\<exists>b. t_mem t p = Some b \<and> j < bsize t \<and> \<not> bit (b_unused b) j)" for q
    by (cases "t_mem t q") (auto simp: live_in_def used_slots_def)
  then show ?thesis by (auto simp: live_def)
qed

lemma distinct_live: "distinct ps \<Longrightarrow> distinct (live t ps)"
proof (induction ps)
  case (Cons p ps)
  have "distinct (live_in t p)"
    by (auto simp: live_in_def used_slots_def distinct_map inj_on_def split: option.splits)
  moreover have "set (live_in t p) \<inter> set (live t ps) = {}"
    using Cons.prems by (auto simp: live_def live_in_def split: option.splits)
  ultimately show ?case using Cons by (simp add: live_Cons)
qed (simp add: live_def)


section \<open>Changing one bucket\<close>

lemma table_ok_parent:
  assumes "table_ok t P" "i < unat (t_size t)" "p \<in> set (P i)"
  obtains b where "t_mem t p = Some b" "bucket_ok t i p b" "b_parent b = i"
  using assms seg_live by (fastforce simp: table_ok_def chain_ok_def bucket_ok_def)

lemma table_ok_live:
  "table_ok t P \<Longrightarrow> i < unat (t_size t) \<Longrightarrow> p \<in> set (P i) \<Longrightarrow> t_mem t p \<noteq> None"
  using table_ok_parent by (metis option.distinct(1))

lemma table_ok_disjoint:
  assumes "table_ok t P" "i < unat (t_size t)" "j < unat (t_size t)" "p \<in> set (P i)" "p \<in> set (P j)"
  shows "i = j"
  using table_ok_parent [OF assms(1,2,4)] table_ok_parent [OF assms(1,3,5)] by (metis option.inject)

text \<open>The invariant only reads the store, the \<open>last\<close> pointers and the size parameters.\<close>

lemma bsize_stats [simp]: "bsize (t\<lparr>t_stats := s\<rparr>) = bsize t"
  by (simp add: bsize_def)

lemma table_ok_stats [simp]:
  "table_ok (t\<lparr>t_stats := s\<rparr>) P = table_ok t P"
  by (simp add: table_ok_def params_ok_def chain_ok_def bucket_ok_def)

lemma live_stats [simp]: "live (t\<lparr>t_stats := s\<rparr>) ps = live t ps" "entry (t\<lparr>t_stats := s\<rparr>) e = entry t e"
    "chain_of (t\<lparr>t_stats := s\<rparr>) h = chain_of t h"
  by (simp_all add: live_def live_in_def [abs_def] used_slots_def [abs_def] entry_def chain_of_def cong: option.case_cong)

definition put_bucket :: "flow_table \<Rightarrow> bptr \<Rightarrow> flow_bucket \<Rightarrow> flow_table" where
  "put_bucket t p b = t\<lparr>t_mem := (t_mem t)(p \<mapsto> b)\<rparr>"

lemma put_bucket_simps [simp]:
  "t_mem (put_bucket t p b) = (t_mem t)(p \<mapsto> b)" "t_last (put_bucket t p b) = t_last t"
  "t_size (put_bucket t p b) = t_size t" "t_mask (put_bucket t p b) = t_mask t"
  "t_bucket_mask (put_bucket t p b) = t_bucket_mask t" "t_fresh (put_bucket t p b) = t_fresh t"
  "t_stats (put_bucket t p b) = t_stats t" "bsize (put_bucket t p b) = bsize t"
  "t_bucket_size (put_bucket t p b) = t_bucket_size t"
  "params_ok (put_bucket t p b) = params_ok t" "chain_of (put_bucket t p b) h = chain_of t h"
  "put_bucket (put_bucket t p b) p c = put_bucket t p c"
  by (simp_all add: put_bucket_def bsize_def params_ok_def chain_of_def)

lemma chain_ok_put:
  assumes c: "chain_ok t j ps" and b: "t_mem t p = Some b"
    and links: "b_prev b' = b_prev b" "b_next b' = b_next b"
    and ok: "p \<in> set ps \<Longrightarrow> bucket_ok t j p b'"
  shows "chain_ok (put_bucket t p b') j ps"
proof -
  have "seg (t_mem (put_bucket t p b')) None ps None = seg (t_mem t) None ps None"
    by (rule seg_cong_links) (simp add: b links)
  with c ok show ?thesis by (auto simp: chain_ok_def bucket_ok_def)
qed

lemma table_ok_put:
  assumes t: "table_ok t P" and i: "i < unat (t_size t)" "p \<in> set (P i)" and b: "t_mem t p = Some b"
    and links: "b_prev b' = b_prev b" "b_next b' = b_next b" and ok: "bucket_ok t i p b'"
  shows "table_ok (put_bucket t p b') P"
proof -
  have "chain_ok (put_bucket t p b') j (P j)" if j: "j < unat (t_size t)" for j
  proof (rule chain_ok_put [OF _ b links])
    show "chain_ok t j (P j)" using t j by (simp add: table_ok_def)
    show "bucket_ok t j p b'" if "p \<in> set (P j)" using table_ok_disjoint [OF t i(1) j i(2) that] ok by simp
  qed
  moreover have "p \<noteq> Dyn n" if "t_fresh t \<le> n" for n
    using t b that by (auto simp: table_ok_def)
  ultimately show ?thesis using t by (auto simp: table_ok_def)
qed

section \<open>The result of ft_add\<close>

definition filled :: "u32 \<Rightarrow> u8 list \<Rightarrow> u16 \<Rightarrow> bptr \<Rightarrow> nat \<Rightarrow> flow_entry \<Rightarrow> flow_entry" where
  "filled hash key color p u x = x\<lparr>e_bucket := Some p, e_hash := hash, e_index := of_nat u, e_color := color,
     e_rc := e_rc x + 1, e_flags := 0, e_info := fi_init,
     e_key_data := take (key_len color) key @ drop (key_len color) (e_key_data x)\<rparr>"

definition count_add :: "stats \<Rightarrow> stats" where
  "count_add st = stats_update (stats_update st STAT_LEARN 1) STAT_FLOW 1"

definition put_entry :: "flow_bucket \<Rightarrow> u64 \<Rightarrow> nat \<Rightarrow> flow_entry \<Rightarrow> flow_bucket" where
  "put_entry b unused u y = b\<lparr>b_unused := unused, b_entries := (b_entries b)[u := y]\<rparr>"

lemma upd_bucket_some: "t_mem t p = Some b \<Longrightarrow> upd_bucket t p f = put_bucket t p (f b)"
  by (simp add: upd_bucket_def put_bucket_def)

lemma upd_entry_some:
  "t_mem t p = Some b \<Longrightarrow> upd_entry t (p, u) f = put_bucket t p (b\<lparr>b_entries := (b_entries b)[u := f (b_entries b ! u)]\<rparr>)"
  by (simp add: upd_entry_def upd_bucket_some)

lemma upd_stats_commute: "upd_entry (t\<lparr>t_stats := s\<rparr>) e f = (upd_entry t e f)\<lparr>t_stats := s\<rparr>"
  by (simp add: upd_entry_def upd_bucket_def)

lemma take_slot:
  assumes b: "t_mem t p = Some b" and u: "u < length (b_entries b)"
    and key: "key_len color \<le> length key" "length (e_key_data (b_entries b ! u)) = FLOW_MAX_KEY_LEN"
  shows "ft_finish (upd_entry (upd_bucket t p (\<lambda>b. b\<lparr>b_unused := f b\<rparr>)) (p, u) (set_index u)) (p, u) hash key color
    = Some (Some (p, u), (put_bucket t p (put_entry b (f b) u (filled hash key color p u (b_entries b ! u))))
        \<lparr>t_stats := count_add (t_stats t)\<rparr>)"
proof -
  have m: "memcpy (e_key_data (b_entries b ! u)) 0 key 0 (key_len color)
      = Some (take (key_len color) key @ drop (key_len color) (e_key_data (b_entries b ! u)))"
    using key key_len_le [of color] by (simp add: memcpy_def)
  define x where "x = b_entries b ! u"
  define t2 where "t2 = put_bucket t p (put_entry b (f b) u (set_index u x))"
  have t2: "upd_entry (upd_bucket t p (\<lambda>b. b\<lparr>b_unused := f b\<rparr>)) (p, u) (set_index u) = t2"
    by (simp add: t2_def upd_bucket_some [OF b] upd_entry_some put_entry_def x_def)
  have m2: "t_mem t2 p = Some (put_entry b (f b) u (set_index u x))" by (simp add: t2_def)
  define y where "y = (set_index u x)\<lparr>e_bucket := Some p, e_hash := hash, e_flags := 0, e_color := color,
      e_info := fi_init, e_key_data := take (key_len color) key @ drop (key_len color) (e_key_data x)\<rparr>"
  have g: "get_entry t2 (p, u) = Some (set_index u x)"
    using u by (simp add: get_entry_def m2 put_entry_def)
  have y: "init_entry hash key color p (set_index u x) = Some y"
    using m by (simp add: init_entry_def y_def x_def set_index_def)
  have w: "upd_entry t2 (p, u) (\<lambda>_. y) = put_bucket t p (put_entry b (f b) u y)"
    by (simp add: upd_entry_some [OF m2]) (simp add: t2_def put_entry_def)
  have r: "upd_entry (put_bucket t p (put_entry b (f b) u y)) (p, u) (\<lambda>x. x\<lparr>e_rc := e_rc x + 1\<rparr>)
      = put_bucket t p (put_entry b (f b) u (y\<lparr>e_rc := e_rc y + 1\<rparr>))"
    using u by (subst upd_entry_some) (simp, simp add: put_entry_def)
  have "y\<lparr>e_rc := e_rc y + 1\<rparr> = filled hash key color p u x"
    by (simp add: y_def filled_def set_index_def)
  then show ?thesis
    by (simp add: ft_finish_def t2 g y Let_def w ft_ref_def upd_stats_commute r count_add_def flip: x_def)
qed


text \<open>What an insertion promises: a slot that was free is now live and holds the flow, and everything
  that was live is unchanged.\<close>

definition added :: "flow_table \<Rightarrow> (nat \<Rightarrow> bptr list) \<Rightarrow> flow_table \<Rightarrow> (nat \<Rightarrow> bptr list) \<Rightarrow> eptr
    \<Rightarrow> u32 \<Rightarrow> u8 list \<Rightarrow> u16 \<Rightarrow> bool" where
  "added t P t' P' e hash key color \<longleftrightarrow> table_ok t' P' \<and> t_mask t' = t_mask t \<and> t_size t' = t_size t
     \<and> (let i = chain_of t hash in
          e \<notin> set (live t (P i)) \<and> set (live t' (P' i)) = insert e (set (live t (P i)))
        \<and> (\<forall>j < unat (t_size t). j \<noteq> i \<longrightarrow> live t' (P' j) = live t (P j))
        \<and> (\<forall>j < unat (t_size t). \<forall>e' \<in> set (live t (P j)). entry t' e' = entry t e')
        \<and> (\<exists>x. entry t' e = filled hash key color (fst e) (snd e) x \<and> length (e_key_data x) = FLOW_MAX_KEY_LEN))
     \<and> t_stats t' = count_add (t_stats t)"

lemma room_slot:
  assumes p: "params_ok t" and b: "bucket_ok t i q b" and r: "has_room t b"
  shows "ctz_int (b_unused b) = Some (ctz (b_unused b))" "ctz (b_unused b) < bsize t"
    "bit (b_unused b) (ctz (b_unused b))" "b_unused b \<noteq> 0"
proof -
  have "b_unused b AND mask (bsize t) \<noteq> 0"
    using p r by (simp add: has_room_def flagged_def params_ok_def)
  then obtain j where "bit (b_unused b AND mask (bsize t)) j" using word_nonzero_bit by blast
  then have j: "j < bsize t" "bit (b_unused b) j" by (auto simp: bit_simps)
  moreover have "bsize t < 32" using p by (simp add: params_ok_def)
  ultimately show "ctz_int (b_unused b) = Some (ctz (b_unused b))" "ctz (b_unused b) < bsize t"
    and nz: "b_unused b \<noteq> 0"
    using ctz_int_eq [of "b_unused b" j] by auto
  show "bit (b_unused b) (ctz (b_unused b))" using ctz_least(1) [OF nz] .
qed

lemma bucket_ok_take:
  assumes p: "params_ok t" and b: "bucket_ok t i q b" and u: "u < bsize t" and bit: "bit (b_unused b) u"
    and w: "\<And>j. bit w j \<longleftrightarrow> bit (b_unused b) j \<and> j \<noteq> u" and k: "key_len color \<le> length key"
  shows "bucket_ok t i q (put_entry b w u (filled hash key color q u (b_entries b ! u)))"
proof -
  have len: "length (b_entries b) = bsize t" using b by (simp add: bucket_ok_def)
  then have "b_entries b ! u \<in> set (b_entries b)" using u by simp
  then have x: "length (e_key_data (b_entries b ! u)) = FLOW_MAX_KEY_LEN"
    using b by (auto simp: bucket_ok_def)
  have y: "length (e_key_data (filled hash key color q u (b_entries b ! u))) = FLOW_MAX_KEY_LEN"
    using x k key_len_le [of color] by (simp add: filled_def)
  show ?thesis
    using b u len y w unfolding bucket_ok_def put_entry_def
    by (auto simp: nth_list_update filled_def dest!: set_update_subset_insert [THEN subsetD])
qed

lemma live_put_other:
  "p \<notin> set ps \<Longrightarrow> live (put_bucket t p b) ps = live t ps"
  by (induction ps) (auto simp: live_def live_in_def used_slots_def cong: option.case_cong)

lemma ft_add_room:
  assumes t: "table_ok t P" and i: "i = chain_of t hash" and key: "key_len color \<le> length key"
    and f: "find (\<lambda>q. has_room t (the (t_mem t q)) \<and> trylock q) (P i) = Some p"
  shows "\<exists>u t'. ft_add trylock calloc_ok t hash key color = Some (Some (p, u), t')
     \<and> added t P t' P (p, u) hash key color"
proof -
  have il: "i < unat (t_size t)" using t i chain_of_less by (auto simp: table_ok_def)
  note c = table_chain [OF t, of hash, folded i]
  have par: "params_ok t" using t by (simp add: table_ok_def)
  have p: "p \<in> set (P i)" "has_room t (the (t_mem t p))"
    using f by (auto simp: find_Some_iff)
  obtain b where b: "t_mem t p = Some b" "bucket_ok t i p b"
    using table_ok_parent [OF t il p(1)] by blast
  have r: "has_room t b" using p(2) b(1) by simp
  let ?u = "ctz (b_unused b)" and ?w = "b_unused b AND (b_unused b - 1)"
  note s = room_slot [OF par b(2) r]
  have w: "bit ?w j \<longleftrightarrow> bit (b_unused b) j \<and> j \<noteq> ?u" for j
    using clear_lowest [OF s(4)] .
  have len: "length (b_entries b) = bsize t" using b(2) by (simp add: bucket_ok_def)
  then have "b_entries b ! ?u \<in> set (b_entries b)" using s(2) by simp
  then have x: "length (e_key_data (b_entries b ! ?u)) = FLOW_MAX_KEY_LEN"
    using b(2) by (auto simp: bucket_ok_def)
  define b' where "b' = put_entry b ?w ?u (filled hash key color p ?u (b_entries b ! ?u))"
  define t' where "t' = (put_bucket t p b')\<lparr>t_stats := count_add (t_stats t)\<rparr>"
  from chain_ok_cons [OF c] obtain qs where qs: "P i = First i # qs" ..
  have "find_room trylock t (First i) = Some (Some p)"
    using find_room_path [of t None "First i" qs trylock] c f
    by (simp only: qs chain_ok_def)
  then have add: "ft_add trylock calloc_ok t hash key color = Some (Some (p, ?u), t')"
    using take_slot [OF b(1), of ?u color key "\<lambda>b. b_unused b AND (b_unused b - 1)" hash] s(2) len key x
    by (simp add: ft_add_def Let_def s(1) b(1) b'_def t'_def flip: i)
  have "table_ok t' P"
    unfolding t'_def table_ok_stats b'_def
    by (rule table_ok_put [OF t il p(1) b(1)])
      (auto simp: put_entry_def intro!: bucket_ok_take [OF par b(2) s(2,3) w key, unfolded put_entry_def])
  moreover have not_live: "(p, ?u) \<notin> set (live t (P j))" for j
    using s(3) b(1) by (auto simp: set_live)
  moreover have "set (live t' (P i)) = insert (p, ?u) (set (live t (P i)))"
  proof -
    have "(q, j) \<in> set (live t' (P i)) \<longleftrightarrow> (q, j) = (p, ?u) \<or> (q, j) \<in> set (live t (P i))" for q j
      unfolding t'_def live_stats set_live using p(1) b(1) s(2) w
      by (auto simp: b'_def put_entry_def)
    then show ?thesis by auto
  qed
  moreover have "live t' (P j) = live t (P j)" if "j < unat (t_size t)" "j \<noteq> i" for j
    unfolding t'_def live_stats
    using table_ok_disjoint [OF t il that(1) p(1)] that(2) by (intro live_put_other) auto
  moreover have "entry t' e' = entry t e'" if "e' \<in> set (live t (P j))" for e' j
  proof (cases "fst e' = p")
    case True
    then have "snd e' \<noteq> ?u" using not_live [of j] that by (metis prod.collapse)
    with True b(1) show ?thesis by (simp add: t'_def entry_def b'_def put_entry_def)
  qed (simp add: t'_def entry_def)
  moreover have "entry t' (p, ?u) = filled hash key color p ?u (b_entries b ! ?u)"
    using s(2) len by (simp add: t'_def entry_def b'_def put_entry_def)
  ultimately have "added t P t' P (p, ?u) hash key color"
    unfolding added_def Let_def i [symmetric]
    using x by (auto simp: t'_def)
  with add show ?thesis by blast
qed


text \<open>The chain is full: a new bucket is appended.\<close>

lemma ft_add_append:
  assumes t: "table_ok t P" and i: "i = chain_of t hash" and key: "key_len color \<le> length key"
    and f: "find (\<lambda>q. has_room t (the (t_mem t q)) \<and> trylock q) (P i) = None"
  shows "\<exists>e t'. ft_add trylock True t hash key color = Some (Some e, t')
     \<and> added t P t' (P(i := P i @ [Dyn (t_fresh t)])) e hash key color"
proof -
  let ?new = "Dyn (t_fresh t)"
  have il: "i < unat (t_size t)" using t i chain_of_less by (auto simp: table_ok_def)
  note c = table_chain [OF t, of hash, folded i]
  have par: "params_ok t" using t by (simp add: table_ok_def)
  from chain_ok_cons [OF c] obtain qs where qs: "P i = First i # qs" ..
  let ?l = "last (P i)"
  have l: "?l \<in> set (P i)" "t_last t i = Some ?l" using qs c by (auto simp: chain_ok_def)
  obtain bl where bl: "t_mem t ?l = Some bl" "bucket_ok t i ?l bl"
    using table_ok_parent [OF t il l(1)] by blast
  have fresh: "t_mem t ?new = None" using t by (simp add: table_ok_def)
  have new: "?new \<notin> set (P j)" if "j < unat (t_size t)" for j
    using table_ok_live [OF t that, of ?new] fresh by auto
  have nl: "?l \<noteq> ?new" using bl(1) fresh by auto
  define z where "z = \<lparr>b_parent = i, b_prev = Some ?l, b_next = None, b_flags = BUCKET_DYNAMIC,
      b_unused = NOT 1, b_entries = replicate (bsize t) zero_entry\<rparr>"
  define ta where "ta = t\<lparr>t_mem := (t_mem t)(?l \<mapsto> bl\<lparr>b_next := Some ?new\<rparr>, ?new \<mapsto> z),
      t_fresh := t_fresh t + 1, t_last := (t_last t)(i \<mapsto> ?new)\<rparr>"
  define x where "x = filled hash key color ?new 0 zero_entry"
  define zb where "zb = put_entry z (NOT 1) 0 x"
  define t' where "t' = (put_bucket ta ?new zb)\<lparr>t_stats := count_add (t_stats t)\<rparr>"
  let ?P = "P(i := P i @ [?new])"
  have b1: "1 \<le> bsize t" "bsize t < 32" using par by (simp_all add: params_ok_def)
  have bs: "bsize ta = bsize t" by (simp add: ta_def bsize_def)
  have zl: "length (e_key_data zero_entry) = FLOW_MAX_KEY_LEN" by (simp add: zero_entry_def)
  have "find_room trylock t (First i) = Some None"
    using find_room_path [of t None "First i" qs trylock] c f
    by (simp only: qs chain_ok_def)
  moreover have "\<exists>u. ft_append True t i = Some (Some ?new, ta\<lparr>t_mem := (t_mem ta)(?new \<mapsto> z\<lparr>b_unused := u\<rparr>)\<rparr>)"
    using l(2) bl(1) nl fresh
    by (auto simp: ft_append_def ft_add_bucket_def Let_def ft_init_bucket_def upd_bucket_def zero_bucket_def
        ta_def z_def bsize_def fun_upd_twist [of ?new ?l] intro!: exI [of _ "NOT 0"])
  then obtain u where ap: "ft_append True t i = Some (Some ?new, put_bucket ta ?new (z\<lparr>b_unused := u\<rparr>))"
    by (auto simp: put_bucket_def)
  moreover have "ft_finish (upd_entry (upd_bucket (put_bucket ta ?new (z\<lparr>b_unused := u\<rparr>)) ?new (\<lambda>b. b\<lparr>b_unused := NOT 1\<rparr>))
      (?new, 0) (set_index 0)) (?new, 0) hash key color = Some (Some (?new, 0), t')"
    using take_slot [of "put_bucket ta ?new (z\<lparr>b_unused := u\<rparr>)" ?new "z\<lparr>b_unused := u\<rparr>" 0 color key "\<lambda>_. NOT 1" hash]
      b1(1) key zl by (simp add: z_def t'_def zb_def x_def put_entry_def ta_def)
  ultimately have add: "ft_add trylock True t hash key color = Some (Some (?new, 0), t')"
    by (simp add: ft_add_def Let_def flip: i)
  have zbok: "bucket_ok t i ?new zb"
  proof -
    have "bit (NOT 1 :: u64) j \<longleftrightarrow> j < 64 \<and> j \<noteq> 0" for j by (auto simp: bit_simps)
    moreover have "length (e_key_data x) = FLOW_MAX_KEY_LEN"
      using key key_len_le [of color] zl by (simp add: x_def filled_def)
    ultimately show ?thesis
      using b1 zl by (auto simp: bucket_ok_def zb_def z_def put_entry_def x_def filled_def flagged_def
        BUCKET_DYNAMIC_def BUCKET_TO_FREE_def dest!: set_update_subset_insert [THEN subsetD] in_set_replicate [THEN iffD1])
  qed
  have mem: "t_mem t' = (t_mem t)(?l \<mapsto> bl\<lparr>b_next := Some ?new\<rparr>, ?new \<mapsto> zb)"
    by (simp add: t'_def ta_def)
  have bt: "bsize t' = bsize t" by (simp add: t'_def bs)
  have lj: "j = i" if "j < unat (t_size t)" "?l \<in> set (P j)" for j
    using table_ok_disjoint [OF t il that(1) l(1) that(2)] by simp
  have chain_j: "chain_ok t' j (?P j)" if j: "j < unat (t_size t)" for j
  proof (cases "j = i")
    case False
    then have "?l \<notin> set (P j)" "?new \<notin> set (P j)" using lj [OF j] new [OF j] by auto
    moreover from this have "seg (t_mem t') None (P j) None = seg (t_mem t) None (P j) None"
      unfolding mem by (intro seg_cong) auto
    ultimately show ?thesis
      using t j False bt by (auto simp: table_ok_def chain_ok_def bucket_ok_def mem t'_def ta_def)
  next
    case True
    have d: "distinct (P i)" "seg (t_mem t) None (P i) None" using c by (auto simp: chain_ok_def)
    have "seg ((t_mem t)(?l \<mapsto> bl\<lparr>b_next := Some ?new\<rparr>)) None (P i) (Some ?new)"
      using seg_set_next [OF d(2,1) _ bl(1)] qs by simp
    moreover have "seg (t_mem t') None (P i) (Some ?new)
        = seg ((t_mem t)(?l \<mapsto> bl\<lparr>b_next := Some ?new\<rparr>)) None (P i) (Some ?new)"
      unfolding mem using new [OF il] by (intro seg_cong) auto
    moreover have "last_or None (P i) = Some ?l" using qs by (simp add: last_or_def)
    ultimately have "seg (t_mem t') None (P i @ [?new]) None"
      by (simp add: seg_append mem zb_def z_def put_entry_def)
    moreover have "bucket_ok t' i q b" if "q \<in> set (P i)" "t_mem t' q = Some b" for q b
    proof (cases "q = ?l")
      case True
      then have "b = bl\<lparr>b_next := Some ?new\<rparr>" using that nl by (simp add: mem)
      with bl(2) True bt show ?thesis by (simp add: bucket_ok_def)
    next
      case False
      with that new [OF il] have "t_mem t q = Some b" by (auto simp: mem split: if_splits)
      with that(1) c bt show ?thesis by (auto simp: chain_ok_def bucket_ok_def)
    qed
    moreover have "bucket_ok t' i ?new zb" using zbok bt by (simp add: bucket_ok_def)
    ultimately show ?thesis
      using True d new [OF il] qs by (auto simp: chain_ok_def mem) (simp_all add: t'_def ta_def)
  qed
  have "table_ok t' ?P"
  proof -
    have "t_mem t' (Dyn n) = None" if n: "t_fresh t' \<le> n" for n
    proof -
      have "t_mem t (Dyn n) = None" using n t by (simp add: table_ok_def t'_def ta_def)
      with bl(1) have "Dyn n \<noteq> ?l" by (metis option.distinct(1))
      with n t show ?thesis by (auto simp: mem table_ok_def t'_def ta_def)
    qed
    moreover have "params_ok t'" using par bt by (simp add: params_ok_def t'_def ta_def)
    ultimately show ?thesis using chain_j by (simp add: table_ok_def t'_def ta_def)
  qed
  moreover have "set (live t' (?P i)) = insert (?new, 0) (set (live t (P i)))"
  proof -
    have "(q, j) \<in> set (live t' (P i @ [?new])) \<longleftrightarrow> (q, j) = (?new, 0) \<or> (q, j) \<in> set (live t (P i))" for q j
      unfolding set_live using new [OF il] bl(1) nl b1
      by (cases "q = ?l"; cases "q = ?new") (auto simp: mem bt zb_def put_entry_def bit_simps)
    then show ?thesis by auto
  qed
  moreover have "(?new, 0) \<notin> set (live t (P i))" using fresh by (simp add: set_live)
  moreover have "live t' (?P j) = live t (P j)" if j: "j < unat (t_size t)" "j \<noteq> i" for j
  proof -
    have "live_in t' q = live_in t q" if "q \<in> set (P j)" for q
    proof -
      have "q \<noteq> ?l" "q \<noteq> ?new" using that lj [OF j(1)] new [OF j(1)] j(2) by auto
      then show ?thesis by (simp add: live_in_def mem used_slots_def bt cong: option.case_cong)
    qed
    then show ?thesis using j(2) by (simp add: live_def cong: map_cong)
  qed
  moreover have "entry t' e' = entry t e'" if "e' \<in> set (live t (P j))" for e' j
  proof -
    have "t_mem t (fst e') \<noteq> None" using that set_live [of "fst e'" "snd e'"] by auto
    then have "fst e' \<noteq> ?new" using fresh by auto
    then show ?thesis using bl(1) by (cases "fst e' = ?l") (simp_all add: entry_def mem)
  qed
  moreover have "entry t' (?new, 0) = filled hash key color ?new 0 zero_entry"
    using b1 by (simp add: entry_def mem zb_def z_def put_entry_def x_def)
  ultimately have "added t P t' ?P (?new, 0) hash key color"
    unfolding added_def Let_def i [symmetric] using zl by (auto simp: t'_def ta_def)
  with add show ?thesis by blast
qed

end
