(* ===== verification/Flow_Table_Remove.thy ===== *)
theory Flow_Table_Remove
  imports Flow_Table_Inv
begin

text \<open>
  Removing entries from the flow table (\<open>ft_remove\<close> and \<open>ft_deref\<close> of \<open>ntnetflow/flowtable.c\<close>):
  the slot becomes free, an overflow bucket that has become empty is unlinked and freed, and
  nothing else changes.
\<close>

lemma sext_push_bit: "j < 31 \<Longrightarrow> sext32_64 (push_bit j 1) = push_bit j 1"
  unfolding sext32_64_def
  by (rule bit_word_eqI) (auto simp: bit_simps)

definition count_remove :: "stats \<Rightarrow> stats" where
  "count_remove st = stats_update (stats_update st STAT_UNLEARN 1) STAT_FLOW (- 1)"

definition removed :: "flow_table \<Rightarrow> (nat \<Rightarrow> bptr list) \<Rightarrow> flow_table \<Rightarrow> (nat \<Rightarrow> bptr list) \<Rightarrow> nat \<Rightarrow> eptr \<Rightarrow> bool" where
  "removed t P t' P' i e \<longleftrightarrow> table_ok t' P' \<and> t_mask t' = t_mask t \<and> t_size t' = t_size t
     \<and> set (live t' (P' i)) = set (live t (P i)) - {e}
     \<and> (\<forall>j < unat (t_size t). j \<noteq> i \<longrightarrow> live t' (P' j) = live t (P j))
     \<and> (\<forall>j < unat (t_size t). \<forall>e' \<in> set (live t (P j)). e' \<noteq> e \<longrightarrow> entry t' e' = entry t e')
     \<and> t_stats t' = count_remove (t_stats t)"

text \<open>A live entry knows its bucket and its index.\<close>

lemma live_entry:
  assumes t: "table_ok t P" and i: "i < unat (t_size t)" and e: "(p, j) \<in> set (live t (P i))"
  obtains b x where "p \<in> set (P i)" "t_mem t p = Some b" "bucket_ok t i p b" "get_entry t (p, j) = Some x"
    "e_bucket x = Some p" "index_bit (e_index x) = Some (push_bit j 1)" "j < bsize t"
    "\<not> flagged (b_unused b) (push_bit j 1)" "x = entry t (p, j)"
proof -
  from e obtain b where b: "p \<in> set (P i)" "t_mem t p = Some b" "j < bsize t" "\<not> bit (b_unused b) j"
    by (auto simp: set_live)
  have ok: "bucket_ok t i p b" using table_ok_parent [OF t i b(1)] b(2) by auto
  have j: "j < 31" using b(3) t by (auto simp: table_ok_def params_ok_def)
  let ?x = "b_entries b ! j"
  have "e_bucket ?x = Some p" "e_index ?x = of_nat j" and len: "length (b_entries b) = bsize t"
    using ok b(3,4) by (auto simp: bucket_ok_def)
  moreover have "unat (of_nat j :: u8) = j"
    using j by (subst unat_of_nat) simp
  ultimately show thesis
    using b ok j sext_push_bit [OF j] flagged_push_bit [of "b_unused b" j]
    by (intro that [of b ?x]) (simp_all add: get_entry_def index_bit_def entry_def)
qed

definition freed_slot :: "flow_bucket \<Rightarrow> nat \<Rightarrow> flow_bucket" where
  "freed_slot b j = b\<lparr>b_unused := b_unused b OR push_bit j 1\<rparr>"

definition empties :: "flow_table \<Rightarrow> flow_bucket \<Rightarrow> nat \<Rightarrow> bool" where
  "empties t b j \<longleftrightarrow> flagged (b_flags b) BUCKET_DYNAMIC \<and> NOT (b_unused b OR push_bit j 1) AND t_bucket_mask t = 0"

lemma ft_remove_eq:
  assumes t: "table_ok t P" and i: "i < unat (t_size t)" and e: "(p, j) \<in> set (live t (P i))"
    and b: "t_mem t p = Some b"
  shows "ft_remove t (p, j) =
    (if empties t b j
     then map_option (\<lambda>t. t\<lparr>t_stats := count_remove (t_stats t)\<rparr>)
        (unlink_bucket (put_bucket t p ((freed_slot b j)\<lparr>b_flags := b_flags b OR BUCKET_TO_FREE\<rparr>)) p
           ((freed_slot b j)\<lparr>b_flags := b_flags b OR BUCKET_TO_FREE\<rparr>))
     else Some ((put_bucket t p (freed_slot b j))\<lparr>t_stats := count_remove (t_stats t)\<rparr>))"
proof (rule live_entry [OF t i e])
  fix b' x assume *: "t_mem t p = Some b'" "get_entry t (p, j) = Some x" "e_bucket x = Some p"
    "index_bit (e_index x) = Some (push_bit j 1)" "\<not> flagged (b_unused b') (push_bit j 1)"
  then have "b' = b" using b by simp
  with * show ?thesis
    by (auto simp: ft_remove_def empties_def freed_slot_def Let_def upd_bucket_some count_remove_def
        split: option.splits)
qed

lemma remove_keep:
  assumes t: "table_ok t P" and i: "i < unat (t_size t)" and e: "(p, j) \<in> set (live t (P i))"
    and b: "t_mem t p = Some b" and k: "\<not> empties t b j"
  shows "\<exists>t'. ft_remove t (p, j) = Some t' \<and> removed t P t' P i (p, j)"
proof (rule live_entry [OF t i e])
  fix b' x assume *: "p \<in> set (P i)" "t_mem t p = Some b'" "bucket_ok t i p b'" "j < bsize t"
  then have ok: "bucket_ok t i p b" using b by simp
  let ?b = "freed_slot b j"
  define t' where "t' = (put_bucket t p ?b)\<lparr>t_stats := count_remove (t_stats t)\<rparr>"
  have bits: "bit (b_unused ?b) l \<longleftrightarrow> bit (b_unused b) l \<or> l = j" for l
    using *(4) t by (auto simp: freed_slot_def bit_simps table_ok_def params_ok_def)
  have "table_ok t' P"
    unfolding t'_def table_ok_stats
    by (rule table_ok_put [OF t i *(1) b])
      (use ok bits in \<open>auto simp: freed_slot_def bucket_ok_def\<close>)
  moreover have "set (live t' (P i)) = set (live t (P i)) - {(p, j)}"
  proof -
    have "(q, l) \<in> set (live t' (P i)) \<longleftrightarrow> (q, l) \<in> set (live t (P i)) \<and> (q, l) \<noteq> (p, j)" for q l
      unfolding t'_def live_stats set_live using b bits by (cases "q = p") auto
    then show ?thesis by auto
  qed
  moreover have "live t' (P m) = live t (P m)" if "m < unat (t_size t)" "m \<noteq> i" for m
    unfolding t'_def live_stats
    using table_ok_disjoint [OF t i that(1) *(1)] that(2) by (intro live_put_other) auto
  moreover have "entry t' e' = entry t e'" for e'
    using b by (cases "fst e' = p") (simp_all add: t'_def entry_def freed_slot_def)
  ultimately have "removed t P t' P i (p, j)" by (auto simp: removed_def t'_def)
  with ft_remove_eq [OF t i e b] k t'_def show ?thesis by auto
qed


text \<open>The slots of a bucket that a removal empties: only the removed entry was live in it.\<close>

lemma empties_live:
  assumes t: "table_ok t P" and b: "t_mem t p = Some b" and k: "empties t b j"
    and l: "(p, l) \<in> set (live t ps)"
  shows "l = j"
proof (rule ccontr)
  assume "l \<noteq> j"
  have l: "l < bsize t" "\<not> bit (b_unused b) l" using l b by (auto simp: set_live)
  have "t_bucket_mask t = mask (bsize t)" "bsize t < 32" using t by (auto simp: table_ok_def params_ok_def)
  with l \<open>l \<noteq> j\<close> have "bit (NOT (b_unused b OR push_bit j 1) AND t_bucket_mask t) l"
    by (auto simp: bit_simps)
  with k show False by (auto simp: empties_def)
qed

lemma opt_upd_fields:
  defines "u \<equiv> \<lambda>x t f. case x of None \<Rightarrow> t | Some q \<Rightarrow> upd_bucket t q f"
  shows "t_last (u x t f) = t_last t" "t_mask (u x t f) = t_mask t" "t_size (u x t f) = t_size t"
    "t_fresh (u x t f) = t_fresh t" "t_stats (u x t f) = t_stats t" "t_bucket_mask (u x t f) = t_bucket_mask t"
    "t_bucket_size (u x t f) = t_bucket_size t"
  by (simp_all add: u_def upd_bucket_def split: option.split)

lemma unlink_fields:
  assumes "unlink_bucket t p b = Some t'"
  shows "t_last t' = (if t_last t (b_parent b) = Some p then (t_last t)(b_parent b := b_prev b) else t_last t)
    \<and> t_mask t' = t_mask t \<and> t_size t' = t_size t \<and> t_fresh t' = t_fresh t \<and> t_stats t' = t_stats t
    \<and> t_bucket_mask t' = t_bucket_mask t \<and> t_bucket_size t' = t_bucket_size t"
  using assms unfolding unlink_bucket_def Let_def option.inject
  by (elim subst) (simp add: opt_upd_fields)

text \<open>Unlinking the bucket \<open>p\<close> of the chain \<open>xs @ p # ys\<close>.\<close>

lemma unlink_mem:
  assumes s: "seg (t_mem t) None (xs @ p # ys) None" and d: "distinct (xs @ p # ys)" and xs: "xs \<noteq> []"
    and b: "b_prev b = Some (last xs)" "b_next b = head_or ys None"
    and l: "t_mem t (last xs) = Some bl"
    and r: "unlink_bucket (put_bucket t p c) p b = Some t'"
  shows "seg (t_mem t') None (xs @ ys) None"
    "t_mem t' p = None" "\<And>q. q \<notin> set (xs @ p # ys) \<Longrightarrow> t_mem t' q = t_mem t q"
    "\<And>q. q \<noteq> p \<Longrightarrow> map_option (\<lambda>b. b\<lparr>b_prev := None, b_next := None\<rparr>) (t_mem t' q)
        = map_option (\<lambda>b. b\<lparr>b_prev := None, b_next := None\<rparr>) (t_mem t q)"
    "t_last t' = (if t_last t (b_parent b) = Some p then (t_last t)(b_parent b \<mapsto> last xs) else t_last t)"
    "t_mask t' = t_mask t" "t_size t' = t_size t" "t_fresh t' = t_fresh t" "t_stats t' = t_stats t"
    "t_bucket_mask t' = t_bucket_mask t" "bsize t' = bsize t"
proof -
  have "last xs \<in> set xs" using xs by simp
  then have lx: "last xs \<in> set xs" "last xs \<noteq> p" "last xs \<notin> set ys" using d by auto
  have s1: "seg (t_mem t) None xs (Some p)" "seg (t_mem t) (Some p) ys None"
    using s by (auto simp: seg_append split: option.splits)
  define m1 where "m1 = (t_mem t)(last xs \<mapsto> bl\<lparr>b_next := head_or ys None\<rparr>)"
  have a: "seg m1 None xs (head_or ys None)"
    unfolding m1_def using seg_set_next [OF s1(1) _ xs l] d by simp
  have ys1: "seg m1 (Some p) ys None"
    using s1(2) lx(3) unfolding m1_def by (subst seg_cong) auto
  have "\<exists>m2. t_mem t' = m2(p := None) \<and> seg m2 None xs (head_or ys None) \<and> seg m2 (Some (last xs)) ys None
      \<and> (\<forall>q. q \<notin> set (xs @ p # ys) \<longrightarrow> m2 q = t_mem t q)
      \<and> (\<forall>q. q \<noteq> p \<longrightarrow> map_option (\<lambda>b. b\<lparr>b_prev := None, b_next := None\<rparr>) (m2 q)
          = map_option (\<lambda>b. b\<lparr>b_prev := None, b_next := None\<rparr>) (t_mem t q))"
  proof (cases ys)
    case Nil
    have "t_mem t' = m1(p := None)"
      using r b Nil l lx(2) by (auto simp: unlink_bucket_def Let_def upd_bucket_def put_bucket_def m1_def)
    with a Nil lx l show ?thesis by (intro exI [of _ m1]) (auto simp: m1_def)
  next
    case (Cons y ys')
    with ys1 obtain c' where c': "m1 y = Some c'" by (auto split: option.splits)
    have y: "y \<noteq> p" "y \<noteq> last xs" "y \<notin> set xs" using d Cons lx by auto
    have ty: "t_mem t y = Some c'" using c' y by (simp add: m1_def)
    let ?m2 = "m1(y \<mapsto> c'\<lparr>b_prev := Some (last xs)\<rparr>)"
    have "t_mem t' = ?m2(p := None)"
      using r b Cons l lx(2) y ty
      by (auto simp: unlink_bucket_def Let_def upd_bucket_def put_bucket_def m1_def)
    moreover have "seg ?m2 None xs (head_or ys None)"
      using a y by (subst seg_cong) auto
    moreover have "seg ?m2 (Some (last xs)) ys None"
      using seg_set_prev [of m1 "Some p" y ys' None c' "Some (last xs)"] ys1 d c' Cons by simp
    ultimately show ?thesis using Cons lx l ty y by (intro exI [of _ ?m2]) (auto simp: m1_def)
  qed
  then obtain m2 where m2: "t_mem t' = m2(p := None)" "seg m2 None xs (head_or ys None)"
      "seg m2 (Some (last xs)) ys None" "\<And>q. q \<notin> set (xs @ p # ys) \<Longrightarrow> m2 q = t_mem t q"
      "\<And>q. q \<noteq> p \<Longrightarrow> map_option (\<lambda>b. b\<lparr>b_prev := None, b_next := None\<rparr>) (m2 q)
          = map_option (\<lambda>b. b\<lparr>b_prev := None, b_next := None\<rparr>) (t_mem t q)" by blast
  have "seg (t_mem t') None xs (head_or ys None)" "seg (t_mem t') (Some (last xs)) ys None"
    using m2(2,3) d unfolding m2(1) by (subst seg_cong; auto)+
  then show "seg (t_mem t') None (xs @ ys) None" using xs by (simp add: seg_append last_or_def)
  show "t_mem t' p = None" by (simp add: m2(1))
  show "\<And>q. q \<notin> set (xs @ p # ys) \<Longrightarrow> t_mem t' q = t_mem t q" using m2(1,4) by auto
  show "\<And>q. q \<noteq> p \<Longrightarrow> map_option (\<lambda>b. b\<lparr>b_prev := None, b_next := None\<rparr>) (t_mem t' q)
        = map_option (\<lambda>b. b\<lparr>b_prev := None, b_next := None\<rparr>) (t_mem t q)" using m2(1,5) by simp
  have "t_last t' = (if t_last t (b_parent b) = Some p then (t_last t)(b_parent b \<mapsto> last xs) else t_last t)
    \<and> t_mask t' = t_mask t \<and> t_size t' = t_size t \<and> t_fresh t' = t_fresh t \<and> t_stats t' = t_stats t
    \<and> t_bucket_mask t' = t_bucket_mask t \<and> t_bucket_size t' = t_bucket_size t"
    using unlink_fields [OF r] unfolding put_bucket_simps b(1) .
  then show "t_last t' = (if t_last t (b_parent b) = Some p then (t_last t)(b_parent b \<mapsto> last xs) else t_last t)"
    "t_mask t' = t_mask t" "t_size t' = t_size t" "t_fresh t' = t_fresh t" "t_stats t' = t_stats t"
    "t_bucket_mask t' = t_bucket_mask t" "bsize t' = bsize t"
    by (simp_all add: bsize_def)
qed


lemma bucket_ok_links:
  assumes "map_option (\<lambda>b. b\<lparr>b_prev := None, b_next := None\<rparr>) (Some b) = map_option (\<lambda>b. b\<lparr>b_prev := None, b_next := None\<rparr>) (Some c)"
    and "bsize t' = bsize t"
  shows "bucket_ok t' i q b = bucket_ok t i q c" "used_slots t' b = used_slots t c" "b_entries b = b_entries c"
proof -
  have "b\<lparr>b_prev := b_prev c, b_next := b_next c\<rparr> = c" using assms(1) by (cases b; cases c) simp
  then have "b_unused b = b_unused c" "b_flags b = b_flags c" "b_parent b = b_parent c" "b_entries b = b_entries c"
    by (metis flow_bucket.select_convs flow_bucket.surjective flow_bucket.update_convs)+
  then show "bucket_ok t' i q b = bucket_ok t i q c" "used_slots t' b = used_slots t c" "b_entries b = b_entries c"
    by (simp_all add: bucket_ok_def used_slots_def assms(2))
qed

lemma remove_drop:
  assumes t: "table_ok t P" and i: "i < unat (t_size t)" and e: "(p, j) \<in> set (live t (P i))"
    and b: "t_mem t p = Some b" and k: "empties t b j"
  shows "\<exists>t' ps. ft_remove t (p, j) = Some t' \<and> removed t P t' (P(i := ps)) i (p, j)"
proof -
  have p: "p \<in> set (P i)" using e by (simp add: set_live)
  have ok: "bucket_ok t i p b" using table_ok_parent [OF t i p] b by auto
  have c: "chain_ok t i (P i)" using t i by (simp add: table_ok_def)
  have pf: "p \<noteq> First i" using ok k by (simp add: bucket_ok_def empties_def)
  obtain xs ys where ps: "P i = xs @ p # ys" using p by (meson split_list)
  have xs: "xs \<noteq> []" using c pf ps by (auto simp: chain_ok_def)
  have s: "seg (t_mem t) None (xs @ p # ys) None" and d: "distinct (xs @ p # ys)"
    and la: "t_last t i = Some (last (P i))" using c unfolding chain_ok_def ps by auto
  have links: "b_prev b = Some (last xs)" "b_next b = head_or ys None"
    using s b xs by (auto simp: seg_append last_or_def)
  obtain bl where bl: "t_mem t (last xs) = Some bl"
    using seg_live [OF s, of "last xs"] xs by auto
  let ?b = "(freed_slot b j)\<lparr>b_flags := b_flags b OR BUCKET_TO_FREE\<rparr>"
  have fb: "b_prev ?b = Some (last xs)" "b_next ?b = head_or ys None" "b_parent ?b = i"
    using links ok by (simp_all add: freed_slot_def bucket_ok_def)
  obtain t1 where t1: "unlink_bucket (put_bucket t p ?b) p ?b = Some t1" by (simp add: unlink_bucket_def Let_def)
  note u = unlink_mem [OF s d xs fb(1,2) bl t1]
  define t' where "t' = t1\<lparr>t_stats := count_remove (t_stats t1)\<rparr>"
  let ?P = "P(i := xs @ ys)"
  have pj: "p \<notin> set (P m)" if "m < unat (t_size t)" "m \<noteq> i" for m
    using table_ok_disjoint [OF t i that(1) p] that(2) by auto
  have out: "q \<notin> set (P i)" if "m < unat (t_size t)" "m \<noteq> i" "q \<in> set (P m)" for m q
    using table_ok_disjoint [OF t i that(1) _ that(3)] that(2) by auto
  have bok: "bucket_ok t1 m q c'" if c': "t_mem t1 q = Some c'" and q: "q \<noteq> p"
    and o: "\<And>c. t_mem t q = Some c \<Longrightarrow> bucket_ok t m q c" for m q c'
    using u(4) [OF q] c' bucket_ok_links(1) [OF _ u(11)] o by (cases "t_mem t q") force+
  have chain: "chain_ok t1 m (?P m)" if m: "m < unat (t_size t)" for m
  proof (cases "m = i")
    case False
    have same: "t_mem t1 q = t_mem t q" if "q \<in> set (P m)" for q
      using u(3) [of q] out [OF m False that] unfolding ps by simp
    have "chain_ok t m (P m)" using t m by (simp add: table_ok_def)
    moreover have "seg (t_mem t1) None (P m) None = seg (t_mem t) None (P m) None"
      by (rule seg_cong) (rule same)
    moreover have "bucket_ok t1 m q c' = bucket_ok t m q c'" for q c' by (simp add: bucket_ok_def u(11))
    moreover have "t_last t1 m = t_last t m" using u(5) fb(3) False by simp
    ultimately show ?thesis using False same by (simp add: chain_ok_def)
  next
    case True
    have "t_last t1 i = Some (last (xs @ ys))"
      using u(5) la fb(3) d xs unfolding ps by (cases ys rule: rev_cases) auto
    moreover have "hd (xs @ ys) = First i" using c xs unfolding chain_ok_def ps by simp
    moreover have "bucket_ok t1 i q c'" if "q \<in> set (xs @ ys)" "t_mem t1 q = Some c'" for q c'
    proof (rule bok [OF that(2)])
      show "q \<noteq> p" using that(1) d by auto
      show "bucket_ok t i q c" if "t_mem t q = Some c" for c
        using \<open>q \<in> set (xs @ ys)\<close> that \<open>chain_ok t i (P i)\<close> unfolding chain_ok_def ps by auto
    qed
    ultimately show ?thesis using True u(1) d xs by (simp add: chain_ok_def)
  qed
  have "table_ok t' ?P"
  proof -
    have "t_mem t1 (Dyn n) = None" if "t_fresh t \<le> n" for n
      using u(4) [of "Dyn n"] u(2) t that by (cases "Dyn n = p") (auto simp: table_ok_def)
    moreover have "params_ok t1" using t u by (simp add: table_ok_def params_ok_def)
    ultimately have "table_ok t1 ?P" unfolding table_ok_def using chain u(7,8) by simp
    then show ?thesis unfolding t'_def by (simp only: table_ok_stats)
  qed
  moreover have li: "live_in t1 q = live_in t q" if "q \<noteq> p" for q
    using u(4) [OF that] bucket_ok_links(2) [OF _ u(11)]
    by (cases "t_mem t q"; cases "t_mem t1 q") (auto simp: live_in_def)
  moreover have lv: "live t1 zs = live t zs" if "p \<notin> set zs" for zs
    using that by (induction zs) (auto simp: live_Cons li, simp add: live_def)
  moreover have "set (live t' (?P i)) = set (live t (P i)) - {(p, j)}"
  proof -
    have "live t1 (xs @ ys) = live t xs @ live t ys"
      using d by (subst lv) (auto simp: live_def)
    moreover have "live t (P i) = live t xs @ live_in t p @ live t ys" by (simp add: ps live_def)
    moreover have "set (live_in t p) = {(p, j)}"
    proof -
      have "(p, j) \<in> set (live t [p])" using e unfolding set_live by auto
      moreover have "x = (p, j)" if x: "x \<in> set (live t [p])" for x
      proof -
        obtain q l where ql: "x = (q, l)" by force
        with x have "q = p" by (simp add: set_live)
        with x ql show ?thesis using empties_live [OF t b k, of l "[p]"] by simp
      qed
      ultimately have "set (live t [p]) = {(p, j)}" by blast
      then show ?thesis by (simp add: live_def)
    qed
    moreover have "(p, j) \<notin> set (live t xs)" "(p, j) \<notin> set (live t ys)"
      using d by (auto simp: set_live)
    ultimately show ?thesis unfolding t'_def live_stats by auto
  qed
  moreover have "live t' (?P m) = live t (P m)" if "m < unat (t_size t)" "m \<noteq> i" for m
    unfolding t'_def live_stats using pj [OF that] that(2) lv by simp
  moreover have "entry t' e' = entry t e'" if "e' \<in> set (live t (P m))" "e' \<noteq> (p, j)" for m e'
  proof -
    have "fst e' \<noteq> p"
    proof
      assume f: "fst e' = p"
      then have "(p, snd e') \<in> set (live t (P m))" using that(1) by (metis prod.collapse)
      then have "snd e' = j" by (rule empties_live [OF t b k])
      with f that(2) show False by (metis prod.collapse)
    qed
    note m = u(4) [OF this]
    have "b_entries (the (t_mem t1 (fst e'))) = b_entries (the (t_mem t (fst e')))"
    proof (cases "t_mem t (fst e')")
      case None
      with m show ?thesis by simp
    next
      case (Some b1)
      with m obtain b2 where b2: "t_mem t1 (fst e') = Some b2" by (cases "t_mem t1 (fst e')") simp_all
      from bucket_ok_links(3) [OF m [unfolded Some b2] u(11)] show ?thesis by (simp add: Some b2)
    qed
    then show ?thesis unfolding t'_def live_stats by (simp add: entry_def)
  qed
  ultimately have "removed t P t' ?P i (p, j)" using u(6-9) by (auto simp: removed_def t'_def)
  moreover have "ft_remove t (p, j) = Some t'"
    using ft_remove_eq [OF t i e b] k t1 by (simp add: t'_def)
  ultimately show ?thesis by blast
qed

lemma ft_remove_live:
  assumes t: "table_ok t P" and i: "i < unat (t_size t)" and e: "e \<in> set (live t (P i))"
  shows "\<exists>t' P'. ft_remove t e = Some t' \<and> removed t P t' P' i e"
proof -
  obtain p j where pj: "e = (p, j)" by force
  with e obtain b where b: "t_mem t p = Some b" by (auto simp: set_live)
  show ?thesis
    using remove_keep [OF t i _ b, of j] remove_drop [OF t i _ b, of j] e pj by (cases "empties t b j") auto
qed

end
