(* ===== verification/Flow_Table_Props.thy ===== *)
theory Flow_Table_Props
  imports Flow_Table_Remove
begin

text \<open>
  The flow table as its clients see it (\<open>ntnetflow/flowtable.c\<close>): a freshly initialised table is
  well formed; adding, looking up and dereferencing entries act on the set of live flows; and the
  three places where the code breaks this view: chains of more than one bucket at start-up, a
  failed allocation, and buckets of 32 entries.
\<close>

section \<open>Updates inside an entry\<close>

definition keeps_slot :: "(flow_entry \<Rightarrow> flow_entry) \<Rightarrow> bool" where
  "keeps_slot f \<longleftrightarrow> (\<forall>x. e_bucket (f x) = e_bucket x \<and> e_index (f x) = e_index x
      \<and> length (e_key_data (f x)) = length (e_key_data x))"

lemma upd_entry_keeps:
  assumes t: "table_ok t P" and i: "i < unat (t_size t)" and e: "e \<in> set (live t (P i))" and f: "keeps_slot f"
  shows "table_ok (upd_entry t e f) P" "live (upd_entry t e f) ps = live t ps"
    "entry (upd_entry t e f) e = f (entry t e)" "e' \<noteq> e \<Longrightarrow> entry (upd_entry t e f) e' = entry t e'"
    "get_entry (upd_entry t e f) e = Some (f (entry t e))"
    "t_mask (upd_entry t e f) = t_mask t" "t_size (upd_entry t e f) = t_size t" "t_stats (upd_entry t e f) = t_stats t"
proof -
  obtain p j where pj: "e = (p, j)" by force
  obtain b where b: "p \<in> set (P i)" "t_mem t p = Some b" "bucket_ok t i p b" "j < bsize t"
    using live_entry [OF t i e [unfolded pj]] by metis
  let ?b = "b\<lparr>b_entries := (b_entries b)[j := f (b_entries b ! j)]\<rparr>"
  have u: "upd_entry t e f = put_bucket t p ?b" by (simp add: pj upd_entry_some [OF b(2)])
  have len: "length (b_entries b) = bsize t" using b(3) by (simp add: bucket_ok_def)
  have mem: "b_entries b ! j \<in> set (b_entries b)" using b(4) len by simp
  show "table_ok (upd_entry t e f) P" unfolding u
    by (rule table_ok_put [OF t i b(1,2)])
      (use b(3,4) f mem len in \<open>auto simp: bucket_ok_def nth_list_update keeps_slot_def
         dest!: set_update_subset_insert [THEN subsetD]\<close>)
  have "live_in (upd_entry t e f) q = live_in t q" for q
    using b(2) unfolding u by (cases "q = p") (simp_all add: live_in_def used_slots_def cong: option.case_cong)
  then show "live (upd_entry t e f) ps = live t ps" by (simp add: live_def cong: map_cong)
  show "entry (upd_entry t e f) e = f (entry t e)" "get_entry (upd_entry t e f) e = Some (f (entry t e))"
    unfolding u using b(2,4) len by (simp_all add: entry_def pj get_entry_def)
  show "e' \<noteq> e \<Longrightarrow> entry (upd_entry t e f) e' = entry t e'"
    unfolding u using b(2) by (cases e') (auto simp: entry_def pj nth_list_update)
  show "t_mask (upd_entry t e f) = t_mask t" "t_size (upd_entry t e f) = t_size t" "t_stats (upd_entry t e f) = t_stats t"
    unfolding u by simp_all
qed

section \<open>Initialisation\<close>

lemma init_chains_one:
  assumes "distinct is"
  shows "\<exists>t'. ft_init_chains calloc t 0 is = Inr t'
    \<and> (\<forall>i \<in> set is. t_last t' i = Some (First i) \<and> t_mem t' (First i) = map_option (\<lambda>b. b\<lparr>b_parent := i,
          b_prev := None, b_flags := 0, b_unused := NOT 0, b_next := None\<rparr>) (t_mem t (First i)))
    \<and> (\<forall>i. i \<notin> set is \<longrightarrow> t_last t' i = t_last t i \<and> t_mem t' (First i) = t_mem t (First i))
    \<and> (\<forall>n. t_mem t' (Dyn n) = t_mem t (Dyn n)) \<and> t_fresh t' = t_fresh t \<and> t_size t' = t_size t \<and> t_mask t' = t_mask t
    \<and> t_bucket_mask t' = t_bucket_mask t \<and> t_bucket_size t' = t_bucket_size t"
  using assms
proof (induction "is" arbitrary: t)
  case (Cons i "is")
  let ?t = "(ft_init_bucket t (First i) i None False)\<lparr>t_last := (t_last t)(i \<mapsto> First i)\<rparr>"
  have s: "ft_init_chains calloc t 0 (i # is) = ft_init_chains calloc ?t 0 is"
    by (simp add: Let_def ft_init_bucket_def upd_bucket_def)
  from Cons.IH [of ?t] Cons.prems obtain t' where t': "ft_init_chains calloc ?t 0 is = Inr t'"
    "\<forall>k \<in> set is. t_last t' k = Some (First k) \<and> t_mem t' (First k) = map_option (\<lambda>b. b\<lparr>b_parent := k,
          b_prev := None, b_flags := 0, b_unused := NOT 0, b_next := None\<rparr>) (t_mem ?t (First k))"
    "\<forall>k. k \<notin> set is \<longrightarrow> t_last t' k = t_last ?t k \<and> t_mem t' (First k) = t_mem ?t (First k)"
    "\<forall>n. t_mem t' (Dyn n) = t_mem ?t (Dyn n)" "t_fresh t' = t_fresh ?t" "t_size t' = t_size ?t" "t_mask t' = t_mask ?t"
    "t_bucket_mask t' = t_bucket_mask ?t" "t_bucket_size t' = t_bucket_size ?t" by auto
  with s Cons.prems show ?case
    by (intro exI [of _ t']) (auto simp: ft_init_bucket_def upd_bucket_def Let_def)
qed simp

lemma ft_init_one:
  assumes pow2: "pow2 \<le> 30" and bs: "bucket_size \<in> {1, 2, 4, 8, 16}"
    and new: "\<forall>n \<ge> t_fresh t. t_mem t (Dyn n) = None"
  shows "\<exists>t'. ft_init True calloc t pow2 1 bucket_size = (Some (Inr ()), t') \<and> table_ok t' (\<lambda>i. [First i])
     \<and> unat (t_size t') = 2 ^ pow2 \<and> (\<forall>i < 2 ^ pow2. live t' [First i] = [])"
proof -
  define t1 where "t1 = ft_set_params t pow2 bucket_size"
  define t2 where "t2 = ft_calloc_table t1 pow2"
  from init_chains_one [of "[0..<2 ^ pow2]" calloc t2] obtain t' where t':
    "ft_init_chains calloc t2 0 [0..<2 ^ pow2] = Inr t'"
    "\<And>i. i < 2 ^ pow2 \<Longrightarrow> t_last t' i = Some (First i) \<and> t_mem t' (First i) = map_option (\<lambda>b. b\<lparr>b_parent := i,
          b_prev := None, b_flags := 0, b_unused := NOT 0, b_next := None\<rparr>) (t_mem t2 (First i))"
    "\<And>n. t_mem t' (Dyn n) = t_mem t2 (Dyn n)" "t_fresh t' = t_fresh t2" "t_size t' = t_size t2" "t_mask t' = t_mask t2"
    "t_bucket_mask t' = t_bucket_mask t2" "t_bucket_size t' = t_bucket_size t2" by auto
  note ft_defs = ft_set_params_def ft_calloc_table_def
  have bits: "of_nat bucket_size AND (of_nat bucket_size - 1 :: u64) = 0" "1 \<le> bucket_size" "bucket_size < 32"
    using bs by auto
  have "ft_init True calloc t pow2 1 bucket_size = (Some (Inr ()), t')"
    using bits pow2 t'(1) by (simp add: ft_init_def Let_def t2_def t1_def)
  moreover have bsz: "bsize t' = bucket_size"
    using bs by (auto simp: bsize_def t' t2_def t1_def ft_defs)
  moreover have size: "unat (t_size t') = 2 ^ pow2"
    using unat_pow2_64 [OF pow2] by (simp add: t' t2_def t1_def ft_defs)
  moreover have "params_ok t'"
    using bits bsz pow2 by (auto simp: params_ok_def t' t2_def t1_def ft_defs mask_eq_exp_minus_1 intro!: exI [of _ pow2])
  moreover have first: "\<exists>b. t_mem t' (First i) = Some b \<and> b_parent b = i \<and> b_prev b = None \<and> b_next b = None
      \<and> b_flags b = 0 \<and> b_unused b = NOT 0 \<and> b_entries b = replicate bucket_size zero_entry" if "i < 2 ^ pow2" for i
    using t'(2) [OF that] that bs by (auto simp: t2_def zero_bucket_def t1_def ft_defs)
  moreover have "bit (NOT 0 :: u64) j \<longleftrightarrow> j < 64" for j by (simp add: bit_simps)
  moreover have "chain_ok t' i [First i]" if "i < 2 ^ pow2" for i
    using first [OF that] t'(2) [OF that] bsz bits(3)
    by (auto simp: chain_ok_def bucket_ok_def flagged_def zero_entry_def)
  moreover have "live t' [First i] = []" if "i < 2 ^ pow2" for i
    using first [OF that] bsz bits(3) by (auto simp: live_def live_in_def used_slots_def)
  ultimately show ?thesis
    using new by (intro exI [of _ t']) (auto simp: table_ok_def t' t2_def t1_def ft_defs)
qed


section \<open>What clients rely on\<close>

lemma find_SomeD: "find Q xs = Some x \<Longrightarrow> x \<in> set xs \<and> Q x"
  by (induction xs) (auto split: if_splits)

text \<open>A small well-formed table: one chain, one bucket of one entry.\<close>

lemma small_table:
  obtains t where "table_ok t (\<lambda>i. [First i])" "live t [First 0] = []" "\<And>h. chain_of t h = 0"
    "ft_init True (\<lambda>_. True) (ft_static stats_zero) 0 1 1 = (Some (Inr ()), t)"
proof -
  from ft_init_one [of 0 1 "ft_static stats_zero" "\<lambda>_. True"] obtain t where
    "ft_init True (\<lambda>_. True) (ft_static stats_zero) 0 1 1 = (Some (Inr ()), t)" "table_ok t (\<lambda>i. [First i])"
    "unat (t_size t) = 1" "live t [First 0] = []" by (auto simp: ft_static_def)
  moreover from this have "chain_of t h = 0" for h
    using chain_of_less [of t h] by (simp add: table_ok_def)
  ultimately show thesis using that by blast
qed

text \<open>Initialising a table with one bucket per chain succeeds when its allocation does and gives a
  well-formed table without any flow: every lookup answers that there is no entry.\<close>

theorem ft_init_empty:
  assumes "pow2 \<le> 30" "bucket_size \<in> {1, 2, 4, 8, 16}"
  shows "\<exists>t. ft_init True calloc (ft_static st) pow2 1 bucket_size = (Some (Inr ()), t)
     \<and> table_ok t (\<lambda>i. [First i]) \<and> (\<forall>hash key color. ft_lookup t hash key color = Some None)"
proof -
  from ft_init_one [OF assms, of "ft_static st" calloc] obtain t where
    t: "ft_init True calloc (ft_static st) pow2 1 bucket_size = (Some (Inr ()), t)" "table_ok t (\<lambda>i. [First i])"
    "unat (t_size t) = 2 ^ pow2" "\<And>i. i < 2 ^ pow2 \<Longrightarrow> live t [First i] = []"
    by (auto simp: ft_static_def)
  have "ft_lookup t hash key color = Some None" for hash key color
    using lookup_path [OF t(2)] t(3,4) chain_of_less [of t hash] t(2)
    by (simp add: ft_lookup_def table_ok_def)
  with t show ?thesis by blast
qed

theorem ft_init_empty_witness:
  "\<exists>t. ft_init True (\<lambda>_. False) (ft_static stats_zero) 22 1 16 = (Some (Inr ()), t) \<and> ft_lookup t 5 [] 0 = Some None"
  using ft_init_empty [of 22 16 "\<lambda>_. False" stats_zero] by auto

lemma ft_add_ok:
  assumes "table_ok t P" "key_len color \<le> length key"
    and "calloc_ok \<or> (\<exists>q \<in> set (P (chain_of t hash)). has_room t (the (t_mem t q)) \<and> trylock q)"
  shows "\<exists>e t' P'. ft_add trylock calloc_ok t hash key color = Some (Some e, t') \<and> added t P t' P' e hash key color"
proof (cases "find (\<lambda>q. has_room t (the (t_mem t q)) \<and> trylock q) (P (chain_of t hash))")
  case None
  with assms(3) have "calloc_ok" by (auto simp: find_None_iff)
  with ft_add_append [OF assms(1) refl assms(2) None] show ?thesis by auto
next
  case (Some p)
  from ft_add_room [OF assms(1) refl assms(2) Some] show ?thesis by blast
qed

lemma chain_of_mask: "t_mask t' = t_mask t \<Longrightarrow> chain_of t' h = chain_of t h"
  by (simp add: chain_of_def)

lemma filled_matches:
  assumes "key_len color \<le> length key" "length (e_key_data x) = FLOW_MAX_KEY_LEN"
  shows "ft_compare (filled hash key color p u x) hash key (ucast color) = 0"
proof -
  have "key_len (ucast color :: u32) = key_len (color :: u16)"
    unfolding key_len_def FLOW_COLOR_IPV6_def flagged_push_bit by (simp add: bit_simps)
  with assms show ?thesis by (simp add: ft_compare_def filled_def)
qed


text \<open>A well-formed table with one known flow.\<close>

lemma small_flow:
  obtains t P e where "table_ok t P" "e \<in> set (live t (P (chain_of t 9)))" "0 < unat (t_size t)"
    "ft_compare (entry t e) 9 (replicate 12 1) 4 = 0" "e_color (entry t e) = 4"
proof -
  obtain t where t: "table_ok t (\<lambda>i. [First i])" using small_table by blast
  have k: "key_len (4 :: u16) \<le> length (replicate 12 (1 :: u8))"
    by (simp add: key_len_def flagged_def flow_color_defs flow_len_defs)
  from ft_add_ok [OF t k, of True 9 "\<lambda>_. False"] obtain e t' P' where
    a: "added t (\<lambda>i. [First i]) t' P' e 9 (replicate 12 1) 4" by auto
  then obtain x where x: "entry t' e = filled 9 (replicate 12 1) 4 (fst e) (snd e) x"
    "length (e_key_data x) = FLOW_MAX_KEY_LEN" by (auto simp: added_def Let_def)
  have "e \<in> set (live t' (P' (chain_of t' 9)))" "table_ok t' P'"
    using a chain_of_mask [of t' t 9] by (auto simp: added_def Let_def)
  moreover have "0 < unat (t_size t')" using chain_of_less [of t' 9] \<open>table_ok t' P'\<close> by (simp add: table_ok_def)
  moreover have "ft_compare (entry t' e) 9 (replicate 12 1) 4 = 0"
    using filled_matches [OF k x(2), of 9 "fst e" "snd e"] x(1) by simp
  moreover have "e_color (entry t' e) = 4" by (simp add: x filled_def)
  ultimately show thesis using that by blast
qed

text \<open>C6: A lookup in a well-formed table always returns, and returns a live entry of the chain that
  agrees in hash, type bits and key bytes whenever there is one; it answers null only when no live
  entry agrees.\<close>

theorem ft_lookup_correct:
  assumes "table_ok t P"
  shows "\<exists>r. ft_lookup t hash key color = Some r
     \<and> (case r of
          Some e \<Rightarrow> e \<in> set (live t (P (chain_of t hash))) \<and> ft_compare (entry t e) hash key (ucast color) = 0
        | None \<Rightarrow> \<forall>e \<in> set (live t (P (chain_of t hash))). ft_compare (entry t e) hash key (ucast color) \<noteq> 0)"
  unfolding ft_lookup_def lookup_path [OF assms]
  by (auto simp: find_None_iff dest: find_SomeD split: option.split)

theorem ft_lookup_correct_witness:
  "\<exists>t e. ft_lookup t 9 (replicate 12 1) 4 = Some (Some e)"
proof -
  obtain t P e where t: "table_ok t P" "e \<in> set (live t (P (chain_of t 9)))"
    "ft_compare (entry t e) 9 (replicate 12 1) 4 = 0" using small_flow by blast
  from ft_lookup_correct [OF t(1), of 9 "replicate 12 1" 4] t(2,3) show ?thesis
    by (fastforce split: option.splits)
qed

text \<open>C7: Adding a flow to a well-formed table, when a bucket of its chain has a free slot whose lock
  can be taken or else the allocation succeeds, returns an entry that was not live before and now
  holds the flow; every other live entry keeps its contents and the table stays well formed.\<close>

theorem ft_add_correct:
  assumes "table_ok t P" "key_len color \<le> length key"
    and "calloc_ok \<or> (\<exists>q \<in> set (P (chain_of t hash)). has_room t (the (t_mem t q)) \<and> trylock q)"
  shows "\<exists>e t' P'. ft_add trylock calloc_ok t hash key color = Some (Some e, t') \<and> added t P t' P' e hash key color"
  using assms by (rule ft_add_ok)

theorem ft_add_correct_witness:
  "\<exists>t e t' P'. ft_add (\<lambda>_. False) True t 9 (replicate 12 1) 4 = Some (Some e, t')
     \<and> table_ok t' P' \<and> e_hash (entry t' e) = 9"
proof -
  obtain t where t: "table_ok t (\<lambda>i. [First i])" using small_table by blast
  have "key_len (4 :: u16) \<le> length (replicate 12 (1 :: u8))"
    by (simp add: key_len_def flagged_def flow_color_defs flow_len_defs)
  from ft_add_correct [OF t this, of True 9 "\<lambda>_. False"] obtain e t' P' where
    a: "ft_add (\<lambda>_. False) True t 9 (replicate 12 1) 4 = Some (Some e, t')"
    "added t (\<lambda>i. [First i]) t' P' e 9 (replicate 12 1) 4" by auto
  then have "table_ok t' P'" "e_hash (entry t' e) = 9" by (auto simp: added_def Let_def filled_def)
  with a show ?thesis by blast
qed


text \<open>C8: A flow that was just added is found by the next lookup with the same hash, key and colour.\<close>

theorem ft_add_then_lookup:
  assumes "table_ok t P" "key_len color \<le> length key"
    and "ft_add trylock True t hash key color = Some (Some e, t')"
  shows "\<exists>e'. ft_lookup t' hash key color = Some (Some e')
     \<and> ft_compare (entry t' e') hash key (ucast color) = 0"
proof -
  from ft_add_ok [OF assms(1,2), of True hash trylock] assms(3) obtain P' where
    a: "added t P t' P' e hash key color" by auto
  then obtain x where x: "entry t' e = filled hash key color (fst e) (snd e) x"
    "length (e_key_data x) = FLOW_MAX_KEY_LEN" by (auto simp: added_def Let_def)
  have t': "table_ok t' P'" and l: "e \<in> set (live t' (P' (chain_of t' hash)))"
    using a chain_of_mask [of t' t hash] by (auto simp: added_def Let_def)
  have "ft_compare (entry t' e) hash key (ucast color) = 0"
    using filled_matches [OF assms(2) x(2), of hash "fst e" "snd e"] x(1) by simp
  with l have "find (\<lambda>e. ft_compare (entry t' e) hash key (ucast color) = 0) (live t' (P' (chain_of t' hash))) \<noteq> None"
    by (metis (mono_tags, lifting) find_None_iff)
  then show ?thesis
    unfolding ft_lookup_def lookup_path [OF t'] by (auto dest: find_SomeD)
qed

theorem ft_add_then_lookup_witness:
  "\<exists>t e' t'. ft_add (\<lambda>_. True) True t 3 (replicate 40 7) 6 = Some (Some e', t')
     \<and> (\<exists>e. ft_lookup t' 3 (replicate 40 7) 6 = Some (Some e))"
proof -
  obtain t where t: "table_ok t (\<lambda>i. [First i])" using small_table by blast
  have k: "key_len (6 :: u16) \<le> length (replicate 40 (7 :: u8))"
    by (simp add: key_len_def flagged_def flow_color_defs flow_len_defs)
  from ft_add_ok [OF t k, of True 3 "\<lambda>_. True"] obtain e t' where
    a: "ft_add (\<lambda>_. True) True t 3 (replicate 40 7) 6 = Some (Some e, t')" by auto
  with ft_add_then_lookup [OF t k a] show ?thesis by blast
qed

text \<open>C9: Dropping references of a live entry keeps the entry and only lowers its count while
  references remain; dropping the last ones removes exactly this entry from its chain, counts one
  unlearned flow, and leaves every other entry and the shape of the table intact.\<close>

theorem ft_deref_correct:
  assumes "table_ok t P" "i < unat (t_size t)" "e \<in> set (live t (P i))"
  shows "if count < e_rc (entry t e)
     then \<exists>t'. ft_deref t e count = Some t' \<and> table_ok t' P \<and> live t' (P i) = live t (P i)
        \<and> e_rc (entry t' e) = e_rc (entry t e) - count \<and> (\<forall>e'. e' \<noteq> e \<longrightarrow> entry t' e' = entry t e')
     else \<exists>t' P'. ft_deref t e count = Some t' \<and> removed t P t' P' i e"
proof -
  let ?f = "\<lambda>x. x\<lparr>e_rc := e_rc x - count\<rparr>"
  have f: "keeps_slot ?f" by (simp add: keeps_slot_def)
  note k = upd_entry_keeps [OF assms f]
  obtain p j where pj: "e = (p, j)" by force
  have g: "get_entry t e = Some (entry t e)"
    using live_entry [OF assms(1,2) assms(3) [unfolded pj]] pj by metis
  have d: "ft_deref t e count = (if e_rc (entry t e) \<le> count then ft_remove (upd_entry t e ?f) e else Some (upd_entry t e ?f))"
    by (simp add: ft_deref_def g)
  show ?thesis
  proof (cases "count < e_rc (entry t e)")
    case True
    then show ?thesis using d k by auto
  next
    case False
    have "i < unat (t_size (upd_entry t e ?f))" "e \<in> set (live (upd_entry t e ?f) (P i))"
      using assms(2,3) k(2,7) by simp_all
    from ft_remove_live [OF k(1) this] obtain t' P' where
      r: "ft_remove (upd_entry t e ?f) e = Some t'" "removed (upd_entry t e ?f) P t' P' i e" by blast
    have "removed t P t' P' i e" using r(2) k(2,4,6,7,8) by (auto simp: removed_def)
    with r(1) d False show ?thesis by auto
  qed
qed

theorem ft_deref_correct_witness:
  "\<exists>t P e t' P'. ft_deref t e (- 1) = Some t' \<and> removed t P t' P' (chain_of t 9) e"
proof -
  obtain t P e where t: "table_ok t P" "e \<in> set (live t (P (chain_of t 9)))" using small_flow by blast
  have i: "chain_of t 9 < unat (t_size t)" using chain_of_less t(1) by (simp add: table_ok_def)
  have "\<not> (- 1 :: u32) < e_rc (entry t e)" by (simp add: not_less)
  with ft_deref_correct [OF t(1) i t(2), of "- 1"] show ?thesis by (simp only: if_False) blast
qed

section \<open>Where the code departs from this view\<close>

text \<open>A lookup never crosses directions: the entry it returns always has the direction bit of the
  packet that is looked up.  The key of \<open>fk_create\<close> and the hash are the same for both directions of
  a connection, but the comparison of the type bits includes \<open>FLOW_COLOR_DOWNSTREAM\<close>, so each
  direction gets an entry of its own.\<close>

theorem ft_lookup_one_direction:
  assumes "table_ok t P" "ft_lookup t hash key color = Some (Some e)"
  shows "flagged (e_color (entry t e)) FLOW_COLOR_DOWNSTREAM = flagged color FLOW_COLOR_DOWNSTREAM"
proof -
  have "ft_compare (entry t e) hash key (ucast color) = 0"
    using assms(2) unfolding ft_lookup_def lookup_path [OF assms(1)] by (auto dest: find_SomeD)
  then have "ucast (e_color (entry t e)) AND (0xff :: u32) = ucast color AND 0xff"
    by (simp add: ft_compare_def flow_color_defs split: if_splits)
  then have "bit (ucast (e_color (entry t e)) AND (0xff :: u32)) 0 = bit (ucast color AND (0xff :: u32)) 0" by simp
  then have "bit (e_color (entry t e)) 0 = bit color 0" by (simp add: bit_simps)
  then show ?thesis unfolding FLOW_COLOR_DOWNSTREAM_def flagged_push_bit .
qed

lemma ucast_4: "(ucast (4 :: u16) :: u32) = 4"
  by simp

theorem ft_lookup_one_direction_witness:
  "\<exists>t e. ft_lookup t 9 (replicate 12 1) 4 = Some (Some e)
     \<and> (flagged (e_color (entry t e)) FLOW_COLOR_DOWNSTREAM \<longleftrightarrow> flagged (4 :: u16) FLOW_COLOR_DOWNSTREAM)"
proof -
  obtain t P e where t: "table_ok t P" "e \<in> set (live t (P (chain_of t 9)))"
    "ft_compare (entry t e) 9 (replicate 12 1) 4 = 0" using small_flow by blast
  then have "find (\<lambda>e. ft_compare (entry t e) 9 (replicate 12 1) (ucast (4 :: u16)) = 0) (live t (P (chain_of t 9))) \<noteq> None"
    by (metis (mono_tags, lifting) find_None_iff ucast_4)
  then obtain e' where "ft_lookup t 9 (replicate 12 1) 4 = Some (Some e')"
    unfolding ft_lookup_def lookup_path [OF t(1)] by auto
  with ft_lookup_one_direction [OF t(1) this] show ?thesis by blast
qed

lemma bit_sext_high: "32 \<le> k \<Longrightarrow> k < 64 \<Longrightarrow> bit (sext32_64 w) k = bit w 31"
  by (simp add: sext32_64_def bit_simps)

text \<open>A bucket of 32 entries never gives back its last slot.  \<open>1 << 31\<close> is a negative \<open>int\<close>, and
  widened to 64 bits it has bits in common with every \<open>unused\<close> word of such a bucket, whose upper half
  is always set: \<open>ft_remove\<close> takes the entry for already removed and does nothing.\<close>

theorem ft_remove_leaks_slot_31:
  assumes "get_entry t e = Some x" "e_index x = 31" "e_bucket x = Some p"
    and "t_mem t p = Some b" "32 \<le> k" "k < 64" "bit (b_unused b) k"
  shows "ft_remove t e = Some t"
proof -
  have "bit (sext32_64 (push_bit 31 1)) k"
    unfolding bit_sext_high [OF assms(5,6)] by simp
  with assms(7) have "bit (b_unused b AND sext32_64 (push_bit 31 1)) k" by (simp add: bit_and_iff)
  then have "flagged (b_unused b) (sext32_64 (push_bit 31 1))"
    unfolding flagged_def by auto
  then show ?thesis
    using assms(1-4) by (simp add: ft_remove_def index_bit_def)
qed

theorem ft_remove_leaks_slot_31_witness:
  "let x = zero_entry\<lparr>e_bucket := Some (First 0), e_index := 31, e_rc := 0\<rparr>;
       b = \<lparr>b_parent = 0, b_prev = None, b_next = None, b_flags = 0, b_unused = 18446744069414584320,
            b_entries = replicate 32 x\<rparr>;
       t = (ft_static stats_zero)\<lparr>t_mem := [First 0 \<mapsto> b]\<rparr>
   in \<not> bit (b_unused b) 31 \<and> ft_remove t (First 0, 31) = Some t"
proof -
  let ?x = "zero_entry\<lparr>e_bucket := Some (First 0), e_index := 31, e_rc := 0\<rparr>"
  let ?b = "\<lparr>b_parent = 0, b_prev = None, b_next = None, b_flags = 0, b_unused = 18446744069414584320,
            b_entries = replicate 32 ?x\<rparr>"
  let ?t = "(ft_static stats_zero)\<lparr>t_mem := [First 0 \<mapsto> ?b]\<rparr>"
  have "get_entry ?t (First 0, 31) = Some ?x" by (simp add: get_entry_def)
  from ft_remove_leaks_slot_31 [OF this, of "First 0" ?b 40] have "ft_remove ?t (First 0, 31) = Some ?t"
    by simp
  moreover have "\<not> bit (18446744069414584320 :: u64) 31" by simp
  ultimately show ?thesis unfolding Let_def by simp
qed


lemma enomem_faults:
  assumes "table_ok t P" "\<forall>q \<in> set (P (chain_of t hash)). \<not> has_room t (the (t_mem t q))"
  shows "\<exists>t'. ft_add trylock False t hash key color = Some (None, t')
     \<and> ft_add trylock' calloc_ok t' hash key' color' = None"
proof -
  let ?i = "chain_of t hash"
  note c = table_chain [OF assms(1), of hash]
  from chain_ok_cons [OF c] obtain qs where qs: "P ?i = First ?i # qs" ..
  let ?l = "last (P ?i)"
  have l: "t_last t ?i = Some ?l" and s: "seg (t_mem t) None (First ?i # qs) None"
    using c unfolding chain_ok_def qs by blast+
  have "seg (t_mem t) None (butlast (P ?i) @ [?l]) None" using s qs by (metis append_butlast_last_id list.distinct(1))
  then obtain b where b: "t_mem t ?l = Some b" "b_next b = None"
    by (auto simp: seg_append simp del: append_butlast_last_id split: option.splits)
  define t' where "t' = t\<lparr>t_last := (t_last t)(?i := None)\<rparr>"
  have room: "find_room tl t (First ?i) = Some None" "find_room tl t' (First ?i) = Some None" for tl
    using find_room_path [of t None "First ?i" qs tl] find_room_path [of t' None "First ?i" qs tl] s assms(2)
    by (auto simp: find_None_iff t'_def has_room_def qs simp del: seg.simps)
  have same: "upd_bucket t ?l (\<lambda>b. b\<lparr>b_next := None\<rparr>) = t"
    using b by (cases b) (simp add: upd_bucket_def fun_upd_idem)
  have "ft_add trylock False t hash key color = Some (None, t')"
    by (simp add: ft_add_def room ft_append_def l b(1) ft_add_bucket_def same t'_def Let_def)
  moreover have "chain_of t' hash = ?i" "ft_append calloc_ok t' ?i = None"
    by (simp_all add: t'_def chain_of_def ft_append_def)
  then have "ft_add trylock' calloc_ok t' hash key' color' = None"
    using room(2) by (simp add: ft_add_def)
  ultimately show ?thesis by blast
qed

text \<open>A failed allocation poisons its chain.  When every bucket of the chain is full, \<open>ft_add\<close>
  answers null once, but it has overwritten \<open>chain->last\<close> with null, and the next attempt to extend
  the chain dereferences it.\<close>

theorem ft_add_after_enomem_faults:
  assumes "table_ok t P" "\<forall>q \<in> set (P (chain_of t hash)). \<not> has_room t (the (t_mem t q))"
  shows "\<exists>t'. ft_add trylock False t hash key color = Some (None, t')
     \<and> ft_add trylock' calloc_ok t' hash key' color' = None"
  using assms by (rule enomem_faults)

text \<open>The one slot of the small table taken: the chain is full.\<close>

lemma full_table:
  obtains t P where "table_ok t P" "\<forall>q \<in> set (P (chain_of t 9)). \<not> has_room t (the (t_mem t q))"
    "\<And>key color. ft_lookup t 9 key color = Some None"
proof -
  define b where "b = \<lparr>b_parent = 0, b_prev = None, b_next = None, b_flags = 0, b_unused = NOT 1,
      b_entries = [zero_entry\<lparr>e_bucket := Some (First 0)\<rparr>]\<rparr>"
  define t where "t = \<lparr>t_mem = [First 0 \<mapsto> b], t_last = [0 \<mapsto> First 0], t_size = 1, t_mask = 0,
      t_bucket_size = 1, t_bucket_mask = 1, t_fresh = 0, t_stats = stats_zero\<rparr>"
  have bs: "bsize t = 1" by (simp add: bsize_def t_def)
  have "bit (NOT 1 :: u64) j \<longleftrightarrow> j < 64 \<and> j \<noteq> 0" for j by (auto simp: bit_simps)
  then have "chain_ok t 0 [First 0]"
    by (auto simp: chain_ok_def bucket_ok_def bs) (auto simp: t_def b_def flagged_def zero_entry_def)
  moreover have "params_ok t" by (auto simp: params_ok_def bs) (auto simp: t_def intro!: exI [of _ 0])
  ultimately have ok: "table_ok t (\<lambda>_. [First 0])" by (auto simp: table_ok_def) (auto simp: t_def)
  have "e_hash (entry t e) = 0" if "e \<in> set (live t [First 0])" for e
  proof -
    obtain p j where e: "e = (p, j)" by force
    with that bs have "p = First 0" "j = 0" by (auto simp: set_live)
    then show ?thesis by (simp add: e entry_def t_def b_def zero_entry_def)
  qed
  then have "ft_compare (entry t e) 9 key color \<noteq> 0" if "e \<in> set (live t [First 0])" for e key color
    using that by (simp add: ft_compare_def)
  then have lk: "ft_lookup t 9 key color = Some None" for key color
    unfolding ft_lookup_def lookup_path [OF ok] by (metis (mono_tags, lifting) find_None_iff)
  have "\<not> has_room t b" by (simp add: has_room_def b_def t_def flagged_def)
  then have hr: "\<not> has_room t (the (t_mem t (First 0)))" by (simp add: t_def)
  then have "\<forall>q \<in> set ((\<lambda>_. [First 0]) (chain_of t 9)). \<not> has_room t (the (t_mem t q))" by simp
  from that [OF ok this lk] show thesis .
qed

theorem ft_add_after_enomem_faults_witness:
  "\<exists>t t'. ft_add (\<lambda>_. True) False t 9 [] 0 = Some (None, t') \<and> ft_add (\<lambda>_. True) True t' 9 [] 0 = None"
proof -
  obtain t P where t: "table_ok t P" "\<forall>q \<in> set (P (chain_of t 9)). \<not> has_room t (the (t_mem t q))"
    using full_table by metis
  from ft_add_after_enomem_faults [OF t] show ?thesis by blast
qed

section \<open>Chains of several buckets at start-up\<close>

definition old :: "flow_table \<Rightarrow> bptr \<Rightarrow> bool" where
  "old t p \<longleftrightarrow> (case p of First _ \<Rightarrow> True | Dyn m \<Rightarrow> m < t_fresh t)"

text \<open>What building one chain leaves alone.\<close>

lemma init_chain_frame:
  "ft_init_chain calloc t i prev bucket n = Inr (prev', t') \<Longrightarrow> old t q \<Longrightarrow> q \<noteq> bucket \<Longrightarrow>
     t_mem t' q = t_mem t q \<and> old t' q \<and> t_last t' = t_last t"
proof (induction calloc t i prev bucket n rule: ft_init_chain.induct)
  case (2 calloc t i prev bucket n)
  let ?new = "Dyn (t_fresh t)"
  from "2.prems"(1) obtain t1 where a: "ft_add_bucket (calloc (t_fresh t)) t i (Some bucket) False = (Some ?new, t1)"
    and r: "ft_init_chain calloc (upd_bucket t1 bucket (\<lambda>b. b\<lparr>b_next := Some ?new\<rparr>)) i bucket ?new n = Inr (prev', t')"
    by (auto simp: ft_add_bucket_def Let_def split: if_splits)
  let ?t = "upd_bucket t1 bucket (\<lambda>b. b\<lparr>b_next := Some ?new\<rparr>)"
  have q: "q \<noteq> ?new" using "2.prems"(2) by (auto simp: old_def)
  have "t_mem ?t q = t_mem t q \<and> old ?t q \<and> t_last ?t = t_last t"
    using a q "2.prems" by (auto simp: ft_add_bucket_def Let_def ft_init_bucket_def upd_bucket_def old_def
        split: if_splits bptr.splits)
  with "2.IH" [OF a [symmetric] refl r] q show ?case by auto
qed auto


definition of_chain :: "nat \<Rightarrow> bptr \<Rightarrow> bool" where
  "of_chain i p \<longleftrightarrow> (case p of First j \<Rightarrow> j = i | Dyn _ \<Rightarrow> True)"

lemma init_chain_step:
  assumes "ft_init_chain calloc t i prev bucket (Suc n) = Inr (prev', t')" "t_mem t bucket = Some b0" "old t bucket"
  obtains t2 where "ft_init_chain calloc t2 i bucket (Dyn (t_fresh t)) n = Inr (prev', t')"
    "\<exists>b. t_mem t2 bucket = Some b \<and> b_next b = Some (Dyn (t_fresh t))" "old t2 bucket"
    "bucket \<noteq> Dyn (t_fresh t)" "t_mem t2 (Dyn (t_fresh t)) \<noteq> None" "old t2 (Dyn (t_fresh t))"
proof -
  let ?new = "Dyn (t_fresh t)"
  have ne: "bucket \<noteq> ?new" using assms(3) by (auto simp: old_def)
  from assms(1) obtain t1 where a: "ft_add_bucket (calloc (t_fresh t)) t i (Some bucket) False = (Some ?new, t1)"
    and r: "ft_init_chain calloc (upd_bucket t1 bucket (\<lambda>b. b\<lparr>b_next := Some ?new\<rparr>)) i bucket ?new n = Inr (prev', t')"
    by (auto simp: ft_add_bucket_def Let_def split: if_splits)
  show thesis
    using that [OF r] a ne assms(2,3)
    by (auto simp: ft_add_bucket_def Let_def ft_init_bucket_def upd_bucket_def old_def split: if_splits bptr.splits)
qed

lemma init_chain_last:
  "ft_init_chain calloc t i prev bucket n = Inr (prev', t') \<Longrightarrow> t_mem t bucket = Some b0 \<Longrightarrow> old t bucket \<Longrightarrow>
     0 < n \<or> (\<exists>b. t_mem t prev = Some b \<and> b_next b = Some bucket) \<and> old t prev \<and> prev \<noteq> bucket \<Longrightarrow>
     of_chain i prev \<Longrightarrow> of_chain i bucket \<Longrightarrow>
     \<exists>b. t_mem t' prev' = Some b \<and> b_next b \<noteq> None \<and> old t' prev' \<and> of_chain i prev'"
proof (induction n arbitrary: t prev bucket b0)
  case (Suc n)
  from Suc.prems(1-3) obtain t2 where t2: "ft_init_chain calloc t2 i bucket (Dyn (t_fresh t)) n = Inr (prev', t')"
    "\<exists>b. t_mem t2 bucket = Some b \<and> b_next b = Some (Dyn (t_fresh t))" "old t2 bucket"
    "bucket \<noteq> Dyn (t_fresh t)" "t_mem t2 (Dyn (t_fresh t)) \<noteq> None" "old t2 (Dyn (t_fresh t))"
    by (rule init_chain_step)
  then obtain b1 where "t_mem t2 (Dyn (t_fresh t)) = Some b1" by blast
  from Suc.IH [OF t2(1) this t2(6)] t2(2-4) Suc.prems(6) show ?case by (simp add: of_chain_def)
qed auto

lemma init_chains_frame:
  "ft_init_chains calloc t n is = Inr t' \<Longrightarrow> old t q \<Longrightarrow> (\<forall>j \<in> set is. q \<noteq> First j) \<Longrightarrow>
     t_mem t' q = t_mem t q \<and> (\<forall>j. j \<notin> set is \<longrightarrow> t_last t' j = t_last t j)"
proof (induction calloc t n "is" rule: ft_init_chains.induct)
  case (2 calloc t n i "is")
  let ?t0 = "ft_init_bucket t (First i) i None False"
  from "2.prems"(1) obtain p t1 where c: "ft_init_chain calloc ?t0 i (First i) (First i) n = Inr (p, t1)"
    and r: "ft_init_chains calloc (t1\<lparr>t_last := (t_last t1)(i \<mapsto> p)\<rparr>) n is = Inr t'"
    by (auto simp: Let_def split: sum.splits)
  have "old ?t0 q" "t_mem ?t0 q = t_mem t q" "t_last ?t0 = t_last t"
    using "2.prems"(2,3) by (auto simp: ft_init_bucket_def upd_bucket_def old_def split: bptr.splits)
  with init_chain_frame [OF c, of q] "2.prems"(3)
  have f: "t_mem t1 q = t_mem t q" "old t1 q" "t_last t1 = t_last t" by auto
  then have "old (t1\<lparr>t_last := (t_last t1)(i \<mapsto> p)\<rparr>) q" by (simp add: old_def split: bptr.splits)
  with "2.IH" [OF refl c refl r] f "2.prems"(3) show ?case by auto
qed auto

lemma init_chains_last:
  "ft_init_chains calloc t (Suc n) is = Inr t' \<Longrightarrow> distinct is \<Longrightarrow> (\<forall>j \<in> set is. t_mem t (First j) \<noteq> None) \<Longrightarrow>
     i \<in> set is \<Longrightarrow> \<exists>l b. t_last t' i = Some l \<and> t_mem t' l = Some b \<and> b_next b \<noteq> None"
proof (induction "is" arbitrary: t)
  case (Cons j "is")
  let ?t0 = "ft_init_bucket t (First j) j None False"
  from Cons.prems(1) obtain p t1 where c: "ft_init_chain calloc ?t0 j (First j) (First j) (Suc n) = Inr (p, t1)"
    and r: "ft_init_chains calloc (t1\<lparr>t_last := (t_last t1)(j \<mapsto> p)\<rparr>) (Suc n) is = Inr t'"
    by (auto simp: Let_def simp del: ft_init_chain.simps split: sum.splits)
  let ?t1 = "t1\<lparr>t_last := (t_last t1)(j \<mapsto> p)\<rparr>"
  have o0: "old ?t0 (First m)" for m by (simp add: old_def)
  have m0: "t_mem ?t0 (First m) = None \<longleftrightarrow> t_mem t (First m) = None" for m
    by (auto simp: ft_init_bucket_def upd_bucket_def)
  show ?case
  proof (cases "i = j")
    case True
    obtain b0 where "t_mem ?t0 (First j) = Some b0" using m0 [of j] Cons.prems(3) by auto
    from init_chain_last [OF c this o0] obtain b where
      b: "t_mem t1 p = Some b" "b_next b \<noteq> None" "old t1 p" "of_chain j p"
      by (auto simp: of_chain_def)
    have "old ?t1 p" using b(3) by (simp add: old_def split: bptr.splits)
    moreover have "\<forall>m \<in> set is. p \<noteq> First m" using b(4) Cons.prems(2) by (auto simp: of_chain_def)
    ultimately have "t_mem t' p = t_mem ?t1 p" "t_last t' j = t_last ?t1 j"
      using init_chains_frame [OF r, of p] Cons.prems(2) by auto
    with True b show ?thesis by auto
  next
    case False
    have "t_mem ?t1 (First m) \<noteq> None" if "m \<in> set is" for m
    proof -
      have "m \<noteq> j" using that Cons.prems(2) by auto
      with init_chain_frame [OF c o0, of m] m0 [of m] Cons.prems(3) that show ?thesis by auto
    qed
    with Cons.IH [OF r] Cons.prems False show ?thesis by auto
  qed
qed simp

text \<open>With two or more buckets per chain at start-up, \<open>ft_init\<close> leaves \<open>chain->last\<close> pointing at a
  bucket that has a successor; the first overflow of the chain then replaces that successor by the
  new bucket, so the bucket that was last drops out of the chain with the flows it holds.\<close>

theorem ft_init_last_not_last:
  assumes "ft_init True calloc t pow2 chain_size bucket_size = (Some (Inr ()), t')" "2 \<le> chain_size" "i < 2 ^ pow2"
  shows "\<exists>l b. t_last t' i = Some l \<and> t_mem t' l = Some b \<and> b_next b \<noteq> None
     \<and> (\<forall>new t''. ft_append True t' i = Some (Some new, t'') \<longrightarrow> b_next (the (t_mem t'' l)) = Some new)"
proof -
  from assms(2) obtain n where n: "chain_size - 1 = Suc n" by (cases "chain_size - 1") auto
  let ?t0 = "ft_calloc_table (ft_set_params t pow2 bucket_size) pow2"
  from assms(1) n have "ft_init_chains calloc ?t0 (Suc n) [0..<2 ^ pow2] = Inr t'"
    by (auto simp: ft_init_def Let_def simp del: ft_init_chains.simps split: if_splits sum.splits option.splits prod.splits)
  from init_chains_last [OF this, of i] assms(3) obtain l b where
    l: "t_last t' i = Some l" "t_mem t' l = Some b" "b_next b \<noteq> None"
    by (auto simp: ft_calloc_table_def)
  moreover have "b_next (the (t_mem t'' l)) = Some new" if "ft_append True t' i = Some (Some new, t'')" for new t''
    using that l by (auto simp: ft_append_def ft_add_bucket_def Let_def ft_init_bucket_def upd_bucket_def)
  ultimately show ?thesis by blast
qed


theorem ft_init_last_not_last_witness:
  "\<exists>t' l b. ft_init True (\<lambda>_. True) (ft_static stats_zero) 0 2 1 = (Some (Inr ()), t')
     \<and> t_last t' 0 = Some l \<and> t_mem t' l = Some b \<and> b_next b \<noteq> None"
proof -
  have "\<exists>t'. ft_init True (\<lambda>_. True) (ft_static stats_zero) 0 2 1 = (Some (Inr ()), t')"
    by (simp add: ft_init_def ft_add_bucket_def Let_def numeral_2_eq_2)
  then obtain t' where t': "ft_init True (\<lambda>_. True) (ft_static stats_zero) 0 2 1 = (Some (Inr ()), t')" ..
  from ft_init_last_not_last [OF t', of 0] t' show ?thesis by auto
qed

end
