(* ===== verification/Poll_Ring.thy ===== *)
theory Poll_Ring
  imports Main
begin

text \<open>
  Circular doubly linked lists given by a successor and a predecessor function, as the poll list of
  \<open>ntnetflow/flowlearn.c\<close> keeps them in its flow entries: appending in front of the head and
  unlinking are list operations on the nodes read from the head on.
\<close>

section \<open>Linked paths\<close>

fun linked :: "('a \<Rightarrow> 'a option) \<Rightarrow> ('a \<Rightarrow> 'a option) \<Rightarrow> 'a list \<Rightarrow> bool" where
  "linked nx pv (a # b # xs) = (nx a = Some b \<and> pv b = Some a \<and> linked nx pv (b # xs))"
| "linked nx pv _ = True"

lemma linked_append:
  "linked nx pv (xs @ y # ys) \<longleftrightarrow> linked nx pv (xs @ [y]) \<and> linked nx pv (y # ys)"
proof (induction xs)
  case (Cons x xs)
  then show ?case by (cases xs) auto
qed simp

lemma linked_cong:
  assumes "\<And>a. a \<in> set (butlast xs) \<Longrightarrow> nx' a = nx a" "\<And>a. a \<in> set (tl xs) \<Longrightarrow> pv' a = pv a"
  shows "linked nx' pv' xs = linked nx pv xs"
  using assms by (induction nx pv xs rule: linked.induct) auto

section \<open>Rings\<close>

definition ring :: "('a \<Rightarrow> 'a option) \<Rightarrow> ('a \<Rightarrow> 'a option) \<Rightarrow> 'a list \<Rightarrow> bool" where
  "ring nx pv es \<longleftrightarrow> distinct es \<and> (es \<noteq> [] \<longrightarrow> linked nx pv (es @ [hd es]))"

lemma ring_empty [simp]: "ring nx pv []"
  by (simp add: ring_def)

lemma ring_rotate:
  assumes "ring nx pv (as @ bs)" shows "ring nx pv (bs @ as)"
proof (cases "as = [] \<or> bs = []")
  case False
  then obtain a as' b bs' where ab: "as = a # as'" "bs = b # bs'" by (meson list.exhaust)
  have "linked nx pv (as @ bs @ [a])" using assms ab by (simp add: ring_def)
  then have "linked nx pv (as @ [b])" "linked nx pv (bs @ [a])"
    using linked_append [of nx pv as b "bs' @ [a]"] ab by simp_all
  then have "linked nx pv (bs @ as @ [b])"
    using linked_append [of nx pv bs a "as' @ [b]"] ab by simp
  with assms ab show ?thesis by (auto simp: ring_def)
qed (use assms in auto)

lemma ring_ends:
  assumes "ring nx pv es" "es \<noteq> []"
  shows "nx (last es) = Some (hd es)" "pv (hd es) = Some (last es)"
proof -
  have "linked nx pv (butlast es @ last es # [hd es])"
    using assms by (metis append.assoc append_Cons append_Nil append_butlast_last_id ring_def)
  then show "nx (last es) = Some (hd es)" "pv (hd es) = Some (last es)"
    using linked_append [of nx pv "butlast es" "last es" "[hd es]"] by simp_all
qed

lemma ring_cong:
  assumes "\<And>a. a \<in> set es \<Longrightarrow> nx' a = nx a \<and> pv' a = pv a"
  shows "ring nx' pv' es = ring nx pv es"
proof -
  have "linked nx' pv' (es @ [hd es]) = linked nx pv (es @ [hd es])" if "es \<noteq> []"
    using assms that by (intro linked_cong) (auto simp: tl_append split: list.splits)
  then show ?thesis by (auto simp: ring_def)
qed

text \<open>Appending \<open>x\<close>: it becomes the successor of the last and the predecessor of the first node.\<close>

lemma ring_append:
  assumes r: "ring nx pv es" and x: "x \<notin> set es" and ne: "es \<noteq> []"
  shows "ring (nx(x := Some (hd es), last es := Some x)) (pv(x := Some (last es), hd es := Some x)) (es @ [x])"
proof -
  let ?nx = "nx(x := Some (hd es), last es := Some x)" and ?pv = "pv(x := Some (last es), hd es := Some x)"
  have d: "distinct es" and l: "linked nx pv (es @ [hd es])" using r ne by (auto simp: ring_def)
  obtain as z where z: "es = as @ [z]" using ne by (metis rev_exhaust)
  then have az: "linked nx pv (as @ [z])" using l linked_append [of nx pv as z "[hd es]"] by simp
  have "linked ?nx ?pv (as @ [z]) = linked nx pv (as @ [z])"
  proof (rule linked_cong)
    show "?nx a = nx a" if "a \<in> set (butlast (as @ [z]))" for a using that d x z by auto
    show "?pv a = pv a" if "a \<in> set (tl (as @ [z]))" for a
    proof (cases as)
      case (Cons b bs)
      then show ?thesis using that d x z by auto
    qed (use that in simp)
  qed
  moreover have "hd es \<noteq> x" "z \<noteq> x" using x z by (cases as; auto)+
  ultimately have "linked ?nx ?pv (as @ z # [x, hd es])"
    using az z linked_append [of ?nx ?pv as z "[x, hd es]"] by simp
  with d x z show ?thesis by (cases as) (auto simp: ring_def)
qed

text \<open>Unlinking \<open>x\<close>.\<close>

lemma ring_remove_first:
  assumes r: "ring nx pv (x # bs)" and ne: "bs \<noteq> []"
  shows "nx x = Some (hd bs)" "pv x = Some (last bs)"
    "ring (nx(last bs := nx x)) (pv(hd bs := pv x)) bs"
proof -
  let ?nx = "nx(last bs := nx x)" and ?pv = "pv(hd bs := pv x)"
  have d: "distinct (x # bs)" and l: "linked nx pv (x # bs @ [x])" using r by (auto simp: ring_def)
  from ring_ends [OF ring_rotate [of nx pv "[x]" bs]] r ne have "pv (hd bs) = Some x" by (cases bs) simp_all
  obtain c cs where c: "bs = c # cs" using ne by (cases bs) auto
  show nx: "nx x = Some (hd bs)" using l c by simp
  show pv: "pv x = Some (last bs)" using ring_ends(2) [OF r] ne by simp
  obtain as z where z: "bs = as @ [z]" using ne by (metis rev_exhaust)
  have "linked nx pv (as @ [z])"
    using l linked_append [of nx pv "x # as" z "[x]"] linked_append [of nx pv "[x]" c cs] c z
    by (metis append_Cons append_Nil append.assoc linked_append)
  moreover have "linked ?nx ?pv (as @ [z]) = linked nx pv (as @ [z])"
  proof (rule linked_cong)
    show "?nx a = nx a" if "a \<in> set (butlast (as @ [z]))" for a using that d z by auto
    show "?pv a = pv a" if "a \<in> set (tl (as @ [z]))" for a using that d z c by (cases as) auto
  qed
  ultimately have "linked ?nx ?pv (as @ z # [hd bs])"
    using linked_append [of ?nx ?pv as z "[hd bs]"] nx pv z by simp
  with d z show "ring ?nx ?pv bs" by (simp add: ring_def)
qed

lemma ring_remove:
  assumes r: "ring nx pv (as @ x # bs)" and ne: "as @ bs \<noteq> []"
  shows "nx x = Some (hd (bs @ as))" "pv x = Some (last (bs @ as))"
    "ring (nx(last (bs @ as) := nx x)) (pv(hd (bs @ as) := pv x)) (as @ bs)"
proof -
  have r': "ring nx pv (x # bs @ as)" using ring_rotate [OF r] by simp
  have ne': "bs @ as \<noteq> []" using ne by auto
  show "nx x = Some (hd (bs @ as))" "pv x = Some (last (bs @ as))"
    using ring_remove_first(1,2) [OF r' ne'] .
  show "ring (nx(last (bs @ as) := nx x)) (pv(hd (bs @ as) := pv x)) (as @ bs)"
    using ring_rotate ring_remove_first(3) [OF r' ne'] by blast
qed

lemma ring_next:
  "ring nx pv (as @ a # b # bs) \<Longrightarrow> nx a = Some b"
  using linked_append [of nx pv as a "b # bs @ [hd (as @ [a])]"] by (cases as) (simp_all add: ring_def)

lemma ring_single: "ring (nx(x := Some x)) (pv(x := Some x)) [x]"
  by (simp add: ring_def)

lemma ring_single_iff: "ring nx pv [x] \<longleftrightarrow> nx x = Some x \<and> pv x = Some x"
  by (simp add: ring_def)

end
