(* ===== verification/Flow_Learn.thy ===== *)
theory Flow_Learn
  imports Flow_Table_Props Poll_Ring Mpmc_Queue "HOL-Library.Monad_Syntax"
begin

text \<open>
  \<open>ntnetflow/flowlearn.c\<close>: the flow learner.  Four threads work on the flow entries of the table:
  the program thread turns queued operations into flow records for the adapter, the status and
  the record thread react to what the adapter reports, and the poll thread walks a circular list
  of tracked entries.  Each definition is one iteration of a thread's loop; the records read from
  the adapter and the outcomes of its calls are inputs.  \<open>None\<close> stands for an access through a
  pointer that is no flow entry, or for a caller that stays blocked on the full queue.  The
  program is built without MEMDEBUG and with NDEBUG.
\<close>

section \<open>Tagged pointers\<close>

definition VIRTUAL_MEM_BITS :: nat where "VIRTUAL_MEM_BITS = 48"

definition TAG_BITS :: nat where "TAG_BITS = 64 - (VIRTUAL_MEM_BITS - 1)"

text \<open>The bit-field: the tag in the low bits, the pointer above it; both are cut to their width.\<close>

definition tagged_flow :: "u64 \<Rightarrow> u64 \<Rightarrow> u64" where
  "tagged_flow tag ptr = push_bit TAG_BITS (take_bit (VIRTUAL_MEM_BITS - 1) ptr) OR take_bit TAG_BITS tag"

definition flow_tag :: "u64 \<Rightarrow> u64" where "flow_tag v = take_bit TAG_BITS v"
definition flow_pointer :: "u64 \<Rightarrow> u64" where "flow_pointer v = drop_bit TAG_BITS v"

lemmas tag_defs = tagged_flow_def flow_tag_def flow_pointer_def TAG_BITS_def VIRTUAL_MEM_BITS_def

lemma tag_roundtrip:
  "flow_tag (tagged_flow tag ptr) = take_bit 17 tag" "flow_pointer (tagged_flow tag ptr) = take_bit 47 ptr"
  by (rule bit_word_eqI; simp add: tag_defs bit_simps; auto)+

lemma take_bit_small: "unat w < 2 ^ n \<Longrightarrow> take_bit n (w :: u64) = w"
  by (simp add: word_unat_eq_iff unsigned_take_bit_eq take_bit_nat_eq_self)

section \<open>State\<close>

definition FL_FLAGS_VERBOSE :: u32 where "FL_FLAGS_VERBOSE = push_bit 0 1"
definition FL_FLAGS_HW_PROBE :: u32 where "FL_FLAGS_HW_PROBE = push_bit 1 1"
definition FL_OP_UNLEARN :: u64 where "FL_OP_UNLEARN = 0"
definition FL_OP_LEARN :: u64 where "FL_OP_LEARN = 1"
definition FL_OP_PROBE :: u64 where "FL_OP_PROBE = 2"
definition FL_OP_REFRESH :: u64 where "FL_OP_REFRESH = 3"
definition QUEUE_SIZE :: nat where "QUEUE_SIZE = 2 ^ 24"

lemmas fl_op_defs = FL_OP_UNLEARN_def FL_OP_LEARN_def FL_OP_PROBE_def FL_OP_REFRESH_def

text \<open>The addresses of the entries are part of the state: \<open>l_addr\<close> gives the address of an entry,
  \<open>l_at\<close> the entry at an address.  The program queue is the list of its values.\<close>

record learner =
  l_table :: flow_table
  l_queue :: "u64 list"
  l_head :: "eptr option"
  l_current :: u64
  l_offset :: u32
  l_op_count :: u32
  l_interval :: u32
  l_flags :: u32
  l_pid :: u32
  l_addr :: "eptr \<Rightarrow> u64"
  l_at :: "u64 \<Rightarrow> eptr option"

definition l_stats :: "learner \<Rightarrow> stat_id \<Rightarrow> u64 \<Rightarrow> learner" where
  "l_stats s i n = s\<lparr>l_table := (l_table s)\<lparr>t_stats := stats_update (t_stats (l_table s)) i n\<rparr>\<rparr>"

definition l_upd :: "learner \<Rightarrow> eptr \<Rightarrow> (flow_entry \<Rightarrow> flow_entry) \<Rightarrow> learner" where
  "l_upd s e f = s\<lparr>l_table := upd_entry (l_table s) e f\<rparr>"

definition l_get :: "learner \<Rightarrow> eptr \<Rightarrow> flow_entry option" where
  "l_get s e = get_entry (l_table s) e"

text \<open>\<open>atomic_fetch_or\<close> and \<open>atomic_fetch_and\<close> on the flags: the old value and the new state.\<close>

definition fetch_or :: "learner \<Rightarrow> eptr \<Rightarrow> u32 \<Rightarrow> (u32 \<times> learner) option" where
  "fetch_or s e m = do { x \<leftarrow> l_get s e; Some (e_flags x, l_upd s e (\<lambda>x. x\<lparr>e_flags := e_flags x OR m\<rparr>)) }"

definition fetch_and :: "learner \<Rightarrow> eptr \<Rightarrow> u32 \<Rightarrow> (u32 \<times> learner) option" where
  "fetch_and s e m = do { x \<leftarrow> l_get s e; Some (e_flags x, l_upd s e (\<lambda>x. x\<lparr>e_flags := e_flags x AND m\<rparr>)) }"

definition upd_poll :: "(flow_poll_list \<Rightarrow> flow_poll_list) \<Rightarrow> flow_entry \<Rightarrow> flow_entry" where
  "upd_poll f x = x\<lparr>e_poll := f (e_poll x)\<rparr>"

definition set_next :: "eptr option \<Rightarrow> flow_entry \<Rightarrow> flow_entry" where
  "set_next q = upd_poll (\<lambda>p. p\<lparr>poll_next := q\<rparr>)"

definition set_prev :: "eptr option \<Rightarrow> flow_entry \<Rightarrow> flow_entry" where
  "set_prev q = upd_poll (\<lambda>p. p\<lparr>poll_prev := q\<rparr>)"

definition set_due :: "u64 \<Rightarrow> flow_entry \<Rightarrow> flow_entry" where
  "set_due d = upd_poll (\<lambda>p. p\<lparr>poll_due := d\<rparr>)"

definition add_skip :: "u64 \<Rightarrow> flow_entry \<Rightarrow> flow_entry" where
  "add_skip n = upd_poll (\<lambda>p. p\<lparr>poll_skip := poll_skip p + n\<rparr>)"

definition set_skip :: "u64 \<Rightarrow> flow_entry \<Rightarrow> flow_entry" where
  "set_skip n = upd_poll (\<lambda>p. p\<lparr>poll_skip := n\<rparr>)"

section \<open>The poll list\<close>

definition fl_remove_poll :: "learner \<Rightarrow> eptr \<Rightarrow> learner option" where
  "fl_remove_poll s e = do {
     x \<leftarrow> l_get s e;
     let s = (if l_head s = Some e
              then s\<lparr>l_head := (if poll_next (e_poll x) = Some e then None else poll_next (e_poll x))\<rparr> else s);
     prev \<leftarrow> poll_prev (e_poll x);
     _ \<leftarrow> l_get s prev;
     let s = l_upd s prev (set_next (poll_next (e_poll x)));
     x \<leftarrow> l_get s e;
     next \<leftarrow> poll_next (e_poll x);
     _ \<leftarrow> l_get s next;
     let s = l_upd s next (set_prev (poll_prev (e_poll x)));
     Some (s\<lparr>l_op_count := l_op_count s + 1\<rparr>)
   }"

text \<open>The two branches that link an entry in front of the head, and \<open>fl_add_poll\<close> around them.\<close>

definition fl_link_poll :: "learner \<Rightarrow> eptr \<Rightarrow> learner option" where
  "fl_link_poll s e =
     (case l_head s of
        None \<Rightarrow> Some (l_upd (l_upd (s\<lparr>l_head := Some e\<rparr>) e (set_next (Some e))) e (set_prev (Some e)))
      | Some h \<Rightarrow> do {
          let s = l_upd s e (set_next (Some h));
          hx \<leftarrow> l_get s h;
          let s = l_upd s e (set_prev (poll_prev (e_poll hx)));
          x \<leftarrow> l_get s e;
          prev \<leftarrow> poll_prev (e_poll x);
          _ \<leftarrow> l_get s prev;
          let s = l_upd s prev (set_next (Some e));
          Some (l_upd s h (set_prev (Some e))) })"

definition fl_add_poll :: "learner \<Rightarrow> eptr \<Rightarrow> learner option" where
  "fl_add_poll s e = do {
     _ \<leftarrow> l_get s e;
     s \<leftarrow> fl_link_poll s e;
     let s = s\<lparr>l_op_count := l_op_count s + 1\<rparr>;
     let s = (if l_op_count s AND 0xffffffff = 0 then s\<lparr>l_offset := l_offset s + 1\<rparr> else s);
     Some (l_upd s e (set_due (l_current s + ucast (l_interval s) + ucast (l_offset s))))
   }"

section \<open>Queueing an operation\<close>

text \<open>\<open>fl_program\<close>: with room in the queue the operation is pushed; a caller that finds the queue full
  waits, until room appears or (\<open>stopped\<close>) the application shuts down.\<close>

definition fl_program :: "bool \<Rightarrow> learner \<Rightarrow> eptr \<Rightarrow> u64 \<Rightarrow> (bool \<times> learner) option" where
  "fl_program stopped s e op =
     (let v = tagged_flow op (l_addr s e) in
      if length (l_queue s) < QUEUE_SIZE
      then Some (True, l_stats (s\<lparr>l_queue := l_queue s @ [v]\<rparr>) STAT_QUEUE 1)
      else if stopped then Some (False, s)
      else None)"

section \<open>The status thread\<close>

datatype flow_stat = LIS | LDS | LFS | UIS | UDS | RDS | RIS | PDS | PIS | OTHER

text \<open>The entry a tagged 64-bit value points to; \<open>None\<close> if the value points elsewhere.\<close>

definition l_entry :: "learner \<Rightarrow> u64 \<Rightarrow> eptr option" where
  "l_entry s v = do { e \<leftarrow> l_at s (flow_pointer v); _ \<leftarrow> l_get s e; Some e }"

definition hw_probe :: "learner \<Rightarrow> bool" where
  "hw_probe s \<longleftrightarrow> flagged (l_flags s) FL_FLAGS_HW_PROBE"

definition sub_skip :: "nat \<Rightarrow> flow_entry \<Rightarrow> flow_entry" where
  "sub_skip n = add_skip (- of_nat n)"

definition fl_status_lds :: "learner \<Rightarrow> eptr \<Rightarrow> learner option" where
  "fl_status_lds s e = do {
     (flags, s) \<leftarrow> fetch_and s e (NOT (FLOW_FLAGS_SOFTWARE OR FLOW_FLAGS_REFRESH
        OR FLOW_FLAGS_REFRESH_PENDING OR FLOW_FLAGS_LEARN_PENDING));
     let s = (if flagged flags FLOW_FLAGS_REFRESH_PENDING then l_stats s STAT_REFRESH 1 else s);
     Some (l_upd s e (sub_skip (popcount (flags AND (FLOW_FLAGS_REFRESH_PENDING OR FLOW_FLAGS_LEARN_PENDING)))))
   }"

definition fl_status_step :: "learner \<Rightarrow> u64 \<Rightarrow> flow_stat \<Rightarrow> learner option" where
  "fl_status_step s ident flag =
     (if flow_tag ident \<noteq> ucast (l_pid s) then Some s
      else case flag of
        LDS \<Rightarrow> do { e \<leftarrow> l_entry s ident; fl_status_lds s e }
      | LFS \<Rightarrow> do {
          e \<leftarrow> l_entry s ident;
          (_, s) \<leftarrow> fetch_and s e (NOT (FLOW_FLAGS_TRACK OR FLOW_FLAGS_REFRESH_PENDING OR FLOW_FLAGS_LEARN_PENDING));
          Some (l_upd s e (sub_skip 1)) }
      | UDS \<Rightarrow> do {
          e \<leftarrow> l_entry s ident;
          (_, s) \<leftarrow> fetch_and s e (NOT (FLOW_FLAGS_UNLEARN_PENDING OR
             (if hw_probe s then 0 else FLOW_FLAGS_PROBE_PENDING)));
          Some (l_upd s e (sub_skip 1)) }
      | _ \<Rightarrow> Some s)"

section \<open>Flow records for the adapter\<close>

record nt_flow =
  nf_color :: nat
  nf_proto :: u8
  nf_key_id :: nat
  nf_key_set_id :: nat
  nf_op :: nat
  nf_tau :: nat
  nf_gfi :: nat
  nf_id :: u64
  nf_key_data :: "u8 list"

definition fl_flow :: "learner \<Rightarrow> eptr \<Rightarrow> nat \<Rightarrow> nt_flow option" where
  "fl_flow s e op = do {
     x \<leftarrow> l_get s e;
     kd \<leftarrow> memcpy (replicate FLOW_MAX_KEY_LEN 0) 0 (e_key_data x) 0 (key_len (e_color x));
     Some \<lparr>nf_color = 0, nf_proto = fk_proto (ucast (e_color x)), nf_key_id = fk_key_id (ucast (e_color x)),
       nf_key_set_id = FLOW_KEYSET_ID_BYPASS, nf_op = op,
       nf_tau = (if flagged (e_color x) FLOW_COLOR_TCP then 1 else 0), nf_gfi = 1,
       nf_id = tagged_flow (ucast (l_pid s)) (l_addr s e), nf_key_data = kd\<rparr>
   }"

section \<open>The record thread\<close>

definition fl_record_step :: "bool \<Rightarrow> learner \<Rightarrow> nt_flow_info \<Rightarrow> learner option" where
  "fl_record_step stopped s info =
     (if flow_tag (nfi_id info) \<noteq> ucast (l_pid s) then Some s
      else do {
        e \<leftarrow> l_entry s (nfi_id info);
        (flags, s) \<leftarrow> fetch_or s e FLOW_FLAGS_SOFTWARE;
        let unlearn = flagged flags FLOW_FLAGS_UNLEARN;
        let sw_probe = (\<not> hw_probe s \<and> nfi_cause info = 0 \<and> flagged flags FLOW_FLAGS_PROBE);
        x \<leftarrow> l_get s e;
        let (changed, fi) = fi_update (e_info x) info;
        let s = l_upd s e (\<lambda>x. x\<lparr>e_info := fi\<rparr>);
        if nfi_cause info = 0 \<and> sw_probe \<and> \<not> unlearn then do {
          let s = l_stats s STAT_PROBE 1;
          (_, s) \<leftarrow> fetch_and s e (NOT FLOW_FLAGS_PROBE_PENDING);
          (_, s) \<leftarrow> fl_program stopped s e FL_OP_REFRESH;
          Some s }
        else if nfi_cause info = 4 then do {
          let s = l_stats s STAT_PROBE 1;
          if changed then Some s else do { (_, s) \<leftarrow> fl_program stopped s e FL_OP_UNLEARN; Some s } }
        else do {
          let s = (if nfi_cause info = 0 \<and> sw_probe then l_stats s STAT_PROBE 1 else s);
          (_, s) \<leftarrow> fetch_and s e (NOT FLOW_FLAGS_TRACK);
          Some s }
      })"

section \<open>The poll thread\<close>

definition fl_tick :: "learner \<Rightarrow> learner" where
  "fl_tick s = s\<lparr>l_current := l_current s + 1, l_op_count := 0\<rparr>"

text \<open>Choosing the entry to poll: \<open>Some None\<close> when the head is not due yet.\<close>

definition fl_poll_next :: "learner \<Rightarrow> (eptr \<times> learner) option option" where
  "fl_poll_next s =
     (case l_head s of
        None \<Rightarrow> Some None
      | Some h \<Rightarrow> do {
          x \<leftarrow> l_get s h;
          if l_current s < poll_due (e_poll x) then Some None
          else do {
            let s = l_upd s h (set_due (l_current s + ucast (l_interval s)));
            x \<leftarrow> l_get s h;
            e \<leftarrow> poll_next (e_poll x);
            Some (Some (e, s\<lparr>l_head := Some e\<rparr>)) } })"

definition fl_poll_act :: "bool \<Rightarrow> learner \<Rightarrow> eptr \<Rightarrow> learner option" where
  "fl_poll_act stopped s e = do {
     x \<leftarrow> l_get s e;
     let skip = poll_skip (e_poll x);
     let s = l_upd s e (set_skip 0);
     if 0 < sint skip then Some s
     else do {
       (flags, s) \<leftarrow> fetch_and s e FLOW_FLAGS_CLEAR;
       let sw_pending = (if hw_probe s then 0 else FLOW_FLAGS_PROBE_PENDING);
       if flagged flags FLOW_FLAGS_LEARN_PENDING then map_option snd (fl_program stopped s e FL_OP_LEARN)
       else if flagged flags (FLOW_FLAGS_REFRESH_PENDING OR sw_pending)
       then map_option snd (fl_program stopped s e FL_OP_REFRESH)
       else if flagged flags FLOW_FLAGS_UNLEARN_PENDING then map_option snd (fl_program stopped s e FL_OP_UNLEARN)
       else if flagged flags FLOW_FLAGS_UNLEARN \<or> \<not> flagged flags FLOW_FLAGS_TRACK then do {
         s \<leftarrow> fl_remove_poll s e;
         t \<leftarrow> ft_deref (l_table s) e 1;
         Some (s\<lparr>l_table := t\<rparr>) }
       else if flagged flags (FLOW_FLAGS_LEARN OR FLOW_FLAGS_PROBE OR FLOW_FLAGS_REFRESH OR FLOW_FLAGS_PROBE_PENDING)
       then map_option snd (fl_program stopped s e FL_OP_PROBE)
       else Some s } }"

text \<open>The inner loop of the poll thread; the flag tells whether it ended within the fuel.\<close>

fun fl_poll_round :: "nat \<Rightarrow> bool \<Rightarrow> learner \<Rightarrow> (bool \<times> learner) option" where
  "fl_poll_round 0 stopped s = Some (False, s)"
| "fl_poll_round (Suc fuel) stopped s =
     (case fl_poll_next s of
        None \<Rightarrow> None
      | Some None \<Rightarrow> Some (True, s)
      | Some (Some (e, s)) \<Rightarrow> do { s \<leftarrow> fl_poll_act stopped s e; fl_poll_round fuel stopped s })"

section \<open>Printing a flow\<close>

definition dotted :: "u8 list \<Rightarrow> string" where
  "dotted bs = show_dec (unat (bs ! 0)) @ ''.'' @ show_dec (unat (bs ! 1)) @ ''.''
     @ show_dec (unat (bs ! 2)) @ ''.'' @ show_dec (unat (bs ! 3))"

definition fl_print_line :: "flow_entry \<Rightarrow> nat \<Rightarrow> string" where
  "fl_print_line x i =
     (let kd = e_key_data x;
          ip4 = [dotted (take 4 kd), dotted (take 4 (drop 4 kd))];
          port = [256 * unat (kd ! 8) + unat (kd ! 9), 256 * unat (kd ! 10) + unat (kd ! 11)];
          st = fi_stream (e_info x) ! i
      in pad_left CHR ''0'' 16 (map lower_hex (show_hex (unat (fi_ts (e_info x))))) @ '' | ''
         @ pad_right CHR '' '' 15 (ip4 ! i) @ '' - '' @ pad_right CHR '' '' 15 (ip4 ! (1 - i)) @ '' | ''
         @ pad_left CHR '' '' 16 (if flagged (e_color x) FLOW_COLOR_TCP then ''TCP'' else ''UDP'') @ '' | ''
         @ pad_left CHR '' '' 8 (show_dec (port ! i)) @ '' | '' @ pad_left CHR '' '' 9 (show_dec (port ! (1 - i))) @ '' | ''
         @ pad_left CHR '' '' 9 (show_dec (unat (fis_flags st))) @ '' | ''
         @ pad_left CHR '' '' 16 (show_dec (unat (fis_octets st))) @ [CHR 10])"

definition fl_print :: "flow_entry \<Rightarrow> string" where
  "fl_print x = concat (map (\<lambda>i. if fis_packets (fi_stream (e_info x) ! i) = 0 then [] else fl_print_line x i) [0, 1])"

section \<open>The program thread\<close>

datatype program_result = Skipped learner | Written nt_flow string learner

text \<open>The operation of one iteration: the flags are updated; \<open>None\<close> in the result if nothing is to be
  sent, otherwise the operation for the adapter and the old flags.\<close>

definition fl_program_op :: "learner \<Rightarrow> u64 \<Rightarrow> eptr \<Rightarrow> ((nat \<times> u32) option \<times> learner) option" where
  "fl_program_op s op e =
     (if op = FL_OP_PROBE then do {
        (flags, s) \<leftarrow> fetch_or s e (FLOW_FLAGS_PROBE OR FLOW_FLAGS_PROBE_PENDING OR FLOW_FLAGS_TRACK);
        Some (Some (if hw_probe s then 3 else 0, flags), s) }
      else if op = FL_OP_UNLEARN then do {
        (flags, s) \<leftarrow> fetch_or s e (FLOW_FLAGS_UNLEARN OR FLOW_FLAGS_UNLEARN_PENDING);
        if flagged flags (FLOW_FLAGS_UNLEARN OR (if hw_probe s then 0 else FLOW_FLAGS_PROBE))
        then Some (None, s) else Some (Some (0, flags), s) }
      else if op = FL_OP_REFRESH then do {
        (flags, s) \<leftarrow> fetch_or s e (FLOW_FLAGS_REFRESH OR FLOW_FLAGS_REFRESH_PENDING OR FLOW_FLAGS_TRACK);
        if flagged flags FLOW_FLAGS_REFRESH then Some (None, s) else Some (Some (1, flags), s) }
      else if op = FL_OP_LEARN then do {
        (flags, s) \<leftarrow> fetch_or s e (FLOW_FLAGS_LEARN OR FLOW_FLAGS_LEARN_PENDING OR FLOW_FLAGS_TRACK);
        if flagged flags FLOW_FLAGS_LEARN then Some (None, s)
        else if flagged flags FLOW_FLAGS_TRACK then Some (Some (1, flags), s)
        else do { s \<leftarrow> fl_add_poll (s\<lparr>l_table := ft_ref (l_table s) e 1\<rparr>) e; Some (Some (1, flags), s) } }
      else Some (None, s))"

text \<open>One iteration on the value \<open>data\<close> that was pulled from the queue, up to the write; the string
  is what \<open>--verbose\<close> prints.\<close>

definition fl_program_step :: "learner \<Rightarrow> u64 \<Rightarrow> program_result option" where
  "fl_program_step s data = do {
     let s = l_stats s STAT_QUEUE (- 1);
     e \<leftarrow> l_entry s data;
     (r, s) \<leftarrow> fl_program_op s (flow_tag data) e;
     (case r of
        None \<Rightarrow> Some (Skipped s)
      | Some (op, flags) \<Rightarrow> do {
          flow \<leftarrow> fl_flow s e op;
          x \<leftarrow> l_get s e;
          let out = (if flow_tag data \<noteq> FL_OP_PROBE \<and> flagged (l_flags s) FL_FLAGS_VERBOSE then fl_print x else []);
          let s = (if flow_tag data = FL_OP_LEARN \<and> flags \<noteq> FLOW_FLAGS_LEARN_PENDING then l_upd s e (add_skip 1) else s);
          Some (Written flow out s) })
   }"

text \<open>The thread: it drains the queue until a write to the adapter fails or the queue is empty
  (where the thread waits).  \<open>write i\<close> is the status of the \<open>i\<close>-th write; the records written are
  collected.\<close>

fun fl_program_main :: "(nat \<Rightarrow> bool) \<Rightarrow> nat \<Rightarrow> learner \<Rightarrow> nt_flow list \<Rightarrow> (bool \<times> nt_flow list \<times> learner) option" where
  "fl_program_main write 0 s out = Some (True, out, s)"
| "fl_program_main write (Suc n) s out =
     (case l_queue s of
        [] \<Rightarrow> Some (True, out, s)
      | data # q \<Rightarrow>
          (case fl_program_step (s\<lparr>l_queue := q\<rparr>) data of
             None \<Rightarrow> None
           | Some (Skipped s) \<Rightarrow> fl_program_main write n s out
           | Some (Written flow _ s) \<Rightarrow>
               if write (length out) then fl_program_main write n s (out @ [flow])
               else Some (False, out @ [flow], s)))"

section \<open>Starting and stopping\<close>

text \<open>\<open>fl_init\<close>: the outcomes of the calls are inputs.  \<open>pthread_create\<close> returns a positive error
  number, which the test \<open>< 0\<close> does not see.\<close>

record fl_init_env =
  env_queue_ok :: bool
  env_open_ok :: bool
  env_threads :: "int list"

definition fl_init :: "fl_init_env \<Rightarrow> learner \<Rightarrow> u32 \<Rightarrow> u32 \<Rightarrow> u32 \<Rightarrow> int \<times> learner" where
  "fl_init env s interval flags pid =
     (let s = s\<lparr>l_flags := flags, l_interval := interval, l_pid := pid\<rparr> in
      if \<not> env_queue_ok env then (- 1, s)
      else let s = s\<lparr>l_queue := []\<rparr> in
      if \<not> env_open_ok env then (- 1, s)
      else if \<exists>r \<in> set (env_threads env). r < 0 then (- 1, s)
      else (0, s))"

text \<open>The unlearn loop of \<open>fl_deinit\<close>: one record per ring entry; \<open>write\<close> and \<open>drained\<close> are the
  outcomes of the write and of the draining of the status stream.  Returns the count and the
  records.\<close>

fun fl_deinit_loop :: "(nat \<Rightarrow> bool) \<Rightarrow> (nat \<Rightarrow> bool) \<Rightarrow> nat \<Rightarrow> eptr option \<Rightarrow> eptr \<Rightarrow> learner \<Rightarrow> nat \<Rightarrow> nt_flow list
    \<Rightarrow> (nat \<times> nt_flow list \<times> learner) option" where
  "fl_deinit_loop write drained 0 start h s count out = None"
| "fl_deinit_loop write drained (Suc fuel) start h s count out = do {
     flow \<leftarrow> fl_flow s h 0;
     let out = out @ [flow];
     if \<not> write count \<or> \<not> drained count then Some (count, out, s)
     else do {
       x \<leftarrow> l_get s h;
       let s = s\<lparr>l_head := poll_next (e_poll x)\<rparr>;
       if l_head s = start then Some (count + 1, out, s)
       else do { h \<leftarrow> l_head s; fl_deinit_loop write drained fuel start h s (count + 1) out } } }"

definition fl_deinit :: "(nat \<Rightarrow> bool) \<Rightarrow> (nat \<Rightarrow> bool) \<Rightarrow> bool \<Rightarrow> nat \<Rightarrow> learner \<Rightarrow> (nat \<times> nt_flow list \<times> learner) option" where
  "fl_deinit write drained stream_open fuel s =
     (case l_head s of
        Some h \<Rightarrow> if stream_open then fl_deinit_loop write drained fuel (Some h) h s 0 [] else Some (0, [], s)
      | None \<Rightarrow> Some (0, [], s))"

end
