(* ===== verification/Flow_Learn_Props.thy ===== *)
theory Flow_Learn_Props
  imports Flow_Learn
begin

text \<open>
  The flow learner (\<open>ntnetflow/flowlearn.c\<close>): tagged pointers survive the way through the adapter,
  the poll list stays a ring over live flow entries, a round of the poll thread ends; and the cases
  where the code breaks this.
\<close>

section \<open>Updates of one entry\<close>

abbreviation ent :: "learner \<Rightarrow> eptr \<Rightarrow> flow_entry" where "ent s e \<equiv> entry (l_table s) e"

definition tracked :: "flow_table \<Rightarrow> (nat \<Rightarrow> bptr list) \<Rightarrow> eptr \<Rightarrow> bool" where
  "tracked t P e \<longleftrightarrow> (\<exists>i < unat (t_size t). e \<in> set (live t (P i)))"

definition same_but :: "learner \<Rightarrow> learner \<Rightarrow> bool" where
  "same_but s s' \<longleftrightarrow> l_head s' = l_head s \<and> l_current s' = l_current s \<and> l_interval s' = l_interval s
     \<and> l_flags s' = l_flags s \<and> l_queue s' = l_queue s \<and> l_addr s' = l_addr s \<and> l_at s' = l_at s \<and> l_pid s' = l_pid s
     \<and> l_offset s' = l_offset s \<and> l_op_count s' = l_op_count s"

lemma keeps_slot_poll [simp]: "keeps_slot (upd_poll f)" "keeps_slot (set_next q)" "keeps_slot (set_prev q)"
  "keeps_slot (set_due d)" "keeps_slot (set_skip n)" "keeps_slot (add_skip n)" "keeps_slot (sub_skip k)"
  "keeps_slot (\<lambda>x. x\<lparr>e_flags := g x\<rparr>)" "keeps_slot (\<lambda>x. x\<lparr>e_rc := g' x\<rparr>)" "keeps_slot (\<lambda>x. x\<lparr>e_info := i\<rparr>)"
  by (simp_all add: keeps_slot_def upd_poll_def set_next_def set_prev_def set_due_def set_skip_def add_skip_def sub_skip_def)

lemma l_upd_keeps:
  assumes "table_ok (l_table s) P" "tracked (l_table s) P e" "keeps_slot f"
  shows "table_ok (l_table (l_upd s e f)) P" "tracked (l_table (l_upd s e f)) P = tracked (l_table s) P"
    "ent (l_upd s e f) = (ent s)(e := f (ent s e))"
    "same_but s (l_upd s e f)"
proof -
  obtain i where i: "i < unat (t_size (l_table s))" "e \<in> set (live (l_table s) (P i))"
    using assms(2) by (auto simp: tracked_def)
  note k = upd_entry_keeps [OF assms(1) i assms(3)]
  show "table_ok (l_table (l_upd s e f)) P" using k(1) by (simp add: l_upd_def)
  show "tracked (l_table (l_upd s e f)) P = tracked (l_table s) P"
    by (rule ext) (simp add: tracked_def l_upd_def k(2,7))
  show "ent (l_upd s e f) = (ent s)(e := f (ent s e))"
    by (rule ext) (simp add: l_upd_def k(3,4))
  show "same_but s (l_upd s e f)" by (simp add: same_but_def l_upd_def)
qed

lemma l_get_tracked:
  assumes "table_ok (l_table s) P" "tracked (l_table s) P e"
  shows "l_get s e = Some (ent s e)"
proof -
  obtain i where i: "i < unat (t_size (l_table s))" "e \<in> set (live (l_table s) (P i))"
    using assms(2) by (auto simp: tracked_def)
  obtain p j where pj: "e = (p, j)" by force
  from live_entry [OF assms(1) i(1) i(2) [unfolded pj]] pj show ?thesis by (metis l_get_def)
qed

section \<open>The poll list is a ring\<close>

abbreviation nxt :: "learner \<Rightarrow> eptr \<Rightarrow> eptr option" where "nxt s e \<equiv> poll_next (e_poll (ent s e))"
abbreviation prv :: "learner \<Rightarrow> eptr \<Rightarrow> eptr option" where "prv s e \<equiv> poll_prev (e_poll (ent s e))"

definition learner_ok :: "learner \<Rightarrow> (nat \<Rightarrow> bptr list) \<Rightarrow> eptr list \<Rightarrow> bool" where
  "learner_ok s P es \<longleftrightarrow> table_ok (l_table s) P \<and> (\<forall>e \<in> set es. tracked (l_table s) P e)
     \<and> ring (nxt s) (prv s) es \<and> l_head s = (if es = [] then None else Some (hd es))"

lemmas poll_fields = upd_poll_def set_next_def set_prev_def set_due_def set_skip_def add_skip_def sub_skip_def

lemma poll_field_simps [simp]:
  "poll_next (e_poll (set_next q x)) = q" "poll_prev (e_poll (set_next q x)) = poll_prev (e_poll x)"
  "poll_next (e_poll (set_prev q x)) = poll_next (e_poll x)" "poll_prev (e_poll (set_prev q x)) = q"
  "poll_next (e_poll (set_due d x)) = poll_next (e_poll x)" "poll_prev (e_poll (set_due d x)) = poll_prev (e_poll x)"
  "poll_next (e_poll (set_skip n x)) = poll_next (e_poll x)" "poll_prev (e_poll (set_skip n x)) = poll_prev (e_poll x)"
  "poll_due (e_poll (set_due d x)) = d" "poll_due (e_poll (set_next q x)) = poll_due (e_poll x)"
  "poll_due (e_poll (set_prev q x)) = poll_due (e_poll x)" "poll_due (e_poll (set_skip n x)) = poll_due (e_poll x)"
  "e_rc (set_next q x) = e_rc x" "e_rc (set_prev q x) = e_rc x" "e_rc (set_due d x) = e_rc x" "e_rc (set_skip n x) = e_rc x"
  "e_flags (set_next q x) = e_flags x" "e_flags (set_prev q x) = e_flags x" "e_flags (set_due d x) = e_flags x"
  "e_flags (set_skip n x) = e_flags x"
  by (simp_all add: poll_fields)

text \<open>What a ring operation leaves alone.\<close>

definition same_flow :: "flow_entry \<Rightarrow> flow_entry \<Rightarrow> bool" where
  "same_flow x y \<longleftrightarrow> e_rc y = e_rc x \<and> e_flags y = e_flags x \<and> poll_due (e_poll y) = poll_due (e_poll x)"

lemma link_poll_eq:
  assumes t: "table_ok (l_table s) P" and e: "tracked (l_table s) P e" and h: "tracked (l_table s) P h"
    and pv: "tracked (l_table s) P pv" and hd: "l_head s = Some h" and l: "prv s h = Some pv" and ne: "h \<noteq> e"
  obtains s' where "fl_link_poll s e = Some s'" "same_but s s'" "table_ok (l_table s') P" "tracked (l_table s') P = tracked (l_table s) P"
    "ent s' = (let f1 = (ent s)(e := set_next (Some h) (ent s e)); f2 = f1(e := set_prev (Some pv) (f1 e));
      f3 = f2(pv := set_next (Some e) (f2 pv)) in f3(h := set_prev (Some e) (f3 h)))"
proof -
  let ?s1 = "l_upd s e (set_next (Some h))"
  note k1 = l_upd_keeps [OF t e, of "set_next (Some h)", simplified keeps_slot_poll, OF TrueI]
  have t1: "tracked (l_table ?s1) P x \<longleftrightarrow> tracked (l_table s) P x" for x using k1(2) by simp
  have g1: "l_get ?s1 h = Some (ent s h)" using l_get_tracked [OF k1(1)] t1 h k1(3) ne by simp
  let ?s2 = "l_upd ?s1 e (set_prev (Some pv))"
  note k2 = l_upd_keeps [OF k1(1), of e, unfolded t1, OF e, of "set_prev (Some pv)", simplified keeps_slot_poll, OF TrueI]
  have t2: "tracked (l_table ?s2) P x \<longleftrightarrow> tracked (l_table s) P x" for x using k2(2) t1 by simp
  have g2: "l_get ?s2 e = Some (ent ?s2 e)" "l_get ?s2 pv = Some (ent ?s2 pv)"
    using l_get_tracked [OF k2(1)] t2 pv e by simp_all
  have p2: "prv ?s2 e = Some pv" using k2(3) by simp
  let ?s3 = "l_upd ?s2 pv (set_next (Some e))"
  note k3 = l_upd_keeps [OF k2(1), of pv, unfolded t2, OF pv, of "set_next (Some e)", simplified keeps_slot_poll, OF TrueI]
  have t3: "tracked (l_table ?s3) P x \<longleftrightarrow> tracked (l_table s) P x" for x using k3(2) t2 by simp
  let ?s4 = "l_upd ?s3 h (set_prev (Some e))"
  note k4 = l_upd_keeps [OF k3(1), of h, unfolded t3, OF h, of "set_prev (Some e)", simplified keeps_slot_poll, OF TrueI]
  have t4: "tracked (l_table ?s4) P = tracked (l_table s) P" using k4(2) t3 by (simp add: fun_eq_iff)
  have E: "ent ?s4 = (let f1 = (ent s)(e := set_next (Some h) (ent s e)); f2 = f1(e := set_prev (Some pv) (f1 e));
      f3 = f2(pv := set_next (Some e) (f2 pv)) in f3(h := set_prev (Some e) (f3 h)))"
    unfolding Let_def k4(3) k3(3) k2(3) k1(3) by (rule refl)
  have "fl_link_poll s e = Some ?s4" using hd g1 g2 p2 l by (simp add: fl_link_poll_def)
  moreover have "same_but s ?s4" using k4(4) k3(4) k2(4) k1(4) by (simp add: same_but_def)
  ultimately show ?thesis using that k4(1) t4 E by blast
qed

lemma add_poll_links:
  assumes ok: "learner_ok s P es" and e: "tracked (l_table s) P e" and new: "e \<notin> set es"
  obtains s' where "fl_link_poll s e = Some s'" "learner_ok s' P (es @ [e])" "\<And>x. same_flow (ent s x) (ent s' x)"
      "tracked (l_table s') P = tracked (l_table s) P"
proof (cases es)
  case Nil
  let ?s0 = "s\<lparr>l_head := Some e\<rparr>"
  let ?s1 = "l_upd ?s0 e (set_next (Some e))"
  let ?s2 = "l_upd ?s1 e (set_prev (Some e))"
  have t: "table_ok (l_table ?s0) P" "tracked (l_table ?s0) P e" using ok e by (simp_all add: learner_ok_def)
  note k1 = l_upd_keeps [OF t, of "set_next (Some e)", simplified keeps_slot_poll, OF TrueI]
  have t1: "tracked (l_table ?s1) P e" using k1(2) t by simp
  note k2 = l_upd_keeps [OF k1(1) t1, of "set_prev (Some e)", simplified keeps_slot_poll, OF TrueI]
  have "learner_ok ?s2 P [e]"
    using k2 k1 t by (auto simp: learner_ok_def ring_single_iff same_but_def)
  moreover have "same_flow (ent s x) (ent ?s2 x)" for x using k1(3) k2(3) by (auto simp: same_flow_def)
  ultimately show ?thesis
    using that [of ?s2] ok Nil k1(2) k2(2) by (simp add: learner_ok_def fl_link_poll_def)
next
  case (Cons h hs)
  let ?l = "last es"
  have hd: "l_head s = Some h" "hd es = h" using ok Cons by (simp_all add: learner_ok_def)
  have r: "ring (nxt s) (prv s) es" and t: "table_ok (l_table s) P" and tr: "\<And>x. x \<in> set es \<Longrightarrow> tracked (l_table s) P x"
    using ok by (auto simp: learner_ok_def)
  have l: "prv s h = Some ?l" using ring_ends(2) [OF r] Cons by simp
  have hm: "h \<in> set es" "?l \<in> set es" using Cons by simp_all
  then have ne: "h \<noteq> e" "?l \<noteq> e" using new by auto
  from link_poll_eq [OF t e tr [OF hm(1)] tr [OF hm(2)] hd(1) l ne(1)] obtain s' where
    s': "fl_link_poll s e = Some s'" "same_but s s'" "table_ok (l_table s') P" "tracked (l_table s') P = tracked (l_table s) P"
    and E: "ent s' = (let f1 = (ent s)(e := set_next (Some h) (ent s e)); f2 = f1(e := set_prev (Some ?l) (f1 e));
      f3 = f2(?l := set_next (Some e) (f2 ?l)) in f3(h := set_prev (Some e) (f3 h)))" .
  have N: "nxt s' = (nxt s)(e := Some (hd es), ?l := Some e)" "prv s' = (prv s)(e := Some ?l, hd es := Some e)"
    by (rule ext, use ne hd(2) in \<open>simp add: E Let_def\<close>)+
  have "ring (nxt s') (prv s') (es @ [e])"
    unfolding N by (rule ring_append [OF r new]) (simp add: Cons)
  moreover have "l_head s' = Some (hd (es @ [e]))" using s'(2) hd(1) Cons by (simp add: same_but_def)
  moreover have "\<forall>x \<in> set (es @ [e]). tracked (l_table s') P x" using s'(4) tr e by simp
  ultimately have "learner_ok s' P (es @ [e])" using s'(3) by (simp add: learner_ok_def)
  moreover have "same_flow (ent s x) (ent s' x)" for x by (simp add: E Let_def same_flow_def)
  ultimately show ?thesis using that [OF s'(1)] s'(4) by simp
qed

lemma add_poll_ok:
  assumes ok: "learner_ok s P es" and e: "tracked (l_table s) P e" and new: "e \<notin> set es"
  obtains s' where "fl_add_poll s e = Some s'" "learner_ok s' P (es @ [e])"
      "\<And>x. e_rc (ent s' x) = e_rc (ent s x)" "\<And>x. e_flags (ent s' x) = e_flags (ent s x)"
      "tracked (l_table s') P = tracked (l_table s) P"
proof -
  from add_poll_links [OF ok e new] obtain s1 where
    s1: "fl_link_poll s e = Some s1" and ok1: "learner_ok s1 P (es @ [e])" and sf: "\<And>x. same_flow (ent s x) (ent s1 x)"
    and tr1: "tracked (l_table s1) P = tracked (l_table s) P" by metis
  define s3 where "s3 = (let s = s1\<lparr>l_op_count := l_op_count s1 + 1\<rparr> in
    if l_op_count s AND 0xffffffff = 0 then s\<lparr>l_offset := l_offset s + 1\<rparr> else s)"
  let ?s4 = "l_upd s3 e (set_due (l_current s3 + ucast (l_interval s3) + ucast (l_offset s3)))"
  have T: "l_table s3 = l_table s1" "l_head s3 = l_head s1" by (simp_all add: s3_def Let_def)
  have t: "table_ok (l_table s3) P" "tracked (l_table s3) P e" using ok1 by (simp_all add: learner_ok_def T)
  note k = l_upd_keeps [OF t keeps_slot_poll(4), of "l_current s3 + ucast (l_interval s3) + ucast (l_offset s3)"]
  have m: "l_get s e = Some (ent s e)" using l_get_tracked [OF _ e] ok by (simp add: learner_ok_def)
  have f: "fl_add_poll s e = Some ?s4"
    by (simp add: fl_add_poll_def m s1 s3_def Let_def)
  have n: "nxt ?s4 = nxt s1" "prv ?s4 = prv s1" by (rule ext, simp add: k(3) T)+
  have "learner_ok ?s4 P (es @ [e])"
    using ok1 k(1,2,4) by (simp add: learner_ok_def n T same_but_def)
  moreover have "e_rc (ent ?s4 x) = e_rc (ent s x)" "e_flags (ent ?s4 x) = e_flags (ent s x)" for x
    using sf [of x] sf [of e] by (simp_all add: k(3) T same_flow_def)
  moreover have "tracked (l_table ?s4) P = tracked (l_table s) P" using k(2) T tr1 by simp
  ultimately show ?thesis using that [OF f] by metis
qed

lemma remove_poll_ok:
  assumes ok: "learner_ok s P (as @ e # bs)"
  obtains s' where "fl_remove_poll s e = Some s'" "learner_ok s' P (as @ bs)"
      "\<And>x. same_flow (ent s x) (ent s' x)" "l_current s' = l_current s" "l_interval s' = l_interval s"
      "l_queue s' = l_queue s" "tracked (l_table s') P e"
proof -
  have t: "table_ok (l_table s) P" and tr: "\<And>x. x \<in> set (as @ e # bs) \<Longrightarrow> tracked (l_table s) P x"
    and r: "ring (nxt s) (prv s) (as @ e # bs)" and h: "l_head s = Some (hd (as @ [e]))"
    using ok by (auto simp: learner_ok_def hd_append)
  have d: "distinct (as @ e # bs)" using r by (simp add: ring_def)
  have te: "tracked (l_table s) P e" using tr by simp
  define h' where "h' = (if l_head s = Some e then if nxt s e = Some e then None else nxt s e else l_head s)"
  define nx where "nx = (if as @ bs = [] then e else hd (bs @ as))"
  define pv where "pv = (if as @ bs = [] then e else last (bs @ as))"
  have np: "nxt s e = Some nx" "prv s e = Some pv"
    using ring_remove(1,2) [OF r] r by (auto simp: nx_def pv_def ring_single_iff)
  have mem: "nx \<in> set (as @ e # bs)" "pv \<in> set (as @ e # bs)"
    using hd_in_set [of "bs @ as"] last_in_set [of "bs @ as"] by (auto simp: nx_def pv_def)
  define s0 where "s0 = (if l_head s = Some e
      then s\<lparr>l_head := (if poll_next (e_poll (ent s e)) = Some e then None else poll_next (e_poll (ent s e)))\<rparr> else s)"
  have S0: "l_table s0 = l_table s" "l_head s0 = h'" "l_current s0 = l_current s" "l_interval s0 = l_interval s" "l_queue s0 = l_queue s"
    by (simp_all add: s0_def h'_def)
  let ?s1 = "l_upd s0 pv (set_next (Some nx))"
  have k0: "table_ok (l_table s0) P" "tracked (l_table s0) P pv" using t tr mem S0 by simp_all
  note k1 = l_upd_keeps [OF k0 keeps_slot_poll(2), of "Some nx"]
  have T1: "tracked (l_table ?s1) P x \<longleftrightarrow> tracked (l_table s) P x" for x using k1(2) S0 by simp
  let ?s2 = "l_upd ?s1 nx (set_prev (Some pv))"
  have t1: "tracked (l_table ?s1) P nx" "tracked (l_table ?s1) P e" using T1 tr mem te by simp_all
  note k2 = l_upd_keeps [OF k1(1) t1(1) keeps_slot_poll(3), of "Some pv"]
  have T2: "tracked (l_table ?s2) P x \<longleftrightarrow> tracked (l_table s) P x" for x using k2(2) T1 by simp
  have g: "l_get s e = Some (ent s e)" "l_get s0 pv = Some (ent s pv)" "l_get ?s1 e = Some (ent ?s1 e)" "l_get ?s1 nx = Some (ent ?s1 nx)"
    using l_get_tracked [OF t te] l_get_tracked [OF k0] l_get_tracked [OF k1(1)] t1 S0 by simp_all
  have n1: "nxt ?s1 e = Some nx" "prv ?s1 e = Some pv" using np S0 by (auto simp: k1(3))
  let ?s3 = "?s2\<lparr>l_op_count := l_op_count ?s2 + 1\<rparr>"
  have f: "fl_remove_poll s e = Some ?s3"
    using n1 np g by (auto simp: fl_remove_poll_def s0_def [symmetric] Let_def)
  have E: "ent ?s2 = (let f = (ent s)(pv := set_next (Some nx) (ent s pv)) in f(nx := set_prev (Some pv) (f nx)))"
    by (auto simp: k2(3) k1(3) S0 Let_def)
  have N: "nxt ?s3 = (nxt s)(pv := Some nx)" "prv ?s3 = (prv s)(nx := Some pv)"
    by (rule ext, simp add: E Let_def)+
  have "ring (nxt ?s3) (prv ?s3) (as @ bs)"
  proof (cases "as @ bs = []")
    case False
    have "ring (nxt ?s3) (prv ?s3) (as @ bs) = ring ((nxt s)(last (bs @ as) := nxt s e)) ((prv s)(hd (bs @ as) := prv s e)) (as @ bs)"
      unfolding N np by (simp add: nx_def pv_def False del: append_is_Nil_conv)
    with ring_remove(3) [OF r False] show ?thesis by simp
  qed simp
  moreover have "l_head ?s3 = (if as @ bs = [] then None else Some (hd (as @ bs)))"
  proof -
    have H: "l_head ?s3 = h'" using k1(4) k2(4) S0 by (simp add: same_but_def)
    show ?thesis
    proof (cases "as = []")
      case True
      then show ?thesis unfolding H using h np(1) d by (auto simp: h'_def nx_def split: if_splits)
    next
      case False
      then have "hd as \<noteq> e" using d by (metis disjoint_iff distinct_append hd_in_set list.set_intros(1))
      with False show ?thesis unfolding H using h by (simp add: h'_def)
    qed
  qed
  ultimately have "learner_ok ?s3 P (as @ bs)"
    using k2(1) T2 tr by (simp add: learner_ok_def)
  moreover have "same_flow (ent s x) (ent ?s3 x)" for x by (simp add: E Let_def same_flow_def)
  ultimately show ?thesis
    using that [OF f] k1(4) k2(4) S0 T2 te by (simp add: same_but_def)
qed

text \<open>C11: The poll list is a ring of live flow entries that starts at the head: adding an entry that is
  not on it appends it, the entry's next poll is set one interval (plus the throttling offset) ahead,
  and removing an entry unlinks exactly this one, wherever it stands, the head moving on if needed.\<close>

theorem poll_list_is_ring:
  assumes "learner_ok s P (as @ bs)" "tracked (l_table s) P e" "e \<notin> set (as @ bs)"
  shows "\<exists>s1. fl_add_poll s e = Some s1 \<and> learner_ok s1 P (as @ bs @ [e])
     \<and> (\<forall>x cs ds. as @ bs @ [e] = cs @ x # ds \<longrightarrow> (\<exists>s2. fl_remove_poll s1 x = Some s2 \<and> learner_ok s2 P (cs @ ds)))"
proof -
  obtain s1 where s1: "fl_add_poll s e = Some s1" "learner_ok s1 P (as @ bs @ [e])"
    using add_poll_ok [OF assms] by (metis append.assoc)
  moreover have "\<exists>s2. fl_remove_poll s1 x = Some s2 \<and> learner_ok s2 P (cs @ ds)" if "as @ bs @ [e] = cs @ x # ds" for x cs ds
    using s1(2) remove_poll_ok [of s1 P cs x ds] unfolding that by metis
  ultimately show ?thesis by blast
qed

section \<open>A round of the poll thread\<close>

definition keeps_poll :: "(flow_entry \<Rightarrow> flow_entry) \<Rightarrow> bool" where
  "keeps_poll f \<longleftrightarrow> (\<forall>x. poll_next (e_poll (f x)) = poll_next (e_poll x) \<and> poll_prev (e_poll (f x)) = poll_prev (e_poll x))"

lemma keeps_poll_simps [simp]: "keeps_poll (set_due d)" "keeps_poll (set_skip n)" "keeps_poll (\<lambda>x. x\<lparr>e_flags := g x\<rparr>)"
    "keeps_poll (\<lambda>x. x\<lparr>e_rc := g' x\<rparr>)"
  by (simp_all add: keeps_poll_def)

lemma l_upd_learner_ok:
  assumes "learner_ok s P es" "tracked (l_table s) P e" "keeps_slot f" "keeps_poll f"
  shows "learner_ok (l_upd s e f) P es"
proof -
  have t: "table_ok (l_table s) P" using assms(1) by (simp add: learner_ok_def)
  note k = l_upd_keeps [OF t assms(2,3)]
  have "nxt (l_upd s e f) = nxt s" "prv (l_upd s e f) = prv s"
    by (rule ext, use assms(4) in \<open>simp add: k(3) keeps_poll_def\<close>)+
  with assms(1) k show ?thesis by (simp add: learner_ok_def same_but_def)
qed

lemma tracked_stats [simp]: "tracked (t\<lparr>t_stats := st\<rparr>) P = tracked t P"
  by (rule ext) (simp add: tracked_def)

definition due :: "learner \<Rightarrow> eptr \<Rightarrow> bool" where
  "due s e \<longleftrightarrow> poll_due (e_poll (ent s e)) \<le> l_current s"

definition may_push :: "bool \<Rightarrow> learner \<Rightarrow> nat \<Rightarrow> bool" where
  "may_push stopped s n \<longleftrightarrow> stopped \<or> length (l_queue s) + n \<le> QUEUE_SIZE"

text \<open>The flags with which an entry stays on the list.\<close>

definition kept :: "u32 \<Rightarrow> bool" where
  "kept flags \<longleftrightarrow> flagged flags FLOW_FLAGS_TRACK \<and> \<not> flagged flags FLOW_FLAGS_UNLEARN"

lemma flag_bits: "flagged flags FLOW_FLAGS_TRACK \<longleftrightarrow> bit flags 4" "flagged flags FLOW_FLAGS_UNLEARN \<longleftrightarrow> bit flags 0"
  by (simp_all only: flow_flag_defs flagged_push_bit)

lemma unat_ucast_32_64: "unat (ucast (w :: u32) :: u64) = unat w"
proof -
  have "unat w < 2 ^ 32" using unsigned_less [of w] by simp
  then show ?thesis by (simp add: unsigned_ucast_eq take_bit_nat_eq_self)
qed

lemma kept_clear [simp]: "kept flags \<Longrightarrow> kept (flags AND FLOW_FLAGS_CLEAR)"
  unfolding kept_def flag_bits bit_and_iff by (simp add: flow_flag_defs)

text \<open>What polling an entry leaves alone.\<close>

definition polled :: "learner \<Rightarrow> learner \<Rightarrow> eptr list \<Rightarrow> bool" where
  "polled s s' es \<longleftrightarrow> l_current s' = l_current s \<and> l_interval s' = l_interval s \<and> length (l_queue s') \<le> Suc (length (l_queue s))
     \<and> (\<forall>x \<in> set es. e_rc (ent s' x) = e_rc (ent s x) \<and> poll_due (e_poll (ent s' x)) = poll_due (e_poll (ent s x))
          \<and> (kept (e_flags (ent s x)) \<longrightarrow> kept (e_flags (ent s' x))))"

lemma polled_trans:
  "polled s s1 es \<Longrightarrow> l_queue s1 = l_queue s \<Longrightarrow> polled s1 s2 es \<Longrightarrow> polled s s2 es"
  by (simp add: polled_def)

lemma fl_program_ok:
  assumes "learner_ok s P es" "may_push stopped s 1"
  obtains s' where "map_option snd (fl_program stopped s e op) = Some s'" "learner_ok s' P es" "polled s s' es"
proof -
  let ?t = "s\<lparr>l_queue := l_queue s @ [tagged_flow op (l_addr s e)]\<rparr>"
  have "learner_ok (l_stats ?t STAT_QUEUE 1) P es" "polled s (l_stats ?t STAT_QUEUE 1) es" "polled s s es"
    using assms(1) by (simp_all add: learner_ok_def l_stats_def polled_def)
  moreover have "map_option snd (fl_program stopped s e op) =
      (if length (l_queue s) < QUEUE_SIZE then Some (l_stats ?t STAT_QUEUE 1) else Some s)"
    using assms(2) by (auto simp: fl_program_def Let_def may_push_def)
  ultimately show ?thesis using that assms(1) by (cases "length (l_queue s) < QUEUE_SIZE") auto
qed

lemma ft_deref_more:
  assumes "table_ok t P" "tracked t P e" "1 < e_rc (entry t e)"
  shows "ft_deref t e 1 = Some (upd_entry t e (\<lambda>x. x\<lparr>e_rc := e_rc x - 1\<rparr>))"
  using assms l_get_tracked [of "undefined\<lparr>l_table := t\<rparr>" P e]
  by (auto simp: ft_deref_def l_get_def Let_def not_le [symmetric])

lemma poll_act_ok:
  assumes ok: "learner_ok s P (e # bs)" and rc: "1 < e_rc (ent s e)" and room: "may_push stopped s 1"
  obtains s' es' where "fl_poll_act stopped s e = Some s'" "learner_ok s' P es'" "es' = e # bs \<or> es' = bs" "polled s s' es'"
    "kept (e_flags (ent s e)) \<Longrightarrow> es' = e # bs"
proof -
  have t: "table_ok (l_table s) P" and te: "tracked (l_table s) P e" using ok by (auto simp: learner_ok_def)
  note g = l_get_tracked [OF t te]
  let ?s1 = "l_upd s e (set_skip 0)"
  note k1 = l_upd_keeps [OF t te keeps_slot_poll(5), of 0] and ok1 = l_upd_learner_ok [OF ok te keeps_slot_poll(5) keeps_poll_simps(2), of 0]
  have p1: "polled s ?s1 (e # bs)" using k1(3,4) by (simp add: polled_def same_but_def)
  have te1: "tracked (l_table ?s1) P e" using k1(2) te by simp
  let ?f = "\<lambda>x. x\<lparr>e_flags := e_flags x AND FLOW_FLAGS_CLEAR\<rparr>"
  let ?s2 = "l_upd ?s1 e ?f"
  note k2 = l_upd_keeps [OF k1(1) te1 keeps_slot_poll(8), of "\<lambda>x. e_flags x AND FLOW_FLAGS_CLEAR"]
    and ok2 = l_upd_learner_ok [OF ok1 te1 keeps_slot_poll(8) keeps_poll_simps(3), of "\<lambda>x. e_flags x AND FLOW_FLAGS_CLEAR"]
  have p2: "polled s ?s2 (e # bs)" using k2(3,4) k1(3,4) by (simp add: polled_def same_but_def)
  have q2: "l_queue ?s2 = l_queue s" using k1(4) k2(4) by (simp add: same_but_def)
  then have room2: "may_push stopped ?s2 1" using room by (simp add: may_push_def)
  have prog: "\<exists>s'. map_option snd (fl_program stopped ?s2 e op) = Some s' \<and> learner_ok s' P (e # bs) \<and> polled s s' (e # bs)" for op
  proof (rule fl_program_ok [OF ok2 room2, of e op])
    fix s' assume "map_option snd (fl_program stopped ?s2 e op) = Some s'" "learner_ok s' P (e # bs)" "polled ?s2 s' (e # bs)"
    then show ?thesis using polled_trans [OF p2 q2] by blast
  qed
  have rem: "\<exists>s'. do { s \<leftarrow> fl_remove_poll ?s2 e; t \<leftarrow> ft_deref (l_table s) e 1; Some (s\<lparr>l_table := t\<rparr>) } = Some s'
      \<and> learner_ok s' P bs \<and> polled s s' bs"
  proof -
    obtain s3 where s3: "fl_remove_poll ?s2 e = Some s3" "learner_ok s3 P bs" "\<And>x. same_flow (ent ?s2 x) (ent s3 x)"
      "l_current s3 = l_current ?s2" "l_interval s3 = l_interval ?s2" "l_queue s3 = l_queue ?s2" "tracked (l_table s3) P e"
      using remove_poll_ok [of ?s2 P "[]" e bs] ok2 by auto
    have t3: "table_ok (l_table s3) P" using s3(2) by (simp add: learner_ok_def)
    have "e_rc (ent s3 e) = e_rc (ent s e)" using s3(3) [of e] k2(3) k1(3) by (simp add: same_flow_def)
    with rc have d: "ft_deref (l_table s3) e 1 = Some (upd_entry (l_table s3) e (\<lambda>x. x\<lparr>e_rc := e_rc x - 1\<rparr>))"
      by (intro ft_deref_more [OF t3 s3(7)]) simp
    let ?s4 = "l_upd s3 e (\<lambda>x. x\<lparr>e_rc := e_rc x - 1\<rparr>)"
    have ok4: "learner_ok ?s4 P bs" by (rule l_upd_learner_ok [OF s3(2,7)]) simp_all
    note k4 = l_upd_keeps [OF t3 s3(7) keeps_slot_poll(9), of "\<lambda>x. e_rc x - 1"]
    have "e \<notin> set bs" using ok by (simp add: learner_ok_def ring_def)
    then have "polled s ?s4 bs"
      using s3(3-6) k4(3,4) p2 q2 by (auto simp: polled_def same_flow_def same_but_def)
    with ok4 d s3(1) show ?thesis by (simp add: l_upd_def)
  qed
  have g1: "l_get ?s1 e = Some (ent ?s1 e)" by (rule l_get_tracked [OF k1(1) te1])
  define flags where "flags = e_flags (ent ?s1 e)"
  have a: "fetch_and ?s1 e FLOW_FLAGS_CLEAR = Some (flags, ?s2)"
    by (simp add: fetch_and_def g1 flags_def)
  define Q where "Q r \<longleftrightarrow> (\<exists>s' es'. r = Some s' \<and> learner_ok s' P es' \<and> (es' = e # bs \<or> es' = bs) \<and> polled s s' es'
      \<and> (kept (e_flags (ent s e)) \<longrightarrow> es' = e # bs))" for r
  have q: "Q (map_option snd (fl_program stopped ?s2 e op))" "Q (Some ?s2)" "Q (Some ?s1)" for op
    unfolding Q_def using prog [of op] ok2 p2 ok1 p1 by blast+
  have qr: "Q (do { s \<leftarrow> fl_remove_poll ?s2 e; t \<leftarrow> ft_deref (l_table s) e 1; Some (s\<lparr>l_table := t\<rparr>) })"
    if "\<not> kept (e_flags (ent s e))"
    unfolding Q_def using rem that by blast
  have fl: "kept (e_flags (ent s e)) \<longleftrightarrow> flagged flags FLOW_FLAGS_TRACK \<and> \<not> flagged flags FLOW_FLAGS_UNLEARN"
    by (simp add: kept_def flags_def k1(3))
  have "Q (fl_poll_act stopped s e)"
  proof (cases "0 < sint (poll_skip (e_poll (ent s e)))")
    case True
    then have "fl_poll_act stopped s e = Some ?s1" by (simp add: fl_poll_act_def g)
    then show ?thesis by (simp only: q)
  next
    case False
    then have "fl_poll_act stopped s e = (
       if flagged flags FLOW_FLAGS_LEARN_PENDING then map_option snd (fl_program stopped ?s2 e FL_OP_LEARN)
       else if flagged flags (FLOW_FLAGS_REFRESH_PENDING OR (if hw_probe ?s2 then 0 else FLOW_FLAGS_PROBE_PENDING))
       then map_option snd (fl_program stopped ?s2 e FL_OP_REFRESH)
       else if flagged flags FLOW_FLAGS_UNLEARN_PENDING then map_option snd (fl_program stopped ?s2 e FL_OP_UNLEARN)
       else if flagged flags FLOW_FLAGS_UNLEARN \<or> \<not> flagged flags FLOW_FLAGS_TRACK then
         do { s \<leftarrow> fl_remove_poll ?s2 e; t \<leftarrow> ft_deref (l_table s) e 1; Some (s\<lparr>l_table := t\<rparr>) }
       else if flagged flags (FLOW_FLAGS_LEARN OR FLOW_FLAGS_PROBE OR FLOW_FLAGS_REFRESH OR FLOW_FLAGS_PROBE_PENDING)
       then map_option snd (fl_program stopped ?s2 e FL_OP_PROBE)
       else Some ?s2)"
      by (simp only: fl_poll_act_def g a Let_def bind.bind_lunit if_False prod.case)
    then show ?thesis by (simp only: q split: if_split) (use qr fl in blast)
  qed
  then show ?thesis using that by (auto simp: Q_def)
qed

lemma due_after:
  fixes c i :: u64
  assumes "i \<noteq> 0" "unat c + unat i < 2 ^ 64"
  shows "\<not> c + i \<le> c"
proof -
  have "unat (c + i) = unat c + unat i" using assms(2) by (simp add: unat_word_ariths)
  with assms(1) show ?thesis by (simp add: word_le_nat_alt word_unat_eq_iff)
qed

definition due_count :: "learner \<Rightarrow> eptr list \<Rightarrow> nat" where
  "due_count s es = length (filter (due s) es)"

lemma due_count_cong:
  "l_current s' = l_current s \<Longrightarrow> (\<And>x. x \<in> set es \<Longrightarrow> poll_due (e_poll (ent s' x)) = poll_due (e_poll (ent s x)))
    \<Longrightarrow> due_count s' es = due_count s es"
  unfolding due_count_def by (intro arg_cong [of _ _ length] filter_cong) (auto simp: due_def)

text \<open>The head is rescheduled and the list read from its successor.\<close>

lemma poll_next_due:
  assumes ok: "learner_ok s P (h # hs)" and d: "due s h"
  obtains s' where "fl_poll_next s = Some (Some (hd (hs @ [h]), s'))" "learner_ok s' P (hs @ [h])"
    "l_current s' = l_current s" "l_interval s' = l_interval s" "l_queue s' = l_queue s"
    "poll_due (e_poll (ent s' h)) = l_current s + ucast (l_interval s)"
    "\<And>x. e_rc (ent s' x) = e_rc (ent s x)" "\<And>x. x \<noteq> h \<Longrightarrow> poll_due (e_poll (ent s' x)) = poll_due (e_poll (ent s x))"
    "\<And>x. e_flags (ent s' x) = e_flags (ent s x)"
proof -
  have t: "table_ok (l_table s) P" and th: "tracked (l_table s) P h" and hd: "l_head s = Some h"
    and r: "ring (nxt s) (prv s) (h # hs)" using ok by (auto simp: learner_ok_def)
  let ?d = "l_current s + ucast (l_interval s)"
  let ?s1 = "l_upd s h (set_due ?d)"
  note k1 = l_upd_keeps [OF t th keeps_slot_poll(4), of ?d] and ok1 = l_upd_learner_ok [OF ok th keeps_slot_poll(4) keeps_poll_simps(1), of ?d]
  have th1: "tracked (l_table ?s1) P h" using k1(2) th by simp
  have g: "l_get s h = Some (ent s h)" "l_get ?s1 h = Some (ent ?s1 h)"
    using l_get_tracked [OF t th] l_get_tracked [OF k1(1) th1] by simp_all
  have n: "nxt s h = Some (hd (hs @ [h]))"
    using r by (cases hs) (simp_all add: ring_def)
  then have n1: "nxt ?s1 h = Some (hd (hs @ [h]))" by (simp add: k1(3))
  let ?s2 = "?s1\<lparr>l_head := Some (hd (hs @ [h]))\<rparr>"
  have f: "fl_poll_next s = Some (Some (hd (hs @ [h]), ?s2))"
    using d g n1 by (simp add: fl_poll_next_def hd due_def not_le [symmetric] Let_def)
  have "learner_ok ?s2 P (hs @ [h])"
    using ok1 ring_rotate [of "nxt ?s1" "prv ?s1" "[h]" hs] by (auto simp: learner_ok_def)
  then show ?thesis using that [OF f] k1(3,4) by (simp add: same_but_def)
qed

lemma poll_round_ends:
  assumes "learner_ok s P es" "\<forall>e \<in> set es. 1 < e_rc (ent s e)" "may_push stopped s (due_count s es)"
    "l_interval s \<noteq> 0" "unat (l_current s) + unat (l_interval s) < 2 ^ 64" "due_count s es < fuel"
  shows "\<exists>s' es'. fl_poll_round fuel stopped s = Some (True, s') \<and> learner_ok s' P es' \<and> set es' \<subseteq> set es
     \<and> (es' = [] \<or> \<not> due s' (hd es'))"
  using assms
proof (induction fuel arbitrary: s es)
  case (Suc fuel)
  show ?case
  proof (cases es)
    case Nil
    then show ?thesis using Suc.prems(1) by (auto simp: learner_ok_def fl_poll_next_def)
  next
    case (Cons h hs)
    show ?thesis
    proof (cases "due s h")
      case False
      have "l_get s h = Some (ent s h)"
        by (rule l_get_tracked) (use Suc.prems(1) Cons in \<open>auto simp: learner_ok_def\<close>)
      then have "fl_poll_next s = Some None"
        using Suc.prems(1) False Cons by (simp add: fl_poll_next_def learner_ok_def due_def not_le)
      then show ?thesis using Suc.prems(1) False Cons by force
    next
      case True
      from poll_next_due [OF Suc.prems(1) [unfolded Cons] True] obtain s1 where
        s1: "fl_poll_next s = Some (Some (hd (hs @ [h]), s1))" "learner_ok s1 P (hs @ [h])"
          "l_current s1 = l_current s" "l_interval s1 = l_interval s" "l_queue s1 = l_queue s"
          "poll_due (e_poll (ent s1 h)) = l_current s + ucast (l_interval s)"
          "\<And>x. e_rc (ent s1 x) = e_rc (ent s x)" "\<And>x. x \<noteq> h \<Longrightarrow> poll_due (e_poll (ent s1 x)) = poll_due (e_poll (ent s x))"
        by metis
      have dis: "h \<notin> set hs" using Suc.prems(1) Cons by (simp add: learner_ok_def ring_def)
      have iv: "(ucast (l_interval s) :: u64) \<noteq> 0" "unat (ucast (l_interval s) :: u64) = unat (l_interval s)"
        using Suc.prems(4) by (simp_all add: word_unat_eq_iff unat_ucast_32_64)
      have "\<not> due s1 h" using due_after [OF iv(1)] Suc.prems(5) by (simp add: due_def s1 iv(2))
      moreover have "due_count s1 hs = due_count s hs"
        by (rule due_count_cong) (rule s1(3), rule s1(8), use dis in blast)
      ultimately have dc: "Suc (due_count s1 (hs @ [h])) = due_count s es"
        using True Cons by (simp add: due_count_def)
      obtain e bs where eb: "hs @ [h] = e # bs" by (cases hs) auto
      have rc: "\<forall>x \<in> set (hs @ [h]). 1 < e_rc (ent s1 x)" using Suc.prems(2) Cons s1(7) by auto
      have room: "may_push stopped s1 1" using Suc.prems(3) dc s1(5) by (auto simp: may_push_def)
      obtain s2 es2 where s2: "fl_poll_act stopped s1 e = Some s2" "learner_ok s2 P es2" "es2 = e # bs \<or> es2 = bs" "polled s1 s2 es2"
        by (rule poll_act_ok [of s1 P e bs stopped]) (use s1(2) rc room eb in auto)
      have sub: "set es2 \<subseteq> set (hs @ [h])" using s2(3) eb by auto
      have p: "l_current s2 = l_current s" "l_interval s2 = l_interval s" "length (l_queue s2) \<le> Suc (length (l_queue s))"
        "\<And>x. x \<in> set es2 \<Longrightarrow> e_rc (ent s2 x) = e_rc (ent s1 x)"
        "\<And>x. x \<in> set es2 \<Longrightarrow> poll_due (e_poll (ent s2 x)) = poll_due (e_poll (ent s1 x))"
        using s2(4) s1 by (simp_all add: polled_def)
      have "due_count s2 es2 = due_count s1 es2"
        by (rule due_count_cong) (use p s1(3) in simp_all)
      also have "\<dots> \<le> due_count s1 (hs @ [h])" using s2(3) eb by (auto simp: due_count_def)
      finally have dc2: "Suc (due_count s2 es2) \<le> due_count s es" using dc by simp
      have "\<exists>s' es'. fl_poll_round fuel stopped s2 = Some (True, s') \<and> learner_ok s' P es' \<and> set es' \<subseteq> set es2
          \<and> (es' = [] \<or> \<not> due s' (hd es'))"
      proof (rule Suc.IH [OF s2(2)])
        show "\<forall>e \<in> set es2. 1 < e_rc (ent s2 e)" using p(4) rc sub by auto
        show "may_push stopped s2 (due_count s2 es2)" using Suc.prems(3) dc2 p(3) by (auto simp: may_push_def)
      qed (use Suc.prems(4-6) p(1,2) dc2 in auto)
      then obtain s' es' where fin: "fl_poll_round fuel stopped s2 = Some (True, s')" "learner_ok s' P es'" "set es' \<subseteq> set es2"
        "es' = [] \<or> \<not> due s' (hd es')" by blast
      have "fl_poll_round (Suc fuel) stopped s = Some (True, s')" using s1(1) s2(1) fin(1) eb by simp
      moreover have "set es' \<subseteq> set es" using fin(3) sub Cons by auto
      ultimately show ?thesis using fin by blast
    qed
  qed
qed simp

text \<open>C12: A round of the poll thread ends after at most as many iterations as there are due entries, for
  a poll interval of at least a second: it leaves the poll list a ring of live entries whose head is
  not due yet.  Every entry must hold more than the reference of the list (which the entries added by
  the learner do), and the queue must have room for one operation per due entry or the program be
  stopping.\<close>

theorem poll_round_terminates:
  assumes "learner_ok s P es" "\<forall>e \<in> set es. 1 < e_rc (ent s e)" "may_push stopped s (due_count s es)"
    "l_interval s \<noteq> 0" "unat (l_current s) + unat (l_interval s) < 2 ^ 64"
  shows "\<exists>s' es'. fl_poll_round (Suc (due_count s es)) stopped s = Some (True, s') \<and> learner_ok s' P es' \<and> set es' \<subseteq> set es
     \<and> (es' = [] \<or> \<not> due s' (hd es'))"
  using poll_round_ends [OF assms lessI] .

lemma poll_spins:
  assumes "learner_ok s P es" "es \<noteq> []" "\<forall>e \<in> set es. 1 < e_rc (ent s e) \<and> kept (e_flags (ent s e)) \<and> due s e"
    "l_interval s = 0"
  shows "\<exists>s'. fl_poll_round fuel True s = Some (False, s')"
  using assms
proof (induction fuel arbitrary: s es)
  case (Suc fuel)
  obtain h hs where es: "es = h # hs" using Suc.prems(2) by (cases es) auto
  from poll_next_due [OF Suc.prems(1) [unfolded es]] Suc.prems(3) es obtain s1 where
    s1: "fl_poll_next s = Some (Some (hd (hs @ [h]), s1))" "learner_ok s1 P (hs @ [h])"
      "l_current s1 = l_current s" "l_interval s1 = l_interval s"
      "poll_due (e_poll (ent s1 h)) = l_current s + ucast (l_interval s)"
      "\<And>x. e_rc (ent s1 x) = e_rc (ent s x)" "\<And>x. x \<noteq> h \<Longrightarrow> poll_due (e_poll (ent s1 x)) = poll_due (e_poll (ent s x))"
      "\<And>x. e_flags (ent s1 x) = e_flags (ent s x)"
    by (metis list.set_intros(1))
  obtain e bs where eb: "hs @ [h] = e # bs" by (cases hs) auto
  have "e \<in> set es" using eb es by (metis list.set_intros(1) rotate1.simps(2) set_rotate1)
  then have "1 < e_rc (ent s1 e)" "kept (e_flags (ent s1 e))" using Suc.prems(3) s1 by auto
  then obtain s2 where s2: "fl_poll_act True s1 e = Some s2" "learner_ok s2 P (e # bs)" "polled s1 s2 (e # bs)"
    using poll_act_ok [of s1 P e bs True] s1(2) eb by (auto simp: may_push_def)
  have "set (e # bs) = set es" using eb [symmetric] es by auto
  moreover have "poll_due (e_poll (ent s1 x)) \<le> l_current s" if "x \<in> set es" for x
    using Suc.prems(3,4) s1(5) s1(7) [of x] that by (cases "x = h") (auto simp: due_def)
  ultimately have "\<forall>x \<in> set (e # bs). 1 < e_rc (ent s2 x) \<and> kept (e_flags (ent s2 x)) \<and> due s2 x"
    using Suc.prems(3,4) s1 s2(3) es by (auto simp: polled_def due_def)
  then have "\<exists>s'. fl_poll_round fuel True s2 = Some (False, s')"
    using s2(2,3) s1(4) Suc.prems(4) by (intro Suc.IH [of s2 "e # bs"]) (simp_all add: polled_def)
  then show ?case using s1(1) s2(1) eb by simp
qed simp

section \<open>A small learner\<close>

lemma small_learner:
  obtains s P e where "learner_ok s P [e]" "e_rc (ent s e) = 2" "kept (e_flags (ent s e))" "due s e" "l_interval s = iv"
    "l_current s = 0" "l_queue s = []" "l_pid s = pid" "l_addr s = addr" "l_at s = at"
proof -
  obtain t P e where t: "table_ok t P" "e \<in> set (live t (P (chain_of t 9)))" using small_flow by blast
  have i: "chain_of t 9 < unat (t_size t)" using chain_of_less t(1) by (simp add: table_ok_def)
  let ?s0 = "\<lparr>l_table = t, l_queue = [], l_head = Some e, l_current = 0, l_offset = 0, l_op_count = 0, l_interval = iv,
    l_flags = 0, l_pid = pid, l_addr = addr, l_at = at\<rparr>"
  let ?f = "\<lambda>x. x\<lparr>e_rc := 2, e_flags := FLOW_FLAGS_TRACK,
    e_poll := \<lparr>poll_prev = Some e, poll_next = Some e, poll_skip = 0, poll_due = 0\<rparr>\<rparr>"
  have tr: "tracked t P e" using t i by (auto simp: tracked_def)
  have "table_ok (l_table ?s0) P" "tracked (l_table ?s0) P e" "keeps_slot ?f" using t(1) tr by (simp_all add: keeps_slot_def)
  note k = l_upd_keeps [OF this]
  have "learner_ok (l_upd ?s0 e ?f) P [e]" using k tr by (simp add: learner_ok_def ring_single_iff same_but_def)
  moreover have "kept FLOW_FLAGS_TRACK" unfolding kept_def flag_bits by (simp add: flow_flag_defs)
  ultimately show ?thesis using that [of "l_upd ?s0 e ?f" P e] k by (simp add: due_def same_but_def l_upd_def)
qed

text \<open>Its entry may be the second one, not on the list yet.\<close>

lemma empty_learner:
  obtains s P e where "learner_ok s P []" "tracked (l_table s) P e"
proof -
  obtain s P e where s: "learner_ok s P [e]" using small_learner by metis
  then have "learner_ok (s\<lparr>l_head := None\<rparr>) P []" "tracked (l_table (s\<lparr>l_head := None\<rparr>)) P e"
    by (simp_all add: learner_ok_def)
  then show ?thesis using that by blast
qed

text \<open>Two flows on the list, the second one untouched since it was added to the table.\<close>

lemma two_learner:
  obtains s P e1 e2 where "learner_ok s P [e1, e2]" "e_flags (ent s e2) = 0"
proof -
  obtain t P e1 where t: "table_ok t P" "e1 \<in> set (live t (P (chain_of t 9)))" using small_flow by blast
  have i: "chain_of t 9 < unat (t_size t)" using chain_of_less t(1) by (simp add: table_ok_def)
  have "key_len (4 :: u16) \<le> length (replicate 12 (1 :: u8))"
    by (simp add: key_len_def flagged_def flow_color_defs flow_len_defs)
  from ft_add_ok [OF t(1) this, of True 9 "\<lambda>_. False"] obtain e2 t' P' where
    a: "added t P t' P' e2 9 (replicate 12 1) 4" by auto
  then have t': "table_ok t' P'" "chain_of t' 9 = chain_of t 9" "t_size t' = t_size t" by (simp_all add: added_def chain_of_def)
  have l: "e1 \<in> set (live t' (P' (chain_of t 9)))" "e2 \<in> set (live t' (P' (chain_of t 9)))" "e1 \<noteq> e2" "e_flags (entry t' e2) = 0"
    using a t(2) by (auto simp: added_def Let_def filled_def)
  let ?s = "\<lparr>l_table = t', l_queue = [], l_head = None, l_current = 0, l_offset = 0, l_op_count = 0, l_interval = 10,
    l_flags = 0, l_pid = 4711, l_addr = (\<lambda>_. 0), l_at = (\<lambda>_. None)\<rparr>"
  have "learner_ok ?s P' []" "tracked (l_table ?s) P' e1" "tracked (l_table ?s) P' e2"
    using t' l i by (auto simp: learner_ok_def tracked_def)
  then obtain s1 where s1: "learner_ok s1 P' [e1]" "\<And>x. e_flags (ent s1 x) = e_flags (ent ?s x)" "tracked (l_table s1) P' = tracked t' P'"
    using add_poll_ok [of ?s P' "[]" e1] by (metis append_Nil empty_iff list.set(1) learner.select_convs(1))
  moreover have "tracked (l_table s1) P' e2" using s1(3) t' l i by (auto simp: tracked_def)
  ultimately obtain s2 where s2: "learner_ok s2 P' [e1, e2]" "\<And>x. e_flags (ent s2 x) = e_flags (ent s1 x)"
    using add_poll_ok [of s1 P' "[e1]" e2] l(3)
    by (metis append_Cons append_Nil empty_iff insert_iff list.set(1) list.set(2))
  have "e_flags (ent s2 e2) = 0" using s2(2) s1(2) l(4) by simp
  with that s2(1) show ?thesis by blast
qed

theorem poll_list_is_ring_witness:
  "\<exists>s P e s1 s2. fl_add_poll s e = Some s1 \<and> learner_ok s1 P [e] \<and> fl_remove_poll s1 e = Some s2 \<and> learner_ok s2 P []"
proof -
  obtain s P e where "learner_ok s P ([] @ [])" "tracked (l_table s) P e" using empty_learner by (metis append_Nil)
  from poll_list_is_ring [OF this] obtain s1 where s1: "fl_add_poll s e = Some s1" "learner_ok s1 P [e]"
    "\<And>x cs ds. [e] = cs @ x # ds \<Longrightarrow> \<exists>s2. fl_remove_poll s1 x = Some s2 \<and> learner_ok s2 P (cs @ ds)" by auto
  obtain s2 where "fl_remove_poll s1 e = Some s2" "learner_ok s2 P []" using s1(3) [of "[]" e "[]"] by auto
  with s1(1,2) show ?thesis by blast
qed

theorem poll_round_terminates_witness:
  "\<exists>s P e s' es'. learner_ok s P [e] \<and> due s e \<and> fl_poll_round 2 False s = Some (True, s') \<and> learner_ok s' P es'
     \<and> (es' = [] \<or> \<not> due s' (hd es'))"
proof -
  obtain s P e where s: "learner_ok s P [e]" "e_rc (ent s e) = 2" "due s e" "l_interval s = 10" "l_current s = 0" "l_queue s = []"
    using small_learner by metis
  have d: "due_count s [e] = 1" using s(3) by (simp add: due_count_def)
  have "\<exists>s' es'. fl_poll_round (Suc (due_count s [e])) False s = Some (True, s') \<and> learner_ok s' P es' \<and> set es' \<subseteq> set [e]
     \<and> (es' = [] \<or> \<not> due s' (hd es'))"
    by (rule poll_round_terminates [OF s(1)]) (use s d in \<open>simp_all add: may_push_def QUEUE_SIZE_def\<close>)
  with s(1,3) d show ?thesis by (metis Suc_1)
qed

section \<open>Where the code departs from this\<close>

text \<open>With a poll interval of 0, which the command line accepts, a round never ends while tracked
  flows are on the list: the poll thread spins over them without ever sleeping.\<close>

theorem poll_round_spins:
  assumes "learner_ok s P es" "es \<noteq> []" "\<forall>e \<in> set es. 1 < e_rc (ent s e) \<and> kept (e_flags (ent s e)) \<and> due s e"
    "l_interval s = 0"
  shows "\<exists>s'. fl_poll_round fuel True s = Some (False, s')"
  using assms by (rule poll_spins)

theorem poll_round_spins_witness:
  "\<exists>s. l_interval s = 0 \<and> (\<exists>s'. fl_poll_round 1000 True s = Some (False, s'))"
proof -
  obtain s P e where s: "learner_ok s P [e]" "e_rc (ent s e) = 2" "kept (e_flags (ent s e))" "due s e" "l_interval s = 0"
    using small_learner by metis
  have "\<exists>s'. fl_poll_round 1000 True s = Some (False, s')" by (rule poll_round_spins [OF s(1)]) (use s in simp_all)
  with s(5) show ?thesis by blast
qed

lemma link_last:
  assumes ok: "learner_ok s P (h # hs @ [e])" and f: "fl_add_poll s e = r"
  shows "\<exists>s'. r = Some s' \<and> nxt s' e = Some e \<and> prv s' e = Some e \<and> nxt s' (last (h # hs)) = Some e"
proof -
  have t: "table_ok (l_table s) P" and tr: "tracked (l_table s) P e" "tracked (l_table s) P h" and hd: "l_head s = Some h"
    and r: "ring (nxt s) (prv s) (h # hs @ [e])" using ok by (auto simp: learner_ok_def)
  have d: "h \<noteq> e" "last (h # hs) \<noteq> e" using r last_in_set [of "h # hs"] by (auto simp: ring_def)
  have "prv s h = Some e" using ring_ends(2) [OF r] by simp
  from link_poll_eq [OF t tr tr(1) hd this d(1)] obtain s1 where
    s1: "fl_link_poll s e = Some s1" "table_ok (l_table s1) P" "tracked (l_table s1) P = tracked (l_table s) P"
    "ent s1 = (let f1 = (ent s)(e := set_next (Some h) (ent s e)); f2 = f1(e := set_prev (Some e) (f1 e));
      f3 = f2(e := set_next (Some e) (f2 e)) in f3(h := set_prev (Some e) (f3 h)))" by metis
  have l: "nxt s (last (h # hs)) = Some e"
    using r append_butlast_last_id [of "h # hs"]
    by (intro ring_next [of "nxt s" "prv s" "butlast (h # hs)" "last (h # hs)" e "[]"])
      (metis append.assoc append_Cons append_Nil list.distinct(1))
  have n1: "nxt s1 e = Some e" "prv s1 e = Some e" "nxt s1 (last (h # hs)) = Some e"
    using d l by (auto simp: s1(4) Let_def)
  define s3 where "s3 = (let s = s1\<lparr>l_op_count := l_op_count s1 + 1\<rparr> in
    if l_op_count s AND 0xffffffff = 0 then s\<lparr>l_offset := l_offset s + 1\<rparr> else s)"
  let ?d = "l_current s3 + ucast (l_interval s3) + ucast (l_offset s3)"
  have T: "l_table s3 = l_table s1" by (simp add: s3_def Let_def)
  have "table_ok (l_table s3) P" "tracked (l_table s3) P e" using s1(2,3) tr by (simp_all add: T)
  note k = l_upd_keeps [OF this keeps_slot_poll(4), of ?d]
  have "r = Some (l_upd s3 e (set_due ?d))"
    using f [symmetric] l_get_tracked [OF t tr(1)] by (simp add: fl_add_poll_def s1(1) s3_def Let_def)
  then show ?thesis using n1 by (simp add: k(3) T del: last.simps)
qed

text \<open>A flow that is learnt again while it is still on the poll list breaks the list: when the
  learner has cleared the tracking bit (a failed learn, a record) before the poll thread has removed
  the entry, the next learn operation links it a second time.  If it is the last entry, it becomes its
  own predecessor and the head is unreachable from it backwards, so the list is no ring any more.\<close>

theorem learn_twice_breaks_ring:
  assumes "learner_ok s P (h # hs @ [e])" "\<not> flagged (e_flags (ent s e)) (FLOW_FLAGS_LEARN OR FLOW_FLAGS_TRACK)"
  shows "\<exists>s'. fl_program_op s FL_OP_LEARN e = Some (Some (1, e_flags (ent s e)), s')
     \<and> nxt s' e = Some e \<and> prv s' e = Some e \<and> nxt s' (last (h # hs)) = Some e
     \<and> \<not> ring (nxt s') (prv s') (h # hs @ [e])"
proof -
  have t: "table_ok (l_table s) P" and tr: "tracked (l_table s) P e" using assms(1) by (auto simp: learner_ok_def)
  let ?m = "FLOW_FLAGS_LEARN OR FLOW_FLAGS_LEARN_PENDING OR FLOW_FLAGS_TRACK"
  let ?s1 = "l_upd s e (\<lambda>x. x\<lparr>e_flags := e_flags x OR ?m\<rparr>)"
  let ?s2 = "l_upd ?s1 e (\<lambda>x. x\<lparr>e_rc := e_rc x + 1\<rparr>)"
  have ok1: "learner_ok ?s1 P (h # hs @ [e])" by (rule l_upd_learner_ok [OF assms(1) tr]) simp_all
  then have "tracked (l_table ?s1) P e" by (simp add: learner_ok_def)
  then have ok2: "learner_ok ?s2 P (h # hs @ [e])" by (intro l_upd_learner_ok [OF ok1]) simp_all
  have nf: "\<not> flagged (e_flags (ent s e)) FLOW_FLAGS_LEARN" "\<not> flagged (e_flags (ent s e)) FLOW_FLAGS_TRACK"
    using assms(2) by (simp_all add: flagged_def bit.conj_disj_distrib or_eq_0_iff)
  from link_last [OF ok2 refl] obtain s' where
    s': "fl_add_poll ?s2 e = Some s'" "nxt s' e = Some e" "prv s' e = Some e" "nxt s' (last (h # hs)) = Some e" by metis
  have "fl_program_op s FL_OP_LEARN e = Some (Some (1, e_flags (ent s e)), s')"
    using nf s'(1) by (simp add: fl_program_op_def fl_op_defs fetch_or_def l_get_tracked [OF t tr] ft_ref_def l_upd_def)
  moreover have "\<not> ring (nxt s') (prv s') (h # hs @ [e])"
  proof
    assume r: "ring (nxt s') (prv s') (h # hs @ [e])"
    then have "nxt s' e = Some h" using ring_ends(1) [OF r] by simp
    with s'(2) r show False by (simp add: ring_def)
  qed
  ultimately show ?thesis using s' by blast
qed

theorem learn_twice_breaks_ring_witness:
  "\<exists>s P es e x s'. learner_ok s P es \<and> fl_program_op s FL_OP_LEARN e = Some (x, s') \<and> \<not> ring (nxt s') (prv s') es"
proof -
  obtain s P e1 e2 where s: "learner_ok s P [e1, e2]" "e_flags (ent s e2) = 0" using two_learner by metis
  then have "\<not> flagged (e_flags (ent s e2)) (FLOW_FLAGS_LEARN OR FLOW_FLAGS_TRACK)" by (simp add: flagged_def)
  with learn_twice_breaks_ring [of s P e1 "[]" e2] s(1) show ?thesis by (metis append_Nil)
qed

text \<open>The process identifier tags the records, but the tag has 17 bits: in a process whose
  identifier needs more, every status and every flow record of its own flows is taken for one of an
  earlier program and dropped.\<close>

theorem large_pid_drops_records:
  assumes "2 ^ 17 \<le> unat (l_pid s)" "fl_flow s e op = Some flow"
  shows "fl_status_step s (nf_id flow) flag = Some s
     \<and> (nfi_id info = nf_id flow \<longrightarrow> fl_record_step stopped s info = Some s)"
proof -
  have "flow_tag v \<noteq> ucast (l_pid s)" for v
  proof
    assume "flow_tag v = ucast (l_pid s)"
    then have "unat (take_bit 17 v) = unat (l_pid s)"
      using unat_ucast_32_64 [of "l_pid s"] by (simp add: flow_tag_def TAG_BITS_def VIRTUAL_MEM_BITS_def)
    moreover have "unat (take_bit 17 v) < 2 ^ 17" unfolding unsigned_take_bit_eq by (rule take_bit_nat_less_exp)
    ultimately show False using assms(1) by simp
  qed
  then show ?thesis by (simp add: fl_status_step_def fl_record_step_def)
qed

theorem large_pid_drops_records_witness:
  "\<exists>s e flow. l_pid s = 131072 \<and> fl_flow s e 1 = Some flow \<and> fl_status_step s (nf_id flow) LDS = Some s"
proof -
  obtain s P e where s: "learner_ok s P [e]" "l_pid s = 131072" using small_learner by metis
  have t: "table_ok (l_table s) P" "tracked (l_table s) P e" using s(1) by (simp_all add: learner_ok_def)
  have "length (e_key_data (ent s e)) = FLOW_MAX_KEY_LEN"
  proof -
    obtain p j i where pj: "e = (p, j)" "i < unat (t_size (l_table s))" "(p, j) \<in> set (live (l_table s) (P i))"
      using t(2) by (cases e) (auto simp: tracked_def)
    obtain b where b: "t_mem (l_table s) p = Some b" "bucket_ok (l_table s) i p b" "j < bsize (l_table s)"
      using live_entry [OF t(1) pj(2,3)] by metis
    then have "b_entries b ! j \<in> set (b_entries b)" by (simp add: bucket_ok_def)
    with b show ?thesis by (simp add: pj(1) entry_def bucket_ok_def)
  qed
  then obtain flow where f: "fl_flow s e 1 = Some flow"
    using l_get_tracked [OF t] key_len_le [of "e_color (ent s e)"] by (auto simp: fl_flow_def memcpy_def)
  moreover have "2 ^ 17 \<le> unat (l_pid s)" by (simp add: s(2))
  ultimately show ?thesis using s(2) large_pid_drops_records [of s e 1 flow LDS] by blast
qed

section \<open>Tagged pointers\<close>

text \<open>C10: What is sent to the adapter comes back: the tag and the address read from a tagged value are
  those it was built from, for every address below \<open>2^47\<close> and every tag below \<open>2^17\<close>, so a status
  record with the identifier of a written flow leads to the entry it was written for.\<close>

theorem tagged_flow_roundtrip:
  assumes "unat addr < 2 ^ 47" "unat tag < 2 ^ 17"
  shows "flow_tag (tagged_flow tag addr) = tag \<and> flow_pointer (tagged_flow tag addr) = addr"
  using assms tag_roundtrip [of tag addr] by (simp add: take_bit_small)

theorem tagged_flow_roundtrip_witness:
  "flow_tag (tagged_flow 4711 0x7fffdeadbeef) = 4711 \<and> flow_pointer (tagged_flow 4711 0x7fffdeadbeef) = 0x7fffdeadbeef"
  using tagged_flow_roundtrip [of "0x7fffdeadbeef" 4711] by simp

end
