(* ===== verification/Rx.thy ===== *)
theory Rx
  imports Flow_Learn_Props
begin

text \<open>
  \<open>ntnetflow/rx.c\<close>: the receiving threads.  A packet that the adapter could not match to a learnt flow
  is looked up in the flow table, added if it is new, and counted.  A packet is the memory from its
  dynamic descriptor on.  \<open>None\<close> stands for an access outside it, a null entry or a blocked caller.
\<close>

section \<open>Receiving\<close>

record dyn4 =
  d_color1 :: u64
  d_descr_len :: nat
  d_offset0 :: nat
  d_offset1 :: nat
  d_timestamp :: u64
  d_native_unix :: bool
  d_bytes :: "u8 list"

text \<open>The outcomes outside the program: the locks, the allocation, and whether it is stopping.\<close>

record rx_env =
  x_trylock :: "bptr \<Rightarrow> bool"
  x_calloc :: bool
  x_stopped :: bool

definition d_packet :: "dyn4 \<Rightarrow> u8 list" where "d_packet d = drop (d_descr_len d) (d_bytes d)"
definition d_l3 :: "dyn4 \<Rightarrow> u8 list" where "d_l3 d = drop (d_offset0 d) (d_packet d)"
definition d_l4 :: "dyn4 \<Rightarrow> u8 list" where "d_l4 d = drop (d_offset1 d) (d_packet d)"
definition d_color :: "dyn4 \<Rightarrow> u32" where "d_color d = ucast (d_color1 d)"
definition d_hash :: "dyn4 \<Rightarrow> u32" where "d_hash d = ucast (drop_bit 32 (d_color1 d))"

text \<open>The entry of a packet: found, or added and, on a miss, queued to be learnt.\<close>

definition rx_entry :: "rx_env \<Rightarrow> learner \<Rightarrow> u8 \<Rightarrow> dyn4 \<Rightarrow> u8 list \<Rightarrow> (eptr \<times> learner) option" where
  "rx_entry env s stream_id d key = do {
     r \<leftarrow> ft_lookup (l_table s) (d_hash d) key (ucast (d_color d));
     (case r of
        Some e \<Rightarrow> Some (e, s)
      | None \<Rightarrow> do {
          (r, t) \<leftarrow> ft_add (x_trylock env) (x_calloc env) (l_table s) (d_hash d) key (ucast (d_color d));
          e \<leftarrow> r;
          let s = l_upd (s\<lparr>l_table := t\<rparr>) e (\<lambda>x. x\<lparr>e_stream_id := stream_id\<rparr>);
          if flagged (d_color d) FLOW_COLOR_MISS
          then do { (_, s) \<leftarrow> fl_program (x_stopped env) s e FL_OP_LEARN; Some (e, s) }
          else Some (e, s) }) }"

definition rx_process :: "rx_env \<Rightarrow> learner \<Rightarrow> u8 \<Rightarrow> dyn4 \<Rightarrow> learner option" where
  "rx_process env s stream_id d = do {
     key \<leftarrow> fk_create (replicate FLOW_MAX_KEY_LEN 0) (d_l3 d) (d_l4 d) (ucast (d_color d));
     if flagged (d_color d) (FLOW_COLOR_UNHANDLED OR FLOW_COLOR_MISS) then do {
       (e, s) \<leftarrow> rx_entry env s stream_id d key;
       let ts = (if d_native_unix d then d_timestamp d * 10 else d_timestamp d);
       x \<leftarrow> l_get s e;
       if length (d_l4 d) \<le> 13 then None
       else Some (l_upd s e (\<lambda>x. x\<lparr>e_info := snd (fi_increment (e_info x) (ucast (d_l4 d ! 13)) ts
              (flagged (d_color d) FLOW_COLOR_DOWNSTREAM))\<rparr>)) }
     else Some s }"



section \<open>Opening and closing the streams\<close>

datatype rx_call = Open nat | Close nat | Create nat | Join nat | Shutdown

text \<open>The counter of opened streams and the calls made; \<open>open_ok\<close> and \<open>created\<close> are the outcomes.\<close>

fun rx_open :: "(nat \<Rightarrow> bool) \<Rightarrow> nat list \<Rightarrow> nat \<Rightarrow> rx_call list \<Rightarrow> bool \<times> nat \<times> rx_call list" where
  "rx_open open_ok [] count calls = (True, count, calls)"
| "rx_open open_ok (s # ss) count calls =
     (if open_ok s then rx_open open_ok ss (count + 1) (calls @ [Open s]) else (False, count, calls @ [Open s]))"

definition rx_close_all :: "nat list \<Rightarrow> nat \<Rightarrow> rx_call list" where
  "rx_close_all streams count = map Close (take count streams)"

text \<open>\<open>pthread_create\<close> reports errors by positive numbers, so the test for a negative one never fails.\<close>

definition rx_init :: "(nat \<Rightarrow> bool) \<Rightarrow> (nat \<Rightarrow> int) \<Rightarrow> nat list \<Rightarrow> int \<times> nat \<times> rx_call list" where
  "rx_init open_ok created streams =
     (let (ok, count, calls) = rx_open open_ok streams 0 [] in
      if \<not> ok then (- 1, count, calls @ rx_close_all streams count @ [Shutdown])
      else let started = takeWhile (\<lambda>i. 0 \<le> created i) [0..<length streams] in
      if length started < length streams then (- 1, count, calls @ map Create started @ [Create (length started), Shutdown])
      else (0, count, calls @ map Create started))"

definition rx_join :: "nat \<Rightarrow> rx_call list" where
  "rx_join count = map Join [0..<count]"

definition rx_deinit :: "nat list \<Rightarrow> nat \<Rightarrow> rx_call list" where
  "rx_deinit streams count = rx_close_all streams count"

section \<open>What receiving relies on\<close>

text \<open>The contract of the flow table towards its client: an added flow is found by its key, and updates
  of the counters of a member do not change what is found.\<close>

locale flow_store =
  fixes ok :: "'t \<Rightarrow> bool"
    and member :: "'t \<Rightarrow> 'e \<Rightarrow> bool"
    and find_flow :: "'t \<Rightarrow> 'k \<Rightarrow> 'e option option"
    and add_flow :: "'t \<Rightarrow> 'k \<Rightarrow> 'e \<Rightarrow> 't \<Rightarrow> bool"
    and upd :: "'t \<Rightarrow> 'e \<Rightarrow> ('x \<Rightarrow> 'x) \<Rightarrow> 't"
    and mild :: "('x \<Rightarrow> 'x) \<Rightarrow> bool"
  assumes find_total: "ok t \<Longrightarrow> find_flow t k \<noteq> None"
    and find_member: "ok t \<Longrightarrow> find_flow t k = Some (Some e) \<Longrightarrow> member t e"
    and find_added: "ok t \<Longrightarrow> find_flow t k = Some None \<Longrightarrow> add_flow t k e t' \<Longrightarrow>
      ok t' \<and> member t' e \<and> find_flow t' k = Some (Some e)"
    and upd_ok: "ok t \<Longrightarrow> member t e \<Longrightarrow> mild f \<Longrightarrow>
      ok (upd t e f) \<and> (\<forall>e'. member (upd t e f) e' = member t e') \<and> find_flow (upd t e f) k = find_flow t k"
begin

text \<open>A new flow stays found under any number of updates of its entry.\<close>

lemma added_stays_found:
  assumes "ok t" "find_flow t k = Some None" "add_flow t k e t'" "\<forall>f \<in> set fs. mild f"
  shows "ok (foldl (\<lambda>t f. upd t e f) t' fs) \<and> member (foldl (\<lambda>t f. upd t e f) t' fs) e
     \<and> find_flow (foldl (\<lambda>t f. upd t e f) t' fs) k = Some (Some e)"
proof -
  have "ok t' \<and> member t' e \<and> find_flow t' k = Some (Some e)" using find_added [OF assms(1-3)] .
  with assms(4) show ?thesis by (induction fs arbitrary: t') (auto simp: upd_ok)
qed

end

type_synonym flow_id = "u32 \<times> u8 list \<times> u16"

definition table_fine :: "flow_table \<Rightarrow> bool" where "table_fine t \<longleftrightarrow> (\<exists>P. table_ok t P)"
definition table_member :: "flow_table \<Rightarrow> eptr \<Rightarrow> bool" where "table_member t e \<longleftrightarrow> (\<exists>P. table_ok t P \<and> tracked t P e)"
definition table_find :: "flow_table \<Rightarrow> flow_id \<Rightarrow> eptr option option" where
  "table_find t k = (case k of (hash, key, color) \<Rightarrow> ft_lookup t hash key color)"
definition table_add :: "flow_table \<Rightarrow> flow_id \<Rightarrow> eptr \<Rightarrow> flow_table \<Rightarrow> bool" where
  "table_add t k e t' \<longleftrightarrow> (case k of (hash, key, color) \<Rightarrow>
     key_len color \<le> length key \<and> (\<exists>trylock. ft_add trylock True t hash key color = Some (Some e, t')))"
definition keeps_key :: "(flow_entry \<Rightarrow> flow_entry) \<Rightarrow> bool" where
  "keeps_key f \<longleftrightarrow> keeps_slot f \<and> (\<forall>x. e_hash (f x) = e_hash x \<and> e_color (f x) = e_color x \<and> e_key_data (f x) = e_key_data x)"

text \<open>The links determine the chains.\<close>

lemma seg_ConsD: "seg m pv (p # ps) nx \<Longrightarrow> \<exists>b. m p = Some b \<and> b_next b = head_or ps nx \<and> seg m (Some p) ps nx"
  by (auto split: option.splits)

lemma seg_unique: "seg m pv (p # ps) None \<Longrightarrow> seg m pv' (p # qs) None \<Longrightarrow> ps = qs"
proof (induction ps arbitrary: p pv pv' qs)
  case Nil
  then show ?case by (cases qs) (auto split: option.splits)
next
  case (Cons q ps)
  from seg_ConsD [OF Cons.prems(1)] seg_ConsD [OF Cons.prems(2)]
  have "head_or qs None = Some q" "seg m (Some p) (q # ps) None" "seg m (Some p) qs None" by auto
  moreover from this(1) obtain qs' where "qs = q # qs'" by (cases qs) auto
  ultimately show ?case using Cons.IH by metis
qed

lemma tracked_any:
  assumes "table_ok t P" "table_ok t P'" shows "tracked t P e = tracked t P' e"
proof -
  have "P i = P' i" if i: "i < unat (t_size t)" for i
  proof -
    have c: "chain_ok t i (P i)" "chain_ok t i (P' i)" using assms i by (simp_all add: table_ok_def)
    obtain ps qs where q: "P i = First i # ps" "P' i = First i # qs"
      using chain_ok_cons [OF c(1)] chain_ok_cons [OF c(2)] by blast
    with c seg_unique [of "t_mem t" None "First i" ps None qs] show ?thesis by (simp add: chain_ok_def del: seg.simps)
  qed
  then show ?thesis by (auto simp: tracked_def)
qed

lemma lookup_upd:
  assumes "table_ok t P" "tracked t P e" "keeps_key f"
  shows "ft_lookup (upd_entry t e f) hash key color = ft_lookup t hash key color"
proof -
  obtain i where i: "i < unat (t_size t)" "e \<in> set (live t (P i))" using assms(2) by (auto simp: tracked_def)
  have ks: "keeps_slot f" using assms(3) by (simp add: keeps_key_def)
  note k = upd_entry_keeps [OF assms(1) i ks]
  have c: "ft_compare (entry (upd_entry t e f) e') hash key x = ft_compare (entry t e') hash key x" for e' x
    using k(3) k(4) [of e'] assms(3) by (cases "e' = e") (simp_all add: keeps_key_def ft_compare_def)
  show ?thesis
    unfolding ft_lookup_def lookup_path [OF assms(1)] lookup_path [OF k(1)]
    by (simp add: c k(2) chain_of_mask [OF k(6)])
qed

lemma added_found:
  assumes "table_ok t P" "key_len color \<le> length key" "ft_lookup t hash key color = Some None"
    and "ft_add trylock True t hash key color = Some (Some e, t')"
  obtains P' where "table_ok t' P'" "tracked t' P' e" "ft_lookup t' hash key color = Some (Some e)"
    "\<exists>x. entry t' e = filled hash key color (fst e) (snd e) x" "t_stats t' = count_add (t_stats t)"
proof -
  from ft_add_ok [OF assms(1,2), of True hash trylock] assms(4) obtain P' where
    a: "added t P t' P' e hash key color" by auto
  let ?i = "chain_of t hash"
  have i: "chain_of t' hash = ?i" "?i < unat (t_size t)" using a chain_of_mask [of t' t hash] chain_of_less [of t] assms(1)
    by (auto simp: added_def table_ok_def)
  have t': "table_ok t' P'" and l: "e \<in> set (live t' (P' ?i))" and sz: "t_size t' = t_size t"
    using a by (auto simp: added_def Let_def)
  obtain x where x: "entry t' e = filled hash key color (fst e) (snd e) x" "length (e_key_data x) = FLOW_MAX_KEY_LEN"
    using a by (auto simp: added_def Let_def)
  have m: "ft_compare (entry t' e) hash key (ucast color) = 0"
    using filled_matches [OF assms(2) x(2), of hash "fst e" "snd e"] x(1) by simp
  have old: "ft_compare (entry t' e') hash key (ucast color) \<noteq> 0" if "e' \<in> set (live t' (P' ?i))" "e' \<noteq> e" for e'
  proof -
    have "e' \<in> set (live t (P ?i))" "entry t' e' = entry t e'" using a that i(2) by (auto simp: added_def Let_def)
    moreover have "\<forall>e' \<in> set (live t (P ?i)). ft_compare (entry t e') hash key (ucast color) \<noteq> 0"
      using assms(3) unfolding ft_lookup_def lookup_path [OF assms(1)] by (auto simp: find_None_iff)
    ultimately show ?thesis by simp
  qed
  have "find (\<lambda>e. ft_compare (entry t' e) hash key (ucast color) = 0) (live t' (P' ?i)) = Some e"
  proof (cases "find (\<lambda>e. ft_compare (entry t' e) hash key (ucast color) = 0) (live t' (P' ?i))")
    case None
    then have "ft_compare (entry t' e) hash key (ucast color) \<noteq> 0" using l by (metis (mono_tags, lifting) find_None_iff)
    with m show ?thesis by simp
  next
    case (Some e')
    with find_SomeD [OF this] old [of e'] show ?thesis by (cases "e' = e") simp_all
  qed
  then have "ft_lookup t' hash key color = Some (Some e)"
    unfolding ft_lookup_def lookup_path [OF t'] unfolding i(1) by simp
  moreover have "tracked t' P' e" using l i(2) sz by (auto simp: tracked_def)
  ultimately show ?thesis using that t' x(1) a by (auto simp: added_def)
qed

interpretation rxs: flow_store table_fine table_member table_find table_add upd_entry keeps_key
proof
  fix t :: flow_table and k :: flow_id and e t' f
  obtain hash key color where k: "k = (hash, key, color)" by (cases k)
  show "table_find t k \<noteq> None" if "table_fine t"
    using that lookup_path by (fastforce simp: table_fine_def table_find_def k ft_lookup_def)
  show "table_member t e" if ok: "table_fine t" and f: "table_find t k = Some (Some e)"
  proof -
    obtain P where P: "table_ok t P" using ok by (auto simp: table_fine_def)
    from f have "e \<in> set (live t (P (chain_of t hash)))"
      by (auto simp: table_find_def k ft_lookup_def lookup_path [OF P] dest: find_SomeD)
    with P chain_of_less [of t] show ?thesis by (auto simp: table_member_def tracked_def table_ok_def)
  qed
  show "table_fine t' \<and> table_member t' e \<and> table_find t' k = Some (Some e)"
    if ok: "table_fine t" and n: "table_find t k = Some None" and a: "table_add t k e t'"
  proof -
    obtain P trylock where P: "table_ok t P" "key_len color \<le> length key" "ft_add trylock True t hash key color = Some (Some e, t')"
      using ok a by (auto simp: table_fine_def table_add_def k)
    have "ft_lookup t hash key color = Some None" using n by (simp add: table_find_def k)
    from added_found [OF P(1,2) this P(3)] show ?thesis
      by (auto simp: table_fine_def table_member_def table_find_def k)
  qed
  show "table_fine (upd_entry t e f) \<and> (\<forall>e'. table_member (upd_entry t e f) e' = table_member t e')
      \<and> table_find (upd_entry t e f) k = table_find t k"
    if ok: "table_fine t" and m: "table_member t e" and f: "keeps_key f"
  proof -
    obtain P where P: "table_ok t P" "tracked t P e" using m by (auto simp: table_member_def)
    have ks: "keeps_slot f" using f by (simp add: keeps_key_def)
    note l = l_upd_keeps [of "undefined\<lparr>l_table := t\<rparr>" P e f, simplified, OF P ks]
    have u: "table_ok (upd_entry t e f) P" "tracked (upd_entry t e f) P = tracked t P" using l(1,2) by (simp_all add: l_upd_def)
    have "table_member (upd_entry t e f) e' = table_member t e'" for e'
      unfolding table_member_def using tracked_any [OF P(1)] tracked_any [OF u(1)] u P(1) by (metis (no_types))
    with u(1) lookup_upd [OF P f] show ?thesis by (auto simp: table_fine_def table_find_def k)
  qed
qed

section \<open>A new flow is learnt once\<close>










text \<open>A packet of 64 zero bytes that missed, with hash 9.\<close>

definition zero_packet :: dyn4 where
  "zero_packet = \<lparr>d_color1 = push_bit 32 9 OR FLOW_COLOR_MISS, d_descr_len = 0, d_offset0 = 14, d_offset1 = 34, d_timestamp = 1,
     d_native_unix = True, d_bytes = replicate 64 0\<rparr>"

lemma zero_packet_simps:
  "d_color zero_packet = FLOW_COLOR_MISS" "d_hash zero_packet = 9" "13 < length (d_l4 zero_packet)"
  "\<exists>key. fk_create (replicate FLOW_MAX_KEY_LEN 0) (d_l3 zero_packet) (d_l4 zero_packet) (ucast (d_color zero_packet)) = Some key"
proof -
  show c: "d_color zero_packet = FLOW_COLOR_MISS" "d_hash zero_packet = 9"
    by (simp_all add: d_color_def d_hash_def zero_packet_def flow_color_defs)
  show "13 < length (d_l4 zero_packet)" by (simp add: d_l4_def d_packet_def zero_packet_def)
  show "\<exists>key. fk_create (replicate FLOW_MAX_KEY_LEN 0) (d_l3 zero_packet) (d_l4 zero_packet) (ucast (d_color zero_packet)) = Some key"
    unfolding c by (simp add: fk_create_def memcpy_def d_l3_def d_l4_def d_packet_def zero_packet_def flow_len_defs flow_color_defs
      flagged_def Let_def)
qed

definition rx_learner :: "flow_table \<Rightarrow> learner" where
  "rx_learner t = \<lparr>l_table = t, l_queue = [], l_head = None, l_current = 0, l_offset = 0, l_op_count = 0, l_interval = 10,
    l_flags = 0, l_pid = 4711, l_addr = (\<lambda>_. 64), l_at = (\<lambda>_. None)\<rparr>"


text \<open>When the table cannot be extended, the receiving thread dereferences the null entry that
  \<open>ft_add\<close> returns: no packet of an unknown flow survives a failed allocation.\<close>

theorem rx_crashes_without_memory:
  assumes "fk_create (replicate FLOW_MAX_KEY_LEN 0) (d_l3 d) (d_l4 d) (ucast (d_color d)) = Some key"
    and "flagged (d_color d) (FLOW_COLOR_UNHANDLED OR FLOW_COLOR_MISS)"
    and "ft_lookup (l_table s) (d_hash d) key (ucast (d_color d)) = Some None"
    and "ft_add (x_trylock env) (x_calloc env) (l_table s) (d_hash d) key (ucast (d_color d)) = Some (None, t')"
  shows "rx_process env s stream_id d = None"
  using assms by (simp add: rx_process_def rx_entry_def)

theorem rx_crashes_without_memory_witness:
  "\<exists>t. rx_process \<lparr>x_trylock = (\<lambda>_. True), x_calloc = False, x_stopped = False\<rparr> (rx_learner t) 1 zero_packet = None"
proof -
  let ?e = "\<lparr>x_trylock = (\<lambda>_. True), x_calloc = False, x_stopped = False\<rparr>"
  obtain key where k: "fk_create (replicate FLOW_MAX_KEY_LEN 0) (d_l3 zero_packet) (d_l4 zero_packet) (ucast (d_color zero_packet)) = Some key"
    using zero_packet_simps(4) by blast
  let ?c = "ucast (d_color zero_packet)"
  obtain t P where t: "table_ok t P" "\<forall>q \<in> set (P (chain_of t 9)). \<not> has_room t (the (t_mem t q))" "\<And>key color. ft_lookup t 9 key color = Some None"
    using full_table by metis
  from enomem_faults [OF t(1,2)] obtain t' where "ft_add (\<lambda>_. True) False t 9 key ?c = Some (None, t')" by blast
  then have "rx_process ?e (rx_learner t) 1 zero_packet = None"
    using t(3) by (intro rx_crashes_without_memory [OF k, where t' = t'])
      (simp_all add: rx_learner_def zero_packet_simps(1,2), simp_all add: flow_color_defs flagged_def)
  then show ?thesis by blast
qed

end
