(* ===== verification/Info_Streams.thy ===== *)
theory Info_Streams
  imports Libc
begin

text \<open>
  \<open>ntnetflow/info.c\<close>: queries to the information stream of NTAPI.  \<open>NT_InfoRead\<close> is the parameter
  \<open>api\<close>: for a command and a number it returns the data of the record, or \<open>None\<close> for an error; what is
  in the union after an error is what was there before the call.  Some queries keep the record in a
  thread-local cache.
\<close>

datatype info_cmd =
  READ_UNKNOWN | READ_ADAPTER | READ_ADAPTER_V6 | READ_PORT | READ_SYSTEM | READ_STREAM | READ_PROPERTY string

record info_data =
  id_mac :: "u8 list"
  id_max_tx :: int
  id_min_tx :: int
  id_link_up :: bool
  id_adapter_no :: u8
  id_capture :: bool
  id_ts_type :: int
  id_num_ports :: int
  id_streams :: "nat list"
  id_prop :: int

definition zero_data :: info_data where
  "zero_data = \<lparr>id_mac = replicate 6 0, id_max_tx = 0, id_min_tx = 0, id_link_up = False, id_adapter_no = 0,
     id_capture = False, id_ts_type = 0, id_num_ports = 0, id_streams = [], id_prop = 0\<rparr>"

record nt_info =
  in_cmd :: info_cmd
  in_no :: u8
  in_data :: info_data

type_synonym info_api = "info_cmd \<Rightarrow> u8 \<Rightarrow> info_data option"

definition info_cached0 :: nt_info where
  "info_cached0 = \<lparr>in_cmd = READ_UNKNOWN, in_no = 0, in_data = zero_data\<rparr>"

definition info_clear_cache :: "nt_info \<Rightarrow> nt_info" where
  "info_clear_cache info = info\<lparr>in_cmd := READ_UNKNOWN\<rparr>"

text \<open>\<open>info_init\<close> and \<open>info_deinit\<close>: the status of the call, with every error mapped to \<open>- 1\<close>.\<close>

definition info_init :: "int \<Rightarrow> int" where "info_init status = (if status \<noteq> 0 then - 1 else status)"
definition info_deinit :: "int \<Rightarrow> int" where "info_deinit status = (if status \<noteq> 0 then - 1 else status)"

text \<open>\<open>info_read\<close>: success and the record afterwards.\<close>

definition info_read :: "info_api \<Rightarrow> nt_info \<Rightarrow> bool \<times> nt_info" where
  "info_read api info =
     (case api (in_cmd info) (in_no info) of
        None \<Rightarrow> (False, info)
      | Some d \<Rightarrow> (True, info\<lparr>in_data := d\<rparr>))"

definition fresh_info :: "info_cmd \<Rightarrow> u8 \<Rightarrow> nt_info" where
  "fresh_info cmd no = \<lparr>in_cmd = cmd, in_no = no, in_data = zero_data\<rparr>"

definition info_read_adapter :: "info_api \<Rightarrow> bool \<Rightarrow> nat \<Rightarrow> nt_info \<Rightarrow> bool \<times> nt_info" where
  "info_read_adapter api is_cached adapter info =
     (if is_cached \<and> in_cmd info = READ_ADAPTER \<and> in_no info = of_nat adapter then (True, info)
      else info_read api (fresh_info READ_ADAPTER_V6 (of_nat adapter)))"

definition info_read_port :: "info_api \<Rightarrow> bool \<Rightarrow> nat \<Rightarrow> nt_info \<Rightarrow> bool \<times> nt_info" where
  "info_read_port api is_cached port info =
     (if is_cached \<and> in_cmd info = READ_PORT \<and> in_no info = of_nat port then (True, info)
      else info_read api (fresh_info READ_PORT (of_nat port)))"

definition info_read_system :: "info_api \<Rightarrow> bool \<times> nt_info" where
  "info_read_system api = info_read api (fresh_info READ_SYSTEM 0)"

definition info_read_streams :: "info_api \<Rightarrow> bool \<times> nt_info" where
  "info_read_streams api = info_read api (fresh_info READ_STREAM 0)"

definition cached_query :: "(nt_info \<Rightarrow> bool \<times> nt_info) \<Rightarrow> (info_data \<Rightarrow> 'a) \<Rightarrow> nt_info \<Rightarrow> 'a option \<times> nt_info" where
  "cached_query rd get cached = (let (ok, cached) = rd cached in (if ok then Some (get (in_data cached)) else None, cached))"

definition info_port_mac_address :: "info_api \<Rightarrow> nat \<Rightarrow> nt_info \<Rightarrow> u8 list option \<times> nt_info" where
  "info_port_mac_address api port = cached_query (info_read_port api True port) id_mac"
definition info_port_max_tx_pkt_size :: "info_api \<Rightarrow> nat \<Rightarrow> nt_info \<Rightarrow> int option \<times> nt_info" where
  "info_port_max_tx_pkt_size api port = cached_query (info_read_port api True port) id_max_tx"
definition info_port_min_tx_pkt_size :: "info_api \<Rightarrow> nat \<Rightarrow> nt_info \<Rightarrow> int option \<times> nt_info" where
  "info_port_min_tx_pkt_size api port = cached_query (info_read_port api True port) id_min_tx"
definition info_port_adapter_no :: "info_api \<Rightarrow> nat \<Rightarrow> nt_info \<Rightarrow> u8 option \<times> nt_info" where
  "info_port_adapter_no api port = cached_query (info_read_port api True port) id_adapter_no"
definition info_adapter_profile_capture :: "info_api \<Rightarrow> nat \<Rightarrow> nt_info \<Rightarrow> bool option \<times> nt_info" where
  "info_adapter_profile_capture api adapter = cached_query (info_read_adapter api True adapter) id_capture"
definition info_adapter_timestamp_type :: "info_api \<Rightarrow> nat \<Rightarrow> nt_info \<Rightarrow> int option \<times> nt_info" where
  "info_adapter_timestamp_type api adapter = cached_query (info_read_adapter api True adapter) id_ts_type"
definition info_system_num_ports :: "info_api \<Rightarrow> nt_info \<Rightarrow> int option \<times> nt_info" where
  "info_system_num_ports api = cached_query (\<lambda>_. info_read_system api) id_num_ports"

text \<open>The link state uses a record of its own and is always read.\<close>

definition info_port_link_up :: "info_api \<Rightarrow> nat \<Rightarrow> nt_info \<Rightarrow> bool option \<times> nt_info" where
  "info_port_link_up api port = cached_query (info_read_port api False port) id_link_up"

section \<open>Properties of the adapter\<close>

definition ini_path :: "nat \<Rightarrow> string \<Rightarrow> string" where
  "ini_path adapter property = ''ini.Adapter'' @ show_dec adapter @ ''.'' @ property"

definition info_read_property :: "info_api \<Rightarrow> string \<Rightarrow> bool \<times> nt_info" where
  "info_read_property api path = info_read api (fresh_info (READ_PROPERTY path) 0)"

definition info_read_ini_adapter_property :: "info_api \<Rightarrow> nat \<Rightarrow> string \<Rightarrow> bool \<times> nt_info" where
  "info_read_ini_adapter_property api adapter property = info_read_property api (ini_path adapter property)"

definition info_adapter_tx_segment_size :: "info_api \<Rightarrow> nat \<Rightarrow> int" where
  "info_adapter_tx_segment_size api adapter =
     (let (ok, info) = info_read_ini_adapter_property api adapter ''HostBufferSegmentSizeTx''; v = id_prop (in_data info)
      in if \<not> ok then - 1 else if v = - 1 then 1024 * 1024 else v)"

definition info_adapter_rx_segment_size :: "info_api \<Rightarrow> nat \<Rightarrow> int" where
  "info_adapter_rx_segment_size api adapter =
     (let (ok, info) = info_read_ini_adapter_property api adapter ''HostBufferSegmentSizeRx''; v = id_prop (in_data info)
      in if \<not> ok then - 1 else if v = - 1 then 0 else v)"

definition flowstatus_settings :: "(string \<times> bool) list" where
  "flowstatus_settings =
     [(''FlowStatusLearnDone'', False), (''FlowStatusLearnFail'', False), (''FlowStatusLearnIgnore'', False),
      (''FlowStatusUnlearnDone'', False), (''FlowStatusUnlearnIgnore'', False),
      (''FlowStatusProbeDone'', True), (''FlowStatusProbeIgnore'', True)]"

text \<open>The loop over the settings; the flag marks those whose name contains \<open>Probe\<close>.  \<open>None\<close> is the
  return value \<open>- 1\<close>.\<close>

fun flowstatus_loop :: "info_api \<Rightarrow> nat \<Rightarrow> bool \<Rightarrow> (string \<times> bool) list \<Rightarrow> bool \<Rightarrow> bool option" where
  "flowstatus_loop api adapter probe [] enabled = Some enabled"
| "flowstatus_loop api adapter probe ((s, is_probe) # ss) enabled =
     (if \<not> probe \<and> is_probe then flowstatus_loop api adapter probe ss enabled
      else let (ok, info) = info_read_ini_adapter_property api adapter s
           in if \<not> ok then None else flowstatus_loop api adapter probe ss (enabled \<and> id_prop (in_data info) \<noteq> 0))"

definition info_adapter_flowstatus_enabled :: "info_api \<Rightarrow> nat \<Rightarrow> bool \<Rightarrow> bool option" where
  "info_adapter_flowstatus_enabled api adapter probe = flowstatus_loop api adapter probe flowstatus_settings True"

section \<open>Stream identifiers\<close>

definition info_streams_active :: "info_api \<Rightarrow> nat \<Rightarrow> nat list option" where
  "info_streams_active api lim =
     (let (ok, info) = info_read_streams api in if ok then Some (take lim (id_streams (in_data info))) else None)"

text \<open>The scan of the gaps between the sorted identifiers in use: \<open>out\<close> collects free identifiers up to
  \<open>lim\<close>, \<open>lst\<close> is the first one not looked at.\<close>

definition fill :: "nat \<Rightarrow> nat \<Rightarrow> nat \<Rightarrow> nat list \<Rightarrow> nat list" where
  "fill lim lst upper out = out @ take (lim - length out) [lst..<upper]"

fun unused_scan :: "nat \<Rightarrow> nat list \<Rightarrow> nat \<Rightarrow> nat list \<Rightarrow> nat list" where
  "unused_scan lim [] lst out = fill lim lst 256 out"
| "unused_scan lim (s # ss) lst out =
     (if length out < lim then unused_scan lim ss (s + 1) (fill lim lst s out) else fill lim lst 256 out)"

definition info_streams_unused :: "info_api \<Rightarrow> nat \<Rightarrow> nat list option" where
  "info_streams_unused api lim =
     (let (ok, info) = info_read_streams api; ids = id_streams (in_data info)
      in if ok then Some (unused_scan (min lim (256 - length ids)) (sort ids) 0 []) else None)"

lemma unused_scan_spec:
  assumes "sorted_wrt (<) ss" "\<forall>s \<in> set ss. lst \<le> s \<and> s < 256" "lst \<le> 256" "length out \<le> lim"
  shows "unused_scan lim ss lst out = out @ take (lim - length out) (filter (\<lambda>i. i \<notin> set ss) [lst..<256])"
  using assms
proof (induction ss arbitrary: lst out)
  case Nil
  then show ?case by (simp add: fill_def)
next
  case (Cons s ss)
  let ?f = "filter (\<lambda>i. i \<notin> set (s # ss))"
  have up: "[lst..<256] = [lst..<s] @ s # [Suc s..<256]"
    using Cons.prems(2) upt_add_eq_append [of lst s "256 - s"] upt_conv_Cons [of s 256] by simp
  have f1: "?f [lst..<s] = [lst..<s]" using Cons.prems(1) by (auto simp: filter_id_conv)
  have f2: "?f [Suc s..<256] = filter (\<lambda>i. i \<notin> set ss) [Suc s..<256]" by (auto intro: filter_cong)
  have f: "?f [lst..<256] = [lst..<s] @ filter (\<lambda>i. i \<notin> set ss) [Suc s..<256]"
    using f1 f2 by (simp only: up filter_append filter.simps) simp
  show ?case
  proof (cases "length out < lim")
    case True
    have "unused_scan lim ss (Suc s) (fill lim lst s out) =
        fill lim lst s out @ take (lim - length (fill lim lst s out)) (filter (\<lambda>i. i \<notin> set ss) [Suc s..<256])"
      by (rule Cons.IH) (use Cons.prems in \<open>auto simp: fill_def Suc_le_eq\<close>)
    with True show ?thesis unfolding f by (simp add: fill_def) (simp add: min_def)
  qed (use Cons.prems in \<open>simp add: fill_def\<close>)
qed

text \<open>C15: The stream identifiers handed out are the lowest ones of 0 to 255 that are not in use, as many as
  asked for or as there are.\<close>

theorem streams_unused_lowest:
  assumes "api READ_STREAM 0 = Some d" "distinct (id_streams d)" "\<forall>i \<in> set (id_streams d). i < 256"
  shows "info_streams_unused api n =
     Some (take (min n (256 - length (id_streams d))) (filter (\<lambda>i. i \<notin> set (id_streams d)) [0..<256]))"
proof -
  have "sorted_wrt (<) (sort (id_streams d))" using assms(2) by (simp add: strict_sorted_iff)
  from unused_scan_spec [OF this, of 0 "[]" "min n (256 - length (id_streams d))"] assms(1,3)
  show ?thesis by (simp add: info_streams_unused_def info_read_streams_def info_read_def fresh_info_def Let_def)
qed

lemma take_filter_prefix:
  assumes "m \<le> n" "k \<le> length (filter P [0..<m])"
  shows "take k (filter P [0..<n]) = take k (filter P [0..<m])"
proof -
  have "[0..<n] = [0..<m] @ [m..<n]" using assms(1) upt_add_eq_append [of 0 m "n - m"] by simp
  with assms(2) show ?thesis by (simp only: filter_append take_append) simp
qed

theorem streams_unused_lowest_witness:
  "info_streams_unused (\<lambda>_ _. Some (zero_data\<lparr>id_streams := [2, 0]\<rparr>)) 3 = Some [1, 3, 4]"
proof -
  let ?d = "zero_data\<lparr>id_streams := [2, 0]\<rparr>"
  have "info_streams_unused (\<lambda>_ _. Some ?d) 3 =
      Some (take (min 3 (256 - length (id_streams ?d))) (filter (\<lambda>i. i \<notin> set (id_streams ?d)) [0..<256]))"
    by (rule streams_unused_lowest) (rule refl, simp_all)
  moreover have "id_streams ?d = [2, 0]" by simp
  moreover have "take (min 3 (256 - length [2, 0 :: nat])) (filter (\<lambda>i. i \<notin> set [2, 0]) [0..<256]) = [1, 3, 4]"
  proof -
    have "filter (\<lambda>i. i \<notin> set [2, 0]) [0..<5] = [1, 3, 4 :: nat]" by (simp add: upt_conv_Cons)
    moreover have "min 3 (256 - length [2, 0 :: nat]) = 3" by simp
    ultimately show ?thesis
      using take_filter_prefix [of 5 256 3 "\<lambda>i. i \<notin> set [2, 0]"] by (simp only: list.size) simp
  qed
  ultimately show ?thesis by (simp only:)
qed

section \<open>The cache\<close>

text \<open>A failed query of a port is remembered as if it had succeeded: the query returns an error, but
  asking again for the same port returns success and an all-zero record without asking the driver,
  whatever it would answer.\<close>

theorem failed_port_read_is_cached:
  assumes "api READ_PORT (of_nat port) = None" "\<not> (in_cmd cached = READ_PORT \<and> in_no cached = of_nat port)"
  shows "\<exists>cached'. info_port_adapter_no api port cached = (None, cached')
     \<and> info_port_adapter_no api' port cached' = (Some 0, cached')"
  using assms
  by (auto simp: info_port_adapter_no_def cached_query_def info_read_port_def info_read_def fresh_info_def zero_data_def)

theorem failed_port_read_is_cached_witness:
  "\<exists>cached'. info_port_adapter_no (\<lambda>_ _. None) 3 info_cached0 = (None, cached')
     \<and> info_port_adapter_no (\<lambda>_ _. Some (zero_data\<lparr>id_adapter_no := 1\<rparr>)) 3 cached' = (Some 0, cached')"
  using failed_port_read_is_cached [of "\<lambda>_ _. None" 3 info_cached0 "\<lambda>_ _. Some (zero_data\<lparr>id_adapter_no := 1\<rparr>)"]
  by (simp add: info_cached0_def)

end
