(* ===== verification/Ntpl_Config.thy ===== *)
theory Ntpl_Config
  imports Flow_Key
begin

text \<open>
  \<open>ntnetflow/ntpl.c\<close>: the configuration commands sent to the adapter.  \<open>NT_NTPL\<close> is the parameter \<open>api\<close>:
  for a command it returns the identifier of what was created (0 for none) or \<open>None\<close> for an error.
  The command templates of the generated headers are parameters too.  \<open>None\<close> stands for a write behind
  the array of identifiers.
\<close>

section \<open>Putting the process identifier into the templates\<close>

definition hex05 :: "nat \<Rightarrow> string" where
  "hex05 n = pad_left CHR ''0'' 5 (show_hex n)"

text \<open>The buffer contains its terminating NUL and the zero bytes behind it; \<open>memcmp\<close> compares as many
  bytes as the replacement has with the literal and its NUL.\<close>

definition xpattern :: string where "xpattern = ''XXXXX'' @ [CHR 0x00]"

function ntpl_replace_xxxxx :: "nat \<Rightarrow> string \<Rightarrow> string \<Rightarrow> nat \<Rightarrow> string" where
  "ntpl_replace_xxxxx sz xxxxx buffer pos =
     (let nb = length xxxxx in
      if pos < sz - nb \<and> pos < length buffer \<and> buffer ! pos \<noteq> CHR 0x00 then
        (if buffer ! pos = CHR ''X'' \<and> take nb (drop pos buffer) = take nb xpattern
         then ntpl_replace_xxxxx sz xxxxx (take pos buffer @ xxxxx @ drop (pos + nb) buffer) (pos + 7)
         else ntpl_replace_xxxxx sz xxxxx buffer (pos + 1))
      else buffer)"
  by pat_completeness auto
termination
  by (relation "measure (\<lambda>(sz, xxxxx, buffer, pos). sz - pos)") auto

declare ntpl_replace_xxxxx.simps [simp del]

section \<open>Sending commands\<close>

definition MAX_NTPL :: nat where "MAX_NTPL = 1024"

record ntpl_state =
  np_ids :: "nat list"
  np_sent :: "string list"

definition ntpl :: "(string \<Rightarrow> nat option) \<Rightarrow> ntpl_state \<Rightarrow> string \<Rightarrow> (bool \<times> ntpl_state) option" where
  "ntpl api s str =
     (let s = s\<lparr>np_sent := np_sent s @ [str]\<rparr> in
      case api str of
        None \<Rightarrow> Some (False, s)
      | Some i \<Rightarrow> if i = 0 then Some (True, s)
                  else if length (np_ids s) < MAX_NTPL then Some (True, s\<lparr>np_ids := np_ids s @ [i]\<rparr>)
                  else None)"

text \<open>A sequence of commands, up to the first that fails.\<close>

fun ntpl_all :: "(string \<Rightarrow> nat option) \<Rightarrow> ntpl_state \<Rightarrow> string list \<Rightarrow> (bool \<times> ntpl_state) option" where
  "ntpl_all api s [] = Some (True, s)"
| "ntpl_all api s (c # cs) = do { (ok, s) \<leftarrow> ntpl api s c; if ok then ntpl_all api s cs else Some (False, s) }"

definition streamid_fields :: "nat list \<Rightarrow> string list" where
  "streamid_fields streams = map (\<lambda>i. (if i = 0 then [] else '','') @ show_dec (streams ! i)) [0..<length streams]"

definition ntpl_gen_streamids :: "nat \<Rightarrow> nat list \<Rightarrow> string \<times> nat" where
  "ntpl_gen_streamids sz streams = snprintf_seq sz 0 [] (streamid_fields streams)"

definition define_macro :: "nat \<Rightarrow> string \<Rightarrow> string \<Rightarrow> string" where
  "define_macro pid name value =
     ''DefineMacro('' @ [CHR 34] @ ''NTNF_'' @ hex05 pid @ ''_'' @ name @ [CHR 34] @ '', '' @ [CHR 34] @ value @ [CHR 34] @ '')''"

definition ntpl_colors :: "(string \<times> u32) list" where
  "ntpl_colors =
     [(''COLOR_UNHANDLED_UPSTREAM'', FLOW_COLOR_UNHANDLED),
      (''COLOR_UNHANDLED_DOWNSTREAM'', FLOW_COLOR_UNHANDLED OR FLOW_COLOR_DOWNSTREAM),
      (''COLOR_MISS_UPSTREAM'', FLOW_COLOR_MISS),
      (''COLOR_MISS_DOWNSTREAM'', FLOW_COLOR_DOWNSTREAM OR FLOW_COLOR_MISS),
      (''COLOR_IPV6'', FLOW_COLOR_IPV6),
      (''COLOR_TCP'', FLOW_COLOR_TCP),
      (''COLOR_MONITOR'', FLOW_COLOR_MONITOR),
      (''COLOR_OTHER'', FLOW_COLOR_OTHER)]"

definition ntpl_consts :: "(string \<times> nat) list" where
  "ntpl_consts =
     [(''KEYSET_ID_BYPASS'', FLOW_KEYSET_ID_BYPASS), (''KEYSET_ID_MONITOR'', FLOW_KEYSET_ID_MONITOR),
      (''KEY_ID_IPV4'', FLOW_KEY_ID_IPV4), (''KEY_ID_IPV6'', FLOW_KEY_ID_IPV6)]"

definition ntpl_common_macros :: "nat \<Rightarrow> string list" where
  "ntpl_common_macros pid =
     map (\<lambda>(n, v). define_macro pid n (''0x'' @ pad_left CHR ''0'' 2 (show_hex (unat v)))) ntpl_colors
     @ map (\<lambda>(n, v). define_macro pid n (show_dec v)) ntpl_consts"

text \<open>\<open>ntpl_init\<close>: the templates with the identifier put in.\<close>

definition ntpl_init :: "bool \<Rightarrow> nat \<Rightarrow> string list \<Rightarrow> string list \<Rightarrow> (string list \<times> string list) option" where
  "ntpl_init open_ok pid common_config config =
     (if open_ok
      then let f = (\<lambda>l. takeWhile (\<lambda>c. c \<noteq> CHR 0x00)
                     (ntpl_replace_xxxxx 512 (take 7 (hex05 pid)) (l @ replicate (512 - length l) CHR 0x00) 0))
           in Some (map f common_config, map f config)
      else None)"

definition ntpl_common_apply :: "(string \<Rightarrow> nat option) \<Rightarrow> ntpl_state \<Rightarrow> nat \<Rightarrow> string list \<Rightarrow> (bool \<times> ntpl_state) option" where
  "ntpl_common_apply api s pid common_config = ntpl_all api s (ntpl_common_macros pid @ common_config)"

text \<open>The macro with the stream identifiers is printed into a buffer of \<open>4 * count + 128\<close> bytes; the
  quote, the parenthesis and the NUL are put behind it by hand.\<close>

definition streams_size :: "nat list \<Rightarrow> nat" where "streams_size streams = length streams * 4 + 128"

definition streams_head :: "nat \<Rightarrow> string" where
  "streams_head pid = ''DefineMacro('' @ [CHR 34] @ ''NTNF_'' @ hex05 pid @ ''_STREAMIDS'' @ [CHR 34] @ '', '' @ [CHR 34]"

definition streams_macro :: "nat \<Rightarrow> nat list \<Rightarrow> string option" where
  "streams_macro pid streams =
     (let len = length (streams_head pid);
          (ids, len2) = ntpl_gen_streamids (streams_size streams - len) streams
      in if len + len2 + 3 \<le> streams_size streams then Some (streams_head pid @ take len2 ids @ [CHR 34] @ '')'') else None)"

definition ntpl_macros :: "nat \<Rightarrow> nat list \<Rightarrow> nat \<Rightarrow> nat \<Rightarrow> string list option" where
  "ntpl_macros pid streams upstream downstream = do {
     m \<leftarrow> streams_macro pid streams;
     Some [m, define_macro pid ''UPSTREAM_PORT'' (show_dec upstream), define_macro pid ''DOWNSTREAM_PORT'' (show_dec downstream)] }"

definition ntpl_apply :: "(string \<Rightarrow> nat option) \<Rightarrow> ntpl_state \<Rightarrow> nat \<Rightarrow> nat list \<Rightarrow> nat \<Rightarrow> nat \<Rightarrow> string list \<Rightarrow> (bool \<times> ntpl_state) option" where
  "ntpl_apply api s pid streams upstream downstream config = do {
     ms \<leftarrow> ntpl_macros pid streams upstream downstream;
     ntpl_all api s (ms @ config) }"

definition delete_command :: "nat \<Rightarrow> string" where "delete_command i = ''Delete='' @ show_dec i"

fun ntpl_delete :: "(string \<Rightarrow> nat option) \<Rightarrow> ntpl_state \<Rightarrow> nat list \<Rightarrow> ntpl_state option" where
  "ntpl_delete api s [] = Some s"
| "ntpl_delete api s (i # is) =
     (if i = 0 then Some s else do { (_, s) \<leftarrow> ntpl api s (delete_command i); ntpl_delete api s is })"

definition ntpl_deinit :: "(string \<Rightarrow> nat option) \<Rightarrow> ntpl_state \<Rightarrow> ntpl_state option" where
  "ntpl_deinit api s = ntpl_delete api s (rev (np_ids s))"

section \<open>The templates after replacement\<close>

lemma replace_stop:
  "\<not> pos < length buffer \<or> buffer ! pos = CHR 0x00 \<Longrightarrow> ntpl_replace_xxxxx sz x buffer pos = buffer"
  by (subst ntpl_replace_xxxxx.simps) (auto simp: Let_def)

text \<open>Text in which every \<open>X\<close> stands alone is passed over.\<close>

fun lone :: "string \<Rightarrow> bool" where
  "lone [] = True"
| "lone (c # u) = ((c = CHR ''X'' \<longrightarrow> u \<noteq> [] \<and> hd u \<noteq> CHR ''X'') \<and> c \<noteq> CHR 0x00 \<and> lone u)"

lemma replace_skip:
  assumes "lone u" "length done + length u + 5 \<le> sz" "length x = 5"
  shows "ntpl_replace_xxxxx sz x (done @ u @ rest) (length done) = ntpl_replace_xxxxx sz x (done @ u @ rest) (length done + length u)"
  using assms
proof (induction u arbitrary: "done")
  case (Cons c u)
  have "c = CHR ''X'' \<Longrightarrow> take 5 (c # u @ rest) \<noteq> take 5 xpattern"
    using Cons.prems(1) by (cases u) (auto simp: xpattern_def)
  then have "ntpl_replace_xxxxx sz x (done @ (c # u) @ rest) (length done) = ntpl_replace_xxxxx sz x (done @ (c # u) @ rest) (length done + 1)"
    using Cons.prems by (subst ntpl_replace_xxxxx.simps) (auto simp: Let_def nth_append)
  also have "\<dots> = ntpl_replace_xxxxx sz x ((done @ [c]) @ u @ rest) (length (done @ [c]))" by simp
  also have "\<dots> = ntpl_replace_xxxxx sz x ((done @ [c]) @ u @ rest) (length (done @ [c]) + length u)"
    by (rule Cons.IH) (use Cons.prems in auto)
  finally show ?case by simp
qed simp

lemma replace_match:
  assumes "length x = 5" "length done + 12 \<le> sz"
  shows "ntpl_replace_xxxxx sz x (done @ ''XXXXX'' @ rest) (length done) = ntpl_replace_xxxxx sz x (done @ x @ rest) (length done + 7)"
proof -
  have "length done < sz - 5" using assms(2) by simp
  then show ?thesis using assms(1) by (subst ntpl_replace_xxxxx.simps) (simp add: Let_def xpattern_def nth_append)
qed

definition templ :: "string \<Rightarrow> string list \<Rightarrow> string" where
  "templ p us = concat (map (\<lambda>u. p @ u) us)"

lemma replace_templ:
  assumes "length x = 5" "\<forall>u \<in> set us. 2 \<le> length u \<and> lone u"
    "length done + length (templ x us) + 5 \<le> sz"
  shows "ntpl_replace_xxxxx sz x (done @ templ ''XXXXX'' us @ replicate k CHR 0x00) (length done) = done @ templ x us @ replicate k CHR 0x00"
  using assms(2,3)
proof (induction us arbitrary: "done")
  case Nil
  then show ?case using replace_stop [of "length done"] by (cases k) (simp_all add: templ_def nth_append)
next
  case (Cons u us)
  obtain a b v where u: "u = a # b # v" using Cons.prems(1) by (cases u rule: list.exhaust; cases "tl u") auto
  let ?R = "replicate k CHR 0x00" and ?f = "ntpl_replace_xxxxx sz x"
  have len: "length (templ x us) + length u + 5 + length done + 5 \<le> sz" using Cons.prems(2) assms(1) by (simp add: templ_def)
  have "?f (done @ templ ''XXXXX'' (u # us) @ ?R) (length done) = ?f (done @ ''XXXXX'' @ (u @ templ ''XXXXX'' us @ ?R)) (length done)"
    by (simp add: templ_def)
  also have "\<dots> = ?f (done @ x @ (u @ templ ''XXXXX'' us @ ?R)) (length done + 7)"
    by (rule replace_match [OF assms(1)]) (use len u in simp)
  also have "\<dots> = ?f ((done @ x @ [a, b]) @ v @ (templ ''XXXXX'' us @ ?R)) (length (done @ x @ [a, b]))"
    by (simp add: u assms(1))
  also have "\<dots> = ?f ((done @ x @ [a, b]) @ v @ (templ ''XXXXX'' us @ ?R)) (length (done @ x @ [a, b]) + length v)"
    by (rule replace_skip) (use Cons.prems(1) len u assms(1) in auto)
  also have "\<dots> = ?f ((done @ x @ u) @ templ ''XXXXX'' us @ ?R) (length (done @ x @ u))" by (simp add: u add.assoc)
  also have "\<dots> = (done @ x @ u) @ templ x us @ ?R"
    by (rule Cons.IH) (use Cons.prems(1) len assms(1) in auto)
  finally show ?case by (simp add: templ_def)
qed

text \<open>C16: With a process identifier of five hexadecimal digits, a template that consists of text in which
  every \<open>X\<close> stands alone and of the pattern \<open>XXXXX\<close>, each followed by at least two characters, becomes the same text
  with the identifier in place of every pattern, provided it fits the buffer with five bytes to spare.\<close>

theorem template_replaced:
  assumes "length x = 5" "\<forall>u \<in> set us. 2 \<le> length u \<and> lone u"
    and "lone t" "length t + length (templ x us) + 5 \<le> sz"
  shows "ntpl_replace_xxxxx sz x (t @ templ ''XXXXX'' us @ replicate k CHR 0x00) 0 = t @ templ x us @ replicate k CHR 0x00"
  using replace_skip [of t "[]" sz x "templ ''XXXXX'' us @ replicate k CHR 0x00"] replace_templ [OF assms(1,2), of t sz k] assms(1,3,4)
  by simp

theorem template_replaced_witness:
  "ntpl_replace_xxxxx 512 ''00A3F'' (''Assign[KeySet=NTNF_'' @ ''XXXXX'' @ ''_KEY]'' @ replicate 1 CHR 0x00) 0
     = ''Assign[KeySet=NTNF_00A3F_KEY]'' @ replicate 1 CHR 0x00"
  using template_replaced [of "''00A3F''" "[''_KEY]'']" "''Assign[KeySet=NTNF_''" 512 1] by (simp add: templ_def)

text \<open>With a process identifier of six hexadecimal digits (from \<open>0x100000\<close> on) no pattern that is
  followed by anything is replaced: the template is sent as it is, while the macros it refers to are
  defined under the six-digit name.\<close>

theorem six_digit_pid_not_replaced:
  assumes "length x = 6" "CHR 0x00 \<notin> set t" "\<nexists>u. t = u @ ''XXXXX''"
  shows "ntpl_replace_xxxxx sz x (t @ replicate k CHR 0x00) pos = t @ replicate k CHR 0x00"
proof (induction "sz - pos" arbitrary: pos rule: less_induct)
  case less
  let ?b = "t @ replicate k CHR 0x00"
  show ?case
  proof (cases "pos < sz - length x \<and> pos < length ?b \<and> ?b ! pos \<noteq> CHR 0x00")
    case True
    have "take 6 (drop pos ?b) \<noteq> take 6 xpattern"
    proof
      assume e: "take 6 (drop pos ?b) = take 6 xpattern"
      have p: "pos < length t" using True by (auto simp: nth_append split: if_splits)
      then have d: "drop pos ?b = drop pos t @ replicate k CHR 0x00" by simp
      have "length (drop pos t) = 5"
      proof (rule ccontr)
        assume n: "length (drop pos t) \<noteq> 5"
        show False
        proof (cases "6 \<le> length (drop pos t)")
          case True
          with e d have "take 6 (drop pos t) = ''XXXXX'' @ [CHR 0x00]" by (simp add: xpattern_def)
          then have "CHR 0x00 \<in> set (drop pos t)" by (metis in_set_conv_decomp in_set_takeD)
          with assms(2) show False by (meson in_set_dropD)
        next
          case False
          then have l: "length (drop pos t) < 5" using n by simp
          have "take 6 (drop pos ?b) ! length (drop pos t) \<noteq> CHR ''X''"
          proof -
            have "length (drop pos t) < length (take 6 (drop pos ?b))" using e l by (simp add: xpattern_def)
            with d l show ?thesis by (auto simp: nth_append)
          qed
          moreover have "take 6 xpattern ! length (drop pos t) = CHR ''X''"
            using l by (auto simp: xpattern_def less_Suc_eq numeral_eq_Suc)
          ultimately show False using e by simp
        qed
      qed
      then have "take 5 (drop pos ?b) = drop pos t" using d by simp
      moreover have "take 5 (drop pos ?b) = ''XXXXX''"
        using arg_cong [OF e, of "take 5"] by (simp add: xpattern_def del: append_assoc drop_append take_append)
      ultimately have "t = take pos t @ ''XXXXX''" by (metis append_take_drop_id)
      with assms(3) show False by blast
    qed
    moreover have "sz - (pos + 1) < sz - pos" using True by linarith
    ultimately show ?thesis using True assms(1) less.hyps [of "pos + 1"]
      by (subst ntpl_replace_xxxxx.simps) (simp add: Let_def)
  next
    case False
    then show ?thesis by (subst ntpl_replace_xxxxx.simps) (auto simp: Let_def)
  qed
qed

theorem six_digit_pid_not_replaced_witness:
  "ntpl_replace_xxxxx 512 ''3FFFFF'' (''NTNF_XXXXX_KT4'' @ replicate 498 CHR 0x00) 0 = ''NTNF_XXXXX_KT4'' @ replicate 498 CHR 0x00"
proof (rule six_digit_pid_not_replaced)
  show "\<nexists>u. ''NTNF_XXXXX_KT4'' = u @ ''XXXXX''"
  proof
    assume "\<exists>u. ''NTNF_XXXXX_KT4'' = u @ ''XXXXX''"
    then obtain u where "rev ''NTNF_XXXXX_KT4'' = rev (u @ ''XXXXX'')" by metis
    then show False by simp
  qed
qed simp_all

section \<open>The macro with the streams\<close>

lemma sum_list_le: "\<forall>x \<in> set xs. x \<le> (c :: nat) \<Longrightarrow> sum_list xs \<le> c * length xs"
  by (induction xs) auto

text \<open>The buffer of \<open>4 * count + 128\<close> bytes always holds the macro with the stream identifiers: for
  identifiers below 256 nothing is cut off, and the quote, the parenthesis and the NUL fit behind it.\<close>

theorem streams_macro_fits:
  assumes "\<forall>i \<in> set streams. i < 256" "pid < 2 ^ 32"
  shows "streams_macro pid streams = Some (streams_head pid @ concat (streamid_fields streams) @ [CHR 34] @ '')'')"
proof -
  have h: "length (streams_head pid) \<le> 40"
    using length_show_base [of 16 pid 8] assms(2) by (simp add: streams_head_def hex05_def pad_left_def show_hex_def)
  have "length ((if i = 0 then [] else '','') @ show_dec (streams ! i)) \<le> 4" if "i < length streams" for i
  proof -
    have "streams ! i < 256" using assms(1) that nth_mem by blast
    with length_show_base [of 10 "streams ! i" 3] show ?thesis by (auto simp: show_dec_def)
  qed
  then have "\<forall>l \<in> set (map length (streamid_fields streams)). l \<le> 4" by (auto simp: streamid_fields_def)
  then have "sum_list (map length (streamid_fields streams)) \<le> 4 * length (map length (streamid_fields streams))"
    by (rule sum_list_le)
  then have c: "length (concat (streamid_fields streams)) \<le> 4 * length streams"
    by (simp add: length_concat streamid_fields_def)
  let ?sz = "streams_size streams - length (streams_head pid)"
  have sz: "0 < ?sz" "length (concat (streamid_fields streams)) < ?sz" "length (concat (streamid_fields streams)) \<le> ?sz - 1"
    using h c by (simp_all add: streams_size_def)
  have "fst (ntpl_gen_streamids ?sz streams) = concat (streamid_fields streams)"
    "snd (ntpl_gen_streamids ?sz streams) = length (concat (streamid_fields streams))"
    using snprintf_seq_buffer [OF sz(1), of 0 "[]"] snprintf_seq_total [OF sz(1), of 0 "[]" "streamid_fields streams"] sz(2,3)
    by (simp_all add: ntpl_gen_streamids_def)
  moreover have "length (streams_head pid) + length (concat (streamid_fields streams)) + 3 \<le> streams_size streams"
    using h c by (simp add: streams_size_def)
  ultimately show ?thesis by (simp add: streams_macro_def Let_def split_beta)
qed

theorem streams_macro_fits_witness:
  "streams_macro 0xA3F [7, 255] = Some (streams_head 0xA3F @ ''7,255'' @ [CHR 34] @ '')'')"
proof -
  have "concat (streamid_fields [7, 255]) = ''7,255''" by code_simp
  then show ?thesis using streams_macro_fits [of "[7, 255]" "0xA3F"] by simp
qed

section \<open>Taking the configuration back\<close>

definition created :: "(string \<Rightarrow> nat option) \<Rightarrow> string list \<Rightarrow> nat list" where
  "created api cs = concat (map (\<lambda>c. case api c of Some i \<Rightarrow> if i = 0 then [] else [i] | None \<Rightarrow> []) cs)"

lemma ntpl_step:
  "ntpl api s c = Some (ok, s') \<Longrightarrow> np_ids s = created api (np_sent s) \<Longrightarrow>
     np_ids s' = created api (np_sent s')"
  by (auto simp: ntpl_def created_def Let_def split: option.splits if_splits)

lemma ntpl_all_created:
  "ntpl_all api s cs = Some (ok, s') \<Longrightarrow> np_ids s = created api (np_sent s) \<Longrightarrow> np_ids s' = created api (np_sent s')"
  by (induction cs arbitrary: s) (auto split: Option.bind_splits if_splits dest: ntpl_step)

lemma ntpl_delete_sent:
  assumes "\<forall>i. api (delete_command i) = None \<or> api (delete_command i) = Some 0" "0 \<notin> set is"
  shows "\<exists>s'. ntpl_delete api s is = Some s' \<and> np_sent s' = np_sent s @ map delete_command is"
  using assms(2)
proof (induction "is" arbitrary: s)
  case (Cons i "is")
  have "\<exists>ok. ntpl api s (delete_command i) = Some (ok, s\<lparr>np_sent := np_sent s @ [delete_command i]\<rparr>)"
    using assms(1) [rule_format, of i] by (auto simp: ntpl_def Let_def)
  with Cons.IH [of "s\<lparr>np_sent := np_sent s @ [delete_command i]\<rparr>"] Cons.prems show ?case by auto
qed simp

text \<open>C17: Whether or not all commands were accepted, shutting down sends one delete command for everything
  that the accepted commands created, in reverse order of creation, and nothing else.\<close>

theorem ntpl_deinit_deletes_created:
  assumes "ntpl_all api \<lparr>np_ids = [], np_sent = []\<rparr> cs = Some (ok, s)"
    and "\<forall>i. api (delete_command i) = None \<or> api (delete_command i) = Some 0"
  shows "\<exists>s'. ntpl_deinit api s = Some s' \<and> np_sent s' = np_sent s @ map delete_command (rev (created api (np_sent s)))"
proof -
  have "np_ids s = created api (np_sent s)"
    using ntpl_all_created [OF assms(1)] by (simp add: created_def)
  moreover have "0 \<notin> set (created api (np_sent s))" by (auto simp: created_def split: option.splits)
  ultimately show ?thesis using ntpl_delete_sent [OF assms(2), of "rev (np_ids s)" s] by (simp add: ntpl_deinit_def)
qed

theorem ntpl_deinit_deletes_created_witness:
  "\<exists>s s'. ntpl_all (\<lambda>c. if take 6 c = ''Delete'' then Some 0 else if c = ''bad'' then None else Some (length c))
       \<lparr>np_ids = [], np_sent = []\<rparr> [''a'', ''bc'', ''bad'', ''d''] = Some (False, s)
     \<and> ntpl_deinit (\<lambda>c. if take 6 c = ''Delete'' then Some 0 else if c = ''bad'' then None else Some (length c)) s = Some s'
     \<and> np_sent s' = [''a'', ''bc'', ''bad'', delete_command 2, delete_command 1]"
proof -
  let ?api = "\<lambda>c. if take 6 c = ''Delete'' then Some 0 else if c = ''bad'' then None else Some (length c)"
  let ?s = "\<lparr>np_ids = [1, 2], np_sent = [''a'', ''bc'', ''bad'']\<rparr>"
  have a: "ntpl_all ?api \<lparr>np_ids = [], np_sent = []\<rparr> [''a'', ''bc'', ''bad'', ''d''] = Some (False, ?s)"
    by (simp add: ntpl_def MAX_NTPL_def)
  have "\<forall>i. ?api (delete_command i) = None \<or> ?api (delete_command i) = Some 0" by (simp add: delete_command_def)
  from ntpl_deinit_deletes_created [OF a this] a show ?thesis by (auto simp: created_def numeral_2_eq_2)
qed

end
