(* ===== verification/Argparse.thy ===== *)
theory Argparse
  imports Libc
begin

text \<open>
  The command line parser \<open>argparse.c\<close> in the two versions that the programs carry:
  \<open>ntnetflow/argparse.c\<close> (\<open>Netflow\<close>) and \<open>addrswap_replay/argparse.c\<close> (\<open>Addrswap\<close>), which differ in
  how a value is read and reported.  The variables that options point to are numbered; a variable
  is an \<open>int\<close>, a \<open>uint64_t\<close> or a string.  The parser either returns or ends the program with a status
  and a message; \<open>Undefined\<close> stands for a shift out of range.
\<close>

section \<open>Options\<close>

datatype argparse_version = Netflow | Addrswap

datatype argparse_option_type =
  ARGPARSE_OPT_BOOLEAN | ARGPARSE_OPT_BIT | ARGPARSE_OPT_BIT64
  | ARGPARSE_OPT_INTEGER | ARGPARSE_OPT_STRING | ARGPARSE_OPT_UINT64

record argparse_option =
  o_type :: argparse_option_type
  o_short :: "char option"
  o_long :: "string option"
  o_value :: "nat option"
  o_help :: string
  o_is_help :: bool
  o_data :: nat
  o_noneg :: bool
  o_internal :: bool
  o_name_value :: "string option"

record argvars =
  v_int :: "nat \<Rightarrow> u32"
  v_u64 :: "nat \<Rightarrow> u64"
  v_str :: "nat \<Rightarrow> string option"

definition set_int :: "nat \<Rightarrow> u32 \<Rightarrow> argvars \<Rightarrow> argvars" where
  "set_int i w v = v\<lparr>v_int := (v_int v)(i := w)\<rparr>"
definition set_u64 :: "nat \<Rightarrow> u64 \<Rightarrow> argvars \<Rightarrow> argvars" where
  "set_u64 i w v = v\<lparr>v_u64 := (v_u64 v)(i := w)\<rparr>"
definition set_str :: "nat \<Rightarrow> string \<Rightarrow> argvars \<Rightarrow> argvars" where
  "set_str i w v = v\<lparr>v_str := (v_str v)(i := Some w)\<rparr>"

record argparse =
  ap_options :: "argparse_option list"
  ap_usage :: "string list"
  ap_stop_at_non_option :: bool
  ap_args :: "string list"
  ap_out :: "string list"
  ap_optvalue :: "string option"
  ap_vars :: argvars

datatype arg_stop = Exit int string | Undefined

section \<open>Prefixes\<close>

definition prefix_skip :: "string \<Rightarrow> string \<Rightarrow> string option" where
  "prefix_skip str prefix = (if take (length prefix) str = prefix then Some (drop (length prefix) str) else None)"

fun prefix_cmp :: "string \<Rightarrow> string \<Rightarrow> int" where
  "prefix_cmp str [] = 0"
| "prefix_cmp [] (p # ps) = int (of_char p)"
| "prefix_cmp (c # str) (p # ps) = (if c \<noteq> p then int (of_char p) - int (of_char c) else prefix_cmp str ps)"

section \<open>The usage text\<close>

definition usage_width :: "argparse_option \<Rightarrow> nat" where
  "usage_width opt =
     (let len = (if o_short opt \<noteq> None then 2 else 0)
              + (if o_short opt \<noteq> None \<and> o_long opt \<noteq> None then 2 else 0)
              + (case o_long opt of Some l \<Rightarrow> length l + 2 | None \<Rightarrow> 0)
              + (case o_name_value opt of Some n \<Rightarrow> length n + 3
                 | None \<Rightarrow> (case o_type opt of ARGPARSE_OPT_INTEGER \<Rightarrow> length '' <int>''
                     | ARGPARSE_OPT_UINT64 \<Rightarrow> length '' <int64>'' | ARGPARSE_OPT_STRING \<Rightarrow> length '' <str>'' | _ \<Rightarrow> 0))
      in (len + 3) div 4 * 4)"

definition usage_head :: "argparse_option \<Rightarrow> string" where
  "usage_head opt =
     ''    '' @ (case o_short opt of Some c \<Rightarrow> [CHR ''-'', c] | None \<Rightarrow> [])
     @ (if o_short opt \<noteq> None \<and> o_long opt \<noteq> None then '', '' else [])
     @ (case o_long opt of Some l \<Rightarrow> ''--'' @ l | None \<Rightarrow> [])
     @ (case o_name_value opt of Some n \<Rightarrow> '' <'' @ n @ ''>''
        | None \<Rightarrow> (case o_type opt of ARGPARSE_OPT_INTEGER \<Rightarrow> '' <int>''
            | ARGPARSE_OPT_UINT64 \<Rightarrow> '' <int64>'' | ARGPARSE_OPT_STRING \<Rightarrow> '' <str>'' | _ \<Rightarrow> []))"

definition usage_option :: "nat \<Rightarrow> argparse_option \<Rightarrow> string" where
  "usage_option width opt =
     (if o_internal opt then []
      else let hd = usage_head opt;
               fill = (if length hd \<le> width then replicate (width - length hd) CHR '' ''
                       else CHR 10 # replicate width CHR '' '');
               help = concat (map (\<lambda>c. if c = CHR 10 then c # replicate (width + 2) CHR '' '' else [c]) (o_help opt))
           in hd @ fill @ '': '' @ help @ [CHR 10])"

definition argparse_usage :: "argparse \<Rightarrow> string" where
  "argparse_usage This =
     (let width = Max (insert 0 (set (map usage_width (ap_options This)))) + 4
      in hd (ap_usage This) @ [CHR 10]
         @ concat (map (usage_option width) (ap_options This))
         @ concat (map (\<lambda>l. l @ [CHR 10]) (takeWhile (\<lambda>l. l \<noteq> []) (tl (ap_usage This)))) @ [CHR 10])"

section \<open>Reading a value\<close>

definition option_name :: "bool \<Rightarrow> argparse_option \<Rightarrow> string" where
  "option_name long opt = (if long then (case o_long opt of Some l \<Rightarrow> l | None \<Rightarrow> ''(null)'')
     else (case o_short opt of Some c \<Rightarrow> [c] | None \<Rightarrow> []))"

text \<open>\<open>argparse_error\<close>.  The Netflow version looks at the argument that is current when the error is
  found, the Addrswap version is told how the option was written.\<close>

definition argparse_error :: "argparse_version \<Rightarrow> argparse \<Rightarrow> argparse_option \<Rightarrow> bool \<Rightarrow> string \<Rightarrow> arg_stop" where
  "argparse_error ver This opt long reason =
     (case ver of
        Netflow \<Rightarrow> Exit (- 1) (''error: option `'' @ option_name (take 2 (hd (ap_args This)) = ''--'') opt @ ''` '' @ reason)
      | Addrswap \<Rightarrow> Exit 2 (''>>> Error: option `'' @ option_name long opt @ ''` '' @ reason))"

text \<open>The text of the value: the rest of the argument, or else the next argument.\<close>

definition take_value :: "argparse \<Rightarrow> (string \<times> argparse) option" where
  "take_value This =
     (case ap_optvalue This of
        Some v \<Rightarrow> Some (v, This\<lparr>ap_optvalue := None\<rparr>)
      | None \<Rightarrow> (case ap_args This of
                  a # v # rest \<Rightarrow> Some (v, This\<lparr>ap_args := v # rest\<rparr>)
                | _ \<Rightarrow> None))"

definition set_var :: "(argvars \<Rightarrow> argvars) \<Rightarrow> argparse \<Rightarrow> argparse" where
  "set_var f This = This\<lparr>ap_vars := f (ap_vars This)\<rparr>"

text \<open>\<open>argparse_getvalue\<close> for an option with a variable, in the two versions; the callback comes
  afterwards.\<close>

definition get_boolean :: "argparse \<Rightarrow> nat \<Rightarrow> bool \<Rightarrow> argparse" where
  "get_boolean This i unset =
     (let x = v_int (ap_vars This) i; y = (if unset then x - 1 else x + 1)
      in set_var (set_int i (if y <s 0 then 0 else y)) This)"

definition getvalue_netflow :: "argparse \<Rightarrow> argparse_option \<Rightarrow> nat \<Rightarrow> bool \<Rightarrow> bool \<Rightarrow> arg_stop + argparse" where
  "getvalue_netflow This opt i unset long =
     (case o_type opt of
        ARGPARSE_OPT_BOOLEAN \<Rightarrow> Inr (get_boolean This i unset)
      | ARGPARSE_OPT_BIT \<Rightarrow>
          if 32 \<le> o_data opt then Inl Undefined
          else let m = push_bit (o_data opt) 1; x = v_int (ap_vars This) i
               in Inr (set_var (set_int i (if unset then x AND NOT m else x OR m)) This)
      | ARGPARSE_OPT_BIT64 \<Rightarrow>
          if 32 \<le> o_data opt then Inl Undefined
          else let m = push_bit (o_data opt) 1; x = v_u64 (ap_vars This) i
               in Inr (set_var (set_u64 i (if unset then x AND sext32_64 (NOT m) else x OR sext32_64 m)) This)
      | ARGPARSE_OPT_STRING \<Rightarrow>
          (case take_value This of
             Some (v, This) \<Rightarrow> Inr (set_var (set_str i v) This)
           | None \<Rightarrow> Inl (argparse_error Netflow This opt long ''requires a value''))
      | ARGPARSE_OPT_INTEGER \<Rightarrow>
          (case take_value This of
             Some (v, This) \<Rightarrow>
               let r = strtol 0 v; This = set_var (set_int i (word_of_int (st_value r))) This
               in if st_end r \<noteq> [] then Inl (argparse_error Netflow This opt long ''expects a numerical value'') else Inr This
           | None \<Rightarrow> Inl (argparse_error Netflow This opt long ''requires a value''))
      | ARGPARSE_OPT_UINT64 \<Rightarrow>
          (case take_value This of
             Some (v, This) \<Rightarrow>
               let r = strtoull 0 v; This = set_var (set_u64 i (word_of_int (st_value r))) This
               in if st_end r \<noteq> [] then Inl (argparse_error Netflow This opt long ''expects a numerical value'') else Inr This
           | None \<Rightarrow> Inl (argparse_error Netflow This opt long ''requires a value'')))"

definition getvalue_addrswap :: "argparse \<Rightarrow> argparse_option \<Rightarrow> nat \<Rightarrow> bool \<Rightarrow> bool \<Rightarrow> arg_stop + argparse" where
  "getvalue_addrswap This opt i unset long =
     (case o_type opt of
        ARGPARSE_OPT_BOOLEAN \<Rightarrow> Inr (get_boolean This i unset)
      | ARGPARSE_OPT_BIT \<Rightarrow>
          if ap_optvalue This \<noteq> None then Inl (argparse_error Addrswap This opt long ''value not allowed'')
          else if 32 \<le> o_data opt then Inl Undefined
          else let m = push_bit (o_data opt) 1; x = v_int (ap_vars This) i
               in Inr (set_var (set_int i (if unset then x AND NOT m else x OR m)) This)
      | ARGPARSE_OPT_BIT64 \<Rightarrow>
          if ap_optvalue This \<noteq> None then Inl (argparse_error Addrswap This opt long ''value not allowed'')
          else if 64 \<le> o_data opt then Inl Undefined
          else let m = push_bit (o_data opt) 1; x = v_u64 (ap_vars This) i
               in Inr (set_var (set_u64 i (if unset then x AND NOT m else x OR m)) This)
      | ARGPARSE_OPT_STRING \<Rightarrow>
          (case take_value This of
             Some (v, This) \<Rightarrow> Inr (set_var (set_str i v) This)
           | None \<Rightarrow> Inl (argparse_error Addrswap This opt long ''requires a value''))
      | ARGPARSE_OPT_INTEGER \<Rightarrow>
          (case take_value This of
             Some (v, This) \<Rightarrow>
               let r = strtol 0 v
               in if st_erange r \<or> 2147483647 < st_value r \<or> st_value r < - 2147483648
                  then Inl (argparse_error Addrswap This opt long ''value out of range [-2147483648..2147483647]'')
                  else if st_end r \<noteq> [] then Inl (argparse_error Addrswap This opt long ''expects a numerical value'')
                  else Inr (set_var (set_int i (word_of_int (st_value r))) This)
           | None \<Rightarrow> Inl (argparse_error Addrswap This opt long ''requires a value''))
      | ARGPARSE_OPT_UINT64 \<Rightarrow>
          (case take_value This of
             Some (v, This) \<Rightarrow>
               let r = strtoull 0 v; This = set_var (set_u64 i (word_of_int (st_value r))) This
               in if st_end r \<noteq> [] then Inl (argparse_error Addrswap This opt long ''expects a numerical value'')
                  else if st_erange r then Inl (argparse_error Addrswap This opt long ''is too large'')
                  else Inr This
           | None \<Rightarrow> Inl (argparse_error Addrswap This opt long ''requires a value'')))"

definition getvalue_var :: "argparse_version \<Rightarrow> argparse \<Rightarrow> argparse_option \<Rightarrow> nat \<Rightarrow> bool \<Rightarrow> bool \<Rightarrow> arg_stop + argparse" where
  "getvalue_var ver = (case ver of Netflow \<Rightarrow> getvalue_netflow | Addrswap \<Rightarrow> getvalue_addrswap)"

definition argparse_getvalue :: "argparse_version \<Rightarrow> argparse \<Rightarrow> argparse_option \<Rightarrow> bool \<Rightarrow> bool \<Rightarrow> arg_stop + argparse" where
  "argparse_getvalue ver This opt unset long =
     (case (case o_value opt of None \<Rightarrow> Inr This | Some i \<Rightarrow> getvalue_var ver This opt i unset long) of
        Inl e \<Rightarrow> Inl e
      | Inr This \<Rightarrow> if o_is_help opt then Inl (Exit 0 (argparse_usage This)) else Inr This)"

section \<open>Matching an option\<close>

text \<open>\<open>Inr None\<close> is the return value \<open>- 2\<close>: no option matches.\<close>

fun argparse_short_opt :: "argparse_version \<Rightarrow> argparse \<Rightarrow> char \<Rightarrow> string \<Rightarrow> argparse_option list \<Rightarrow> arg_stop + argparse option" where
  "argparse_short_opt ver This c cs [] = Inr None"
| "argparse_short_opt ver This c cs (opt # opts) =
     (if o_short opt = Some c
      then map_sum (\<lambda>x. x) Some
             (argparse_getvalue ver (This\<lparr>ap_optvalue := (if cs = [] then None else Some cs)\<rparr>) opt False False)
      else argparse_short_opt ver This c cs opts)"

definition negatable :: "argparse_option \<Rightarrow> bool" where
  "negatable opt \<longleftrightarrow> \<not> o_noneg opt
     \<and> (o_type opt = ARGPARSE_OPT_BOOLEAN \<or> o_type opt = ARGPARSE_OPT_BIT \<or> o_type opt = ARGPARSE_OPT_BIT64)"

text \<open>What follows the name of a long option in \<open>name\<close>, and whether it is negated.\<close>

definition long_rest :: "argparse_option \<Rightarrow> string \<Rightarrow> (string \<times> bool) option" where
  "long_rest opt name =
     (case o_long opt of
        None \<Rightarrow> None
      | Some l \<Rightarrow>
          (case prefix_skip name l of
             Some rest \<Rightarrow> Some (rest, False)
           | None \<Rightarrow> if negatable opt \<and> prefix_cmp name ''no-'' = 0
                     then map_option (\<lambda>rest. (rest, True)) (prefix_skip (drop 3 name) l) else None))"

fun argparse_long_opt :: "argparse_version \<Rightarrow> argparse \<Rightarrow> string \<Rightarrow> argparse_option list \<Rightarrow> arg_stop + argparse option" where
  "argparse_long_opt ver This name [] = Inr None"
| "argparse_long_opt ver This name (opt # opts) =
     (case long_rest opt name of
        None \<Rightarrow> argparse_long_opt ver This name opts
      | Some (rest, unset) \<Rightarrow>
          if rest \<noteq> [] \<and> hd rest \<noteq> CHR ''='' then argparse_long_opt ver This name opts
          else map_sum (\<lambda>x. x) Some
                 (argparse_getvalue ver (if rest = [] then This else This\<lparr>ap_optvalue := Some (tl rest)\<rparr>) opt unset True))"

section \<open>The parser\<close>

text \<open>\<open>take_value\<close> only consumes.\<close>

definition consumes :: "argparse \<Rightarrow> argparse \<Rightarrow> bool" where
  "consumes This This' \<longleftrightarrow> length (ap_args This') \<le> length (ap_args This) \<and> (ap_args This \<noteq> [] \<longrightarrow> ap_args This' \<noteq> [])
     \<and> (ap_optvalue This' = None \<or> ap_optvalue This' = ap_optvalue This)"

lemma take_value_consumes: "take_value This = Some (v, This') \<Longrightarrow> consumes This This'"
  by (auto simp: take_value_def consumes_def split: option.splits list.splits)

lemma consumes_set_var [simp]: "consumes This (set_var f This') = consumes This This'"
  by (simp add: consumes_def set_var_def)

lemma consumes_refl [simp]: "consumes This This" by (simp add: consumes_def)

lemma getvalue_consumes: "argparse_getvalue ver This opt unset long = Inr This' \<Longrightarrow> consumes This This'"
  by (auto simp: argparse_getvalue_def getvalue_var_def getvalue_netflow_def getvalue_addrswap_def get_boolean_def Let_def
      split: option.splits sum.splits if_splits argparse_version.splits argparse_option_type.splits dest!: take_value_consumes)

lemma short_opt_consumes:
  "argparse_short_opt ver This c cs opts = Inr (Some This') \<Longrightarrow>
     consumes (This\<lparr>ap_optvalue := (if cs = [] then None else Some cs)\<rparr>) This'"
  by (induction opts) (auto split: if_splits sum.splits simp: map_sum_def dest!: getvalue_consumes)

text \<open>The rest of a group of short options.\<close>

function short_group :: "argparse_version \<Rightarrow> argparse \<Rightarrow> arg_stop + argparse option" where
  "short_group ver This =
     (case ap_optvalue This of
        Some (c # cs) \<Rightarrow>
          (case argparse_short_opt ver This c cs (ap_options This) of
             Inr (Some This) \<Rightarrow> short_group ver This
           | r \<Rightarrow> r)
      | Some [] \<Rightarrow> Inr None
      | None \<Rightarrow> Inr (Some This))"
  by pat_completeness auto
termination
  by (relation "measure (\<lambda>(ver, This). case ap_optvalue This of None \<Rightarrow> 0 | Some v \<Rightarrow> length v)")
    (auto dest!: short_opt_consumes simp: consumes_def split: if_splits option.splits)

declare short_group.simps [simp del]

definition unknown_option :: "argparse_version \<Rightarrow> argparse \<Rightarrow> arg_stop" where
  "unknown_option ver This =
     Exit 1 ((case ver of Netflow \<Rightarrow> ''error: unknown option `'' | Addrswap \<Rightarrow> ''>>> Error: unknown option `'')
       @ hd (ap_args This) @ [CHR ''`'', CHR 10] @ argparse_usage This)"

text \<open>The option in the current argument.\<close>

definition parse_option :: "argparse_version \<Rightarrow> argparse \<Rightarrow> string \<Rightarrow> arg_stop + argparse" where
  "parse_option ver This arg =
     (case (if arg ! 1 \<noteq> CHR ''-'' then short_group ver (This\<lparr>ap_optvalue := Some (tl arg)\<rparr>)
            else argparse_long_opt ver This (drop 2 arg) (ap_options This)) of
        Inl e \<Rightarrow> Inl e
      | Inr None \<Rightarrow> Inl (unknown_option ver This)
      | Inr (Some This) \<Rightarrow> Inr This)"

definition next_arg :: "argparse \<Rightarrow> argparse" where
  "next_arg This = This\<lparr>ap_args := tl (ap_args This)\<rparr>"

definition is_option :: "string \<Rightarrow> bool" where
  "is_option arg \<longleftrightarrow> arg \<noteq> [] \<and> hd arg = CHR ''-'' \<and> tl arg \<noteq> []"

lemma long_opt_consumes:
  "argparse_long_opt ver This name opts = Inr (Some This') \<Longrightarrow>
     length (ap_args This') \<le> length (ap_args This) \<and> (ap_args This \<noteq> [] \<longrightarrow> ap_args This' \<noteq> [])"
  by (induction opts) (auto split: if_splits sum.splits option.splits simp: map_sum_def consumes_def dest!: getvalue_consumes)

lemma short_group_consumes:
  "short_group ver This = Inr (Some This') \<Longrightarrow>
     length (ap_args This') \<le> length (ap_args This) \<and> (ap_args This \<noteq> [] \<longrightarrow> ap_args This' \<noteq> [])"
proof (induction ver This rule: short_group.induct)
  case (1 ver This)
  show ?case
  proof (cases "ap_optvalue This")
    case None
    with 1(2) show ?thesis by (simp add: short_group.simps)
  next
    case (Some v)
    with 1(2) obtain c cs T where v: "v = c # cs" "argparse_short_opt ver This c cs (ap_options This) = Inr (Some T)"
      "short_group ver T = Inr (Some This')"
      by (subst (asm) short_group.simps) (auto split: list.splits sum.splits option.splits)
    from "1.IH" [OF Some v(1,2) refl v(3)] short_opt_consumes [OF v(2)]
    show ?thesis by (auto simp: consumes_def)
  qed
qed

lemma parse_option_consumes:
  "parse_option ver This arg = Inr This' \<Longrightarrow>
     length (ap_args This') \<le> length (ap_args This) \<and> (ap_args This \<noteq> [] \<longrightarrow> ap_args This' \<noteq> [])"
  by (auto simp: parse_option_def split: sum.splits option.splits if_splits dest: short_group_consumes long_opt_consumes)

function argparse_loop :: "argparse_version \<Rightarrow> argparse \<Rightarrow> arg_stop + argparse" where
  "argparse_loop ver This =
     (case ap_args This of
        [] \<Rightarrow> Inr This
      | arg # rest \<Rightarrow>
          if \<not> is_option arg then
            (if ap_stop_at_non_option This then Inr This
             else argparse_loop ver ((next_arg This)\<lparr>ap_out := ap_out This @ [arg]\<rparr>))
          else if arg = ''--'' then Inr (next_arg This)
          else (case parse_option ver This arg of
                  Inl e \<Rightarrow> Inl e
                | Inr This \<Rightarrow> argparse_loop ver (next_arg This)))"
  by pat_completeness auto
termination
  by (relation "measure (\<lambda>(ver, This). length (ap_args This))")
    (auto simp: next_arg_def dest!: parse_option_consumes intro!: Nat.diff_less_mono2 simp: diff_Suc_less neq_Nil_conv)

declare argparse_loop.simps [simp del]

definition argparse_init :: "argparse_option list \<Rightarrow> string list \<Rightarrow> bool \<Rightarrow> argvars \<Rightarrow> argparse" where
  "argparse_init options usage stop vars =
     \<lparr>ap_options = options, ap_usage = usage, ap_stop_at_non_option = stop, ap_args = [], ap_out = [],
      ap_optvalue = None, ap_vars = vars\<rparr>"

text \<open>\<open>argparse_parse\<close> on the arguments after the program name: the remaining arguments and the
  variables, or the end of the program.\<close>

definition argparse_parse :: "argparse_version \<Rightarrow> argparse \<Rightarrow> string list \<Rightarrow> arg_stop + string list \<times> argvars" where
  "argparse_parse ver This args =
     (case argparse_loop ver (This\<lparr>ap_args := args, ap_out := []\<rparr>) of
        Inl e \<Rightarrow> Inl e
      | Inr This \<Rightarrow> Inr (ap_out This @ ap_args This, ap_vars This))"

section \<open>Plain arguments\<close>

lemma loop_plain:
  assumes "\<forall>a \<in> set xs. \<not> is_option a" "\<not> ap_stop_at_non_option This"
  shows "argparse_loop ver (This\<lparr>ap_args := xs @ ys, ap_out := out\<rparr>)
     = argparse_loop ver (This\<lparr>ap_args := ys, ap_out := out @ xs\<rparr>)"
  using assms
proof (induction xs arbitrary: out)
  case (Cons x xs)
  from Cons.IH [of "out @ [x]"] Cons.prems show ?case
    by (subst argparse_loop.simps) (simp add: next_arg_def)
qed simp

text \<open>Arguments that are no options are returned in their order and leave every variable alone, and
  after \<open>--\<close> nothing is an option any more.\<close>

theorem parse_plain_arguments:
  assumes "\<forall>a \<in> set xs. \<not> is_option a" "\<not> ap_stop_at_non_option This"
  shows "argparse_parse ver This (xs @ ''--'' # ys) = Inr (xs @ ys, ap_vars This)
     \<and> argparse_parse ver This xs = Inr (xs, ap_vars This)"
proof -
  have "argparse_loop ver (This\<lparr>ap_args := [], ap_out := xs\<rparr>) = Inr (This\<lparr>ap_args := [], ap_out := xs\<rparr>)"
    "argparse_loop ver (This\<lparr>ap_args := ''--'' # ys, ap_out := xs\<rparr>) = Inr (This\<lparr>ap_args := ys, ap_out := xs\<rparr>)"
    by (subst argparse_loop.simps; simp add: is_option_def next_arg_def)+
  then show ?thesis
    using loop_plain [OF assms, where ver = ver and ys = "[]" and out = "[]"]
      loop_plain [OF assms, where ver = ver and ys = "''--'' # ys" and out = "[]"]
    by (simp add: argparse_parse_def)
qed

theorem parse_plain_arguments_witness:
  "argparse_parse Netflow (argparse_init [] [] False \<lparr>v_int = (\<lambda>_. 0), v_u64 = (\<lambda>_. 0), v_str = (\<lambda>_. None)\<rparr>)
     [''a'', ''-'', ''--'', ''-x''] = Inr ([''a'', ''-'', ''-x''], \<lparr>v_int = (\<lambda>_. 0), v_u64 = (\<lambda>_. 0), v_str = (\<lambda>_. None)\<rparr>)"
  using parse_plain_arguments [of "[''a'', ''-'']" "argparse_init [] [] False \<lparr>v_int = (\<lambda>_. 0), v_u64 = (\<lambda>_. 0), v_str = (\<lambda>_. None)\<rparr>" Netflow "[''-x'']"]
  by (simp add: is_option_def argparse_init_def)

section \<open>Spellings of an option with a value\<close>

definition valued :: "argparse_option \<Rightarrow> bool" where
  "valued opt \<longleftrightarrow> o_type opt \<in> {ARGPARSE_OPT_INTEGER, ARGPARSE_OPT_UINT64, ARGPARSE_OPT_STRING} \<and> \<not> o_is_help opt"

text \<open>The reference: what variable \<open>i\<close> is set to by the text \<open>v\<close>, or that the text is refused.\<close>

definition assign :: "argparse_version \<Rightarrow> argparse_option \<Rightarrow> nat \<Rightarrow> string \<Rightarrow> argvars \<Rightarrow> argvars option" where
  "assign ver opt i v vars =
     (case o_type opt of
        ARGPARSE_OPT_INTEGER \<Rightarrow>
          if st_end (strtol 0 v) \<noteq> [] \<or> ver = Addrswap \<and> (st_erange (strtol 0 v) \<or> st_value (strtol 0 v) \<notin> {- (2 ^ 31)..2 ^ 31 - 1})
          then None else Some (set_int i (word_of_int (st_value (strtol 0 v))) vars)
      | ARGPARSE_OPT_UINT64 \<Rightarrow>
          if st_end (strtoull 0 v) \<noteq> [] \<or> ver = Addrswap \<and> st_erange (strtoull 0 v)
          then None else Some (set_u64 i (word_of_int (st_value (strtoull 0 v))) vars)
      | _ \<Rightarrow> Some (set_str i v vars))"

definition refused :: "argparse_version \<Rightarrow> arg_stop + 'a \<Rightarrow> bool" where
  "refused ver r \<longleftrightarrow> (\<exists>msg. r = Inl (Exit (case ver of Netflow \<Rightarrow> - 1 | Addrswap \<Rightarrow> 2) msg))"

lemma refused_error [simp]: "refused ver (Inl (argparse_error ver This opt long reason))"
  by (cases ver) (simp_all add: refused_def argparse_error_def)

lemma getvalue_assign:
  assumes "valued opt" "o_value opt = Some i" "take_value This = Some (v, T)"
  shows "case assign ver opt i v (ap_vars T) of
      Some vars \<Rightarrow> argparse_getvalue ver This opt unset long = Inr (T\<lparr>ap_vars := vars\<rparr>)
    | None \<Rightarrow> refused ver (argparse_getvalue ver This opt unset long)"
  using assms
  by (cases ver; cases "o_type opt")
    (auto simp: valued_def argparse_getvalue_def getvalue_var_def getvalue_netflow_def getvalue_addrswap_def assign_def
      set_var_def Let_def)

definition spelled :: "string \<Rightarrow> char \<Rightarrow> string \<Rightarrow> string list set" where
  "spelled name c v = {[''--'' @ name @ CHR ''='' # v], [''--'' @ name, v], [CHR ''-'' # c # v], [[CHR ''-'', c], v]}"

text \<open>The first option with this name and this letter.\<close>

definition chosen :: "argparse_option list \<Rightarrow> argparse_option \<Rightarrow> string \<Rightarrow> char \<Rightarrow> bool" where
  "chosen opts opt name c \<longleftrightarrow> o_short opt = Some c \<and> o_long opt = Some name \<and> name \<noteq> [] \<and> c \<noteq> CHR ''-''
     \<and> CHR ''='' \<notin> set name \<and> take 3 name \<noteq> ''no-''
     \<and> (\<exists>pre post. opts = pre @ opt # post
          \<and> (\<forall>o' \<in> set pre. o_short o' \<noteq> Some c \<and> o_long o' \<noteq> Some name \<and> (\<forall>l. o_long o' = Some l \<longrightarrow> CHR ''='' \<notin> set l)))"

lemma of_char_pos: "c \<noteq> CHR 0x00 \<Longrightarrow> 0 < (of_char c :: nat)"
proof (rule ccontr)
  assume "c \<noteq> CHR 0x00" "\<not> 0 < (of_char c :: nat)"
  then have "char_of (of_char c :: nat) = char_of (0 :: nat)" by simp
  then have "c = char_of (0 :: nat)" by simp
  then have "c = CHR 0x00" by (simp add: char_of_def)
  with \<open>c \<noteq> CHR 0x00\<close> show False by simp
qed

lemma prefix_cmp_0: "CHR 0x00 \<notin> set p \<Longrightarrow> prefix_cmp s p = 0 \<longleftrightarrow> take (length p) s = p"
  by (induction s p rule: prefix_cmp.induct) (auto simp: of_char_pos)

lemma prefix_cmp_no: "prefix_cmp name ''no-'' = 0 \<longleftrightarrow> take 3 name = ''no-''"
  by (subst prefix_cmp_0) (simp_all add: numeral_3_eq_3)

lemma prefix_skip_SomeD: "prefix_skip s p = Some r \<Longrightarrow> s = p @ r"
  by (metis append_take_drop_id option.inject option.discI prefix_skip_def)

lemma take_name: "take 3 name \<noteq> ''no-'' \<Longrightarrow> CHR ''='' \<notin> set name \<Longrightarrow> take 3 (name @ CHR ''='' # v) \<noteq> ''no-''"
proof
  assume "take 3 name \<noteq> ''no-''" "CHR ''='' \<notin> set name" and t: "take 3 (name @ CHR ''='' # v) = ''no-''"
  then have "length name < 3" by (metis append_take_drop_id linorder_not_less take_append take_all_iff append_Nil2 diff_is_0_eq take0)
  then have "CHR ''='' \<in> set (take 3 (name @ CHR ''='' # v))"
    by (auto simp: take_Cons' split: if_splits)
  then show False unfolding t by simp
qed

lemma long_skip:
  assumes "take 3 name \<noteq> ''no-''" "CHR ''='' \<notin> set name" "o_long opt \<noteq> Some name" "\<forall>l. o_long opt = Some l \<longrightarrow> CHR ''='' \<notin> set l"
    and s: "s = [] \<or> s = CHR ''='' # v"
  shows "case long_rest opt (name @ s) of None \<Rightarrow> True | Some (rest, _) \<Rightarrow> rest \<noteq> [] \<and> hd rest \<noteq> CHR ''=''"
proof (cases "long_rest opt (name @ s)")
  case (Some p)
  have "prefix_cmp (name @ s) ''no-'' \<noteq> 0" using assms(1,2) s take_name [of name v] by (auto simp: prefix_cmp_no)
  with Some obtain l rest where l: "o_long opt = Some l" "prefix_skip (name @ s) l = Some rest" "p = (rest, False)"
    by (auto simp: long_rest_def split: option.splits if_splits)
  have e: "name @ s = l @ rest" by (rule prefix_skip_SomeD [OF l(2)])
  then obtain us where "name = l @ us \<and> us @ s = rest \<or> name @ us = l \<and> s = us @ rest" by (auto simp: append_eq_append_conv2)
  then show ?thesis
  proof
    assume "name = l @ us \<and> us @ s = rest"
    with l assms(2,3) show ?thesis using Some by (cases us) auto
  next
    assume a: "name @ us = l \<and> s = us @ rest"
    then have "us = []" using assms(4) l(1) s by (cases us) auto
    with a l(1) assms(3) show ?thesis by simp
  qed
qed simp

lemma long_opt_chosen:
  assumes "take 3 name \<noteq> ''no-''" "CHR ''='' \<notin> set name"
    and "\<forall>o' \<in> set pre. o_long o' \<noteq> Some name \<and> (\<forall>l. o_long o' = Some l \<longrightarrow> CHR ''='' \<notin> set l)"
    and "s = [] \<or> s = CHR ''='' # v" "o_long opt = Some name"
  shows "argparse_long_opt ver This (name @ s) (pre @ opt # post) = map_sum (\<lambda>x. x) Some
      (argparse_getvalue ver (if s = [] then This else This\<lparr>ap_optvalue := Some v\<rparr>) opt False True)"
  using assms(3)
proof (induction pre)
  case Nil
  then show ?case using assms(4,5) by (auto simp: long_rest_def prefix_skip_def)
next
  case (Cons o' pre)
  then have "case long_rest o' (name @ s) of None \<Rightarrow> True | Some (rest, _) \<Rightarrow> rest \<noteq> [] \<and> hd rest \<noteq> CHR ''=''"
    using long_skip [OF assms(1,2) _ _ assms(4)] by simp
  with Cons show ?case by (auto split: option.splits)
qed

lemma short_opt_chosen:
  assumes "\<forall>o' \<in> set pre. o_short o' \<noteq> Some c" "o_short opt = Some c"
  shows "argparse_short_opt ver This c cs (pre @ opt # post) = map_sum (\<lambda>x. x) Some
      (argparse_getvalue ver (This\<lparr>ap_optvalue := (if cs = [] then None else Some cs)\<rparr>) opt False False)"
  using assms by (induction pre) auto

text \<open>One step of the loop on a spelled option.\<close>

lemma spelled_step:
  assumes ch: "chosen (ap_options This) opt name c" and va: "valued opt" "o_value opt = Some i" and v: "v \<noteq> []"
    and n: "ap_optvalue This = None" and sp: "sp \<in> spelled name c v" and a: "ap_args This = sp @ rest"
  shows "case assign ver opt i v (ap_vars This) of
      Some vars \<Rightarrow> argparse_loop ver This = argparse_loop ver (This\<lparr>ap_args := rest, ap_vars := vars\<rparr>)
    | None \<Rightarrow> refused ver (argparse_loop ver This)"
proof -
  obtain pre post where o: "ap_options This = pre @ opt # post" "o_short opt = Some c" "o_long opt = Some name" "name \<noteq> []"
    "c \<noteq> CHR ''-''" "CHR ''='' \<notin> set name" "take 3 name \<noteq> ''no-''"
    "\<forall>o' \<in> set pre. o_short o' \<noteq> Some c \<and> o_long o' \<noteq> Some name \<and> (\<forall>l. o_long o' = Some l \<longrightarrow> CHR ''='' \<notin> set l)"
    using ch by (auto simp: chosen_def)
  define ok where "ok arg T \<longleftrightarrow> (case assign ver opt i v (ap_vars This) of
        Some vars \<Rightarrow> parse_option ver This arg = Inr (T\<lparr>ap_vars := vars\<rparr>)
      | None \<Rightarrow> refused ver (parse_option ver This arg))" for arg T
  have same: "This\<lparr>ap_optvalue := None\<rparr> = This" using n by (cases This) simp
  have long: "ok (''--'' @ name @ s) T"
    if "s = [] \<or> s = CHR ''='' # v" "take_value (if s = [] then This else This\<lparr>ap_optvalue := Some v\<rparr>) = Some (v, T)" "ap_vars T = ap_vars This" for s T
    using getvalue_assign [OF va that(2), of ver False True] that(1,3) o(1)
      long_opt_chosen [OF o(7,6) _ that(1) o(3), of pre ver This post] o(8)
    by (auto simp: ok_def parse_option_def refused_def split: option.splits)
  have short: "ok (CHR ''-'' # c # cs) T"
    if "take_value (This\<lparr>ap_optvalue := (if cs = [] then None else Some cs)\<rparr>) = Some (v, T)" "ap_vars T = ap_vars This" "ap_optvalue T = None" for cs T
    using getvalue_assign [OF va that(1), of ver False False] that(2,3) o(1,5,8) short_opt_chosen [of pre c opt ver "This\<lparr>ap_optvalue := Some (c # cs)\<rparr>" cs post] o(2)
    by (auto simp: ok_def parse_option_def refused_def short_group.simps split: option.splits)
  have "\<exists>arg tl' T. sp @ rest = arg # tl' \<and> is_option arg \<and> arg \<noteq> ''--'' \<and> next_arg T = This\<lparr>ap_args := rest\<rparr> \<and> ok arg T"
  proof -
    let ?T = "This\<lparr>ap_args := v # rest\<rparr>"
    have c1: "ok (''--'' @ name @ CHR ''='' # v) This" by (rule long) (simp_all add: take_value_def same)
    have c3: "ok (CHR ''-'' # c # v) This" by (rule short) (use v n in \<open>simp_all add: take_value_def same\<close>)
    have c2: "ok (''--'' @ name) ?T" if "sp = [''--'' @ name, v]"
      using long [of "[]" ?T] a n that by (simp add: take_value_def)
    have c4: "ok [CHR ''-'', c] ?T" if "sp = [[CHR ''-'', c], v]"
      using short [of "[]" ?T] a n that same by (simp add: take_value_def)
    have io: "is_option (''--'' @ x) = True" "is_option (CHR ''-'' # c # x) = True" for x by (simp_all add: is_option_def)
    have ta: "next_arg This = This\<lparr>ap_args := rest\<rparr>" if "sp = [x]" for x using a that by (simp add: next_arg_def)
    have tb: "next_arg ?T = This\<lparr>ap_args := rest\<rparr>" by (simp add: next_arg_def)
    from sp consider "sp = [''--'' @ name @ CHR ''='' # v]" | "sp = [''--'' @ name, v]" | "sp = [CHR ''-'' # c # v]" | "sp = [[CHR ''-'', c], v]"
      by (auto simp: spelled_def)
    then show ?thesis
    proof cases
      case 1 then show ?thesis using c1 io(1) [of "name @ CHR ''='' # v"] ta by (intro exI [of _ "''--'' @ name @ CHR ''='' # v"] exI [of _ rest] exI [of _ This]) simp
    next
      case 2 then show ?thesis using c2 io(1) [of name] tb o(4) by (intro exI [of _ "''--'' @ name"] exI [of _ "v # rest"] exI [of _ ?T]) simp
    next
      case 3 then show ?thesis using c3 io(2) [of v] ta o(5) by (intro exI [of _ "CHR ''-'' # c # v"] exI [of _ rest] exI [of _ This]) simp
    next
      case 4 then show ?thesis using c4 io(2) [of "[]"] tb o(5) by (intro exI [of _ "[CHR ''-'', c]"] exI [of _ "v # rest"] exI [of _ ?T]) simp
    qed
  qed
  then obtain arg tl' T where p: "ap_args This = arg # tl'" "is_option arg" "arg \<noteq> ''--''" "next_arg T = This\<lparr>ap_args := rest\<rparr>"
    "ok arg T" using a by metis
  have L: "argparse_loop ver This = (case parse_option ver This arg of Inl e \<Rightarrow> Inl e | Inr T \<Rightarrow> argparse_loop ver (next_arg T))"
    by (subst argparse_loop.simps) (simp add: p)
  have "next_arg (T\<lparr>ap_vars := vars\<rparr>) = (next_arg T)\<lparr>ap_vars := vars\<rparr>" for vars by (cases T) (simp add: next_arg_def)
  with p(4,5) show ?thesis unfolding L by (auto split: option.splits simp: ok_def refused_def)
qed

text \<open>C14: The four ways to write an option with a value (\<open>--name=v\<close>, \<open>--name v\<close>, \<open>-cv\<close>, \<open>-c v\<close>) do the
  same: the value is stored as the reference \<open>assign\<close> says and parsing goes on behind it, or the text
  is refused and the program ends with the version's status.\<close>

theorem option_spellings_agree:
  assumes "chosen (ap_options This) opt name c" "valued opt" "o_value opt = Some i" "v \<noteq> []"
    and "ap_optvalue This = None" "sp \<in> spelled name c v"
  shows "case assign ver opt i v (ap_vars This) of
      Some vars \<Rightarrow> argparse_parse ver This (sp @ rest) = argparse_parse ver (This\<lparr>ap_vars := vars\<rparr>) rest
    | None \<Rightarrow> refused ver (argparse_parse ver This (sp @ rest))"
proof -
  have r: "This\<lparr>ap_out := [], ap_args := b, ap_vars := vars\<rparr> = This\<lparr>ap_vars := vars, ap_args := b, ap_out := []\<rparr>"
    for b vars by (cases This) simp
  from spelled_step [of "This\<lparr>ap_args := sp @ rest, ap_out := []\<rparr>" opt name c i v sp rest ver] assms
  show ?thesis by (auto simp: argparse_parse_def r refused_def split: option.splits)
qed

definition no_vars :: argvars where
  "no_vars = \<lparr>v_int = (\<lambda>_. 0), v_u64 = (\<lambda>_. 0), v_str = (\<lambda>_. None)\<rparr>"

definition verbose_opt :: argparse_option where
  "verbose_opt = \<lparr>o_type = ARGPARSE_OPT_BOOLEAN, o_short = Some CHR ''v'', o_long = Some ''verbose'', o_value = Some 1,
     o_help = [], o_is_help = False, o_data = 0, o_noneg = False, o_internal = False, o_name_value = None\<rparr>"

definition poll_opt :: argparse_option where
  "poll_opt = \<lparr>o_type = ARGPARSE_OPT_INTEGER, o_short = Some CHR ''p'', o_long = Some ''poll'', o_value = Some 2,
     o_help = [], o_is_help = False, o_data = 0, o_noneg = False, o_internal = False, o_name_value = None\<rparr>"

theorem option_spellings_agree_witness:
  "argparse_parse Netflow (argparse_init [verbose_opt, poll_opt] [''usage''] False no_vars) [''-p'', ''0x10'', ''a'']
     = Inr ([''a''], set_int 2 16 no_vars)"
proof -
  let ?P = "argparse_init [verbose_opt, poll_opt] [''usage''] False no_vars"
  have c: "chosen (ap_options ?P) poll_opt ''poll'' CHR ''p''"
  proof -
    have "ap_options ?P = [verbose_opt] @ poll_opt # []" by (simp add: argparse_init_def)
    moreover have "\<forall>o' \<in> set [verbose_opt]. o_short o' \<noteq> Some CHR ''p'' \<and> o_long o' \<noteq> Some ''poll''
        \<and> (\<forall>l. o_long o' = Some l \<longrightarrow> CHR ''='' \<notin> set l)" by (simp add: verbose_opt_def)
    moreover have "o_short poll_opt = Some CHR ''p''" "o_long poll_opt = Some ''poll''" by (simp_all add: poll_opt_def)
    ultimately show ?thesis unfolding chosen_def by (intro conjI exI [of _ "[verbose_opt]"] exI [of _ "[]"]) simp_all
  qed
  have v: "valued poll_opt" "o_value poll_opt = Some 2" "ap_optvalue ?P = None" "[''-p'', ''0x10''] \<in> spelled ''poll'' CHR ''p'' ''0x10''"
    by (simp_all add: valued_def poll_opt_def argparse_init_def spelled_def)
  have "strtol 0 ''0x10'' = \<lparr>st_value = 16, st_end = [], st_erange = False\<rparr>" by code_simp
  then have a: "assign Netflow poll_opt 2 ''0x10'' no_vars = Some (set_int 2 16 no_vars)"
    by (simp add: assign_def poll_opt_def)
  have l: "argparse_parse Netflow (?P\<lparr>ap_vars := set_int 2 16 no_vars\<rparr>) [''a''] = Inr ([''a''], set_int 2 16 no_vars)"
    by (simp add: argparse_parse_def argparse_loop.simps is_option_def next_arg_def argparse_init_def)
  from option_spellings_agree [OF c v(1,2) _ v(3,4), of Netflow "[''a'']"] show ?thesis
    using a l by (simp add: argparse_init_def)
qed

section \<open>Where the parser departs from this\<close>

text \<open>A value attached to a boolean option is kept for later: \<open>--verbose=v\<close> switches the option on
  and leaves \<open>v\<close> pending, and the next long option with a value takes \<open>v\<close> instead of its own
  argument \<open>w\<close>, which is then returned as a plain argument.\<close>

theorem stale_value_is_used:
  assumes "valued opt" "o_value opt = Some i" "o_long opt = Some name" "take 3 name \<noteq> ''no-''" "CHR ''='' \<notin> set name" "name \<noteq> []"
    and "o_type flag = ARGPARSE_OPT_BOOLEAN" "o_long flag = Some fname" "take 3 fname \<noteq> ''no-''" "CHR ''='' \<notin> set fname" "fname \<noteq> name"
    and "o_value flag = Some j" "\<not> o_is_help flag" "ap_options This = [flag, opt]" "\<not> ap_stop_at_non_option This" "\<not> is_option w"
    and "assign ver opt i v (ap_vars (get_boolean This j False)) = Some vars"
  shows "argparse_parse ver This [''--'' @ fname @ CHR ''='' # v, ''--'' @ name, w] = Inr ([w], vars)"
proof -
  define T0 where "T0 = This\<lparr>ap_args := [''--'' @ fname @ CHR ''='' # v, ''--'' @ name, w], ap_out := []\<rparr>"
  define T1 where "T1 = get_boolean (T0\<lparr>ap_optvalue := Some v\<rparr>) j False"
  have o: "ap_options T0 = [] @ flag # [opt]" "ap_options (next_arg T1) = [flag] @ opt # []" using assms
    by (simp_all add: T0_def T1_def get_boolean_def set_var_def next_arg_def Let_def)
  have "argparse_long_opt ver T0 (fname @ CHR ''='' # v) (ap_options T0) = Inr (Some T1)"
    unfolding o by (subst long_opt_chosen [where v = v])
      (use assms in \<open>simp_all add: argparse_getvalue_def getvalue_var_def getvalue_netflow_def getvalue_addrswap_def T1_def
        split: argparse_version.splits\<close>)
  then have p0: "parse_option ver T0 (''--'' @ fname @ CHR ''='' # v) = Inr T1" by (simp add: parse_option_def)
  define T2 where "T2 = (next_arg T1)\<lparr>ap_optvalue := None\<rparr>"
  have tv: "take_value (next_arg T1) = Some (v, T2)" and vs: "ap_vars T2 = ap_vars (get_boolean This j False)"
    by (simp_all add: take_value_def T2_def T1_def T0_def get_boolean_def set_var_def next_arg_def Let_def)
  have "argparse_long_opt ver (next_arg T1) name (ap_options (next_arg T1)) = Inr (Some (T2\<lparr>ap_vars := vars\<rparr>))"
    using getvalue_assign [OF assms(1,2) tv, of ver False True] assms(17) vs
      long_opt_chosen [of name "[flag]" "[]" v opt ver "next_arg T1" "[]"] assms(3-6,8,10,11)
    unfolding o by simp
  then have p1: "parse_option ver (next_arg T1) (''--'' @ name) = Inr (T2\<lparr>ap_vars := vars\<rparr>)" by (simp add: parse_option_def)
  have io: "is_option (''--'' @ x) = True" for x by (simp add: is_option_def)
  have a: "ap_args T0 = [''--'' @ fname @ CHR ''='' # v, ''--'' @ name, w]" "ap_args (next_arg T1) = [''--'' @ name, w]"
    "ap_args (next_arg (T2\<lparr>ap_vars := vars\<rparr>)) = [w]" "ap_out (next_arg (T2\<lparr>ap_vars := vars\<rparr>)) = []"
    "\<not> ap_stop_at_non_option (next_arg (T2\<lparr>ap_vars := vars\<rparr>))"
    using assms(15) by (simp_all add: T2_def T1_def T0_def next_arg_def get_boolean_def set_var_def Let_def)
  have l2: "argparse_loop ver (next_arg (T2\<lparr>ap_vars := vars\<rparr>)) = Inr ((next_arg (next_arg (T2\<lparr>ap_vars := vars\<rparr>)))\<lparr>ap_out := [w]\<rparr>)"
    using a(3-5) assms(16) by (subst argparse_loop.simps) (simp add: argparse_loop.simps next_arg_def)
  have l1: "argparse_loop ver (next_arg T1) = argparse_loop ver (next_arg (T2\<lparr>ap_vars := vars\<rparr>))"
    using a(2) p1 io [of name] assms(6) by (subst argparse_loop.simps) (simp del: append.simps add: append_eq_conv_conj)
  have l0: "argparse_loop ver T0 = argparse_loop ver (next_arg T1)"
    using a(1) p0 io [of "fname @ CHR ''='' # v"] by (subst argparse_loop.simps) simp
  show ?thesis
    using l0 l1 l2 a(3) by (simp add: argparse_parse_def T0_def next_arg_def)
qed

theorem stale_value_is_used_witness:
  "argparse_parse Addrswap (argparse_init [verbose_opt, poll_opt] [''usage''] False no_vars) [''--verbose=3'', ''--poll'', ''60'']
     = Inr ([''60''], set_int 2 3 (set_int 1 1 no_vars))"
proof -
  let ?P = "argparse_init [verbose_opt, poll_opt] [''usage''] False no_vars"
  have "strtol 0 ''3'' = \<lparr>st_value = 3, st_end = [], st_erange = False\<rparr>" by code_simp
  then have a: "assign Addrswap poll_opt 2 ''3'' (ap_vars (get_boolean ?P 1 False)) = Some (set_int 2 3 (set_int 1 1 no_vars))"
    by (simp add: assign_def poll_opt_def get_boolean_def set_var_def argparse_init_def no_vars_def set_int_def word_sless_alt Let_def)
  from stale_value_is_used [OF _ _ _ _ _ _ _ _ _ _ _ _ _ _ _ _ a, of "''poll''" verbose_opt "''verbose''" "''60''"]
  show ?thesis by (simp add: valued_def poll_opt_def verbose_opt_def argparse_init_def is_option_def)
qed

section \<open>The copy of addrswap\_replay\<close>

text \<open>The functions of \<open>addrswap_replay/argparse.c\<close>, apart from reading values the same code.\<close>

definition addrswap_short_opt :: "argparse \<Rightarrow> char \<Rightarrow> string \<Rightarrow> argparse_option list \<Rightarrow> arg_stop + argparse option" where
  "addrswap_short_opt = argparse_short_opt Addrswap"

definition addrswap_long_opt :: "argparse \<Rightarrow> string \<Rightarrow> argparse_option list \<Rightarrow> arg_stop + argparse option" where
  "addrswap_long_opt = argparse_long_opt Addrswap"

definition addrswap_parse :: "argparse \<Rightarrow> string list \<Rightarrow> arg_stop + string list \<times> argvars" where
  "addrswap_parse = argparse_parse Addrswap"

definition addrswap_usage :: "argparse \<Rightarrow> string" where
  "addrswap_usage = argparse_usage"

end
