(* ===== verification/Ntnetflow_Main.thy ===== *)
theory Ntnetflow_Main
  imports Argparse
begin

text \<open>
  \<open>ntnetflow/ntnetflow.c\<close> with \<open>common.c\<close>, \<open>signal.c\<close> and \<open>flowstats.c\<close>: checking the options and
  bringing the components up and down.  The outcomes of the component functions and of the library
  calls are inputs.
\<close>

section \<open>Address size of the machine\<close>

text \<open>\<open>vmembits\<close> on the lines of \<open>/proc/cpuinfo\<close> (\<open>None\<close> if it cannot be opened): the number behind the
  last comma in front of \<open>bits virtual\<close>, in the first line with \<open>address sizes\<close> that has one.
  The parameter \<open>strtof\<close> is the value truncated to an integer, or \<open>None\<close> when \<open>errno\<close> is set.  Text that
  is no number gives 0: the code compares the end pointer with the comma and not with what is behind it,
  so that it does not notice.\<close>

fun comma_before :: "string \<Rightarrow> nat \<Rightarrow> nat option" where
  "comma_before line 0 = None"
| "comma_before line (Suc p) = (if line ! Suc p = CHR '','' then Some (Suc p) else comma_before line p)"

fun vmembits_lines :: "(string \<Rightarrow> int option) \<Rightarrow> string list \<Rightarrow> int" where
  "vmembits_lines strtof [] = - 1"
| "vmembits_lines strtof (line # lines) =
     (case find_sub ''address sizes'' line of
        None \<Rightarrow> vmembits_lines strtof lines
      | Some _ \<Rightarrow>
          (case Option.bind (find_sub ''bits virtual'' line) (comma_before line) of
             None \<Rightarrow> vmembits_lines strtof lines
           | Some p \<Rightarrow> (case strtof (drop (p + 1) line) of None \<Rightarrow> - 1 | Some v \<Rightarrow> v)))"

definition vmembits :: "(string \<Rightarrow> int option) \<Rightarrow> string list option \<Rightarrow> int" where
  "vmembits strtof cpuinfo = (case cpuinfo of None \<Rightarrow> - 1 | Some lines \<Rightarrow> vmembits_lines strtof lines)"

section \<open>Signals\<close>

record signal_state =
  sg_efd :: int
  sg_running :: bool
  sg_count :: nat

definition stop_app :: "signal_state \<Rightarrow> signal_state" where
  "stop_app s = s\<lparr>sg_running := False, sg_count := (if 0 \<le> sg_efd s then sg_count s + 1 else sg_count s)\<rparr>"

text \<open>\<open>sigaction\<close> results for the three signals and the descriptor \<open>eventfd\<close> returns.\<close>

definition signal_init :: "bool list \<Rightarrow> int \<Rightarrow> signal_state \<Rightarrow> int \<times> signal_state" where
  "signal_init actions efd s =
     (if sg_efd s \<noteq> - 1 then (- 1, s)
      else if False \<in> set (take 3 actions) then (- 1, s)
      else (efd, s\<lparr>sg_efd := efd\<rparr>))"

definition signal_shutdown :: "signal_state \<Rightarrow> signal_state" where "signal_shutdown = stop_app"

section \<open>Statistics of the flow matcher\<close>

datatype stat_read = Read_ok | Not_supported | Read_error

text \<open>\<open>fs_init\<close>: the highest supported record version, or \<open>- 1\<close>; the first component is the return value.\<close>

fun fs_detect :: "(nat \<Rightarrow> stat_read) \<Rightarrow> nat \<Rightarrow> int \<times> int" where
  "fs_detect rd 0 = (0, - 1)"
| "fs_detect rd (Suc v) =
     (case rd v of Read_ok \<Rightarrow> (0, int v) | Not_supported \<Rightarrow> fs_detect rd v | Read_error \<Rightarrow> (- 1, int v))"

definition fs_init :: "bool \<Rightarrow> (nat \<Rightarrow> stat_read) \<Rightarrow> int \<times> int" where
  "fs_init open_ok rd = (if open_ok then fs_detect rd 3 else (- 1, - 1))"

definition fs_probe_supported :: "int \<Rightarrow> bool" where "fs_probe_supported version \<longleftrightarrow> 2 \<le> version"

section \<open>The main function\<close>

record main_opts =
  op_stat :: bool
  op_csv :: bool
  op_emulate :: bool
  op_verbose :: bool
  op_upstream :: int
  op_downstream :: int
  op_power :: int
  op_stream_count :: int
  op_chain_size :: int
  op_bucket_size :: int

record main_env =
  me_mbits :: int
  me_nt_init :: int
  me_info_init :: bool
  me_num_ports :: int
  me_adapter_of :: "int \<Rightarrow> int"
  me_fs :: "int \<times> int"
  me_flowstatus :: int
  me_ts_type :: int
  me_native_unix :: int
  me_unix_nanotime :: int
  me_streams :: int
  me_signal :: bool
  me_stats :: bool
  me_ntpl_init :: bool
  me_ntpl_apply :: bool
  me_ft :: bool
  me_fl :: bool
  me_rx :: bool

text \<open>The statistics are started only when they are asked for but always stopped; an \<open>Up Stats\<close> stands
  for having passed that point.\<close>

datatype component = Ntapi | Info | Fs | Signal | Stats | Ntpl | Fl | Rx

datatype main_event = Up component | Down component

definition FT_POWER_LB :: int where "FT_POWER_LB = 4"
definition FT_POWER_UB :: int where "FT_POWER_UB = 47"

definition ports_ok :: "main_opts \<Rightarrow> int \<Rightarrow> bool" where
  "ports_ok opts n \<longleftrightarrow> 0 \<le> op_upstream opts \<and> op_upstream opts \<le> n - 1 \<and> 0 \<le> op_downstream opts \<and> op_downstream opts \<le> n - 1"

definition sizes_ok :: "main_opts \<Rightarrow> bool" where
  "sizes_ok opts \<longleftrightarrow> 1 \<le> op_stream_count opts \<and> op_stream_count opts \<le> 128 \<and> FT_POWER_LB \<le> op_power opts \<and> op_power opts \<le> FT_POWER_UB
     \<and> 1 \<le> op_chain_size opts \<and> op_chain_size opts \<le> 32
     \<and> 1 \<le> op_bucket_size opts \<and> op_bucket_size opts \<le> 32 \<and> op_bucket_size opts AND (op_bucket_size opts - 1) = 0"

text \<open>The targets of the \<open>goto\<close>s: what is taken down from each on.\<close>

definition out :: "main_event list" where "out = []"
definition done_l :: "main_event list" where "done_l = Down Ntapi # out"
definition deinit_info :: "main_event list" where "deinit_info = Down Info # done_l"
definition deinit_fs :: "main_event list" where "deinit_fs = Down Fs # deinit_info"
definition deinit_signal :: "main_event list" where "deinit_signal = Down Signal # deinit_fs"
definition deinit_stats :: "main_event list" where "deinit_stats = Down Stats # deinit_signal"
definition deinit_ntpl :: "main_event list" where "deinit_ntpl = Down Ntpl # deinit_stats"
definition deinit_ft :: "main_event list" where "deinit_ft = deinit_ntpl"
definition deinit_fl :: "main_event list" where "deinit_fl = Down Fl # deinit_ft"

text \<open>From the allocation of the streams on; \<open>status\<close> is the value the variable has there.\<close>

definition main_start :: "main_opts \<Rightarrow> main_env \<Rightarrow> int \<Rightarrow> int \<times> main_event list" where
  "main_start opts e status =
     (if me_streams e < 0 \<or> me_streams e < op_stream_count opts then (status, deinit_fs)
      else if \<not> me_signal e then (status, deinit_fs)
      else if (op_stat opts \<or> op_csv opts) \<and> \<not> me_stats e then (status, Up Signal # deinit_signal)
      else if \<not> me_ntpl_init e then (status, Up Signal # Up Stats # deinit_stats)
      else if \<not> me_ntpl_apply e \<or> \<not> me_ft e then (status, Up Signal # Up Stats # Up Ntpl # deinit_ntpl)
      else if \<not> me_fl e then (status, Up Signal # Up Stats # Up Ntpl # deinit_ft)
      else if \<not> me_rx e then (status, Up Signal # Up Stats # Up Ntpl # Up Fl # deinit_fl)
      else (0, Up Signal # Up Stats # Up Ntpl # Up Fl # Up Rx # Down Rx # deinit_fl))"

definition main_checks :: "main_opts \<Rightarrow> main_env \<Rightarrow> int \<times> main_event list" where
  "main_checks opts e =
     (let status = me_num_ports e in
      if status < 0 then (status, deinit_info)
      else if \<not> ports_ok opts status then (status, deinit_info)
      else if me_adapter_of e (op_upstream opts) \<noteq> me_adapter_of e (op_downstream opts) then (status, deinit_info)
      else if fst (me_fs e) < 0 then (status, deinit_info)
      else if snd (me_fs e) < 0 then (status, Up Fs # deinit_fs)
      else let status = me_flowstatus e in
      if status < 0 then (status, Up Fs # deinit_fs)
      else if status = 0 then (status, Up Fs # deinit_fs)
      else let status = me_ts_type e in
      if status < 0 then (status, Up Fs # deinit_fs)
      else if status \<noteq> me_native_unix e \<and> status \<noteq> me_unix_nanotime e then (status, Up Fs # deinit_fs)
      else if \<not> sizes_ok opts then (status, Up Fs # deinit_fs)
      else map_prod id (\<lambda>es. Up Fs # es) (main_start opts e status))"

definition main :: "main_opts \<Rightarrow> main_env \<Rightarrow> int \<times> main_event list" where
  "main opts e =
     (if me_mbits e \<noteq> 48 \<and> 0 \<le> me_mbits e then (1, [])
      else if op_stat opts \<and> op_csv opts then (1, out)
      else if me_nt_init e \<noteq> 0 then (me_nt_init e, out)
      else if \<not> me_info_init e then (0, Up Ntapi # done_l)
      else map_prod id (\<lambda>es. Up Ntapi # Up Info # es) (main_checks opts e))"

section \<open>The command line\<close>

definition opt_flag :: "char \<Rightarrow> string \<Rightarrow> nat \<Rightarrow> string \<Rightarrow> argparse_option" where
  "opt_flag c l i h = \<lparr>o_type = ARGPARSE_OPT_BOOLEAN, o_short = Some c, o_long = Some l, o_value = Some i,
     o_help = h, o_is_help = False, o_data = 0, o_noneg = False, o_internal = False, o_name_value = None\<rparr>"

definition opt_int :: "char \<Rightarrow> string \<Rightarrow> nat \<Rightarrow> string \<Rightarrow> string \<Rightarrow> argparse_option" where
  "opt_int c l i h n = \<lparr>o_type = ARGPARSE_OPT_INTEGER, o_short = Some c, o_long = Some l, o_value = Some i,
     o_help = h, o_is_help = False, o_data = 0, o_noneg = False, o_internal = False, o_name_value = Some n\<rparr>"

definition opt_help :: argparse_option where
  "opt_help = \<lparr>o_type = ARGPARSE_OPT_BOOLEAN, o_short = Some CHR ''h'', o_long = Some ''help'', o_value = None,
     o_help = ''show this help message and exit'', o_is_help = True, o_data = 0, o_noneg = False, o_internal = False,
     o_name_value = None\<rparr>"

definition arg_options :: "argparse_option list" where
  "arg_options =
     [opt_help,
      opt_flag CHR ''v'' ''verbose'' 0 ''Verbose output'',
      opt_flag CHR ''s'' ''stat'' 1 ''Print live statistics'',
      opt_flag CHR ''c'' ''csv'' 2 ''Print raw statistics in CSV'',
      opt_flag CHR ''e'' ''emulate-probing'' 3 ''Force probing emulation on adapters that have HW probing'',
      opt_int CHR ''u'' ''upstream-port'' 4 (''Upstream port number used for ntnetflow'' @ [CHR 10] @ ''default is port 0'') ''upstream port number'',
      opt_int CHR ''d'' ''downstream-port'' 5 (''Downstream port number used for ntnetflow'' @ [CHR 10] @ ''default is port 1'') ''downstream port number'',
      opt_int CHR ''n'' ''stream-count'' 6 ''Number of threads receiving from NT hostbuffers'' ''thread count'',
      opt_int CHR ''i'' ''interval'' 7 ''Statistics interval, default is 1000 ms'' ''milliseconds'',
      opt_int CHR ''p'' ''poll'' 8 ''Polling interval for netflow records, default is 10s'' ''seconds'',
      opt_int CHR ''x'' ''flowtable-power'' 9 ''Size of the software flow table in power-of-two, default is 10'' ''(1 << power)'',
      opt_int CHR ''a'' ''chain-size'' 10 ''Number of initial buckets per chain, default is 1'' ''chain size'',
      opt_int CHR ''b'' ''bucket-size'' 11 ''Number of entries per bucket, default is 4'' ''bucket size'']"

text \<open>The variables before parsing, and what main reads from them.\<close>

definition opt_defaults :: argvars where
  "opt_defaults = \<lparr>v_int = (\<lambda>i. if i = 5 then 1 else if i = 6 then 4 else if i = 7 then 1000 else if i = 8 then 10
       else if i = 9 then 10 else if i = 10 then 1 else if i = 11 then 4 else 0),
     v_u64 = (\<lambda>_. 0), v_str = (\<lambda>_. None)\<rparr>"

definition opts_of :: "argvars \<Rightarrow> main_opts" where
  "opts_of v = \<lparr>op_stat = v_int v 1 \<noteq> 0, op_csv = v_int v 2 \<noteq> 0, op_emulate = v_int v 3 \<noteq> 0, op_verbose = v_int v 0 \<noteq> 0,
     op_upstream = sint (v_int v 4), op_downstream = sint (v_int v 5), op_power = sint (v_int v 9),
     op_stream_count = sint (v_int v 6), op_chain_size = sint (v_int v 10), op_bucket_size = sint (v_int v 11)\<rparr>"

definition ntnetflow :: "string list \<Rightarrow> main_env \<Rightarrow> (int \<times> main_event list) option" where
  "ntnetflow args e =
     (if me_mbits e \<noteq> 48 \<and> 0 \<le> me_mbits e then Some (1, [])
      else case argparse_parse Netflow (argparse_init arg_options [[]] False opt_defaults) args of
        Inl Undefined \<Rightarrow> None
      | Inl (Exit code _) \<Rightarrow> Some (code, [])
      | Inr (_, vars) \<Rightarrow> Some (main (opts_of vars) e))"

section \<open>Unwinding\<close>

lemmas main_labels = out_def done_l_def deinit_info_def deinit_fs_def deinit_signal_def deinit_stats_def deinit_ntpl_def
  deinit_ft_def deinit_fl_def








text \<open>Main reports success although it did nothing when the information stream cannot be opened or the
  flow status records are disabled: the variable that is returned still holds an earlier result.\<close>

theorem main_reports_success_on_failure:
  assumes "me_mbits e = 48" "\<not> (op_stat opts \<and> op_csv opts)" "me_nt_init e = 0"
    and "\<not> me_info_init e \<or> me_num_ports e = 0 \<or>
      me_info_init e \<and> ports_ok opts (me_num_ports e) \<and> me_adapter_of e (op_upstream opts) = me_adapter_of e (op_downstream opts)
      \<and> me_fs e = (0, 2) \<and> me_flowstatus e = 0"
  shows "fst (main opts e) = 0 \<and> Up Fl \<notin> set (snd (main opts e))"
  using assms by (auto simp: main_def main_checks_def main_labels ports_ok_def)

theorem main_reports_success_on_failure_witness:
  "\<exists>opts e. me_flowstatus e = 0 \<and> fst (main opts e) = 0 \<and> Up Fl \<notin> set (snd (main opts e))"
proof -
  let ?o = "\<lparr>op_stat = False, op_csv = False, op_emulate = False, op_verbose = False, op_upstream = 0, op_downstream = 1,
    op_power = 10, op_stream_count = 4, op_chain_size = 1, op_bucket_size = 4\<rparr>"
  let ?e = "\<lparr>me_mbits = 48, me_nt_init = 0, me_info_init = True, me_num_ports = 2, me_adapter_of = (\<lambda>_. 0), me_fs = (0, 2),
    me_flowstatus = 0, me_ts_type = 3, me_native_unix = 1, me_unix_nanotime = 3, me_streams = 4, me_signal = True, me_stats = True,
    me_ntpl_init = True, me_ntpl_apply = True, me_ft = True, me_fl = True, me_rx = True\<rparr>"
  from main_reports_success_on_failure [of ?e ?o] show ?thesis
    by (intro exI [of _ ?o] exI [of _ ?e]) (simp add: ports_ok_def)
qed

end
