(* ===== verification/Ntnetflow_Run.thy ===== *)
theory Ntnetflow_Run
  imports Ntnetflow_Main Sw_Stats
begin

text \<open>
  The printing loop of \<open>ntnetflow/ntnetflow.c\<close>, in which the main thread spends the run, with the flag
  \<open>app_running\<close> of \<open>signal.c\<close> that ends it.  The \<open>k\<close>-th round is described by how many signals have been
  handled by the time its sleep is over, and by what the counters of \<open>stats.c\<close> hold then.
\<close>

section \<open>The loop\<close>

record print_round =
  pr_signals :: nat
  pr_stats :: stats
  pr_beyond :: u64

text \<open>The flag after some signals have been handled, each by \<open>stop_app\<close>.\<close>

definition running_after :: "signal_state \<Rightarrow> nat \<Rightarrow> bool" where
  "running_after s n = sg_running ((stop_app ^^ n) s)"

text \<open>\<open>opt_stat_interval * 1000\<close> as \<open>usleep\<close> takes it: the product is one of \<open>int\<close>, \<open>None\<close> where it
  overflows, and is converted to 32 unsigned bits.\<close>

definition sleep_time :: "32 word \<Rightarrow> u32 option" where
  "sleep_time interval =
     (let us = sint interval * 1000 in if - (2 ^ 31) \<le> us \<and> us < 2 ^ 31 then Some (word_of_int us) else None)"

definition print_line :: "(u64 \<Rightarrow> u64 \<Rightarrow> string) \<Rightarrow> main_opts \<Rightarrow> print_round \<Rightarrow> string" where
  "print_line fmt_rate opts r =
     (if op_stat opts then stats_fprintf fmt_rate (pr_stats r) (CHR 13)
      else if op_csv opts then stats_csv_fprintf (pr_beyond r) (pr_stats r) (CHR 10) else [])"

partial_function (option) print_loop ::
    "(u64 \<Rightarrow> u64 \<Rightarrow> string) \<Rightarrow> main_opts \<Rightarrow> signal_state \<Rightarrow> (nat \<Rightarrow> print_round) \<Rightarrow> nat \<Rightarrow> string \<Rightarrow> string option" where
  "print_loop fmt_rate opts s rounds k shown =
     (if \<not> running_after s (pr_signals (rounds k)) then Some shown
      else print_loop fmt_rate opts s rounds (Suc k) (shown @ print_line fmt_rate opts (rounds k)))"

text \<open>What is on the standard output when the loop is over; \<open>puts\<close> ends the live line.\<close>

definition print_run ::
    "(u64 \<Rightarrow> u64 \<Rightarrow> string) \<Rightarrow> main_opts \<Rightarrow> signal_state \<Rightarrow> (nat \<Rightarrow> print_round) \<Rightarrow> string option" where
  "print_run fmt_rate opts s rounds =
     map_option (\<lambda>shown. if op_stat opts then shown @ [CHR 10] else shown) (print_loop fmt_rate opts s rounds 0 [])"

section \<open>When it ends and what it prints\<close>

lemma running_after_iff: "running_after s n \<longleftrightarrow> n = 0 \<and> sg_running s"
  by (cases n) (simp_all add: running_after_def stop_app_def)

lemma print_loop_step:
  "running_after s (pr_signals (rounds k)) \<Longrightarrow>
     print_loop fmt opts s rounds k shown = print_loop fmt opts s rounds (Suc k) (shown @ print_line fmt opts (rounds k))"
  by (subst print_loop.simps) simp

lemma print_loop_stop:
  "\<not> running_after s (pr_signals (rounds k)) \<Longrightarrow> print_loop fmt opts s rounds k shown = Some shown"
  by (subst print_loop.simps) simp

lemma print_loop_prefix:
  assumes "\<And>i. i < n \<Longrightarrow> running_after s (pr_signals (rounds (k + i)))"
  shows "print_loop fmt opts s rounds k shown =
         print_loop fmt opts s rounds (k + n) (shown @ concat (map (\<lambda>i. print_line fmt opts (rounds (k + i))) [0..<n]))"
  using assms
proof (induction n)
  case (Suc n)
  then have "running_after s (pr_signals (rounds (k + n)))" by simp
  with Suc show ?case by (simp add: print_loop_step)
qed simp

text \<open>The loop is left in the first round that finds a signal, after exactly one line for each round before
  it, and nothing is printed in the round of the signal.\<close>

theorem print_loop_until_signal:
  assumes "sg_running s" "pr_signals (rounds n) \<noteq> 0" "\<And>i. i < n \<Longrightarrow> pr_signals (rounds i) = 0"
  shows "print_loop fmt opts s rounds 0 [] = Some (concat (map (\<lambda>i. print_line fmt opts (rounds i)) [0..<n]))"
  using assms print_loop_prefix [of n s rounds 0 fmt opts "[]"]
  by (simp add: running_after_iff print_loop_stop)

lemma print_loop_induct_ends:
  assumes "print_loop fmt opts s rounds k shown = Some t"
  shows "\<exists>n \<ge> k. \<not> running_after s (pr_signals (rounds n))"
proof (rule print_loop.raw_induct [of "\<lambda>_ _ s rounds k _ _. \<exists>n \<ge> k. \<not> running_after s (pr_signals (rounds n))", OF _ assms],
    goal_cases)
  case (1 f fmt opts s rounds k shown t)
  show ?case
  proof (cases "running_after s (pr_signals (rounds k))")
    case True
    with 1(2) have "f fmt opts s rounds (Suc k) (shown @ print_line fmt opts (rounds k)) = Some t" by simp
    from 1(1) [OF this] show ?thesis using Suc_leD by blast
  qed blast
qed

text \<open>The main thread leaves the loop exactly when some round finds that a signal has been handled.\<close>

theorem print_run_ends_iff:
  assumes "sg_running s"
  shows "print_run fmt opts s rounds \<noteq> None \<longleftrightarrow> (\<exists>n. pr_signals (rounds n) \<noteq> 0)"
proof
  assume "print_run fmt opts s rounds \<noteq> None"
  then obtain t where "print_loop fmt opts s rounds 0 [] = Some t" by (auto simp: print_run_def)
  from print_loop_induct_ends [OF this] assms show "\<exists>n. pr_signals (rounds n) \<noteq> 0"
    by (auto simp: running_after_iff)
next
  assume ex: "\<exists>n. pr_signals (rounds n) \<noteq> 0"
  let ?n = "LEAST n. pr_signals (rounds n) \<noteq> 0"
  from ex have "pr_signals (rounds ?n) \<noteq> 0" by (rule LeastI_ex)
  moreover have "\<And>i. i < ?n \<Longrightarrow> pr_signals (rounds i) = 0" using not_less_Least by blast
  ultimately have "print_loop fmt opts s rounds 0 [] = Some (concat (map (\<lambda>i. print_line fmt opts (rounds i)) [0..<?n]))"
    by (rule print_loop_until_signal [OF assms])
  then show "print_run fmt opts s rounds \<noteq> None" by (simp only: print_run_def) simp
qed

section \<open>The option that sets the interval\<close>

text \<open>The interval of the command line is not checked: from 2147484 milliseconds on, and from as far below
  zero, the product overflows; a negative interval that does not overflow sleeps for more than half an
  hour, and the interval 0 does not sleep at all.\<close>

lemma sleep_time_defined: "sleep_time v \<noteq> None \<longleftrightarrow> - 2147483 \<le> sint v \<and> sint v \<le> 2147483"
  by (auto simp: sleep_time_def Let_def)

lemma negative_mod_2p32: "- (4294967296) \<le> x \<Longrightarrow> x < 0 \<Longrightarrow> x mod 4294967296 = x + 4294967296" for x :: int
  using mod_pos_pos_trivial [of "x + 4294967296" "4294967296"] by simp

lemma sleep_time_negative:
  assumes "sint v < 0" "sleep_time v = Some t"
  shows "2147483648 \<le> uint t"
proof -
  from assms have range: "- 2147483648 \<le> sint v * 1000" and t: "t = word_of_int (sint v * 1000)"
    by (auto simp: sleep_time_def Let_def split: if_splits)
  have "uint t = (sint v * 1000) mod 4294967296" unfolding t by (subst uint_word_of_int) simp
  also have "\<dots> = sint v * 1000 + 4294967296" using range assms(1) by (intro negative_mod_2p32) linarith+
  finally show ?thesis using range by linarith
qed

lemma default_sleeps_a_second: "sleep_time (v_int opt_defaults 7) = Some 1000000"
  by (simp add: sleep_time_def opt_defaults_def Let_def)

section \<open>The whole of main\<close>

text \<open>\<open>main\<close> with the loop it runs between bringing the receivers up and taking them down: \<open>None\<close> when it
  never returns.\<close>

definition main_run ::
    "(u64 \<Rightarrow> u64 \<Rightarrow> string) \<Rightarrow> main_opts \<Rightarrow> main_env \<Rightarrow> signal_state \<Rightarrow> (nat \<Rightarrow> print_round) \<Rightarrow> (int \<times> main_event list \<times> string) option" where
  "main_run fmt_rate opts e s rounds =
     (let (status, events) = main opts e in
      if Up Rx \<in> set events then map_option (\<lambda>shown. (status, events, shown)) (print_run fmt_rate opts s rounds)
      else Some (status, events, []))"

text \<open>\<open>main\<close> returns unless everything came up and no signal ever arrives.\<close>

theorem main_returns_iff:
  assumes "sg_running s"
  shows "main_run fmt opts e s rounds \<noteq> None \<longleftrightarrow>
         Up Rx \<notin> set (snd (main opts e)) \<or> (\<exists>n. pr_signals (rounds n) \<noteq> 0)"
  using print_run_ends_iff [OF assms, of fmt opts rounds] by (simp add: main_run_def split: prod.split)

text \<open>A run that is signalled during its first sleep prints no line, not even of the counters up to then.\<close>

lemma signalled_in_first_sleep:
  assumes "sg_running s" "pr_signals (rounds 0) \<noteq> 0"
  shows "print_run fmt opts s rounds = Some (if op_stat opts then [CHR 10] else [])"
  using print_loop_stop [of s rounds 0 fmt opts "[]"] assms by (simp add: print_run_def running_after_iff)

end
