(* ===== verification/Addr_Map.thy ===== *)
theory Addr_Map
  imports Libc
begin

text \<open>
  The address map of addrswap_replay: the binary search tree of btree.c, and subst_parse.c,
  which fills it from the tokens of a YAML file and looks addresses up in it.

  The locale \<open>first_wins\<close> is the interface between the two: what the parser relies on is that an
  address that is already present keeps its first replacement.  It is interpreted on the tree of
  btree.c, whose ordering of the keys is an invariant of every insertion.  The scanner of libyaml
  is a parameter: the sequence of tokens that it delivers.
\<close>

section \<open>btree.c\<close>

text \<open>\<open>struct bin_tree\<close>; a null pointer is \<open>Null\<close>.  Keys and data are the bits of an \<open>int\<close>.\<close>

datatype bin_tree = Null | Node (node_left: bin_tree) (node_key: u32) (node_data: u32) (node_right: bin_tree)

text \<open>\<open>insert\<close>.  The argument \<open>mem\<close> says whether \<open>malloc\<close> succeeds: its result is used without a
  test, so a failure is the fault \<open>None\<close>.  A key that is present is left alone.\<close>

fun btree_insert :: "bool \<Rightarrow> bin_tree \<Rightarrow> u32 \<Rightarrow> u32 \<Rightarrow> bin_tree option" where
  "btree_insert mem Null key data = (if mem then Some (Node Null key data Null) else None)"
| "btree_insert mem (Node l k d r) key data =
     (if sint key < sint k then map_option (\<lambda>l'. Node l' k d r) (btree_insert mem l key data)
      else if sint key > sint k then map_option (\<lambda>r'. Node l k d r') (btree_insert mem r key data)
      else Some (Node l k d r))"

text \<open>\<open>search\<close> returns the node, \<open>Null\<close> when there is none.\<close>

fun btree_search :: "bin_tree \<Rightarrow> u32 \<Rightarrow> bin_tree" where
  "btree_search Null val = Null"
| "btree_search (Node l k d r) val =
     (if sint val < sint k then btree_search l val
      else if sint val > sint k then btree_search r val
      else if val = k then Node l k d r
      else Null)"

text \<open>The printers; \<open>%08x\<close> prints eight lower-case digits.\<close>

definition hex8 :: "u32 \<Rightarrow> string" where
  "hex8 w = map lower_hex (pad_left CHR ''0'' 8 (show_hex (unat w)))"

definition print_node :: "u32 \<Rightarrow> u32 \<Rightarrow> string" where
  "print_node key data = ''0x'' @ hex8 key @ '' --> 0x'' @ hex8 data @ [CHR 0x0A]"

fun print_preorder :: "bin_tree \<Rightarrow> string" where
  "print_preorder Null = ''''"
| "print_preorder (Node l k d r) = print_node k d @ print_preorder l @ print_preorder r"

fun print_inorder :: "bin_tree \<Rightarrow> string" where
  "print_inorder Null = ''''"
| "print_inorder (Node l k d r) = print_inorder l @ print_node k d @ print_inorder r"

fun print_postorder :: "bin_tree \<Rightarrow> string" where
  "print_postorder Null = ''''"
| "print_postorder (Node l k d r) = print_postorder l @ print_postorder r @ print_node k d"

text \<open>\<open>deltree\<close>: the keys of the nodes in the order in which they are freed.\<close>

fun deltree :: "bin_tree \<Rightarrow> u32 list" where
  "deltree Null = []"
| "deltree (Node l k d r) = deltree l @ deltree r @ [k]"

section \<open>subst_parse.c: printing and packing addresses\<close>

text \<open>The octets of an address; the lowest one is the first that is printed.\<close>

definition octet :: "u32 \<Rightarrow> nat \<Rightarrow> u32" where
  "octet address i = drop_bit (8 * i) address AND 0xff"

definition ip_string :: "u32 \<Rightarrow> string" where
  "ip_string a = show_dec (unat (octet a 0)) @ ''.'' @ show_dec (unat (octet a 1)) @ ''.''
     @ show_dec (unat (octet a 2)) @ ''.'' @ show_dec (unat (octet a 3))"

text \<open>\<open>PrintIP\<close> centres the address in sixteen columns.  The upper loop starts at
  \<open>strlen(temp) + pad / 2\<close>; C division rounds towards zero and the padding is positive.\<close>

definition PrintIP :: "u32 \<Rightarrow> string" where
  "PrintIP address =
     (let temp = fst (snprintf 32 (ip_string address));
          pad = 16 - length temp
      in replicate (pad div 2) CHR '' '' @ temp @ replicate (16 - (length temp + pad div 2)) CHR '' '')"

text \<open>\<open>PackIP\<close>.  \<open>strncpy\<close> copies at most 32 characters into the 33-byte buffer and does not
  terminate a longer string, so that the last byte of the buffer and what follows it, \<open>junk\<close>, are
  part of the text.  A missing dot is a null pointer that is written through: the fault \<open>None\<close>.\<close>

definition strncpy_view :: "string \<Rightarrow> nat \<Rightarrow> string \<Rightarrow> string" where
  "strncpy_view junk n s = (if length s < n then s else take n s @ junk)"

definition split_dot :: "string \<Rightarrow> (string \<times> string) option" where
  "split_dot s = (case dropWhile (\<lambda>c. c \<noteq> CHR ''.'') s of
      [] \<Rightarrow> None
    | _ # rest \<Rightarrow> Some (takeWhile (\<lambda>c. c \<noteq> CHR ''.'') s, rest))"

text \<open>\<open>(short) strtol(s, NULL, 10)\<close>, promoted to \<open>int\<close>.\<close>

definition short_of :: "string \<Rightarrow> u32" where
  "short_of s = word_of_int (signed_take_bit 15 (st_value (strtol 10 s)))"

definition PackIP :: "string \<Rightarrow> string \<Rightarrow> u32 option" where
  "PackIP junk address =
     (case split_dot (strncpy_view junk 32 address) of
        None \<Rightarrow> None
      | Some (b0, s1) \<Rightarrow>
          (case split_dot s1 of
             None \<Rightarrow> None
           | Some (b1, s2) \<Rightarrow>
               (case split_dot s2 of
                  None \<Rightarrow> None
                | Some (b2, b3) \<Rightarrow>
                    Some (short_of b0 + push_bit 8 (short_of b1) + push_bit 16 (short_of b2)
                          + push_bit 24 (short_of b3)))))"

section \<open>subst_parse.c: the map\<close>

text \<open>The token types that the parser distinguishes.  A scan that fails, and every scan after the
  end of the stream, leaves the zero token.\<close>

datatype yaml_token = YAML_NO_TOKEN | YAML_STREAM_START_TOKEN | YAML_STREAM_END_TOKEN
  | YAML_BLOCK_MAPPING_START_TOKEN | YAML_BLOCK_END_TOKEN | YAML_KEY_TOKEN | YAML_VALUE_TOKEN
  | YAML_SCALAR_TOKEN (scalar_value: string) | YAML_OTHER_TOKEN

definition report_new :: "u32 \<Rightarrow> u32 \<Rightarrow> string" where
  "report_new initial replace_with = ''Replace '' @ PrintIP initial @ '' with '' @ PrintIP replace_with @ [CHR 0x0A]"

definition report_duplicate :: "u32 \<Rightarrow> u32 \<Rightarrow> string" where
  "report_duplicate initial replace_with =
     ''--- WARNING: Duplicate Entry found for: '' @ PrintIP initial @ '' - ignoring '' @ PrintIP initial @ '': ''
       @ PrintIP replace_with @ [CHR 0x0A]"

text \<open>One entry: \<open>search\<close>, then \<open>insert\<close> or the warning.\<close>

definition load_entry :: "bool \<Rightarrow> bin_tree \<Rightarrow> u32 \<Rightarrow> u32 \<Rightarrow> (bin_tree \<times> string) option" where
  "load_entry mem root initial replace_with =
     (if btree_search root initial = Null
      then map_option (\<lambda>root'. (root', report_new initial replace_with)) (btree_insert mem root initial replace_with)
      else Some (root, report_duplicate initial replace_with))"

text \<open>The tokens after a key token: scalar, value token, scalar, in this order; anything else makes the
  function return.  \<open>None\<close> is a fault, \<open>Some None\<close> the return.\<close>

definition next_scalar :: "yaml_token list \<Rightarrow> (string \<times> yaml_token list) option" where
  "next_scalar ts = (case ts of YAML_SCALAR_TOKEN s # ts' \<Rightarrow> Some (s, ts') | _ \<Rightarrow> None)"

definition next_value :: "yaml_token list \<Rightarrow> yaml_token list option" where
  "next_value ts = (case ts of YAML_VALUE_TOKEN # ts' \<Rightarrow> Some ts' | _ \<Rightarrow> None)"

definition load_pair :: "string \<Rightarrow> yaml_token list \<Rightarrow> (u32 \<times> u32 \<times> yaml_token list) option option" where
  "load_pair junk ts =
     (case next_scalar ts of
        None \<Rightarrow> Some None
      | Some (a, ts1) \<Rightarrow>
          (case PackIP junk a of
             None \<Rightarrow> None
           | Some initial \<Rightarrow>
               (case next_value ts1 of
                  None \<Rightarrow> Some None
                | Some ts2 \<Rightarrow>
                    (case next_scalar ts2 of
                       None \<Rightarrow> Some None
                     | Some (b, ts3) \<Rightarrow>
                         map_option (\<lambda>replace_with. Some (initial, replace_with, ts3)) (PackIP junk b)))))"

lemma next_shorter [dest]:
  "next_scalar ts = Some (s, ts') \<Longrightarrow> length ts' < length ts" "next_value ts = Some ts' \<Longrightarrow> length ts' < length ts"
  by (auto simp: next_scalar_def next_value_def split: list.splits yaml_token.splits)

lemma load_pair_shorter: "load_pair junk ts = Some (Some (i, r, ts')) \<Longrightarrow> length ts' < length ts"
  by (auto simp: load_pair_def split: option.splits dest!: next_shorter)

text \<open>The loop of \<open>load_substitute_addr_map\<close>: return value, tree and output.  After a pair the last
  token is a scalar, so that the loop condition holds.\<close>

function load_loop :: "bool \<Rightarrow> string \<Rightarrow> yaml_token list \<Rightarrow> bin_tree \<Rightarrow> string \<Rightarrow> (nat \<times> bin_tree \<times> string) option" where
  "load_loop mem junk [] root out = Some (0, root, out)"
| "load_loop mem junk (token # ts) root out =
     (if token = YAML_NO_TOKEN then Some (0, root, out)
      else if token = YAML_STREAM_END_TOKEN then Some (1, root, out)
      else if token = YAML_KEY_TOKEN then
        (case load_pair junk ts of
           None \<Rightarrow> None
         | Some None \<Rightarrow> Some (0, root, out)
         | Some (Some (initial, replace_with, ts')) \<Rightarrow>
             (case load_entry mem root initial replace_with of
                None \<Rightarrow> None
              | Some (root', msg) \<Rightarrow> load_loop mem junk ts' root' (out @ msg)))
      else load_loop mem junk ts root out)"
  by pat_completeness auto
termination
  by (relation "measure (\<lambda>(mem, junk, ts, root, out). length ts)") (auto dest: load_pair_shorter)

definition load_substitute_addr_map :: "bool \<Rightarrow> string \<Rightarrow> yaml_token list \<Rightarrow> (nat \<times> bin_tree \<times> string) option" where
  "load_substitute_addr_map mem junk tokens = load_loop mem junk tokens Null ''''"

definition search_addr_map :: "bin_tree \<Rightarrow> u32 \<Rightarrow> u32" where
  "search_addr_map root val =
     (case btree_search root val of Null \<Rightarrow> - 1 | Node l k d r \<Rightarrow> d)"

definition delete_addr_map :: "bin_tree \<Rightarrow> u32 list" where
  "delete_addr_map root = deltree root"

section \<open>The ordering of the keys\<close>

fun keys :: "bin_tree \<Rightarrow> u32 set" where
  "keys Null = {}"
| "keys (Node l k d r) = keys l \<union> {k} \<union> keys r"

fun ordered :: "bin_tree \<Rightarrow> bool" where
  "ordered Null = True"
| "ordered (Node l k d r) =
     (ordered l \<and> ordered r \<and> (\<forall>x \<in> keys l. sint x < sint k) \<and> (\<forall>x \<in> keys r. sint k < sint x))"

definition lookup :: "bin_tree \<Rightarrow> u32 \<Rightarrow> u32 option" where
  "lookup t k = (case btree_search t k of Null \<Rightarrow> None | Node l k' d r \<Rightarrow> Some d)"

lemma lookup_Null [simp]: "lookup Null k = None"
  by (simp add: lookup_def)

lemma lookup_Node [simp]:
  "lookup (Node l k d r) x =
     (if sint x < sint k then lookup l x else if sint x > sint k then lookup r x else Some d)"
  by (simp add: lookup_def signed_word_eqI)

lemma keys_insert: "btree_insert mem t k v = Some t' \<Longrightarrow> keys t' = insert k (keys t)"
  by (induction mem t k v arbitrary: t' rule: btree_insert.induct)
     (auto split: if_splits intro: signed_word_eqI)

lemma mem_keys_insert: "x \<in> keys t' \<Longrightarrow> btree_insert mem t k v = Some t' \<Longrightarrow> x = k \<or> x \<in> keys t"
  by (simp add: keys_insert)

lemma ordered_insert: "btree_insert mem t k v = Some t' \<Longrightarrow> ordered t \<Longrightarrow> ordered t'"
proof (induction mem t k v arbitrary: t' rule: btree_insert.induct)
  case (2 mem l x d r key data)
  consider "sint key < sint x" | "sint x < sint key" | "sint key = sint x" by linarith
  then show ?case
  proof cases
    case 1
    with 2 obtain l' where "btree_insert mem l key data = Some l'" "t' = Node l' x d r" by auto
    with 1 2 show ?thesis by (auto dest: mem_keys_insert)
  next
    case 2
    with "2.prems" obtain r' where "btree_insert mem r key data = Some r'" "t' = Node l x d r'" by auto
    with 2 "2.prems" "2.IH"(2) show ?thesis by (auto dest: mem_keys_insert)
  next
    case 3
    with "2.prems" show ?thesis by auto
  qed
qed (auto split: if_splits)

lemma insert_total: "btree_insert True t k v \<noteq> None"
  by (induction t) auto

lemma lookup_insert:
  "btree_insert mem t k v = Some t' \<Longrightarrow> ordered t \<Longrightarrow>
     lookup t' x = (case lookup t x of None \<Rightarrow> if x = k then Some v else None | Some d \<Rightarrow> Some d)"
  by (induction mem t k v arbitrary: t' rule: btree_insert.induct)
     (auto split: if_splits option.splits simp: signed_word_eqI)

section \<open>A map in which the first entry wins\<close>

locale first_wins =
  fixes empty :: 't
    and add :: "'k \<Rightarrow> 'v \<Rightarrow> 't \<Rightarrow> 't"
    and find :: "'t \<Rightarrow> 'k \<Rightarrow> 'v option"
    and inv :: "'t \<Rightarrow> bool"
  assumes inv_empty: "inv empty"
    and inv_add: "inv t \<Longrightarrow> inv (add k v t)"
    and find_empty: "find empty x = None"
    and find_add: "inv t \<Longrightarrow> find (add k v t) x = (case find t x of None \<Rightarrow> if x = k then Some v else None | Some d \<Rightarrow> Some d)"
begin

lemma inv_fold: "inv t \<Longrightarrow> inv (fold (\<lambda>(k, v). add k v) ps t)"
  by (induction ps arbitrary: t) (auto intro: inv_add)

lemma find_fold: "inv t \<Longrightarrow> find (fold (\<lambda>(k, v). add k v) ps t) = map_of ps ++ find t"
proof (induction ps arbitrary: t)
  case (Cons p ps)
  obtain k v where p: "p = (k, v)" by fastforce
  have "find (add k v t) = [k \<mapsto> v] ++ find t"
    by (rule ext) (simp add: find_add Cons.prems map_add_def split: option.splits)
  with Cons.IH [of "add k v t"] Cons.prems show ?case
    by (auto simp: p inv_add map_add_def fun_eq_iff split: option.splits)
qed simp

lemma find_build: "find (fold (\<lambda>(k, v). add k v) ps empty) = map_of ps"
  using find_fold [OF inv_empty, of ps] by (simp add: find_empty map_add_def fun_eq_iff split: option.splits)

end

definition add_entry :: "u32 \<Rightarrow> u32 \<Rightarrow> bin_tree \<Rightarrow> bin_tree" where
  "add_entry k v t = the (btree_insert True t k v)"

lemma add_entry: "btree_insert True t k v = Some (add_entry k v t)"
  using insert_total [of t k v] by (auto simp: add_entry_def)

interpretation bt: first_wins Null add_entry lookup ordered
proof
  fix t k v x
  assume "ordered t"
  then show "ordered (add_entry k v t)" by (rule ordered_insert [OF add_entry])
  show "lookup (add_entry k v t) x = (case lookup t x of None \<Rightarrow> if x = k then Some v else None | Some d \<Rightarrow> Some d)"
    using add_entry \<open>ordered t\<close> by (rule lookup_insert)
qed simp_all

text \<open>The test that the parser makes before it inserts changes nothing of the tree.\<close>

lemma add_present: "btree_search t k \<noteq> Null \<Longrightarrow> add_entry k v t = t"
proof (induction t)
  case (Node l k' d r)
  then show ?case
    by (auto simp: add_entry_def signed_word_eqI split: if_splits option.splits)
       (metis add_entry option.sel option.simps(9) add_entry_def)+
qed simp

lemma load_entry_tree: "map_option fst (load_entry True t k v) = Some (add_entry k v t)"
  by (simp add: load_entry_def add_entry add_present)

section \<open>Printing and packing\<close>

lemma split_dot_append: "CHR ''.'' \<notin> set a \<Longrightarrow> split_dot (a @ CHR ''.'' # b) = Some (a, b)"
  by (induction a) (auto simp: split_dot_def split: list.splits)

lemma no_dot: "CHR ''.'' \<notin> set (show_dec n)"
  using digit_not_special(4) show_dec_digits by blast

lemma octet_small: "unat (octet a i) < 256"
proof -
  have "octet a i \<le> 0xff" unfolding octet_def by (rule word_and_le1)
  then show ?thesis by (simp add: word_le_nat_alt)
qed

lemma short_of_octet: "short_of (show_dec (unat (octet a i))) = octet a i"
proof -
  have "unat (octet a i) < 256" by (rule octet_small)
  then have "int (unat (octet a i)) < 256" "0 \<le> int (unat (octet a i))" by linarith+
  moreover have "signed_take_bit 15 x = x" if "x < 256" "0 \<le> x" for x :: int
    by (rule signed_take_bit_int_eq_self) (use that in simp_all)
  ultimately have "signed_take_bit 15 (int (unat (octet a i))) = int (unat (octet a i))" by blast
  moreover have "unat (octet a i) < 2 ^ 63" using \<open>unat (octet a i) < 256\<close> by simp
  ultimately show ?thesis by (simp only: short_of_def strtol_show_dec) simp
qed

lemma ip_string_length: "length (ip_string a) \<le> 15" "7 \<le> length (ip_string a)"
proof -
  have l: "length (show_dec (unat (octet a i))) \<le> 3" for i
    unfolding show_dec_def using octet_small [of a i] by (intro length_show_base) auto
  have u: "1 \<le> length (show_dec n)" for n
    by (simp add: show_dec_def show_base_nonempty Suc_leI)
  show "length (ip_string a) \<le> 15"
    using l [of 0] l [of 1] l [of 2] l [of 3] by (simp add: ip_string_def)
  show "7 \<le> length (ip_string a)"
    using u [of "unat (octet a 0)"] u [of "unat (octet a 1)"] u [of "unat (octet a 2)"] u [of "unat (octet a 3)"]
    by (simp add: ip_string_def)
qed

lemma PrintIP_columns: "length (PrintIP a) = 16"
  using ip_string_length [of a] by (simp add: PrintIP_def snprintf_fits Let_def)

lemma bit_octet:
  fixes a :: u32
  shows "bit (push_bit (8 * i) (octet a i)) n \<longleftrightarrow> 8 * i \<le> n \<and> n < 8 * i + 8 \<and> bit a n"
proof -
  have m: "(0xff :: u32) = mask 8" by (simp add: mask_eq_exp_minus_1)
  show ?thesis
    unfolding octet_def m by (auto simp: bit_simps dest: bit_imp_le_length)
qed

lemmas bit_octets = bit_octet [of 0, simplified] bit_octet [of 1, simplified]
  bit_octet [of 2, simplified] bit_octet [of 3, simplified]

lemma octets_join:
  "octet a 0 + push_bit 8 (octet a 1) + push_bit 16 (octet a 2) + push_bit 24 (octet a 3) = a"
proof -
  have d1: "octet a 0 AND push_bit 8 (octet a 1) = 0"
    by (rule bit_word_eqI) (auto simp: bit_octets bit_and_iff)
  have d2: "(octet a 0 OR push_bit 8 (octet a 1)) AND push_bit 16 (octet a 2) = 0"
    by (rule bit_word_eqI) (auto simp: bit_octets bit_and_iff bit_or_iff)
  have d3: "(octet a 0 OR push_bit 8 (octet a 1) OR push_bit 16 (octet a 2)) AND push_bit 24 (octet a 3) = 0"
    by (rule bit_word_eqI) (auto simp: bit_octets bit_and_iff bit_or_iff)
  have "octet a 0 OR push_bit 8 (octet a 1) OR push_bit 16 (octet a 2) OR push_bit 24 (octet a 3) = a"
    by (rule bit_word_eqI) (auto simp: bit_octets bit_or_iff)
  then show ?thesis
    by (simp only: disjunctive_add_eq_or [OF d1] disjunctive_add_eq_or [OF d2] disjunctive_add_eq_or [OF d3] or.assoc [symmetric])
       (simp only: disjunctive_add_eq_or [OF d3 [unfolded or.assoc [symmetric]]])
qed

lemma pack_string: "PackIP junk (ip_string a) = Some a"
proof -
  have "strncpy_view junk 32 (ip_string a) = ip_string a"
    using ip_string_length(1) [of a] by (simp add: strncpy_view_def)
  then show ?thesis
    using octets_join [of a] by (simp add: PackIP_def ip_string_def split_dot_append no_dot short_of_octet)
qed

section \<open>What the loader builds\<close>

lemma load_entry_total: "\<exists>msg. load_entry True t k v = Some (add_entry k v t, msg)"
  using load_entry_tree [of t k v] by auto

lemma load_entry_ordered: "load_entry mem t k v = Some (t', msg) \<Longrightarrow> ordered t \<Longrightarrow> ordered t'"
  by (auto simp: load_entry_def split: if_splits intro: ordered_insert)

lemma load_loop_ordered:
  "load_loop mem junk ts t out = Some (r, t', out') \<Longrightarrow> ordered t \<Longrightarrow> ordered t'"
proof (induction mem junk ts t out rule: load_loop.induct)
  case (2 mem junk token ts root out)
  note step = "2.prems"(1) [unfolded load_loop.simps]
  show ?case
  proof (cases "token = YAML_KEY_TOKEN")
    case True
    with step "2.prems"(2) show ?thesis
    proof (cases "load_pair junk ts")
      case (Some p)
      with True step "2.prems"(2) show ?thesis
      proof (cases p)
        case (Some q)
        obtain i w ts' where q: "q = (i, w, ts')" by (cases q)
        show ?thesis
        proof (cases "load_entry mem root i w")
          case None
          with step True Some q \<open>load_pair junk ts = Some p\<close> show ?thesis by simp
        next
          case e: (Some y)
          obtain root' msg where y: "y = (root', msg)" by (cases y)
          from step True Some q \<open>load_pair junk ts = Some p\<close> e y
          have "load_loop mem junk ts' root' (out @ msg) = Some (r, t', out')" by simp
          moreover have "ordered root'" using e y "2.prems"(2) by (auto dest: load_entry_ordered)
          ultimately show ?thesis
            using "2.IH"(1) True Some q \<open>load_pair junk ts = Some p\<close> e y by simp
        qed
      qed simp
    qed simp
  next
    case False
    with step "2.prems"(2) "2.IH"(2) show ?thesis by (auto split: if_splits)
  qed
qed simp

text \<open>The tokens of a file with one line for each entry.\<close>

definition entry_tokens :: "u32 \<times> u32 \<Rightarrow> yaml_token list" where
  "entry_tokens p = [YAML_KEY_TOKEN, YAML_SCALAR_TOKEN (ip_string (fst p)), YAML_VALUE_TOKEN,
                     YAML_SCALAR_TOKEN (ip_string (snd p))]"

definition file_tokens :: "(u32 \<times> u32) list \<Rightarrow> yaml_token list" where
  "file_tokens ps = [YAML_STREAM_START_TOKEN, YAML_BLOCK_MAPPING_START_TOKEN] @ concat (map entry_tokens ps)
                    @ [YAML_BLOCK_END_TOKEN, YAML_STREAM_END_TOKEN]"

lemma load_pair_entry:
  "load_pair junk (YAML_SCALAR_TOKEN (ip_string a) # YAML_VALUE_TOKEN # YAML_SCALAR_TOKEN (ip_string b) # ts)
     = Some (Some (a, b, ts))"
  by (simp add: load_pair_def next_scalar_def next_value_def pack_string)

lemma load_loop_entries:
  "\<exists>out'. load_loop True junk (concat (map entry_tokens ps) @ ts) t out
          = load_loop True junk ts (fold (\<lambda>(k, v). add_entry k v) ps t) out'"
proof (induction ps arbitrary: t out)
  case (Cons p ps)
  obtain msg where "load_entry True t (fst p) (snd p) = Some (add_entry (fst p) (snd p) t, msg)"
    using load_entry_total by blast
  then have "load_loop True junk (concat (map entry_tokens (p # ps)) @ ts) t out
      = load_loop True junk (concat (map entry_tokens ps) @ ts) (add_entry (fst p) (snd p) t) (out @ msg)"
    by (simp add: entry_tokens_def load_pair_entry)
  with Cons.IH show ?case by (simp add: case_prod_unfold)
qed auto

lemma load_file:
  "\<exists>out. load_substitute_addr_map True junk (file_tokens ps)
     = Some (1, fold (\<lambda>(k, v). add_entry k v) ps Null, out)"
  using load_loop_entries [of junk ps "[YAML_BLOCK_END_TOKEN, YAML_STREAM_END_TOKEN]" Null "''''"]
  by (auto simp: load_substitute_addr_map_def file_tokens_def)

lemma search_lookup: "search_addr_map t a = (case lookup t a of None \<Rightarrow> - 1 | Some d \<Rightarrow> d)"
  by (simp add: search_addr_map_def lookup_def split: bin_tree.splits)

text \<open>C19: Loading a substitution file that lists address pairs one per line succeeds, and afterwards a
  search answers with the replacement of the first line that names the address, and with -1 when
  no line names it.\<close>

theorem load_first_line_wins:
  "\<exists>t out. load_substitute_addr_map True junk (file_tokens ps) = Some (1, t, out)
     \<and> search_addr_map t = (\<lambda>a. case map_of ps a of None \<Rightarrow> - 1 | Some d \<Rightarrow> d)"
proof -
  have "search_addr_map (fold (\<lambda>(k, v). add_entry k v) ps Null)
      = (\<lambda>a. case map_of ps a of None \<Rightarrow> - 1 | Some d \<Rightarrow> d)"
    by (rule ext) (simp add: search_lookup bt.find_build)
  with load_file [of junk ps] show ?thesis by blast
qed

text \<open>Whatever tokens the scanner delivers and whether the loader runs to the end of the file or
  returns early, the tree it leaves is ordered by the signed value of its keys.\<close>

theorem load_keeps_order:
  assumes "load_substitute_addr_map mem junk tokens = Some (r, t, out)"
  shows "ordered t"
  using load_loop_ordered [OF assms [unfolded load_substitute_addr_map_def]] by simp

theorem load_keeps_order_witness:
  "\<exists>t out. load_substitute_addr_map True '''' (file_tokens [(0x0f02000a, 0x01010101), (0x8f02000a, 2)]) = Some (1, t, out)
     \<and> ordered t"
  using load_file [of "''''" "[(0x0f02000a, 0x01010101), (0x8f02000a, 2)]"] load_keeps_order by blast

text \<open>The parser reads back every address in the form in which the printer writes it.\<close>

theorem PackIP_ip_string: "PackIP junk (ip_string a) = Some a"
  by (rule pack_string)

end
