(* ===== verification/Addrswap_Packet.thy ===== *)
theory Addrswap_Packet
  imports Addr_Map
begin

text \<open>
  What addrswap_replay does to one packet (addrswap_replay.c): the length of the VLAN tags, the
  decision whether the file holds frame check sequences, the control bits of the transmit
  descriptor, and the substitution of the addresses.

  A packet is its bytes from the Ethernet header on; a read or write past the end of the buffer
  is the fault \<open>None\<close>.  Multi-byte fields are read as the code reads them: the type field and the
  IP length in network order, the addresses in the byte order of the little-endian host.
\<close>

section \<open>Reading and writing fields\<close>

definition get8 :: "u8 list \<Rightarrow> nat \<Rightarrow> u8 option" where
  "get8 pkt i = (if i < length pkt then Some (pkt ! i) else None)"

definition get16_be :: "u8 list \<Rightarrow> nat \<Rightarrow> u16 option" where
  "get16_be pkt i =
     (if i + 1 < length pkt then Some (push_bit 8 (ucast (pkt ! i)) OR ucast (pkt ! (i + 1))) else None)"

definition get32_le :: "u8 list \<Rightarrow> nat \<Rightarrow> u32 option" where
  "get32_le pkt i =
     (if i + 3 < length pkt
      then Some (ucast (pkt ! i) OR push_bit 8 (ucast (pkt ! (i + 1))) OR push_bit 16 (ucast (pkt ! (i + 2)))
                 OR push_bit 24 (ucast (pkt ! (i + 3)))) else None)"

definition bytes32 :: "u32 \<Rightarrow> u8 list" where
  "bytes32 w = map (\<lambda>i. ucast (drop_bit (8 * i) w)) [0, 1, 2, 3]"

definition put32_le :: "u8 list \<Rightarrow> nat \<Rightarrow> u32 \<Rightarrow> u8 list option" where
  "put32_le pkt i w =
     (if i + 3 < length pkt then Some (take i pkt @ bytes32 w @ drop (i + 4) pkt) else None)"

section \<open>VLAN tags\<close>

text \<open>\<open>vlanSize\<close>: the type field is the third field of the MAC header, at offset 12; each tag is
  four bytes long.\<close>

definition MAC_HEADER :: nat where "MAC_HEADER = 14"
definition IPV4_HEADER :: nat where "IPV4_HEADER = 20"
definition VLAN_TAG_LEN :: nat where "VLAN_TAG_LEN = 4"
definition FCS_LENGTH :: u32 where "FCS_LENGTH = 4"
definition IP_PROT_TCP :: u8 where "IP_PROT_TCP = 6"
definition IP_PROT_UDP :: u8 where "IP_PROT_UDP = 17"

function vlan_loop :: "u8 list \<Rightarrow> nat \<Rightarrow> nat option" where
  "vlan_loop pkt n =
     (case get16_be pkt (12 + n) of
        None \<Rightarrow> None
      | Some typelen \<Rightarrow> if typelen = 0x8100 then vlan_loop pkt (n + VLAN_TAG_LEN) else Some n)"
  by pat_completeness auto
termination
  by (relation "measure (\<lambda>(pkt, n). length pkt - n)")
     (auto simp: get16_be_def VLAN_TAG_LEN_def split: if_splits)

declare vlan_loop.simps [simp del]

definition vlanSize :: "u8 list \<Rightarrow> nat option" where
  "vlanSize pkt = vlan_loop pkt 0"

section \<open>The first packet of the file\<close>

text \<open>The test of \<open>GetFileData\<close>: the IP length, the headers in front of it and one frame check
  sequence against the length on the wire, in 32 bits.\<close>

definition fcs_present :: "u8 list \<Rightarrow> u32 \<Rightarrow> bool option" where
  "fcs_present pkt wire =
     (case vlanSize pkt of
        None \<Rightarrow> None
      | Some v \<Rightarrow>
          (case get16_be pkt (MAC_HEADER + v + 2) of
             None \<Rightarrow> None
           | Some ip_len \<Rightarrow>
               (let pkt_size = ucast ip_len + of_nat MAC_HEADER :: u32
                in Some (pkt_size + of_nat v + FCS_LENGTH < wire))))"

section \<open>The transmit descriptor\<close>

text \<open>The fields of \<open>Dyn3_tx_descriptor\<close> that the program writes.\<close>

record dyn3_tx =
  d3_offset0 :: "10 word"
  d3_offset1 :: "10 word"
  d3_frame_type :: "4 word"
  d3_checksum_cmd :: "5 word"
  d3_fcsCmd :: "2 word"
  d3_timestamp :: u64

definition CHECKSUM_DO_NOTHING :: u32 where "CHECKSUM_DO_NOTHING = 0"
definition CHECKSUM_GOOD :: u32 where "CHECKSUM_GOOD = 3"
definition FCS_GOOD :: "2 word" where "FCS_GOOD = 0"
definition FRAME_TYPE_IPV4_TCP :: "4 word" where "FRAME_TYPE_IPV4_TCP = 4"
definition FRAME_TYPE_IPV4_UDP :: "4 word" where "FRAME_TYPE_IPV4_UDP = 8"

definition checksum_command :: "u32 \<Rightarrow> u32 \<Rightarrow> u64" where
  "checksum_command l3 l4 = push_bit 3 (ucast l3 AND 0x3) OR (ucast l4 AND 0x7)"

text \<open>The version field is the upper half of the first byte of the IP header.\<close>

definition ip_version :: "u8 list \<Rightarrow> nat \<Rightarrow> u8 option" where
  "ip_version pkt ip = map_option (drop_bit 4) (get8 pkt ip)"

definition set_frame_type :: "u8 \<Rightarrow> dyn3_tx \<Rightarrow> dyn3_tx" where
  "set_frame_type prot d =
     (if prot = IP_PROT_UDP then d\<lparr>d3_frame_type := FRAME_TYPE_IPV4_UDP\<rparr>
      else if prot = IP_PROT_TCP then d\<lparr>d3_frame_type := FRAME_TYPE_IPV4_TCP\<rparr>
      else d)"

definition set_checksum :: "u8 list \<Rightarrow> nat \<Rightarrow> dyn3_tx \<Rightarrow> dyn3_tx option" where
  "set_checksum pkt v d =
     (let ip = MAC_HEADER + v in
      case ip_version pkt ip of
        None \<Rightarrow> None
      | Some ver \<Rightarrow>
          if ver = 4 then
            map_option
              (\<lambda>prot. (set_frame_type prot (d\<lparr>d3_offset0 := of_nat ip, d3_offset1 := of_nat (MAC_HEADER + IPV4_HEADER + v)\<rparr>))
                 \<lparr>d3_checksum_cmd := ucast (checksum_command CHECKSUM_GOOD CHECKSUM_GOOD)\<rparr>)
              (get8 pkt (ip + 9))
          else Some (d\<lparr>d3_checksum_cmd := ucast (checksum_command CHECKSUM_DO_NOTHING CHECKSUM_DO_NOTHING)\<rparr>))"

definition set_descriptor :: "u8 list \<Rightarrow> u64 \<Rightarrow> dyn3_tx \<Rightarrow> dyn3_tx option" where
  "set_descriptor pkt ts d =
     (case vlanSize pkt of
        None \<Rightarrow> None
      | Some v \<Rightarrow> map_option (\<lambda>d'. d'\<lparr>d3_fcsCmd := FCS_GOOD, d3_timestamp := ts\<rparr>) (set_checksum pkt v d))"

section \<open>Substitution\<close>

text \<open>\<open>substitute_IP\<close>: the result of the search is an \<open>int\<close> and is used when it is not negative.\<close>

definition substitute_field :: "bin_tree \<Rightarrow> u8 list \<Rightarrow> nat \<Rightarrow> (bool \<times> u8 list) option" where
  "substitute_field root pkt i =
     (case get32_le pkt i of
        None \<Rightarrow> None
      | Some a \<Rightarrow>
          (let new = search_addr_map root a in
           if sint new \<ge> 0 then map_option (Pair True) (put32_le pkt i new) else Some (False, pkt)))"

definition substitute_IP :: "bin_tree \<Rightarrow> u8 list \<Rightarrow> (bool \<times> u8 list) option" where
  "substitute_IP root pkt =
     (case vlanSize pkt of
        None \<Rightarrow> None
      | Some v \<Rightarrow>
          (let ip = MAC_HEADER + v in
           case substitute_field root pkt (ip + 12) of
             None \<Rightarrow> None
           | Some (found1, pkt1) \<Rightarrow>
               (case substitute_field root pkt1 (ip + 16) of
                  None \<Rightarrow> None
                | Some (found2, pkt2) \<Rightarrow> Some (found1 \<or> found2, pkt2))))"

section \<open>Facts about fields\<close>

lemma length_bytes32 [simp]: "length (bytes32 w) = 4"
  by (simp add: bytes32_def)

lemma put32_length: "put32_le pkt i w = Some pkt' \<Longrightarrow> length pkt' = length pkt"
  by (auto simp: put32_le_def split: if_splits)

lemma put32_nth:
  "put32_le pkt i w = Some pkt' \<Longrightarrow> j < length pkt \<Longrightarrow>
     pkt' ! j = (if i \<le> j \<and> j < i + 4 then bytes32 w ! (j - i) else pkt ! j)"
  by (auto simp: put32_le_def nth_append split: if_splits)

lemma byte_bit:
  fixes w :: u32
  shows "bit (push_bit (8 * i) (ucast (ucast (drop_bit (8 * i) w) :: u8) :: u32)) n \<longleftrightarrow> 8 * i \<le> n \<and> n < 8 * i + 8 \<and> bit w n"
  by (auto simp: bit_simps dest: bit_imp_le_length)

lemmas byte_bits = byte_bit [of 0, simplified] byte_bit [of 1, simplified] byte_bit [of 2, simplified] byte_bit [of 3, simplified]

lemma get32_put32:
  assumes "put32_le pkt i w = Some pkt'"
  shows "get32_le pkt' i = Some w"
proof -
  have i: "i + 3 < length pkt" using assms by (auto simp: put32_le_def split: if_splits)
  have n: "pkt' ! (i + k) = ucast (drop_bit (8 * k) w)" if "k < 4" for k
    using put32_nth [OF assms, of "i + k"] i that
    by (auto simp: bytes32_def numeral_eq_Suc less_Suc_eq)
  have "ucast (ucast w :: u8) OR push_bit 8 (ucast (ucast (drop_bit 8 w) :: u8))
      OR push_bit 16 (ucast (ucast (drop_bit 16 w) :: u8)) OR push_bit 24 (ucast (ucast (drop_bit 24 w) :: u8)) = w"
    by (rule bit_word_eqI) (auto simp: byte_bits bit_or_iff)
  then show ?thesis
    using n [of 0] n [of 1] n [of 2] n [of 3] i put32_length [OF assms]
    by (simp add: get32_le_def)
qed

lemma get32_put32_other:
  assumes "put32_le pkt i w = Some pkt'" "j + 4 \<le> i \<or> i + 4 \<le> j"
  shows "get32_le pkt' j = get32_le pkt j"
  using put32_nth [OF assms(1)] put32_length [OF assms(1)] assms(2)
  by (simp add: get32_le_def) linarith

lemma get16_put32_other:
  assumes "put32_le pkt i w = Some pkt'" "j + 2 \<le> i \<or> i + 4 \<le> j"
  shows "get16_be pkt' j = get16_be pkt j"
  using put32_nth [OF assms(1)] put32_length [OF assms(1)] assms(2)
  by (simp add: get16_be_def) linarith

section \<open>Stacked tags\<close>

lemma get16_at: "length pre = i \<Longrightarrow> get16_be (pre @ b0 # b1 # rest) i = Some (push_bit 8 (ucast b0) OR ucast b1)"
  by (simp add: get16_be_def nth_append)

lemma type_field_eq: "push_bit 8 (ucast (b0 :: u8)) OR ucast (b1 :: u8) = (0x8100 :: u16) \<longleftrightarrow> b0 = 0x81 \<and> b1 = 0"
proof
  assume e: "push_bit 8 (ucast b0) OR ucast b1 = (0x8100 :: u16)"
  have "b1 = ucast (push_bit 8 (ucast b0 :: u16) OR ucast b1)"
    by (rule bit_word_eqI) (auto simp: bit_simps)
  moreover have "b0 = ucast (drop_bit 8 (push_bit 8 (ucast b0 :: u16) OR ucast b1))"
    by (rule bit_word_eqI) (auto simp: bit_simps dest: bit_imp_le_length)
  ultimately show "b0 = 0x81 \<and> b1 = 0" using e by simp
qed simp

lemma vlan_loop_tags:
  assumes "\<forall>tag \<in> set tags. length tag = 4 \<and> take 2 tag = [0x81, 0]" "\<not> (b0 = 0x81 \<and> b1 = 0)"
    and "length pre = 12 + n"
  shows "vlan_loop (pre @ concat tags @ b0 # b1 # rest) n = Some (n + 4 * length tags)"
  using assms
proof (induction tags arbitrary: n pre)
  case Nil
  then show ?case
    by (subst vlan_loop.simps) (auto simp: get16_at type_field_eq)
next
  case (Cons tag tags)
  obtain x y where tag: "tag = [0x81, 0, x, y]"
    using Cons.prems(1) by (auto simp: length_Suc_conv numeral_eq_Suc)
  have "vlan_loop ((pre @ tag) @ concat tags @ b0 # b1 # rest) (n + 4) = Some (n + 4 + 4 * length tags)"
    by (rule Cons.IH) (use Cons.prems in \<open>auto simp: tag\<close>)
  with Cons.prems(3) show ?case
    by (subst vlan_loop.simps) (simp add: VLAN_TAG_LEN_def tag get16_at)
qed

lemma vlan_tags:
  assumes "length mac = 12" "\<forall>tag \<in> set tags. length tag = 4 \<and> take 2 tag = [0x81, 0]" "\<not> (b0 = 0x81 \<and> b1 = 0)"
  shows "vlanSize (mac @ concat tags @ b0 # b1 # rest) = Some (4 * length tags)"
  using vlan_loop_tags [OF assms(2,3), of mac 0 rest] assms(1) by (simp add: vlanSize_def)

section \<open>What a substitution changes\<close>

lemma substitute_field_value:
  assumes "substitute_field root pkt i = Some (found, pkt')" "get32_le pkt i = Some a"
  shows "get32_le pkt' i = Some (if sint (search_addr_map root a) \<ge> 0 then search_addr_map root a else a)"
  using assms by (auto simp: substitute_field_def Let_def get32_put32 split: if_splits)

lemma substitute_field_other:
  assumes "substitute_field root pkt i = Some (found, pkt')" "j + 4 \<le> i \<or> i + 4 \<le> j"
  shows "get32_le pkt' j = get32_le pkt j"
  using assms by (auto simp: substitute_field_def Let_def get32_put32_other split: if_splits option.splits)

lemma sint_nonneg_octet: "0 \<le> sint (d :: u32) \<longleftrightarrow> unat (octet d 3) < 128"
proof -
  have m: "(0xff :: u32) = mask 8" by (simp add: mask_eq_exp_minus_1)
  have "bit (octet d 3) 7 = bit d 31" unfolding octet_def m by (simp add: bit_simps)
  moreover have "bit (octet d 3) 7 \<longleftrightarrow> 128 \<le> unat (octet d 3)"
  proof -
    have "unat (octet d 3) div 128 < 2" using octet_small [of d 3] by (simp add: div_less_iff_less_mult)
    moreover have "bit (unat (octet d 3)) 7 \<longleftrightarrow> bit (octet d 3) 7"
      by (auto simp: bit_unsigned_iff dest: bit_imp_le_length)
    then have "bit (octet d 3) 7 \<longleftrightarrow> odd (unat (octet d 3) div 128)"
      by (simp add: bit_iff_odd)
    ultimately show ?thesis
      by (auto simp: div_eq_0_iff not_le dest!: less_2_cases)
  qed
  moreover have "0 \<le> sint d \<longleftrightarrow> \<not> bit d 31"
    using bit_last_iff [of d] by (simp add: not_less)
  ultimately show ?thesis by auto
qed

lemma substitute_IP_fields:
  assumes "substitute_IP root pkt = Some (found, pkt')" "vlanSize pkt = Some v" "i = 12 \<or> i = 16"
    and "get32_le pkt (MAC_HEADER + v + i) = Some a"
  shows "get32_le pkt' (MAC_HEADER + v + i) = Some (if sint (search_addr_map root a) \<ge> 0 then search_addr_map root a else a)"
proof -
  obtain f1 p1 f2 where s: "substitute_field root pkt (MAC_HEADER + v + 12) = Some (f1, p1)"
    "substitute_field root p1 (MAC_HEADER + v + 16) = Some (f2, pkt')"
    using assms(1,2) unfolding substitute_IP_def Let_def
    by (cases "substitute_field root pkt (MAC_HEADER + v + 12)";
        cases "substitute_field root (snd (the (substitute_field root pkt (MAC_HEADER + v + 12)))) (MAC_HEADER + v + 16)")
       (fastforce split: prod.splits)+
  from assms(3) show ?thesis
  proof
    assume i: "i = 12"
    have "get32_le pkt' (MAC_HEADER + v + 12) = get32_le p1 (MAC_HEADER + v + 12)"
      using substitute_field_other [OF s(2)] by simp
    with substitute_field_value [OF s(1)] assms(4) i show ?thesis by simp
  next
    assume i: "i = 16"
    have "get32_le p1 (MAC_HEADER + v + 16) = get32_le pkt (MAC_HEADER + v + 16)"
      using substitute_field_other [OF s(1)] by simp
    with substitute_field_value [OF s(2)] assms(4) i show ?thesis by simp
  qed
qed

text \<open>The source and the destination address of a packet behind any number of VLAN tags become the
  replacement that the substitution file gives for them, but only when the last octet of the
  replacement is below 128: the replacement travels as an \<open>int\<close>, and a negative one is taken for
  an address that is not in the file.\<close>

theorem replacement_below_128:
  assumes "load_substitute_addr_map True junk (file_tokens ps) = Some (1, root, out)"
    and "vlanSize pkt = Some v" "i = 12 \<or> i = 16" "get32_le pkt (MAC_HEADER + v + i) = Some a"
    and "map_of ps a = Some d" "substitute_IP root pkt = Some (found, pkt')"
  shows "get32_le pkt' (MAC_HEADER + v + i) = Some (if unat (octet d 3) < 128 then d else a)"
proof -
  have "search_addr_map root a = d"
    using load_file [of junk ps] assms(1,5) by (auto simp: search_lookup bt.find_build)
  with substitute_IP_fields [OF assms(6,2,3,4)] show ?thesis by (simp add: sint_nonneg_octet)
qed

definition tagged_packet :: "u8 list" where
  "tagged_packet = replicate 12 1 @ [0x81, 0, 0, 5] @ [8, 0] @ [0x45, 0, 0, 40, 0, 0, 0, 0, 64, 6, 0, 0]
     @ [10, 0, 2, 15] @ [10, 0, 2, 16] @ replicate 20 0"

text \<open>10.0.2.15 becomes 1.1.1.1, but 10.0.2.16 does not become 1.1.1.200.\<close>

theorem replacement_below_128_witness:
  "\<exists>root out found pkt'. load_substitute_addr_map True '''' (file_tokens [(0x0f02000a, 0x01010101), (0x1002000a, 0xc8010101)]) = Some (1, root, out)
     \<and> substitute_IP root tagged_packet = Some (found, pkt')
     \<and> get32_le pkt' 30 = Some 0x01010101 \<and> get32_le pkt' 34 = Some 0x1002000a"
proof -
  let ?ps = "[(0x0f02000a, 0x01010101), (0x1002000a, 0xc8010101)] :: (u32 \<times> u32) list"
  let ?root = "fold (\<lambda>(k, v). add_entry k v) ?ps Null"
  obtain out where l: "load_substitute_addr_map True '''' (file_tokens ?ps) = Some (1, ?root, out)"
    using load_file by blast
  have v: "vlanSize tagged_packet = Some 4" by code_simp
  have f: "get32_le tagged_packet (MAC_HEADER + 4 + 12) = Some 0x0f02000a" "get32_le tagged_packet (MAC_HEADER + 4 + 16) = Some 0x1002000a"
    by code_simp+
  have "substitute_IP ?root tagged_packet \<noteq> None" by code_simp
  then obtain found pkt' where s: "substitute_IP ?root tagged_packet = Some (found, pkt')" by auto
  have o: "unat (octet 0x01010101 3) < 128" "\<not> unat (octet 0xc8010101 3) < 128" by code_simp+
  have "get32_le pkt' 30 = Some 0x01010101"
    using replacement_below_128 [OF l v _ f(1) _ s] o(1) by (simp add: MAC_HEADER_def)
  moreover have "get32_le pkt' 34 = Some 0x1002000a"
    using replacement_below_128 [OF l v _ f(2) _ s] o(2) by (simp add: MAC_HEADER_def)
  ultimately show ?thesis using l s by blast
qed

text \<open>The length of the VLAN tags is found for any number of stacked tags.\<close>

theorem vlan_tags_skipped:
  assumes "length mac = 12" "\<forall>tag \<in> set tags. length tag = 4 \<and> take 2 tag = [0x81, 0]" "\<not> (b0 = 0x81 \<and> b1 = 0)"
  shows "vlanSize (mac @ concat tags @ b0 # b1 # rest) = Some (4 * length tags)"
  using assms by (rule vlan_tags)

theorem vlan_tags_skipped_witness:
  "vlanSize (replicate 12 1 @ concat [[0x81, 0, 0, 5], [0x81, 0, 0, 6]] @ 8 # 0 # []) = Some 8"
  using vlan_tags_skipped [of "replicate 12 1" "[[0x81, 0, 0, 5], [0x81, 0, 0, 6]]" 8 0 "[]"] by simp

text \<open>A packet that is no IPv4 packet is transmitted without new checksums, and its bytes at the place
  of the addresses are replaced nevertheless.\<close>

definition ipv6_packet :: "u8 list" where
  "ipv6_packet = replicate 12 1 @ [0x86, 0xdd] @ [0x60, 0, 0, 0, 0, 20, 6, 64, 0x20, 1, 0xd, 0xb8] @ [10, 0, 2, 15] @ replicate 44 0"

lemma ipv6_packet_rewritten:
  "ip_version ipv6_packet 14 = Some 6
   \<and> substitute_IP (Node Null 0x0f02000a 0x01010101 Null) ipv6_packet
       = Some (True, replicate 12 1 @ [0x86, 0xdd] @ [0x60, 0, 0, 0, 0, 20, 6, 64, 0x20, 1, 0xd, 0xb8] @ [1, 1, 1, 1] @ replicate 44 0)"
  by code_simp

section \<open>Frame check sequences\<close>

lemma fcs_decision:
  assumes "vlanSize pkt = Some v" "get16_be pkt (MAC_HEADER + v + 2) = Some len" "v < 2 ^ 31"
  shows "fcs_present pkt wire = Some (unat len + 18 + v < unat wire)"
proof -
  have l: "unat len < 2 ^ 16" using unsigned_less [of len] by simp
  have u: "unat (ucast len + 14 + of_nat v + 4 :: u32) = unat len + 18 + v"
  proof -
    have "ucast len + 14 + of_nat v + 4 = (of_nat (unat len + 18 + v) :: u32)"
      by simp
    then show ?thesis using l assms(3) by (simp only: unsigned_of_nat take_bit_eq_mod) simp
  qed
  show ?thesis
    using assms u by (simp add: fcs_present_def Let_def MAC_HEADER_def FCS_LENGTH_def word_less_nat_alt)
qed

text \<open>On a file without frame check sequences, where the wire length is the frame with four bytes
  added and at least 64, the program takes the file for one with frame check sequences exactly when
  the first frame was padded.\<close>

theorem padded_frame_taken_for_fcs:
  assumes "vlanSize pkt = Some v" "get16_be pkt (MAC_HEADER + v + 2) = Some len" "v < 2 ^ 31"
    and "unat wire = max 64 (14 + v + unat len + 4)"
  shows "fcs_present pkt wire = Some (14 + v + unat len + 4 < 64)"
  using fcs_decision [OF assms(1-3)] assms(4) by (auto simp: max_def)

theorem padded_frame_taken_for_fcs_witness:
  "fcs_present (replicate 12 1 @ [8, 0, 0x45, 0, 0, 40] @ replicate 42 0) 64 = Some True"
proof -
  have "vlanSize (replicate 12 1 @ [8, 0, 0x45, 0, 0, 40] @ replicate 42 0) = Some 0"
    "get16_be (replicate 12 1 @ [8, 0, 0x45, 0, 0, 40] @ replicate 42 0) (MAC_HEADER + 0 + 2) = Some 40"
    by code_simp+
  from padded_frame_taken_for_fcs [OF this, of 64] show ?thesis by simp
qed

end
