(* ===== verification/Addrswap_Replay.thy ===== *)
theory Addrswap_Replay
  imports Addrswap_Packet Argparse
begin

text \<open>
  The replay session of addrswap_replay.c: the checks of driver, adapter and port, the transmit
  stream, transmission on the adapter clock, the replay thread and \<open>main\<close>.

  The Napatech library is a parameter: records say what each call answers (a status, 0 being
  success, or the data read), and the loops run over the list of the answers that they get, one
  for each pass.  The static variables of the file are the record \<open>replay_state\<close>; \<open>None\<close> is a
  fault (an uninitialised buffer or an access outside of one).
\<close>

section \<open>State\<close>

definition NT_APPL_SUCCESS :: nat where "NT_APPL_SUCCESS = 0"
definition NT_APPL_ERROR_OPT_ARG :: nat where "NT_APPL_ERROR_OPT_ARG = 2"
definition NT_APPL_ERROR_OPT_CONFLICT :: nat where "NT_APPL_ERROR_OPT_CONFLICT = 3"
definition NT_APPL_ERROR_OPT_MISSING :: nat where "NT_APPL_ERROR_OPT_MISSING = 4"
definition NT_APPL_ERROR_CONFIG :: nat where "NT_APPL_ERROR_CONFIG = 5"
definition NT_APPL_ERROR_NTAPI :: nat where "NT_APPL_ERROR_NTAPI = 6"
definition NT_APPL_ERROR_OS :: nat where "NT_APPL_ERROR_OS = 7"

lemmas appl_codes = NT_APPL_SUCCESS_def NT_APPL_ERROR_OPT_ARG_def NT_APPL_ERROR_OPT_CONFLICT_def NT_APPL_ERROR_OPT_MISSING_def
  NT_APPL_ERROR_CONFIG_def NT_APPL_ERROR_NTAPI_def NT_APPL_ERROR_OS_def

record replay_state =
  appRunning :: bool
  threadReady :: bool
  ApplExitCode :: nat
  segments :: u64
  rp_bytes :: u64
  totBytes :: u64
  lastPacketTS :: u64
  firstPacketTS :: u64
  startTime :: u64
  timeDelta :: u64
  adapterNo :: int
  fcs_present_in_file :: bool
  substitution_counter :: u64
  transmitted :: "(u8 list \<times> dyn3_tx) list"

definition replay_init :: replay_state where
  "replay_init = \<lparr>appRunning = True, threadReady = False, ApplExitCode = NT_APPL_SUCCESS, segments = 0, rp_bytes = 0,
     totBytes = 0, lastPacketTS = 0, firstPacketTS = 0, startTime = 0, timeDelta = 0, adapterNo = - 1,
     fcs_present_in_file = False, substitution_counter = 0, transmitted = []\<rparr>"

text \<open>The signal handler.\<close>

definition StopApplication :: "replay_state \<Rightarrow> replay_state" where
  "StopApplication st = st\<lparr>appRunning := False\<rparr>"

section \<open>Checks\<close>

text \<open>\<open>checkDriverVersion\<close>; the argument is the version read, \<open>None\<close> when it cannot be read.\<close>

definition checkDriverVersion :: "(nat \<times> nat \<times> nat) option \<Rightarrow> bool \<times> string" where
  "checkDriverVersion sys =
     (case sys of
        None \<Rightarrow> (False, '''')
      | Some (major, minor, patch) \<Rightarrow>
          (if major = 3 then 24 \<le> minor else 3 < major,
           ''system: '' @ show_dec major @ ''.'' @ show_dec minor @ ''.'' @ show_dec patch @ [CHR 0x0A]))"

text \<open>\<open>GetFeatureLevel\<close> reports the feature level of the adapter; \<open>Inl\<close> is the status of a failed call.  Its
  result is not looked at.\<close>

datatype feature_level = ANL1 | ANL2 | ANL3 | ANL3A | ANL4 | ANL5 | ANL6 | ANL7 | ANL8 | ANL9 | ANL10 | ANL11 | ANL12
  | ANL13 | ANL_unknown

definition feature_level_line :: "feature_level \<Rightarrow> string" where
  "feature_level_line l =
     (case l of ANL1 \<Rightarrow> ''Analyser level 1'' | ANL2 \<Rightarrow> ''Analyser level 2'' | ANL3 \<Rightarrow> ''Analyser level 3''
      | ANL3A \<Rightarrow> ''Analyser level 3A'' | ANL4 \<Rightarrow> ''Analyser level 4'' | ANL5 \<Rightarrow> ''Analyser level 5''
      | ANL6 \<Rightarrow> ''Analyser level 6'' | ANL7 \<Rightarrow> ''Analyser level 7'' | ANL8 \<Rightarrow> ''Analyser level 8''
      | ANL9 \<Rightarrow> ''Analyser level 9'' | ANL10 \<Rightarrow> ''Analyser level 10'' | ANL11 \<Rightarrow> ''Analyser level 11''
      | ANL12 \<Rightarrow> ''Analyser level 12'' | ANL13 \<Rightarrow> ''Analyser level 13'' | ANL_unknown \<Rightarrow> ''unknown feature set'')
     @ [CHR 0x0A]"

definition GetFeatureLevel :: "nat \<Rightarrow> nat + nat \<times> feature_level \<Rightarrow> nat \<times> string" where
  "GetFeatureLevel open_status r =
     (if open_status \<noteq> 0 then (open_status, [])
      else case r of
        Inl status \<Rightarrow> (status, [])
      | Inr (code, l) \<Rightarrow>
          (0, ''featureLevel: 0x'' @ map lower_hex (show_hex code) @ [CHR 0x0A] @ feature_level_line l))"

text \<open>\<open>is4GA\<close> keeps its answer in a static variable, which is false at the start.\<close>

definition is4GA :: "bool \<Rightarrow> int option \<Rightarrow> bool" where
  "is4GA static generation = (case generation of None \<Rightarrow> static | Some g \<Rightarrow> 4 \<le> g)"

record port_info =
  pi_numPorts :: nat
  pi_adapterNo :: int
  pi_featureMask :: u64

text \<open>The feature bits of the library.\<close>

record feature_bits =
  NT_PORT_FEATURE_RX_ONLY :: u64
  NT_PORT_FEATURE_IPV4_TX_CHECKSUM_CALC :: u64
  NT_PORT_FEATURE_UDP_TX_CHECKSUM_CALC :: u64
  NT_PORT_FEATURE_TCP_TX_CHECKSUM_CALC :: u64

text \<open>The loop over the ports of the adapter: status and the verdict.\<close>

fun check_ports :: "feature_bits \<Rightarrow> (nat \<Rightarrow> nat + port_info) \<Rightarrow> nat list \<Rightarrow> nat \<times> bool" where
  "check_ports fb read_port [] = (0, True)"
| "check_ports fb read_port (i # is) =
     (case read_port i of
        Inl status \<Rightarrow> (status, False)
      | Inr p \<Rightarrow> if flagged (pi_featureMask p) (NT_PORT_FEATURE_RX_ONLY fb) then (0, False)
                 else check_ports fb read_port is)"

record check_env =
  ce_open :: nat
  ce_read_port :: "nat \<Rightarrow> nat + port_info"
  ce_generation :: "int option"
  ce_unsupported :: nat

text \<open>\<open>CheckCapabilities\<close>; a failed read answers with its non-zero status.  The port counter of the loop is
  an 8-bit variable, which the number of ports of an adapter never exceeds.  The other static
  variables it sets are not read anywhere.\<close>

definition CheckCapabilities :: "feature_bits \<Rightarrow> check_env \<Rightarrow> nat \<Rightarrow> replay_state \<Rightarrow> (nat \<times> bool) \<times> replay_state" where
  "CheckCapabilities fb ce portNo st =
     (if ce_open ce \<noteq> 0 then ((ce_open ce, False), st)
      else case ce_read_port ce portNo of
        Inl status \<Rightarrow> ((status, False), st)
      | Inr p \<Rightarrow>
          (let st1 = st\<lparr>adapterNo := pi_adapterNo p\<rparr> in
           if \<not> is4GA False (ce_generation ce) then ((ce_unsupported ce, False), st1)
           else (check_ports fb (ce_read_port ce) [0..<pi_numPorts p], st1)))"

section \<open>The first packet\<close>

datatype file_get = Get_packet (get_bytes: "u8 list") (get_wire: u32) (get_ts: u64) | Get_eof | Get_error

text \<open>\<open>GetFileType\<close> reports the type of the file; its result is not looked at.\<close>

datatype file_type = NT_NETFILE_TYPE_UNKNOWN | NT_NETFILE_TYPE_NT | NT_NETFILE_TYPE_PCAP | NT_NETFILE_TYPE_PCAP_NG
  | NT_NETFILE_TYPE_OTHER

definition file_type_line :: "file_type \<Rightarrow> string" where
  "file_type_line t = ''Input fileType: '' @
     (case t of
        NT_NETFILE_TYPE_UNKNOWN \<Rightarrow> ''    NT_NETFILE_TYPE_UNKNOWN''
      | NT_NETFILE_TYPE_NT \<Rightarrow> ''    NT_NETFILE_TYPE_NT''
      | NT_NETFILE_TYPE_PCAP \<Rightarrow> ''    NT_NETFILE_TYPE_PCAP''
      | NT_NETFILE_TYPE_PCAP_NG \<Rightarrow> ''    NT_NETFILE_TYPE_PCAP_NG''
      | NT_NETFILE_TYPE_OTHER \<Rightarrow> ''***** SHOULD NOT GET HERE *****'') @ [CHR 0x0A]"

definition GetFileType :: "file_type option \<Rightarrow> bool \<Rightarrow> int \<times> string" where
  "GetFileType ft desc_ok =
     (case ft of
        None \<Rightarrow> (- 1, '''')
      | Some t \<Rightarrow> (if desc_ok then 0 else - 1, file_type_line t))"

text \<open>\<open>GetFileData\<close>: an error of \<open>NT_NetFileGet\<close> other than the end of the file is not handled, and the
  packet buffer is then uninitialised.\<close>

definition GetFileData :: "bool \<Rightarrow> file_get \<Rightarrow> replay_state \<Rightarrow> (int \<times> replay_state) option" where
  "GetFileData open_ok get st =
     (if \<not> open_ok then Some (- 1, st)
      else case get of
        Get_eof \<Rightarrow> Some (- 1, st)
      | Get_error \<Rightarrow> None
      | Get_packet pkt wire ts \<Rightarrow>
          map_option (\<lambda>fcs. (0, st\<lparr>fcs_present_in_file := fcs, firstPacketTS := ts\<rparr>)) (fcs_present pkt wire))"

section \<open>The transmit stream\<close>

record tx_env =
  te_descriptor_mode :: nat
  te_pos_frame_type :: nat
  te_pos_checksum :: nat
  te_pos_fcs :: nat
  te_info_open :: nat
  te_read_port :: "nat + port_info"
  te_read_adapter :: nat
  te_open :: nat

text \<open>The steps between opening and closing the information stream.\<close>

definition tx_port_check :: "feature_bits \<Rightarrow> tx_env \<Rightarrow> replay_state \<Rightarrow> bool \<times> replay_state" where
  "tx_port_check fb te st =
     (case te_read_port te of
        Inl status \<Rightarrow> (False, st)
      | Inr p \<Rightarrow>
          (let st1 = st\<lparr>adapterNo := pi_adapterNo p\<rparr>;
               checksum_mask = NT_PORT_FEATURE_IPV4_TX_CHECKSUM_CALC fb OR NT_PORT_FEATURE_UDP_TX_CHECKSUM_CALC fb
                               OR NT_PORT_FEATURE_TCP_TX_CHECKSUM_CALC fb
           in if flagged (pi_featureMask p) (NT_PORT_FEATURE_RX_ONLY fb) then (False, st1)
              else if \<not> flagged (pi_featureMask p) checksum_mask then (False, st1)
              else (te_read_adapter te = 0, st1)))"

definition setup_tx :: "feature_bits \<Rightarrow> tx_env \<Rightarrow> replay_state \<Rightarrow> bool \<times> replay_state" where
  "setup_tx fb te st =
     (if te_descriptor_mode te \<noteq> 0 \<or> te_pos_frame_type te \<noteq> 0 \<or> te_pos_checksum te \<noteq> 0 \<or> te_pos_fcs te \<noteq> 0
         \<or> te_info_open te \<noteq> 0 then (False, st)
      else
        (let (ok, st1) = tx_port_check fb te st in
         if \<not> ok then (False, st1)
         else if te_open te \<noteq> 0 then (False, st1\<lparr>appRunning := False, ApplExitCode := NT_APPL_ERROR_NTAPI\<rparr>)
         else (True, st1)))"

section \<open>The adapter clock\<close>

text \<open>One access to the configuration stream: statuses of open, of the command and of close.\<close>

record config_env =
  cf_open :: nat
  cf_cmd :: nat
  cf_close :: nat
  cf_native :: u64

definition GetAdapterTimestamp :: "config_env \<Rightarrow> nat \<times> u64 option" where
  "GetAdapterTimestamp c =
     (if cf_open c \<noteq> 0 then (cf_open c, None)
      else if cf_cmd c \<noteq> 0 then (cf_cmd c, None)
      else (cf_close c, Some (cf_native c * 10)))"

text \<open>\<open>SetPortTransmitOnTimestamp\<close>: the clock is read, then the offset is written, here with the
  status \<open>wr\<close>.  A failed read returns 0.\<close>

definition SetPortTransmitOnTimestamp :: "config_env \<Rightarrow> nat \<Rightarrow> replay_state \<Rightarrow> nat \<times> replay_state" where
  "SetPortTransmitOnTimestamp c wr st =
     (if cf_open c \<noteq> 0 then (cf_open c, st)
      else if cf_cmd c \<noteq> 0 then (0, st)
      else
        (let adapterTS = cf_native c * 10;
             st1 = st\<lparr>timeDelta := adapterTS - firstPacketTS st + 1000000000, startTime := adapterTS\<rparr>
         in if wr \<noteq> 0 then (wr, st1) else (cf_close c, st1)))"

definition ClearPortTransmitOnTimestamp :: "config_env \<Rightarrow> nat" where
  "ClearPortTransmitOnTimestamp c =
     (if cf_open c \<noteq> 0 then cf_open c else if cf_cmd c \<noteq> 0 then cf_cmd c else cf_close c)"

text \<open>\<open>AwaitPacketTransmission\<close> over the readings of the clock, each with the value of \<open>appRunning\<close> that
  the loop condition finds; \<open>None\<close> when the readings end before the loop does.\<close>

definition stopTime :: "replay_state \<Rightarrow> u64" where
  "stopTime st = startTime st + (lastPacketTS st - firstPacketTS st)"

fun AwaitPacketTransmission :: "u64 \<Rightarrow> (bool \<times> config_env) list \<Rightarrow> nat option" where
  "AwaitPacketTransmission stop [] = None"
| "AwaitPacketTransmission stop ((running, c) # cs) =
     (if \<not> running then Some 0
      else case GetAdapterTimestamp c of
        (status, ts) \<Rightarrow>
          if status \<noteq> 0 then Some status
          else if the ts > stop then Some 0
          else AwaitPacketTransmission stop cs)"

section \<open>The replay thread\<close>

datatype tx_status = Tx_ok | Tx_timeout | Tx_tryagain | Tx_error

text \<open>The loop around \<open>NT_NetTxGet\<close>: each answer with the value of \<open>appRunning\<close> that the condition
  reads after it.  \<open>None\<close> when the answers end before the loop does.\<close>

fun tx_get :: "(tx_status \<times> bool) list \<Rightarrow> tx_status option" where
  "tx_get [] = None"
| "tx_get ((status, running) # xs) =
     (if running \<and> (status = Tx_timeout \<or> status = Tx_tryagain) then tx_get xs else Some status)"

text \<open>What one pass of the loop meets.\<close>

record replay_pass =
  ps_running :: bool
  ps_get :: file_get
  ps_info :: bool
  ps_tx :: "(tx_status \<times> bool) list"
  ps_buffer :: "u8 list"
  ps_descr :: dyn3_tx
  ps_release :: bool
  ps_file_release :: bool

datatype pass_end = Continue | Break | Return | Waiting

text \<open>The length to transmit: without the frame check sequence when the file holds them.\<close>

definition pkt_wirelen :: "replay_state \<Rightarrow> u32 \<Rightarrow> u32" where
  "pkt_wirelen st wire = (if fcs_present_in_file st then wire - FCS_LENGTH else wire)"

text \<open>The packet is copied, described, counted and, with the option, given other addresses.\<close>

definition replay_packet ::
  "bin_tree option \<Rightarrow> u8 list \<Rightarrow> dyn3_tx \<Rightarrow> u8 list \<Rightarrow> u32 \<Rightarrow> u64 \<Rightarrow> replay_state \<Rightarrow> (u8 list \<times> dyn3_tx \<times> replay_state) option" where
  "replay_packet subst buffer descr pkt wirelen ts st =
     (case memcpy buffer 0 pkt 0 (unat wirelen) of
        None \<Rightarrow> None
      | Some dest \<Rightarrow>
          (case set_descriptor dest ts descr of
             None \<Rightarrow> None
           | Some d \<Rightarrow>
               (let st1 = st\<lparr>lastPacketTS := ts, segments := segments st + 1, rp_bytes := rp_bytes st + ucast wirelen,
                             totBytes := totBytes st + ucast wirelen\<rparr>
                in case subst of
                     None \<Rightarrow> Some (dest, d, st1)
                   | Some root \<Rightarrow>
                       map_option
                         (\<lambda>(found, dest'). (dest', d,
                            st1\<lparr>substitution_counter := substitution_counter st1 + (if found then 1 else 0)\<rparr>))
                         (substitute_IP root dest))))"

definition replay_step :: "bin_tree option \<Rightarrow> replay_pass \<Rightarrow> replay_state \<Rightarrow> (pass_end \<times> replay_state) option" where
  "replay_step subst ps st0 =
     (let st = (if ps_running ps then st0 else StopApplication st0) in
      if \<not> appRunning st then Some (Break, st)
      else case ps_get ps of
        Get_eof \<Rightarrow> Some (Break, st)
      | Get_error \<Rightarrow> Some (Return, st)
      | Get_packet pkt wire ts \<Rightarrow>
          if \<not> ps_info ps then Some (Return, st)
          else (case tx_get (ps_tx ps) of
              None \<Rightarrow> Some (Waiting, st)
            | Some status \<Rightarrow>
                if status \<noteq> Tx_ok then Some (Return, st)
                else (case replay_packet subst (ps_buffer ps) (ps_descr ps) pkt (pkt_wirelen st wire) ts st of
                    None \<Rightarrow> None
                  | Some (dest, d, st1) \<Rightarrow>
                      if \<not> ps_release ps then Some (Return, st1)
                      else (let st2 = st1\<lparr>transmitted := transmitted st1 @ [(dest, d)]\<rparr> in
                            if \<not> ps_file_release ps then Some (Return, st2) else Some (Continue, st2)))))"

fun replay_loop :: "bin_tree option \<Rightarrow> replay_pass list \<Rightarrow> replay_state \<Rightarrow> (pass_end \<times> replay_state) option" where
  "replay_loop subst [] st = Some (Waiting, st)"
| "replay_loop subst (ps # pss) st =
     (case replay_step subst ps st of
        None \<Rightarrow> None
      | Some (Continue, st') \<Rightarrow> replay_loop subst pss st'
      | Some r \<Rightarrow> Some r)"

text \<open>What the thread meets outside of the loop.\<close>

record replay_env =
  re_feature_bits :: feature_bits
  re_first_open :: bool
  re_first_get :: file_get
  re_tx :: tx_env
  re_open :: nat
  re_clock :: config_env
  re_clock_write :: nat
  re_passes :: "replay_pass list"
  re_waits :: "(bool \<times> config_env) list"
  re_clear :: config_env

text \<open>The end of the thread, after the loop: \<open>Some None\<close> while it still waits.\<close>

definition replay_finish :: "replay_env \<Rightarrow> replay_state \<Rightarrow> replay_state option" where
  "replay_finish e st =
     (case AwaitPacketTransmission (stopTime st) (map (\<lambda>(r, c). (appRunning st \<and> r, c)) (re_waits e)) of
        None \<Rightarrow> None
      | Some _ \<Rightarrow>
          if ClearPortTransmitOnTimestamp (re_clear e) \<noteq> 0
          then Some (st\<lparr>appRunning := False, ApplExitCode := NT_APPL_ERROR_NTAPI\<rparr>)
          else Some (st\<lparr>appRunning := False\<rparr>))"

text \<open>\<open>_Replay\<close>: \<open>None\<close> is a fault, \<open>Some None\<close> a thread that has not returned yet.\<close>

definition Replay :: "bin_tree option \<Rightarrow> replay_env \<Rightarrow> replay_state \<Rightarrow> replay_state option option" where
  "Replay subst e st =
     (case GetFileData (re_first_open e) (re_first_get e) st of
        None \<Rightarrow> None
      | Some (r, st1) \<Rightarrow>
          if r \<noteq> 0 then Some (Some st1)
          else
            (let (ok, st2) = setup_tx (re_feature_bits e) (re_tx e) st1 in
             if \<not> ok then Some (Some (st2\<lparr>appRunning := False, ApplExitCode := NT_APPL_ERROR_CONFIG\<rparr>))
             else if re_open e \<noteq> 0 then Some (Some (st2\<lparr>appRunning := False, ApplExitCode := NT_APPL_ERROR_NTAPI\<rparr>))
             else
               (let (status, st3) = SetPortTransmitOnTimestamp (re_clock e) (re_clock_write e) (st2\<lparr>timeDelta := 0\<rparr>) in
                if status \<noteq> 0 then Some (Some (st3\<lparr>appRunning := False, ApplExitCode := NT_APPL_ERROR_NTAPI\<rparr>))
                else
                  (case replay_loop subst (re_passes e) (st3\<lparr>totBytes := 0, threadReady := True\<rparr>) of
                     None \<Rightarrow> None
                   | Some (Break, st4) \<Rightarrow> Some (replay_finish e st4)
                   | Some (Waiting, st4) \<Rightarrow> Some None
                   | Some (_, st4) \<Rightarrow> Some (Some st4)))))"

section \<open>main\<close>

record main_env =
  mn_file :: bool
  mn_port :: int
  mn_substitute :: "yaml_token list option"
  mn_init :: nat
  mn_driver :: "(nat \<times> nat \<times> nat) option"
  mn_check :: check_env
  mn_sigaction :: bool
  mn_thread :: bool
  mn_replay :: replay_env

text \<open>How \<open>main\<close> ends: with an exit code, or never: it waits for the thread to get ready although the
  thread has returned, or it joins a thread that does not return.\<close>

datatype main_end = Main_exit nat | Main_waits_ready | Main_waits_thread

definition main_wait :: "replay_state \<Rightarrow> bool" where
  "main_wait st \<longleftrightarrow> appRunning st \<and> \<not> threadReady st"

definition main_run :: "bin_tree option \<Rightarrow> main_env \<Rightarrow> replay_state \<Rightarrow> main_end option" where
  "main_run subst e st =
     (case Replay subst (mn_replay e) st of
        None \<Rightarrow> None
      | Some None \<Rightarrow> Some Main_waits_thread
      | Some (Some st') \<Rightarrow> Some (if main_wait st' then Main_waits_ready else Main_exit (ApplExitCode st')))"

definition addrswap_main :: "bool \<Rightarrow> string \<Rightarrow> main_env \<Rightarrow> main_end option" where
  "addrswap_main mem junk e =
     (if \<not> mn_file e \<or> mn_port e = - 1 then Some (Main_exit NT_APPL_ERROR_OPT_MISSING)
      else
        (case (case mn_substitute e of
                 None \<Rightarrow> Some None
               | Some tokens \<Rightarrow> map_option (\<lambda>(r, root, out). Some root) (load_substitute_addr_map mem junk tokens)) of
           None \<Rightarrow> None
         | Some subst \<Rightarrow>
             if mn_init e \<noteq> 0 then Some (Main_exit NT_APPL_ERROR_NTAPI)
             else if \<not> fst (checkDriverVersion (mn_driver e)) then Some (Main_exit NT_APPL_ERROR_NTAPI)
             else
               (let ((status, passed), st) = CheckCapabilities (re_feature_bits (mn_replay e)) (mn_check e) (nat (mn_port e mod 256)) replay_init in
                if status \<noteq> 0 then Some (Main_exit NT_APPL_ERROR_NTAPI)
                else if \<not> passed then Some (Main_exit NT_APPL_ERROR_OPT_ARG)
                else if \<not> mn_sigaction e \<or> \<not> mn_thread e then Some (Main_exit NT_APPL_ERROR_OS)
                else main_run subst e st)))"

text \<open>The command line: the table of options, whose variables are numbered in the order of the table, and
  the program on its arguments.  The usage text, which only the help option prints, is left empty.\<close>

definition replay_opt :: "argparse_option_type \<Rightarrow> char \<Rightarrow> string \<Rightarrow> nat \<Rightarrow> string \<Rightarrow> string \<Rightarrow> argparse_option" where
  "replay_opt t c l i h n = \<lparr>o_type = t, o_short = Some c, o_long = Some l, o_value = Some i,
     o_help = h, o_is_help = False, o_data = 0, o_noneg = False, o_internal = False, o_name_value = Some n\<rparr>"

definition replay_opt_help :: argparse_option where
  "replay_opt_help = \<lparr>o_type = ARGPARSE_OPT_BOOLEAN, o_short = Some CHR ''h'', o_long = Some ''help'', o_value = None,
     o_help = ''show this help message and exit'', o_is_help = True, o_data = 0, o_noneg = False, o_internal = False,
     o_name_value = None\<rparr>"

definition addrswap_options :: "argparse_option list" where
  "addrswap_options =
     [replay_opt_help,
      replay_opt ARGPARSE_OPT_STRING CHR ''f'' ''file'' 0 ''Specifies the file to replay.'' ''file name'',
      replay_opt ARGPARSE_OPT_INTEGER CHR ''p'' ''port'' 1 ''Port on which a pcap file should be replayed.'' ''port number'',
      replay_opt ARGPARSE_OPT_INTEGER CHR ''n'' ''numa'' 2
        (''Numa node from which Tx host-buffer should be allocated.  The default'' @ [CHR 0x0A]
         @ ''is the Numa node associated with the slot in which the card is installed.'') ''numa_node'',
      replay_opt ARGPARSE_OPT_STRING CHR ''s'' ''substitute'' 3 ''Name of file specifying IP addresses to substitute.''
        ''substiture_file name'']"

definition addrswap_defaults :: argvars where
  "addrswap_defaults = \<lparr>v_int = (\<lambda>i. - 1), v_u64 = (\<lambda>_. 0), v_str = (\<lambda>_. None)\<rparr>"

definition addrswap_command :: "bool \<Rightarrow> string \<Rightarrow> string list \<Rightarrow> (string \<Rightarrow> yaml_token list) \<Rightarrow> main_env \<Rightarrow> main_end option" where
  "addrswap_command mem junk args scan e =
     (case argparse_parse Addrswap (argparse_init addrswap_options [[]] False addrswap_defaults) args of
        Inl Undefined \<Rightarrow> None
      | Inl (Exit code _) \<Rightarrow> Some (Main_exit (nat (code mod 256)))
      | Inr (_, vars) \<Rightarrow>
          addrswap_main mem junk (e\<lparr>mn_file := v_str vars 0 \<noteq> None, mn_port := sint (v_int vars 1),
                                    mn_substitute := map_option scan (v_str vars 3)\<rparr>))"

section \<open>What is transmitted\<close>

text \<open>The specification of one transmission: the bytes of the file packet at the start of the buffer,
  with other addresses when there is a map, and a descriptor with the time stamp of the file packet
  and a new frame check sequence.\<close>

definition sends :: "bin_tree option \<Rightarrow> bool \<Rightarrow> replay_pass \<Rightarrow> u8 list \<times> dyn3_tx \<Rightarrow> bool" where
  "sends subst fcs ps out \<longleftrightarrow>
     (\<exists>pkt wire ts dest.
        ps_get ps = Get_packet pkt wire ts
        \<and> memcpy (ps_buffer ps) 0 pkt 0 (unat (if fcs then wire - FCS_LENGTH else wire)) = Some dest
        \<and> (case subst of None \<Rightarrow> fst out = dest | Some root \<Rightarrow> \<exists>found. substitute_IP root dest = Some (found, fst out))
        \<and> d3_timestamp (snd out) = ts \<and> d3_fcsCmd (snd out) = FCS_GOOD)"

lemma set_descriptor_fields:
  "set_descriptor pkt ts d = Some d' \<Longrightarrow> d3_timestamp d' = ts \<and> d3_fcsCmd d' = FCS_GOOD"
  by (auto simp: set_descriptor_def split: option.splits)

lemma replay_packet_sends:
  assumes "replay_packet subst (ps_buffer ps) (ps_descr ps) pkt (pkt_wirelen st wire) ts st = Some (dest, d, st1)"
    and "ps_get ps = Get_packet pkt wire ts"
  shows "sends subst (fcs_present_in_file st) ps (dest, d)" "transmitted st1 = transmitted st"
    "fcs_present_in_file st1 = fcs_present_in_file st" "appRunning st1 = appRunning st"
    "threadReady st1 = threadReady st" "segments st1 = segments st + 1"
  using assms by (auto simp: replay_packet_def sends_def pkt_wirelen_def Let_def dest: set_descriptor_fields split: option.splits)

lemma replay_step_cases:
  assumes "replay_step subst ps st = Some (r, st')"
  shows "fcs_present_in_file st' = fcs_present_in_file st \<and> threadReady st' = threadReady st
    \<and> (transmitted st' = transmitted st \<and> r \<noteq> Continue \<and> (r = Break \<longrightarrow> ps_get ps = Get_eof \<or> \<not> appRunning st')
       \<or> r \<noteq> Break \<and> (\<exists>out. transmitted st' = transmitted st @ [out] \<and> sends subst (fcs_present_in_file st) ps out))"
proof -
  define st1 where "st1 = (if ps_running ps then st else StopApplication st)"
  have s1: "fcs_present_in_file st1 = fcs_present_in_file st" "threadReady st1 = threadReady st"
    "transmitted st1 = transmitted st"
    by (simp_all add: st1_def StopApplication_def)
  show ?thesis
  proof (cases "appRunning st1 \<and> (\<exists>pkt wire ts. ps_get ps = Get_packet pkt wire ts) \<and> ps_info ps \<and> tx_get (ps_tx ps) = Some Tx_ok")
    case False
    with assms s1 show ?thesis
      by (auto simp: replay_step_def st1_def [symmetric] Let_def split: file_get.splits if_splits option.splits)
  next
    case True
    then obtain pkt wire ts where g: "ps_get ps = Get_packet pkt wire ts" by blast
    from assms True g obtain dest d st2 where
      p: "replay_packet subst (ps_buffer ps) (ps_descr ps) pkt (pkt_wirelen st1 wire) ts st1 = Some (dest, d, st2)"
      by (auto simp: replay_step_def st1_def [symmetric] Let_def split: option.splits)
    have "r = Return \<and> st' = st2 \<or> r \<noteq> Break \<and> st' = st2\<lparr>transmitted := transmitted st2 @ [(dest, d)]\<rparr>"
      using assms True g p by (auto simp: replay_step_def st1_def [symmetric] Let_def split: if_splits)
    with replay_packet_sends [OF p g] s1 show ?thesis by auto
  qed
qed

lemma replay_loop_sends:
  "replay_loop subst pss st = Some (r, st') \<Longrightarrow>
     threadReady st' = threadReady st \<and>
     (\<exists>outs n. transmitted st' = transmitted st @ outs \<and> list_all2 (sends subst (fcs_present_in_file st)) (take n pss) outs
        \<and> (r = Break \<longrightarrow> n < length pss \<and> (ps_get (pss ! n) = Get_eof \<or> \<not> appRunning st')))"
proof (induction pss arbitrary: st)
  case Nil
  then show ?case by auto
next
  case (Cons ps pss)
  from Cons.prems obtain e st1 where s: "replay_step subst ps st = Some (e, st1)"
    by (auto split: option.splits)
  note c = replay_step_cases [OF s]
  show ?case
  proof (cases "e = Continue")
    case True
    with Cons.prems s have "replay_loop subst pss st1 = Some (r, st')" by simp
    from Cons.IH [OF this] obtain outs n where
      o: "transmitted st' = transmitted st1 @ outs" "list_all2 (sends subst (fcs_present_in_file st1)) (take n pss) outs"
        "r = Break \<longrightarrow> n < length pss \<and> (ps_get (pss ! n) = Get_eof \<or> \<not> appRunning st')"
      and t: "threadReady st' = threadReady st1" by blast
    from c True obtain out where
      "transmitted st1 = transmitted st @ [out]" "sends subst (fcs_present_in_file st) ps out" by blast
    with o t c have "transmitted st' = transmitted st @ (out # outs)
        \<and> list_all2 (sends subst (fcs_present_in_file st)) (take (Suc n) (ps # pss)) (out # outs)
        \<and> (r = Break \<longrightarrow> Suc n < length (ps # pss) \<and> (ps_get ((ps # pss) ! Suc n) = Get_eof \<or> \<not> appRunning st'))" by simp
    with t c show ?thesis by metis
  next
    case False
    with Cons.prems s have e: "st' = st1" "r = e" by (cases e; simp)+
    show ?thesis
    proof (cases "transmitted st1 = transmitted st")
      case True
      with c e False have "transmitted st' = transmitted st @ [] \<and> list_all2 (sends subst (fcs_present_in_file st)) (take 0 (ps # pss)) []
          \<and> (r = Break \<longrightarrow> 0 < length (ps # pss) \<and> (ps_get ((ps # pss) ! 0) = Get_eof \<or> \<not> appRunning st'))" by auto
      with c e show ?thesis by metis
    next
      case False
      with c e obtain out where "transmitted st' = transmitted st @ [out]
          \<and> list_all2 (sends subst (fcs_present_in_file st)) (take 1 (ps # pss)) [out] \<and> r \<noteq> Break" by auto
      with c e show ?thesis by metis
    qed
  qed
qed

text \<open>C20: The replay loop transmits the packets of the file in their order, each one once and with its
  time stamp, a new frame check sequence and the addresses substituted; when it ends by itself,
  every packet before the end of the file has been transmitted, unless it was stopped.\<close>

theorem file_transmitted_in_order:
  assumes "replay_loop subst pss st = Some (r, st')"
  shows "\<exists>outs n. transmitted st' = transmitted st @ outs
     \<and> list_all2 (sends subst (fcs_present_in_file st)) (take n pss) outs
     \<and> (r = Break \<longrightarrow> n < length pss \<and> (ps_get (pss ! n) = Get_eof \<or> \<not> appRunning st'))"
  using replay_loop_sends [OF assms] by blast

definition pass_of :: "file_get \<Rightarrow> replay_pass" where
  "pass_of g = \<lparr>ps_running = True, ps_get = g, ps_info = True, ps_tx = [(Tx_timeout, True), (Tx_ok, True)],
     ps_buffer = replicate 64 0,
     ps_descr = \<lparr>d3_offset0 = 0, d3_offset1 = 0, d3_frame_type = 0, d3_checksum_cmd = 0, d3_fcsCmd = 1, d3_timestamp = 0\<rparr>,
     ps_release = True, ps_file_release = True\<rparr>"

theorem file_transmitted_in_order_witness:
  "\<exists>st' out. replay_loop None [pass_of (Get_packet tagged_packet 58 7), pass_of Get_eof] replay_init = Some (Break, st')
     \<and> transmitted st' = [out] \<and> sends None False (pass_of (Get_packet tagged_packet 58 7)) out"
proof -
  have "map_option (\<lambda>(r, st). (r, length (transmitted st), appRunning st))
      (replay_loop None [pass_of (Get_packet tagged_packet 58 7), pass_of Get_eof] replay_init) = Some (Break, 1, True)"
    by code_simp
  then obtain st' where l: "replay_loop None [pass_of (Get_packet tagged_packet 58 7), pass_of Get_eof] replay_init = Some (Break, st')"
    "length (transmitted st') = 1" by auto
  from file_transmitted_in_order [OF l(1)] l(2) obtain outs n where
    o: "transmitted st' = outs" "list_all2 (sends None False) (take n [pass_of (Get_packet tagged_packet 58 7), pass_of Get_eof]) outs"
    by (auto simp: replay_init_def)
  from o(1) l(2) obtain out where "outs = [out]" by (auto simp: length_Suc_conv)
  with o(2) have "sends None False (pass_of (Get_packet tagged_packet 58 7)) out"
    by (auto simp del: split_paired_Ex simp: list_all2_Cons2 take_Cons split: nat.splits)
  with o(1) l(1) \<open>outs = [out]\<close> show ?thesis by blast
qed

section \<open>Waiting\<close>

text \<open>The adapter transmits a packet when its clock shows the time stamp of the packet plus the offset
  that was written to the port.\<close>

definition transmit_time :: "replay_state \<Rightarrow> u64" where
  "transmit_time st = lastPacketTS st + timeDelta st"

text \<open>The time that the thread waits for before it switches transmission on the clock off and closes
  the stream is one second before the time at which the last packet is transmitted: the second of
  headroom in the offset is missing from the stop time.\<close>

theorem wait_is_one_second_short:
  assumes "SetPortTransmitOnTimestamp c wr st = (0, st1)" "cf_open c = 0" "cf_cmd c = 0"
  shows "transmit_time (st1\<lparr>lastPacketTS := t\<rparr>) = stopTime (st1\<lparr>lastPacketTS := t\<rparr>) + 1000000000"
  using assms by (auto simp: SetPortTransmitOnTimestamp_def Let_def transmit_time_def stopTime_def split: if_splits)

theorem wait_is_one_second_short_witness:
  "\<exists>st1. SetPortTransmitOnTimestamp \<lparr>cf_open = 0, cf_cmd = 0, cf_close = 0, cf_native = 500\<rparr> 0 replay_init = (0, st1)
     \<and> AwaitPacketTransmission (stopTime (st1\<lparr>lastPacketTS := 90\<rparr>)) [(True, \<lparr>cf_open = 0, cf_cmd = 0, cf_close = 0, cf_native = 510\<rparr>)] = Some 0
     \<and> transmit_time (st1\<lparr>lastPacketTS := 90\<rparr>) = 1000005090"
proof -
  let ?c = "\<lparr>cf_open = 0, cf_cmd = 0, cf_close = 0, cf_native = 500\<rparr>"
  obtain st1 where st1: "SetPortTransmitOnTimestamp ?c 0 replay_init = (0, st1)"
    "stopTime (st1\<lparr>lastPacketTS := 90\<rparr>) = 5090"
    by (simp add: SetPortTransmitOnTimestamp_def Let_def stopTime_def replay_init_def)
  from wait_is_one_second_short [OF st1(1), of 90] st1 show ?thesis
    by (simp add: GetAdapterTimestamp_def)
qed

section \<open>Does main return?\<close>

lemma replay_ready:
  assumes "Replay subst e st = Some (Some st')" "GetFileData (re_first_open e) (re_first_get e) st = Some (0, st1)"
  shows "\<not> main_wait st'"
proof -
  obtain ok st2 where tx: "setup_tx (re_feature_bits e) (re_tx e) st1 = (ok, st2)" by fastforce
  obtain status st3 where sp: "SetPortTransmitOnTimestamp (re_clock e) (re_clock_write e) (st2\<lparr>timeDelta := 0\<rparr>) = (status, st3)"
    by fastforce
  show ?thesis
  proof (cases "ok \<and> re_open e = 0 \<and> status = 0")
    case False
    with assms tx sp show ?thesis
      by (auto simp: Replay_def Let_def main_wait_def split: if_splits)
  next
    case True
    with assms tx sp obtain r st4 where
      l: "replay_loop subst (re_passes e) (st3\<lparr>totBytes := 0, threadReady := True\<rparr>) = Some (r, st4)"
      by (auto simp: Replay_def Let_def split: option.splits)
    have ready: "threadReady st4" using replay_loop_sends [OF l] by simp
    show ?thesis
    proof (cases "r = Break")
      case True
      with assms tx sp l \<open>ok \<and> re_open e = 0 \<and> status = 0\<close> have "replay_finish e st4 = Some st'"
        by (simp add: Replay_def)
      then have "\<not> appRunning st'" by (auto simp: replay_finish_def split: option.splits if_splits)
      then show ?thesis by (simp add: main_wait_def)
    next
      case False
      with assms tx sp l \<open>ok \<and> re_open e = 0 \<and> status = 0\<close> have "st' = st4"
        by (cases r) (auto simp: Replay_def)
      with ready show ?thesis by (simp add: main_wait_def)
    qed
  qed
qed

text \<open>C21: When the file cannot be opened or holds no packet, the replay thread returns without a word to
  \<open>main\<close>, which then waits for ever; in every other case the wait for the thread ends.\<close>

theorem main_hangs_without_first_packet:
  assumes "appRunning st" "\<not> threadReady st"
  shows "main_run subst e st = Some Main_waits_ready
     \<longleftrightarrow> \<not> re_first_open (mn_replay e) \<or> re_first_get (mn_replay e) = Get_eof"
proof (cases "\<not> re_first_open (mn_replay e) \<or> re_first_get (mn_replay e) = Get_eof")
  case True
  then have "Replay subst (mn_replay e) st = Some (Some st)"
    by (auto simp: Replay_def GetFileData_def)
  with True assms show ?thesis by (simp add: main_run_def main_wait_def)
next
  case False
  show ?thesis
  proof (cases "GetFileData (re_first_open (mn_replay e)) (re_first_get (mn_replay e)) st")
    case None
    with False show ?thesis by (simp add: main_run_def Replay_def)
  next
    case (Some p)
    with False obtain st1 where "GetFileData (re_first_open (mn_replay e)) (re_first_get (mn_replay e)) st = Some (0, st1)"
      by (auto simp: GetFileData_def split: file_get.splits)
    note r = replay_ready [OF _ this]
    with False show ?thesis
      by (auto simp: main_run_def split: option.splits)
  qed
qed

definition idle_config :: config_env where
  "idle_config = \<lparr>cf_open = 0, cf_cmd = 0, cf_close = 0, cf_native = 0\<rparr>"

definition missing_file :: main_env where
  "missing_file = \<lparr>mn_file = True, mn_port = 0, mn_substitute = None, mn_init = 0, mn_driver = Some (3, 24, 0),
     mn_check = \<lparr>ce_open = 0, ce_read_port = (\<lambda>_. Inr \<lparr>pi_numPorts = 2, pi_adapterNo = 0, pi_featureMask = 0\<rparr>),
                 ce_generation = Some 4, ce_unsupported = 1\<rparr>,
     mn_sigaction = True, mn_thread = True,
     mn_replay = \<lparr>re_feature_bits = \<lparr>NT_PORT_FEATURE_RX_ONLY = 1, NT_PORT_FEATURE_IPV4_TX_CHECKSUM_CALC = 2,
         NT_PORT_FEATURE_UDP_TX_CHECKSUM_CALC = 4, NT_PORT_FEATURE_TCP_TX_CHECKSUM_CALC = 8\<rparr>,
       re_first_open = False, re_first_get = Get_eof,
       re_tx = \<lparr>te_descriptor_mode = 0, te_pos_frame_type = 0, te_pos_checksum = 0, te_pos_fcs = 0, te_info_open = 0,
                te_read_port = Inl 0, te_read_adapter = 0, te_open = 0\<rparr>,
       re_open = 0, re_clock = idle_config, re_clock_write = 0, re_passes = [], re_waits = [], re_clear = idle_config\<rparr>\<rparr>"

theorem main_hangs_without_first_packet_witness:
  "addrswap_main True '''' missing_file = Some Main_waits_ready"
proof -
  have "addrswap_main True '''' missing_file = main_run None missing_file (replay_init\<lparr>adapterNo := 0\<rparr>)"
    by (simp add: addrswap_main_def missing_file_def checkDriverVersion_def CheckCapabilities_def is4GA_def flagged_def Let_def
        numeral_2_eq_2)
  moreover have "main_run None missing_file (replay_init\<lparr>adapterNo := 0\<rparr>) = Some Main_waits_ready"
    using main_hangs_without_first_packet [of "replay_init\<lparr>adapterNo := 0\<rparr>" None missing_file]
    by (simp add: replay_init_def missing_file_def)
  ultimately show ?thesis by simp
qed

text \<open>A clock that cannot be read is reported as a success, and nothing is written to the port.\<close>

lemma unread_clock_is_success:
  "cf_open c = 0 \<Longrightarrow> cf_cmd c \<noteq> 0 \<Longrightarrow> SetPortTransmitOnTimestamp c wr st = (0, st)"
  by (simp add: SetPortTransmitOnTimestamp_def)

end
