(* ===== verification/Boundary_Replay.thy ===== *)
theory Boundary_Replay
  imports Addrswap_Replay
begin

text \<open>
  boundary_replay.c: a capture file of at most 10 milliseconds is transmitted over and over, each
  repetition 10 milliseconds after the one before, from a start time on that is a multiple of a
  number of seconds.  The statuses of the library are handled as in the theory of the other replay
  program, from which the exit codes, the record of an access to the configuration stream and the
  answers of the transmit stream are taken; \<open>tool_common.h\<close> is the same file in both.

  The repetition counter is declared with the type \<open>uint34_t\<close>, which no header defines; the model
  uses the exact-width type that holds it, of 64 bits.  Time stamps are in ticks of 10 nanoseconds.
\<close>

section \<open>State\<close>

record boundary_state =
  b_running :: bool
  b_ready :: bool
  b_exit :: nat
  b_segments :: u64
  b_bytes :: u64
  b_totBytes :: u64
  b_offset :: u64
  b_first :: u64
  b_last :: u64
  b_sent :: "u64 list list"

definition boundary_init :: boundary_state where
  "boundary_init = \<lparr>b_running = True, b_ready = False, b_exit = NT_APPL_SUCCESS, b_segments = 0, b_bytes = 0, b_totBytes = 0,
     b_offset = 0, b_first = 0, b_last = 0, b_sent = []\<rparr>"

definition boundary_time :: u64 where "boundary_time = 1000000"

definition b_stop :: "nat \<Rightarrow> boundary_state \<Rightarrow> boundary_state" where
  "b_stop code st = st\<lparr>b_running := False, b_exit := code\<rparr>"

section \<open>Capabilities\<close>

text \<open>The properties read by \<open>read4GACapabilities\<close>: FPGA generation, zero-copy and timed transmission;
  \<open>None\<close> is a failed read.\<close>

record capabilities =
  is4GA_b :: bool
  zeroCopyTx :: bool
  zeroCopyTx4GA :: bool
  timedTx :: bool
  timedTx4GA :: bool

definition read4GACapabilities :: "int option \<Rightarrow> int option \<Rightarrow> int option \<Rightarrow> capabilities" where
  "read4GACapabilities generation zero_copy timed =
     (let g = is4GA False generation;
          z = (case zero_copy of None \<Rightarrow> False | Some i \<Rightarrow> i \<noteq> 0);
          t = (case timed of None \<Rightarrow> False | Some i \<Rightarrow> i \<noteq> 0)
      in \<lparr>is4GA_b = g, zeroCopyTx = z, zeroCopyTx4GA = (g \<and> z), timedTx = t, timedTx4GA = (g \<and> t)\<rparr>)"

datatype profile = Profile_capture | Profile_capture_replay | Profile_traffic_gen | Profile_inline | Profile_other

definition profile_line :: "profile \<Rightarrow> string" where
  "profile_line p = ''The ports are located on a '' @
     (case p of Profile_capture \<Rightarrow> ''Capture'' | Profile_capture_replay \<Rightarrow> ''Capture/Replay''
      | Profile_traffic_gen \<Rightarrow> ''Traffic gen'' | Profile_inline \<Rightarrow> ''Inline'' | Profile_other \<Rightarrow> ''Unknown'')
     @ '' profile.'' @ [CHR 0x0A]"

record boundary_check =
  bc_open :: nat
  bc_port1 :: "nat + profile"
  bc_caps :: capabilities
  bc_port2 :: "nat + u64"

text \<open>\<open>CheckCapabilities\<close>: status and verdict.\<close>

definition br_CheckCapabilities :: "u64 \<Rightarrow> boundary_check \<Rightarrow> nat \<times> bool" where
  "br_CheckCapabilities rx_only bc =
     (if bc_open bc \<noteq> 0 then (bc_open bc, False)
      else case bc_port1 bc of
        Inl status \<Rightarrow> (status, False)
      | Inr p \<Rightarrow>
          if p \<noteq> Profile_capture_replay \<and> \<not> zeroCopyTx4GA (bc_caps bc) then (0, False)
          else (case bc_port2 bc of
              Inl status \<Rightarrow> (status, False)
            | Inr features \<Rightarrow> if flagged features rx_only then (0, False) else (0, True)))"

section \<open>The file must be short enough\<close>

text \<open>The file as \<open>GetFileData\<close> meets it: whether it opens, whether a first segment is read, the results
  of the three queries, the time stamps of the packets of each segment, and whether the reading
  ends with the end of the file.\<close>

record file_scan =
  fs_open :: bool
  fs_first :: bool
  fs_firstTimestamp :: "u64 option"
  fs_filetype :: "file_type option"
  fs_nanotime :: "bool option"
  fs_segments :: "u64 list list"
  fs_eof :: bool

fun scan_segments :: "u64 \<Rightarrow> u64 list list \<Rightarrow> bool \<Rightarrow> nat" where
  "scan_segments first [] eof = (if eof then 0 else 1)"
| "scan_segments first (seg # segs) eof =
     (if list_ex (\<lambda>timestamp. timestamp - first > boundary_time) seg then 2 else scan_segments first segs eof)"

definition br_GetFileData :: "file_scan \<Rightarrow> boundary_state \<Rightarrow> nat \<times> boundary_state" where
  "br_GetFileData f st =
     (if \<not> fs_open f \<or> \<not> fs_first f then (1, st)
      else case fs_firstTimestamp f of
        None \<Rightarrow> (1, st)
      | Some t \<Rightarrow>
          (let st1 = st\<lparr>b_first := t\<rparr> in
           if fs_filetype f = None then (1, st1)
           else case fs_nanotime f of
             None \<Rightarrow> (1, st1)
           | Some nano \<Rightarrow>
               (let st2 = (if nano then st1\<lparr>b_first := t div 10\<rparr> else st1)
                in (scan_segments (b_first st2) (fs_segments f) (fs_eof f), st2))))"

section \<open>The start time\<close>

text \<open>\<open>CalcStartTS\<close>; a zero factor is a division by zero, \<open>None\<close>.\<close>

definition CalcStartTS :: "u64 \<Rightarrow> u32 \<Rightarrow> u64 option" where
  "CalcStartTS ts mod_fac =
     (if mod_fac = 0 then None
      else
        (let tmp_ts = (ts + 100000000 - 1) div 100000000;
             tmp_ts = tmp_ts + 1;
             tmp_ts = (tmp_ts + ucast (mod_fac - 1)) div ucast mod_fac * ucast mod_fac
         in Some (tmp_ts * 100000000)))"

text \<open>The clock of this program is read in ticks.\<close>

definition br_GetAdapterTimestamp :: "config_env \<Rightarrow> nat \<times> u64 option" where
  "br_GetAdapterTimestamp c =
     (if cf_open c \<noteq> 0 then (cf_open c, None)
      else if cf_cmd c \<noteq> 0 then (cf_cmd c, None)
      else (cf_close c, Some (cf_native c)))"

text \<open>\<open>CalculateOffset\<close>: an absolute start time in the past is reported and used.\<close>

definition CalculateOffset :: "u64 option \<Rightarrow> u32 \<Rightarrow> config_env \<Rightarrow> boundary_state \<Rightarrow> (nat \<times> boundary_state) option" where
  "CalculateOffset absoluteStartTime modFactor c st =
     (case br_GetAdapterTimestamp c of
        (status, ts) \<Rightarrow>
          if status \<noteq> 0 then Some (status, st)
          else map_option (\<lambda>beginTS. (0, st\<lparr>b_offset := beginTS - b_first st\<rparr>))
                 (case absoluteStartTime of Some t \<Rightarrow> Some t | None \<Rightarrow> CalcStartTS (the ts) modFactor))"

text \<open>\<open>SetPortTransmitOnTimestamp\<close>: status and the offset written, in nanoseconds.\<close>

definition br_SetPortTransmitOnTimestamp :: "config_env \<Rightarrow> u64 \<Rightarrow> nat \<times> u64 option" where
  "br_SetPortTransmitOnTimestamp c delta =
     (if cf_open c \<noteq> 0 then (cf_open c, None)
      else if cf_cmd c \<noteq> 0 then (cf_cmd c, None)
      else (cf_close c, Some (delta * 10)))"

definition Setup4GATransmitOnTimestamp ::
  "u64 option \<Rightarrow> u32 \<Rightarrow> config_env \<Rightarrow> config_env \<Rightarrow> boundary_state \<Rightarrow> (nat \<times> boundary_state) option" where
  "Setup4GATransmitOnTimestamp absoluteStartTime modFactor c c' st =
     (case CalculateOffset absoluteStartTime modFactor c st of
        None \<Rightarrow> None
      | Some (status, st1) \<Rightarrow>
          if status \<noteq> 0 then Some (status, st1)
          else Some (fst (br_SetPortTransmitOnTimestamp c' (b_offset st1)), st1))"

definition br_ClearPortTransmitOnTimestamp :: "config_env \<Rightarrow> nat" where
  "br_ClearPortTransmitOnTimestamp c =
     (if cf_open c \<noteq> 0 then cf_open c else if cf_cmd c \<noteq> 0 then cf_cmd c else cf_close c)"

definition Clear4GATransmitOnTimestamp :: "config_env \<Rightarrow> nat" where
  "Clear4GATransmitOnTimestamp c = br_ClearPortTransmitOnTimestamp c"

fun br_AwaitPacketTransmission :: "u64 \<Rightarrow> (bool \<times> config_env) list \<Rightarrow> nat option" where
  "br_AwaitPacketTransmission stop [] = None"
| "br_AwaitPacketTransmission stop ((running, c) # cs) =
     (if \<not> running then Some 0
      else case br_GetAdapterTimestamp c of
        (status, ts) \<Rightarrow>
          if status \<noteq> 0 then Some status
          else if the ts > stop then Some 0
          else br_AwaitPacketTransmission stop cs)"

section \<open>The replay thread\<close>

text \<open>A segment holds the time stamps of its packets and has a length; the end of the file comes with
  the time stamp of the last packet, when that can be read.\<close>

datatype seg_get = Seg (seg_stamps: "u64 list") (seg_length: u32) | Seg_eof (seg_last: "u64 option") | Seg_error

fun br_tx_get :: "(tx_status \<times> bool) list \<Rightarrow> tx_status option" where
  "br_tx_get [] = None"
| "br_tx_get ((status, running) # xs) = (if status = Tx_timeout \<and> running then br_tx_get xs else Some status)"

record seg_pass =
  sg_running :: bool
  sg_get :: seg_get
  sg_tx :: "(tx_status \<times> bool) list"
  sg_release :: bool
  sg_file_release :: bool

text \<open>The time stamp with which a packet is transmitted in a repetition.\<close>

definition stamp :: "u32 \<Rightarrow> u64 \<Rightarrow> u64 \<Rightarrow> u64" where
  "stamp path_delay iteration timestamp = timestamp - ucast path_delay + iteration * boundary_time"

definition br_step :: "u32 \<Rightarrow> u64 \<Rightarrow> seg_pass \<Rightarrow> boundary_state \<Rightarrow> pass_end \<times> boundary_state" where
  "br_step path_delay iteration ps st0 =
     (let st = (if sg_running ps then st0 else st0\<lparr>b_running := False\<rparr>) in
      if \<not> b_running st then (Break, st)
      else case sg_get ps of
        Seg_eof None \<Rightarrow> (Return, st\<lparr>b_exit := NT_APPL_ERROR_NTAPI\<rparr>)
      | Seg_eof (Some last_ts) \<Rightarrow> (Break, st\<lparr>b_last := last_ts\<rparr>)
      | Seg_error \<Rightarrow> (Return, b_stop NT_APPL_ERROR_NTAPI st)
      | Seg stamps len \<Rightarrow>
          (case br_tx_get (sg_tx ps) of
             None \<Rightarrow> (Waiting, st)
           | Some status \<Rightarrow>
               if status = Tx_timeout then (Break, st\<lparr>b_running := False\<rparr>)
               else if status \<noteq> Tx_ok then (Return, b_stop NT_APPL_ERROR_NTAPI st)
               else
                 (let st1 = st\<lparr>b_segments := b_segments st + 1, b_bytes := b_bytes st + ucast len,
                               b_totBytes := b_totBytes st + ucast len\<rparr> in
                  if \<not> sg_release ps then (Return, b_stop NT_APPL_ERROR_NTAPI st1)
                  else
                    (let st2 = st1\<lparr>b_sent := b_sent st1 @ [map (stamp path_delay iteration) stamps]\<rparr> in
                     if \<not> sg_file_release ps then (Return, b_stop NT_APPL_ERROR_NTAPI st2) else (Continue, st2)))))"

fun br_segments :: "u32 \<Rightarrow> u64 \<Rightarrow> seg_pass list \<Rightarrow> boundary_state \<Rightarrow> pass_end \<times> boundary_state" where
  "br_segments path_delay iteration [] st = (Waiting, st)"
| "br_segments path_delay iteration (ps # pss) st =
     (case br_step path_delay iteration ps st of
        (Continue, st') \<Rightarrow> br_segments path_delay iteration pss st'
      | r \<Rightarrow> r)"

text \<open>The outer loop: each element holds the status of opening the file and the passes of one
  repetition.  A count of 0 is no limit.\<close>

fun br_iterations :: "u32 \<Rightarrow> u32 \<Rightarrow> u64 \<Rightarrow> (nat \<times> seg_pass list) list \<Rightarrow> boundary_state \<Rightarrow> pass_end \<times> u64 \<times> boundary_state" where
  "br_iterations path_delay opt_loop iteration [] st = (Waiting, iteration, st)"
| "br_iterations path_delay opt_loop iteration ((status, pss) # its) st =
     (if status \<noteq> 0 then (Return, iteration, b_stop NT_APPL_ERROR_NTAPI st)
      else
        (case br_segments path_delay iteration pss (st\<lparr>b_totBytes := 0, b_ready := True\<rparr>) of
           (Break, st') \<Rightarrow>
             if b_running st' \<and> (opt_loop = 0 \<or> iteration + 1 < ucast opt_loop)
             then br_iterations path_delay opt_loop (iteration + 1) its st'
             else (Break, iteration + 1, st')
         | (r, st') \<Rightarrow> (r, iteration, st')))"

record boundary_env =
  be_tx_open :: nat
  be_timed :: bool
  be_filetype_nt :: bool
  be_start :: "u64 option"
  be_modFactor :: u32
  be_clock :: config_env
  be_write :: config_env
  be_delay :: u32
  be_loop :: u32
  be_iterations :: "(nat \<times> seg_pass list) list"
  be_waits :: "(bool \<times> config_env) list"
  be_clear :: config_env

definition br_finish :: "boundary_env \<Rightarrow> boundary_state \<Rightarrow> boundary_state option" where
  "br_finish e st =
     (if be_timed e then
        (case br_AwaitPacketTransmission (b_last st + b_offset st) (map (\<lambda>(r, c). (b_running st \<and> r, c)) (be_waits e)) of
           None \<Rightarrow> None
         | Some _ \<Rightarrow>
             if Clear4GATransmitOnTimestamp (be_clear e) \<noteq> 0 then Some (b_stop NT_APPL_ERROR_NTAPI st)
             else Some (st\<lparr>b_running := False\<rparr>))
      else Some (st\<lparr>b_running := False\<rparr>))"

text \<open>\<open>_ReplayData\<close>: \<open>None\<close> is a fault, \<open>Some None\<close> a thread that has not returned yet.\<close>

definition ReplayData :: "boundary_env \<Rightarrow> boundary_state \<Rightarrow> boundary_state option option" where
  "ReplayData e st =
     (if be_tx_open e \<noteq> 0 then Some (Some (b_stop NT_APPL_ERROR_NTAPI st))
      else if \<not> be_timed e \<and> \<not> be_filetype_nt e then Some (Some (b_stop NT_APPL_ERROR_NTAPI st))
      else
        (case (if be_timed e then Setup4GATransmitOnTimestamp (be_start e) (be_modFactor e) (be_clock e) (be_write e) st
               else Some (0, st)) of
           None \<Rightarrow> None
         | Some (status, st1) \<Rightarrow>
             if status \<noteq> 0 then Some (Some (b_stop NT_APPL_ERROR_NTAPI st1))
             else
               (case br_iterations (be_delay e) (be_loop e) 0 (be_iterations e) st1 of
                  (Break, n, st2) \<Rightarrow> Some (br_finish e st2)
                | (Waiting, n, st2) \<Rightarrow> Some None
                | (_, n, st2) \<Rightarrow> Some (Some st2))))"

section \<open>main\<close>

record boundary_main_env =
  bm_file :: bool
  bm_start :: "u64 option option"
  bm_modFactor :: u32
  bm_init :: nat
  bm_rx_only :: u64
  bm_check :: boundary_check
  bm_scan :: file_scan
  bm_sigaction :: bool
  bm_thread :: bool
  bm_env :: boundary_env

text \<open>The factor, with its default.\<close>

definition mod_default :: "u32 \<Rightarrow> bool \<Rightarrow> u32" where
  "mod_default m start = (if m = - 1 \<and> \<not> start then 15 else m)"

text \<open>\<open>bm_start\<close> is the start time option, \<open>Some None\<close> one that cannot be read.  How \<open>main\<close> ends: with an
  exit code, waiting for a thread that does not return, or in its progress loop, which ends only when
  the thread clears \<open>appRunning\<close> or the clock cannot be read.\<close>

datatype boundary_end = B_exit nat | B_waits_thread | B_progress_loop

definition br_main_run :: "boundary_env \<Rightarrow> boundary_state \<Rightarrow> boundary_end option" where
  "br_main_run e st =
     (case ReplayData e st of
        None \<Rightarrow> None
      | Some None \<Rightarrow> Some B_waits_thread
      | Some (Some st') \<Rightarrow> Some (if b_running st' then B_progress_loop else B_exit (b_exit st')))"

definition boundary_main :: "boundary_main_env \<Rightarrow> boundary_end option" where
  "boundary_main m =
     (if bm_start m = Some None then Some (B_exit NT_APPL_ERROR_OPT_ARG)
      else if \<not> bm_file m then Some (B_exit NT_APPL_ERROR_OPT_MISSING)
      else if bm_modFactor m \<noteq> - 1 \<and> bm_start m \<noteq> None then Some (B_exit NT_APPL_ERROR_OPT_CONFLICT)
      else if bm_modFactor m = 0 then Some (B_exit NT_APPL_ERROR_OPT_ARG)
      else if bm_init m \<noteq> 0 then Some (B_exit NT_APPL_ERROR_NTAPI)
      else
        (let (status, passed) = br_CheckCapabilities (bm_rx_only m) (bm_check m) in
         if status \<noteq> 0 then Some (B_exit NT_APPL_ERROR_NTAPI)
         else if \<not> passed then Some (B_exit NT_APPL_ERROR_OPT_ARG)
         else
           (let (r, st) = br_GetFileData (bm_scan m) boundary_init in
            if r \<noteq> 0 then Some (B_exit NT_APPL_ERROR_NTAPI)
            else if \<not> bm_sigaction m \<or> \<not> bm_thread m then Some (B_exit NT_APPL_ERROR_OS)
            else br_main_run ((bm_env m)\<lparr>be_timed := timedTx4GA (bc_caps (bm_check m)),
                                         be_filetype_nt := (fs_filetype (bm_scan m) = Some NT_NETFILE_TYPE_NT),
                                         be_start := (case bm_start m of None \<Rightarrow> None | Some t \<Rightarrow> t),
                                         be_modFactor := mod_default (bm_modFactor m) (bm_start m \<noteq> None)\<rparr>) st)))"

text \<open>The table of options.\<close>

definition boundary_options :: "argparse_option list" where
  "boundary_options =
     [replay_opt_help,
      replay_opt ARGPARSE_OPT_STRING CHR ''f'' ''file'' 0 ''Specifies the file to replay.'' ''file name'',
      replay_opt ARGPARSE_OPT_INTEGER CHR ''p'' ''port'' 1 ''Port on which a pcap file should be replayed'' ''opt_port'',
      replay_opt ARGPARSE_OPT_INTEGER CHR ''l'' ''loop'' 2 ''limit replay this many iterations of the file and terminate'' ''opt_loop'',
      replay_opt ARGPARSE_OPT_INTEGER CHR ''m'' ''modfac'' 3
        ''Transmission begin time stamp modulus factor in seconds (default 15 secs.).'' ''modfac'',
      replay_opt ARGPARSE_OPT_INTEGER CHR ''d'' ''path_delay'' 4 ''Path Delay in 10 nSec clicks'' ''opt_path_delay'',
      replay_opt ARGPARSE_OPT_STRING CHR ''s'' ''starttime'' 5
        (''Absolute transmission begin time stamp (UTC).'' @ [CHR 0x0A] @ ''Format: YYYY/MM/DD-HH:MM:SS, HH:MM:SS or HH:MM'')
        ''starttime'']"

definition boundary_defaults :: argvars where
  "boundary_defaults = \<lparr>v_int = (\<lambda>i. if i = 1 \<or> i = 3 then - 1 else 0), v_u64 = (\<lambda>_. 0), v_str = (\<lambda>_. None)\<rparr>"

text \<open>The program on its arguments; \<open>parse_start\<close> reads the start time, \<open>None\<close> for an invalid one.\<close>

definition boundary_command :: "string list \<Rightarrow> (string \<Rightarrow> u64 option) \<Rightarrow> boundary_main_env \<Rightarrow> boundary_end option" where
  "boundary_command args parse_start m =
     (case argparse_parse Addrswap (argparse_init boundary_options [[]] False boundary_defaults) args of
        Inl Undefined \<Rightarrow> None
      | Inl (Exit code _) \<Rightarrow> Some (B_exit (nat (code mod 256)))
      | Inr (_, vars) \<Rightarrow>
          boundary_main (m\<lparr>bm_file := v_str vars 0 \<noteq> None, bm_start := map_option parse_start (v_str vars 5),
                           bm_modFactor := v_int vars 3,
                           bm_env := (bm_env m)\<lparr>be_delay := v_int vars 4, be_loop := v_int vars 2\<rparr>\<rparr>))"

section \<open>The start time\<close>

lemma unat_of_nat_64: "n < 2 ^ 64 \<Longrightarrow> unat (of_nat n :: u64) = n"
  by (simp only: unsigned_of_nat take_bit_eq_mod) simp


lemma div_of_nat_64: "x < 2 ^ 64 \<Longrightarrow> y < 2 ^ 64 \<Longrightarrow> (of_nat x :: u64) div of_nat y = of_nat (x div y)"
proof (rule word_unat_eq_iff [THEN iffD2])
  assume "x < 2 ^ 64" "y < 2 ^ 64"
  moreover from this have "x div y < 2 ^ 64" by (meson div_le_dividend le_less_trans)
  ultimately show "unat ((of_nat x :: u64) div of_nat y) = unat (of_nat (x div y) :: u64)"
    by (simp only: unat_div_distrib unat_of_nat_64)
qed

lemma ucast_of_nat_64: "(ucast (w :: u32) :: u64) = of_nat (unat w)"
  by simp

lemma div_up_bounds:
  fixes x d :: nat
  assumes "0 < d"
  shows "x \<le> (x + (d - 1)) div d * d" "(x + (d - 1)) div d * d < x + d"
proof -
  have "(x + (d - 1)) div d * d + (x + (d - 1)) mod d = x + (d - 1)" by simp
  moreover have "(x + (d - 1)) mod d < d" using assms by simp
  ultimately show "x \<le> (x + (d - 1)) div d * d" "(x + (d - 1)) div d * d < x + d" using assms by linarith+
qed

text \<open>The start time is a multiple of the factor in seconds, at least one second and at most the factor
  and two seconds after the adapter time.\<close>

theorem start_time_bounds:
  assumes "CalcStartTS ts mod_fac = Some t" "unat ts < 2 ^ 63"
  shows "unat mod_fac * 100000000 dvd unat t \<and> unat ts + 100000000 \<le> unat t
     \<and> unat t < unat ts + (unat mod_fac + 2) * 100000000"
proof -
  define m where "m = unat mod_fac"
  define a where "a = unat ts"
  have m: "0 < m" "m < 2 ^ 32" using assms(1) unsigned_less [of mod_fac]
    by (auto simp: m_def CalcStartTS_def unat_gt_0 split: if_splits)
  have a: "a < 2 ^ 63" using assms(2) by (simp add: a_def)
  define s where "s = (a + 99999999) div 100000000 + 1"
  have s: "a + 100000000 \<le> s * 100000000" "s * 100000000 < a + 200000000"
    using div_up_bounds [of 100000000 a] unfolding s_def by simp_all
  define q where "q = (s + (m - 1)) div m"
  have q1: "s \<le> q * m" "q * m < s + m" unfolding q_def using div_up_bounds [OF m(1)] by auto
  have big: "s + (m - 1) < 2 ^ 64" "q * m * 100000000 < 2 ^ 64" "q * m < 2 ^ 64" "a + 100000000 < 2 ^ 64"
  proof -
    have "m < 4294967296" "a < 9223372036854775808" using m a by simp_all
    with s q1 have "s + (m - 1) < 18446744073709551616" "q * m * 100000000 < 18446744073709551616"
      "q * m < 18446744073709551616" "a + 100000000 < 18446744073709551616" by linarith+
    then show "s + (m - 1) < 2 ^ 64" "q * m * 100000000 < 2 ^ 64" "q * m < 2 ^ 64" "a + 100000000 < 2 ^ 64" by simp_all
  qed
  have t: "unat t = q * m * 100000000"
  proof -
    have e1: "ts + 100000000 - 1 = of_nat (a + 99999999)" by (simp add: a_def)
    have e2: "(100000000 :: u64) = of_nat 100000000" by simp
    have "(ts + 100000000 - 1) div 100000000 = of_nat ((a + 99999999) div 100000000)"
      unfolding e1 by (subst e2, rule div_of_nat_64) (use big(4) in auto)
    then have e3: "(ts + 100000000 - 1) div 100000000 + 1 = of_nat s" by (simp add: s_def)
    have u: "unat (mod_fac - 1) = m - 1"
      using m(1) by (simp add: m_def unat_minus_one unat_gt_0)
    have e4: "of_nat s + ucast (mod_fac - 1) = (of_nat (s + (m - 1)) :: u64)"
      by (simp only: ucast_of_nat_64 u of_nat_add)
    have e6: "(ucast mod_fac :: u64) = of_nat m" by (simp only: ucast_of_nat_64 m_def)
    have e5: "(of_nat (s + (m - 1)) :: u64) div of_nat m = of_nat q"
      unfolding q_def by (rule div_of_nat_64) (use big(1) m(2) in auto)
    have "mod_fac \<noteq> 0" using m(1) by (auto simp: m_def)
    with assms(1) have "t = of_nat q * of_nat m * 100000000"
      unfolding CalcStartTS_def Let_def e3 e4 e6 e5 by simp
    then have "t = of_nat (q * m * 100000000)" by simp
    then show ?thesis using big(2) by (simp only: unat_of_nat_64)
  qed
  define x where "x = q * m"
  have "x * 100000000 < a + (m + 2) * 100000000" using s q1 unfolding x_def [symmetric] by simp
  moreover have "a + 100000000 \<le> x * 100000000" using s q1 unfolding x_def [symmetric] by simp
  ultimately have "q * m * 100000000 < a + (m + 2) * 100000000" "a + 100000000 \<le> q * m * 100000000"
    unfolding x_def by simp_all
  then show ?thesis unfolding t m_def [symmetric] a_def [symmetric] by (simp add: mult.assoc mult.commute)
qed

theorem start_time_bounds_witness:
  "CalcStartTS 1250000001 15 = Some 1500000000 \<and> (15 * 100000000 dvd (1500000000 :: nat)
     \<and> 1250000001 + 100000000 \<le> (1500000000 :: nat) \<and> (1500000000 :: nat) < 1250000001 + (15 + 2) * 100000000)"
proof -
  have c: "CalcStartTS 1250000001 15 = Some 1500000000" by code_simp
  from start_time_bounds [OF this] c show ?thesis by simp
qed

section \<open>The length of the file\<close>

lemma scan_segments_too_long:
  "\<exists>ts \<in> set (concat segs). ts - first > boundary_time \<Longrightarrow> scan_segments first segs eof = 2"
  by (induction first segs eof rule: scan_segments.induct) (auto simp: list_ex_iff)

lemma scan_segments_accepts:
  "scan_segments first segs eof = 0 \<longleftrightarrow> eof \<and> (\<forall>ts \<in> set (concat segs). ts - first \<le> boundary_time)"
  by (induction first segs eof rule: scan_segments.induct) (auto simp: list_ex_iff list_all_iff not_le)

lemma nanotime_difference:
  assumes "1111112 \<le> unat (t :: u64)"
  shows "t - t div 10 > boundary_time"
proof -
  have "unat (t div 10) = unat t div 10" by (simp add: unat_div_distrib)
  then have "unat (t - t div 10) = unat t - unat t div 10"
    by (simp add: unat_sub word_le_nat_alt)
  moreover have "unat t div 10 * 10 \<le> unat t" by simp
  ultimately have "1000000 < unat (t - t div 10)" using assms by linarith
  then show ?thesis by (simp add: boundary_time_def word_less_nat_alt)
qed

text \<open>A file with nanosecond time stamps is always refused as too long: its first time stamp is
  divided by ten before it is compared with the time stamps of the packets, which are not.\<close>

theorem nanotime_file_refused:
  assumes "fs_open f" "fs_first f" "fs_firstTimestamp f = Some t" "fs_filetype f \<noteq> None" "fs_nanotime f = Some True"
    and "t \<in> set (concat (fs_segments f))" "1111112 \<le> unat t"
  shows "fst (br_GetFileData f st) = 2"
proof -
  have "\<exists>ts \<in> set (concat (fs_segments f)). ts - t div 10 > boundary_time"
    using assms(6) nanotime_difference [OF assms(7)] by blast
  from scan_segments_too_long [OF this] show ?thesis
    using assms(1-5) by (auto simp: br_GetFileData_def Let_def)
qed

theorem nanotime_file_refused_witness:
  "fst (br_GetFileData \<lparr>fs_open = True, fs_first = True, fs_firstTimestamp = Some 1700000000000000000,
     fs_filetype = Some NT_NETFILE_TYPE_PCAP_NG, fs_nanotime = Some True, fs_segments = [[1700000000000000000]], fs_eof = True\<rparr> boundary_init) = 2"
  by (rule nanotime_file_refused [of _ 1700000000000000000]) simp_all

section \<open>Repetitions\<close>









text \<open>The wait at the end reads the time stamp of the last packet of the file, which is that of the first
  repetition: with \<open>n\<close> repetitions it is over the path delay less \<open>n - 1\<close> times 10 milliseconds early.\<close>

lemma wait_ignores_repetitions:
  "stamp path_delay (of_nat n) (b_last st) + b_offset st
     = (b_last st + b_offset st) + of_nat n * boundary_time - ucast path_delay"
  by (simp add: stamp_def)

section \<open>Does main return?\<close>

text \<open>A pass that leaves the loop although the program is still running.\<close>

definition unread_end :: "seg_pass \<Rightarrow> bool" where
  "unread_end ps \<longleftrightarrow> sg_get ps = Seg_eof None"

lemma br_step_return: "br_step path_delay k ps st = (Return, st') \<Longrightarrow> b_running st' \<Longrightarrow> unread_end ps"
  by (auto simp: br_step_def Let_def b_stop_def unread_end_def split: if_splits seg_get.splits option.splits)

lemma br_segments_return:
  "br_segments path_delay k pss st = (Return, st') \<Longrightarrow> b_running st' \<Longrightarrow> \<exists>ps \<in> set pss. unread_end ps"
proof (induction pss arbitrary: st)
  case (Cons ps pss)
  obtain r st1 where s: "br_step path_delay k ps st = (r, st1)" by fastforce
  show ?case
  proof (cases "r = Continue")
    case True
    with Cons s show ?thesis by auto
  next
    case False
    with Cons.prems s have "r = Return" "st1 = st'" by (cases r; simp)+
    with s Cons.prems(2) show ?thesis using br_step_return by auto
  qed
qed simp

lemma br_segments_end: "fst (br_segments path_delay k pss st) \<noteq> Continue"
  by (induction pss arbitrary: st) (auto split: prod.splits pass_end.splits)

lemma br_iterations_end: "fst (br_iterations path_delay opt_loop k its st) \<noteq> Continue"
proof (induction path_delay opt_loop k its st rule: br_iterations.induct)
  case (2 path_delay opt_loop k status pss its st)
  obtain r st1 where s: "br_segments path_delay k pss (st\<lparr>b_totBytes := 0, b_ready := True\<rparr>) = (r, st1)" by fastforce
  then have "r \<noteq> Continue" using br_segments_end by (metis fst_conv)
  with s "2.IH" show ?case by (cases r) auto
qed simp

lemma br_iterations_return:
  "br_iterations path_delay opt_loop k its st = (Return, n, st') \<Longrightarrow> b_running st' \<Longrightarrow>
     \<exists>it \<in> set its. \<exists>ps \<in> set (snd it). unread_end ps"
proof (induction path_delay opt_loop k its st rule: br_iterations.induct)
  case (2 path_delay opt_loop k status pss its st)
  obtain r st1 where s: "br_segments path_delay k pss (st\<lparr>b_totBytes := 0, b_ready := True\<rparr>) = (r, st1)" by fastforce
  show ?case
  proof (cases "status = 0")
    case False
    with "2.prems" show ?thesis by (auto simp: b_stop_def)
  next
    case True
    show ?thesis
    proof (cases "r = Break")
      case True
      with \<open>status = 0\<close> s "2.prems" "2.IH" show ?thesis by (auto split: if_splits)
    next
      case False
      with \<open>status = 0\<close> s "2.prems"(1) have "r = Return" "st1 = st'" by (cases r; simp)+
      with s "2.prems"(2) br_segments_return show ?thesis by force
    qed
  qed
qed simp

text \<open>Once the thread has returned, \<open>main\<close> stays in its progress loop for one reason only: the time
  stamp of the last packet could not be read at the end of the file, the one error after which the
  thread returns without clearing \<open>appRunning\<close>.\<close>

theorem progress_loop_ends:
  assumes "br_main_run e st = Some B_progress_loop"
  shows "\<exists>it \<in> set (be_iterations e). \<exists>ps \<in> set (snd it). sg_get ps = Seg_eof None"
proof -
  obtain st' where r: "ReplayData e st = Some (Some st')" "b_running st'"
    using assms by (auto simp: br_main_run_def split: option.splits if_splits)
  then obtain st1 k n where
    "br_iterations (be_delay e) (be_loop e) k (be_iterations e) st1 = (Return, n, st')"
    using br_iterations_end [of "be_delay e" "be_loop e" 0 "be_iterations e"]
    by (auto simp: ReplayData_def b_stop_def br_finish_def split: if_splits option.splits prod.splits pass_end.splits) (metis fst_conv)+
  with br_iterations_return [OF this r(2)] show ?thesis by (simp add: unread_end_def)
qed

definition unread_last_stamp :: boundary_env where
  "unread_last_stamp = \<lparr>be_tx_open = 0, be_timed = False, be_filetype_nt = True, be_start = None, be_modFactor = 15,
     be_clock = idle_config, be_write = idle_config, be_delay = 0, be_loop = 1,
     be_iterations = [(0, [\<lparr>sg_running = True, sg_get = Seg_eof None, sg_tx = [], sg_release = True, sg_file_release = True\<rparr>])],
     be_waits = [], be_clear = idle_config\<rparr>"

theorem progress_loop_ends_witness:
  "br_main_run unread_last_stamp boundary_init = Some B_progress_loop
   \<and> (\<exists>it \<in> set (be_iterations unread_last_stamp). \<exists>ps \<in> set (snd it). sg_get ps = Seg_eof None)"
proof -
  have "br_main_run unread_last_stamp boundary_init = Some B_progress_loop"
    by (simp add: br_main_run_def ReplayData_def unread_last_stamp_def boundary_init_def br_step_def Let_def)
  with progress_loop_ends [OF this] show ?thesis by blast
qed

end
