(* ===== verification/Hb_Monitor.thy ===== *)
theory Hb_Monitor
  imports Libc
begin

text \<open>
  hbMonitor.c: reading the usage of the host buffers of every stream (\<open>readStreamStats\<close>), and the
  rows that are put on the screen for them (\<open>outputStats\<close>).

  What the library reports for a host buffer is a record of numbers; the arithmetic on them before
  they are narrowed is that of the natural numbers, and the variables of the program have their
  widths.  The program ends with \<open>exit(0)\<close> when the library fails (\<open>Hb_exit\<close>); an access outside of
  an array and a division by zero are \<open>Hb_fault\<close>.
\<close>

section \<open>Data\<close>

definition MAX_STREAMS :: nat where "MAX_STREAMS = 256"
definition HB_HIGHWATER :: u32 where "HB_HIGHWATER = 2048"

record hb_stats =
  obFillLevel :: u64
  hbFillLevel :: u64
  pktsPrev :: u64
  pktsTotal :: u64
  dropPrev :: u64
  dropTotal :: u64

record stream_stats =
  ss_hb :: "hb_stats list"
  ss_active :: bool
  pktsCurr :: u64
  dropCurr :: u64
  aveOBFillLevel :: u32
  aveHBFillLevel :: u32
  ss_adapterNo :: u32

text \<open>The state after \<open>memset\<close>: two host buffers for each of 256 streams.\<close>

definition hb_zero :: hb_stats where
  "hb_zero = \<lparr>obFillLevel = 0, hbFillLevel = 0, pktsPrev = 0, pktsTotal = 0, dropPrev = 0, dropTotal = 0\<rparr>"

definition stream_zero :: stream_stats where
  "stream_zero = \<lparr>ss_hb = replicate 2 hb_zero, ss_active = False, pktsCurr = 0, dropCurr = 0,
     aveOBFillLevel = 0, aveHBFillLevel = 0, ss_adapterNo = 0\<rparr>"

definition streams_zero :: "stream_stats list" where
  "streams_zero = replicate MAX_STREAMS stream_zero"

text \<open>What the library reports for one host buffer.\<close>

record hb_usage =
  hu_adapterNo :: nat
  hu_used :: nat
  hu_size :: nat
  hu_enQueuedAdapter :: nat
  hu_deQueued :: nat
  hu_enQueued :: nat
  hu_rx_frames :: u64
  hu_drop_frames :: u64

datatype hb_stop = Hb_exit | Hb_fault

section \<open>One host buffer\<close>

definition bufSize :: "hb_usage \<Rightarrow> u32" where
  "bufSize u = of_nat (hu_enQueuedAdapter u div 1024 + hu_deQueued u div 1024 + hu_enQueued u div 1024) - HB_HIGHWATER"

text \<open>The body of the loop over the host buffers, for host buffer \<open>i\<close>.\<close>

definition update_hb :: "hb_usage \<Rightarrow> hb_stats \<Rightarrow> hb_stats" where
  "update_hb u h =
     (let ob = of_nat (100 * hu_used u div hu_size u) in
      h\<lparr>obFillLevel := (if ob > 100 then 100 else ob),
        hbFillLevel := ucast (of_nat (100 * hu_deQueued u div 1024 div unat (bufSize u)) :: u32),
        pktsPrev := pktsTotal h, pktsTotal := hu_rx_frames u,
        dropPrev := dropTotal h, dropTotal := hu_drop_frames u\<rparr>)"

definition read_hb :: "hb_usage \<Rightarrow> nat \<Rightarrow> stream_stats \<Rightarrow> hb_stop + stream_stats" where
  "read_hb u i s =
     (if length (ss_hb s) \<le> i \<or> hu_size u = 0 \<or> bufSize u = 0 then Inl Hb_fault
      else
        (let h = update_hb u (ss_hb s ! i) in
         Inr (s\<lparr>ss_adapterNo := ss_adapterNo s OR push_bit (hu_adapterNo u) 1,
               ss_hb := (ss_hb s)[i := h],
               pktsCurr := pktsTotal h - pktsPrev h,
               dropCurr := dropTotal h - dropPrev h,
               aveOBFillLevel := aveOBFillLevel s + ucast (obFillLevel h),
               aveHBFillLevel := aveHBFillLevel s + ucast (hbFillLevel h)\<rparr>)))"

fun read_hbs :: "hb_usage list \<Rightarrow> nat \<Rightarrow> stream_stats \<Rightarrow> hb_stop + stream_stats" where
  "read_hbs [] i s = Inr s"
| "read_hbs (u # us) i s =
     (case read_hb u i s of Inl e \<Rightarrow> Inl e | Inr s' \<Rightarrow> read_hbs us (i + 1) s')"

section \<open>One stream\<close>

definition percent :: "u32 \<Rightarrow> nat \<Rightarrow> u32" where
  "percent level n = (let a = level div of_nat n in if a > 100 then 100 else a)"

definition read_stream :: "hb_usage list \<Rightarrow> stream_stats \<Rightarrow> hb_stop + stream_stats" where
  "read_stream us s =
     (case read_hbs us 0 (s\<lparr>ss_active := True, aveOBFillLevel := 0, aveHBFillLevel := 0\<rparr>) of
        Inl e \<Rightarrow> Inl e
      | Inr s' \<Rightarrow> Inr (s'\<lparr>aveOBFillLevel := percent (aveOBFillLevel s') (length us),
                         aveHBFillLevel := percent (aveHBFillLevel s') (length us)\<rparr>))"

section \<open>All streams\<close>

text \<open>The loop that looks for the next stream with host buffers.  The stream is asked for by an 8-bit
  number; \<open>usage\<close> answers with the host buffers in use, or not at all.\<close>

function find_stream :: "(nat \<Rightarrow> hb_usage list option) \<Rightarrow> nat \<Rightarrow> stream_stats list \<Rightarrow>
    hb_stop + nat \<times> hb_usage list \<times> stream_stats list" where
  "find_stream usage stream_id ss =
     (case usage (stream_id mod 256) of
        None \<Rightarrow> Inl Hb_exit
      | Some us \<Rightarrow>
          if length ss \<le> stream_id then Inl Hb_fault
          else if us = [] then find_stream usage (stream_id + 1) (ss[stream_id := (ss ! stream_id)\<lparr>ss_active := False\<rparr>])
          else Inr (stream_id, us, ss))"
  by pat_completeness auto
termination
  by (relation "measure (\<lambda>(usage, stream_id, ss). length ss - stream_id)") auto

declare find_stream.simps [simp del]

fun read_streams :: "(nat \<Rightarrow> hb_usage list option) \<Rightarrow> nat \<Rightarrow> nat \<Rightarrow> stream_stats list \<Rightarrow> hb_stop + nat \<times> stream_stats list" where
  "read_streams usage 0 stream_id ss = Inr (stream_id, ss)"
| "read_streams usage (Suc n) stream_id ss =
     (case find_stream usage stream_id ss of
        Inl e \<Rightarrow> Inl e
      | Inr (i, us, ss1) \<Rightarrow>
          (case read_stream us (ss1 ! i) of
             Inl e \<Rightarrow> Inl e
           | Inr s \<Rightarrow> read_streams usage n (i + 1) (ss1[i := s])))"

text \<open>\<open>readStreamStats\<close>; \<open>count\<close> is the number of streams, when it can be read.\<close>

definition readStreamStats ::
  "nat option \<Rightarrow> (nat \<Rightarrow> hb_usage list option) \<Rightarrow> stream_stats list \<Rightarrow> hb_stop + nat \<times> stream_stats list" where
  "readStreamStats count usage ss =
     (case count of
        None \<Rightarrow> Inl Hb_exit
      | Some n \<Rightarrow> (case read_streams usage n 0 ss of Inl e \<Rightarrow> Inl e | Inr (i, ss') \<Rightarrow> Inr (n, ss')))"

section \<open>The screen\<close>

type_synonym screen = "(nat \<times> nat \<times> string) list"

text \<open>The bar of a level: a mark for every third of a percent up to the level, then blanks up to 100.\<close>

definition marks :: "u32 \<Rightarrow> nat" where "marks level = (unat level + 2) div 3"
definition blanks :: "u32 \<Rightarrow> nat" where "blanks level = (100 - unat level + 2) div 3"

definition draw_bar :: "nat \<Rightarrow> nat \<Rightarrow> u32 \<Rightarrow> screen" where
  "draw_bar row col level =
     map (\<lambda>i. (row, col + i, ''|'')) [0..<marks level]
     @ map (\<lambda>i. (row, col + marks level + i, '' '')) [0..<blanks level]"

text \<open>The numbers of the adapters of the stream, two columns each; the missing ones make up the width
  afterwards.\<close>

definition adapters :: "stream_stats \<Rightarrow> nat list" where
  "adapters s = filter (\<lambda>a. flagged (push_bit a 1) (ss_adapterNo s)) [0, 1, 2, 3]"

definition draw_adapters :: "nat \<Rightarrow> nat list \<Rightarrow> screen" where
  "draw_adapters row as = map (\<lambda>(i, a). (row, 2 * i, show_dec a @ '' '')) (enumerate 0 as)"

text \<open>\<open>%8d\<close> is given a 64-bit number and prints its lower half, signed.\<close>

definition draw_stream :: "nat \<Rightarrow> nat \<Rightarrow> stream_stats \<Rightarrow> screen" where
  "draw_stream row cnt s =
     (let col0 = 12;
          col1 = col0 + 15;
          col2 = col1 + marks (aveHBFillLevel s) + blanks (aveHBFillLevel s);
          col3 = col2 + 7;
          col4 = col3 + marks (aveOBFillLevel s) + blanks (aveOBFillLevel s)
      in draw_adapters row (adapters s)
         @ [(row, col0, pad_left CHR '' '' 8 (show_int (sint (ucast (2 * pktsCurr s) :: u32))) @ '' ''
                @ pad_left CHR '' '' 4 (show_dec cnt) @ '':['')]
         @ draw_bar row col1 (aveHBFillLevel s)
         @ [(row, col2, pad_left CHR '' '' 3 (show_dec (unat (aveHBFillLevel s))) @ ''%]:['')]
         @ draw_bar row col3 (aveOBFillLevel s)
         @ [(row, col4, pad_left CHR '' '' 4 (show_dec (unat (aveOBFillLevel s))) @ ''%] ''
                @ pad_left CHR '' '' 8 (show_int (sint (dropCurr s))))])"

text \<open>The next active stream; the array is read before the bound is tested.\<close>

function next_active :: "stream_stats list \<Rightarrow> nat \<Rightarrow> nat option" where
  "next_active ss cnt =
     (if length ss \<le> cnt then None else if ss_active (ss ! cnt) then Some cnt else next_active ss (cnt + 1))"
  by pat_completeness auto
termination
  by (relation "measure (\<lambda>(ss, cnt). length ss - cnt)") auto

declare next_active.simps [simp del]

fun draw_streams :: "stream_stats list \<Rightarrow> nat \<Rightarrow> nat \<Rightarrow> nat \<Rightarrow> screen option" where
  "draw_streams ss 0 i cnt = Some []"
| "draw_streams ss (Suc n) i cnt =
     (case next_active ss cnt of
        None \<Rightarrow> None
      | Some c \<Rightarrow> map_option (\<lambda>scr. draw_stream (i + 5) c (ss ! c) @ scr) (draw_streams ss n (i + 1) (c + 1)))"

definition headings :: screen where
  "headings = [(3, 0, ''Adapter''), (3, 18, ''PPS''), (3, 22, ''Stream''), (3, 32, ''Host Buffer Utilization''),
     (3, 68, ''On-Board SDRAM Buffer Utilization''), (3, 108, ''Drops/Sec'')]"

definition outputStats :: "string \<Rightarrow> nat \<Rightarrow> stream_stats list \<Rightarrow> screen option" where
  "outputStats time numStreams ss =
     map_option (\<lambda>scr. [(1, 0, time)] @ headings @ scr) (draw_streams ss numStreams 0 0)"

section \<open>Shape and levels\<close>

definition stream_ok :: "stream_stats \<Rightarrow> bool" where
  "stream_ok s \<longleftrightarrow> length (ss_hb s) = 2 \<and> aveOBFillLevel s \<le> 100 \<and> aveHBFillLevel s \<le> 100"

definition streams_ok :: "stream_stats list \<Rightarrow> bool" where
  "streams_ok ss \<longleftrightarrow> length ss = MAX_STREAMS \<and> (\<forall>j < MAX_STREAMS. stream_ok (ss ! j))"

lemma streams_zero_ok: "streams_ok streams_zero"
  by (simp add: streams_ok_def streams_zero_def stream_ok_def stream_zero_def)

lemma streams_ok_update: "streams_ok ss \<Longrightarrow> stream_ok s \<Longrightarrow> streams_ok (ss[k := s])"
  by (cases "k < length ss") (auto simp: streams_ok_def nth_list_update)

lemma percent_bound: "percent level n \<le> 100"
  by (auto simp: percent_def Let_def)

lemma read_hb_shape:
  "read_hb u i s = Inr s' \<Longrightarrow> length (ss_hb s') = length (ss_hb s) \<and> ss_active s' = ss_active s \<and> i < length (ss_hb s)"
  by (auto simp: read_hb_def Let_def split: if_splits)

lemma read_hbs_shape:
  "read_hbs us i s = Inr s' \<Longrightarrow> length (ss_hb s') = length (ss_hb s) \<and> ss_active s' = ss_active s
     \<and> (us \<noteq> [] \<longrightarrow> i + length us \<le> length (ss_hb s))"
proof (induction us i s rule: read_hbs.induct)
  case (2 u us i s)
  then obtain s1 where "read_hb u i s = Inr s1" "read_hbs us (i + 1) s1 = Inr s'"
    by (auto split: sum.splits)
  with "2.IH" [OF this] read_hb_shape show ?case by (cases us) force+
qed simp

lemma read_stream_ok:
  assumes "read_stream us s = Inr s'" "length (ss_hb s) = 2"
  shows "stream_ok s'" "ss_active s'" "length us \<le> 2"
  using assms read_hbs_shape [of us 0]
  by (auto simp: read_stream_def stream_ok_def percent_bound split: sum.splits) fastforce+

lemma find_stream_frame:
  "find_stream usage start ss = Inr (k, us, ss') \<Longrightarrow>
     start \<le> k \<and> k < length ss \<and> length ss' = length ss \<and> us \<noteq> [] \<and> usage (k mod 256) = Some us
     \<and> (\<forall>j < length ss. ss' ! j = (if start \<le> j \<and> j < k then (ss ! j)\<lparr>ss_active := False\<rparr> else ss ! j))"
proof (induction usage start ss rule: find_stream.induct)
  case (1 usage start ss)
  from "1.prems" obtain us0 where u: "usage (start mod 256) = Some us0" "\<not> length ss \<le> start"
    by (subst (asm) find_stream.simps) (auto split: option.splits if_splits)
  show ?case
  proof (cases "us0 = []")
    case False
    with "1.prems" u show ?thesis by (subst (asm) find_stream.simps) auto
  next
    case True
    with "1.prems" u have "find_stream usage (start + 1) (ss[start := (ss ! start)\<lparr>ss_active := False\<rparr>]) = Inr (k, us, ss')"
      by (subst (asm) find_stream.simps) auto
    from "1.IH" [OF u(1) u(2) True this] u(2) show ?thesis
      by (auto simp: nth_list_update)
  qed
qed

lemma stream_ok_inactive [simp]: "stream_ok (s\<lparr>ss_active := b\<rparr>) = stream_ok s"
  by (simp add: stream_ok_def)

lemma find_stream_ok:
  assumes "find_stream usage start ss = Inr (k, us, ss')" "streams_ok ss"
  shows "streams_ok ss'"
  using find_stream_frame [OF assms(1)] assms(2)
  by (auto simp: streams_ok_def)

lemma read_streams_ok:
  "read_streams usage n start ss = Inr (i, ss') \<Longrightarrow> streams_ok ss \<Longrightarrow>
     streams_ok ss' \<and> (\<forall>j < start. ss' ! j = ss ! j)"
proof (induction usage n start ss rule: read_streams.induct)
  case (2 usage n start ss)
  then obtain k us ss1 s where f: "find_stream usage start ss = Inr (k, us, ss1)"
    and s: "read_stream us (ss1 ! k) = Inr s" and r: "read_streams usage n (k + 1) (ss1[k := s]) = Inr (i, ss')"
    by (auto split: sum.splits)
  note fr = find_stream_frame [OF f]
  have ok1: "streams_ok ss1" using find_stream_ok [OF f "2.prems"(2)] .
  moreover have "k < MAX_STREAMS" using fr "2.prems"(2) by (simp add: streams_ok_def)
  ultimately have "length (ss_hb (ss1 ! k)) = 2" unfolding streams_ok_def stream_ok_def by blast
  with read_stream_ok [OF s] have "stream_ok s" by simp
  from ok1 this have "streams_ok (ss1[k := s])" by (rule streams_ok_update)
  with "2.IH" f s r have "streams_ok ss' \<and> (\<forall>j < k + 1. ss' ! j = ss1[k := s] ! j)" by blast
  with fr show ?case by (auto simp: nth_list_update)
qed simp


section \<open>The screen shows what was read\<close>

lemma next_active_at:
  "start \<le> k \<Longrightarrow> k < length ss \<Longrightarrow> ss_active (ss ! k) \<Longrightarrow> (\<And>j. start \<le> j \<Longrightarrow> j < k \<Longrightarrow> \<not> ss_active (ss ! j)) \<Longrightarrow>
     next_active ss start = Some k"
proof (induction ss start rule: next_active.induct)
  case (1 ss start)
  then show ?case
    by (cases "start = k") (subst next_active.simps, simp)+
qed

text \<open>The streams found in order, as the numbers with which they are drawn.\<close>

lemma read_streams_drawn:
  "read_streams usage n start ss = Inr (i, ss') \<Longrightarrow> streams_ok ss \<Longrightarrow> draw_streams ss' n r start \<noteq> None"
proof (induction usage n start ss arbitrary: r rule: read_streams.induct)
  case (2 usage n start ss)
  then obtain k us ss1 s where f: "find_stream usage start ss = Inr (k, us, ss1)"
    and s: "read_stream us (ss1 ! k) = Inr s" and rd: "read_streams usage n (k + 1) (ss1[k := s]) = Inr (i, ss')"
    by (auto split: sum.splits)
  note fr = find_stream_frame [OF f]
  have ok1: "streams_ok ss1" using find_stream_ok [OF f "2.prems"(2)] .
  moreover have "k < MAX_STREAMS" using fr "2.prems"(2) by (simp add: streams_ok_def)
  ultimately have "length (ss_hb (ss1 ! k)) = 2" unfolding streams_ok_def stream_ok_def by blast
  note so = read_stream_ok [OF s this]
  from ok1 so(1) have ok2: "streams_ok (ss1[k := s])" by (rule streams_ok_update)
  from read_streams_ok [OF rd ok2] have keep: "\<And>j. j < k + 1 \<Longrightarrow> ss' ! j = ss1[k := s] ! j" and ok': "streams_ok ss'"
    by blast+
  have "next_active ss' start = Some k"
  proof (rule next_active_at)
    show "start \<le> k" using fr by simp
    show "k < length ss'" using fr ok' "2.prems"(2) by (simp add: streams_ok_def)
    show "ss_active (ss' ! k)" using keep [of k] fr so by simp
    show "\<not> ss_active (ss' ! j)" if "start \<le> j" "j < k" for j
      using keep [of j] fr that by simp
  qed
  moreover have "draw_streams ss' n (r + 1) (k + 1) \<noteq> None"
    using "2.IH" f s rd ok2 by blast
  ultimately show ?case by auto
qed simp

text \<open>When the statistics have been read, the display never runs past the end of the table: it finds
  as many active streams as there were to read.\<close>

theorem display_finds_all_streams:
  assumes "readStreamStats count usage ss = Inr (n, ss')" "streams_ok ss"
  shows "outputStats time n ss' \<noteq> None"
proof -
  obtain i where "read_streams usage n 0 ss = Inr (i, ss')"
    using assms(1) by (auto simp: readStreamStats_def split: option.splits sum.splits)
  from read_streams_drawn [OF this assms(2)] show ?thesis by (simp add: outputStats_def)
qed

section \<open>Examples and limits\<close>

definition usage1 :: hb_usage where
  "usage1 = \<lparr>hu_adapterNo = 0, hu_used = 30, hu_size = 100, hu_enQueuedAdapter = 4194304, hu_deQueued = 1048576,
     hu_enQueued = 1048576, hu_rx_frames = 500, hu_drop_frames = 2\<rparr>"

definition usage_example :: "nat \<Rightarrow> hb_usage list option" where
  "usage_example i = Some (if i = 1 then [usage1, usage1\<lparr>hu_rx_frames := 700\<rparr>] else [])"

lemma example_read:
  "\<exists>ss'. readStreamStats (Some 1) usage_example streams_zero = Inr (1, ss')"
proof -
  have l: "length streams_zero = 256" by (simp add: streams_zero_def MAX_STREAMS_def)
  have z: "streams_zero ! i = stream_zero" if "i < 256" for i
    using that by (simp add: streams_zero_def MAX_STREAMS_def)
  have i: "stream_zero\<lparr>ss_active := False\<rparr> = stream_zero" by (simp add: stream_zero_def)
  have f1: "find_stream usage_example 1 ss = Inr (1, [usage1, usage1\<lparr>hu_rx_frames := 700\<rparr>], ss)" if "length ss = 256" for ss
    by (subst find_stream.simps) (simp add: usage_example_def that)
  have f: "find_stream usage_example 0 streams_zero = Inr (1, [usage1, usage1\<lparr>hu_rx_frames := 700\<rparr>], streams_zero[0 := stream_zero])"
    by (subst find_stream.simps) (simp add: usage_example_def [of 0] l z i f1 [unfolded One_nat_def])
  have "\<exists>s. read_stream [usage1, usage1\<lparr>hu_rx_frames := 700\<rparr>] stream_zero = Inr s"
    by (simp add: read_stream_def read_hb_def bufSize_def Let_def usage1_def stream_zero_def HB_HIGHWATER_def)
  then obtain s where "read_stream [usage1, usage1\<lparr>hu_rx_frames := 700\<rparr>] stream_zero = Inr s" ..
  moreover have "streams_zero[0 := stream_zero] ! 1 = stream_zero" by (simp add: z)
  ultimately show ?thesis by (simp add: readStreamStats_def f)
qed


theorem display_finds_all_streams_witness:
  "\<exists>ss'. readStreamStats (Some 1) usage_example streams_zero = Inr (1, ss') \<and> outputStats ''now'' 1 ss' \<noteq> None"
  using example_read display_finds_all_streams [OF _ streams_zero_ok] by blast

text \<open>Of a stream with two host buffers only the packets of the second one are shown.\<close>

lemma last_host_buffer_counts:
  assumes "read_hbs [u, v] 0 s = Inr s'" "length (ss_hb s) = 2"
  shows "pktsCurr s' = hu_rx_frames v - pktsTotal (ss_hb s ! 1)"
  using assms by (auto simp: read_hb_def update_hb_def Let_def split: sum.splits if_splits)

text \<open>A third host buffer is outside of the array.\<close>

lemma third_host_buffer_faults:
  "length (ss_hb s) = 2 \<Longrightarrow> 3 \<le> length us \<Longrightarrow> \<exists>e. read_stream us s = Inl e"
  using read_stream_ok(3) [of us s] by (cases "read_stream us s") force+

end
