(* ===== verification/Json_Tree.thy ===== *)
theory Json_Tree
  imports Ntapi_Prelude "HOL-Library.AList"
begin

text \<open>
  The documents that NT2JSON builds through json-c.  A \<open>json_object *\<close> is a value of the type
  \<open>json\<close>: the null pointer is \<open>JNull\<close> (json-c itself represents JSON null so), an object keeps
  its members in insertion order.  Two rules of the documented interface matter to the program
  and are written out in \<open>object_add\<close> and \<open>array_add\<close>: a member added under a key that the
  object already has replaces the value in its place, and adding to something that is not an
  object (or not an array), the null pointer included, aborts the process, the value \<open>None\<close>
  here.
\<close>

section \<open>Documents\<close>

text \<open>
  The numbers keep what the C code hands over.  An integer is the value after the conversion to
  \<open>int32_t\<close> or \<open>int64_t\<close> of the constructor function.  A \<open>double\<close> is either one that the driver
  delivered, kept as its 64 bits, or the quotient \<open>(float) n / d\<close> of a sensor reading, kept as
  the two operands.
\<close>

datatype json =
    JNull
  | JInt int
  | JStr string
  | JDouble u64
  | JQuot int nat
  | JArr "json list"
  | JObj "(string \<times> json) list"

definition json_object_new_int :: "u32 \<Rightarrow> json" where
  "json_object_new_int w = JInt (sint w)"

definition json_object_new_int64 :: "u64 \<Rightarrow> json" where
  "json_object_new_int64 w = JInt (sint w)"

definition object_add :: "json \<Rightarrow> string \<Rightarrow> json \<Rightarrow> json option" where
  "object_add j k v = (case j of JObj kvs \<Rightarrow> Some (JObj (AList.update k v kvs)) | _ \<Rightarrow> None)"

definition array_add :: "json \<Rightarrow> json \<Rightarrow> json option" where
  "array_add j v = (case j of JArr vs \<Rightarrow> Some (JArr (vs @ [v])) | _ \<Rightarrow> None)"

text \<open>
  A run of \<open>json_object_object_add\<close> calls on one object that is known to exist (it was created
  by \<open>json_object_new_object\<close> in the same function) cannot abort; its effect on the members:
\<close>

definition put_all :: "(string \<times> json) list \<Rightarrow> (string \<times> json) list \<Rightarrow> (string \<times> json) list" where
  "put_all kvs new = fold (\<lambda>(k, v). AList.update k v) new kvs"

definition new_object :: "(string \<times> json) list \<Rightarrow> json" where
  "new_object new = JObj (put_all [] new)"

text \<open>\<open>json_object_object_get\<close>: what a reader of the document finds under a key.\<close>

fun jget :: "json \<Rightarrow> string \<Rightarrow> json option" where
  "jget (JObj kvs) k = map_of kvs k"
| "jget _ k = None"

fun elements :: "json \<Rightarrow> json list" where
  "elements (JArr vs) = vs"
| "elements _ = []"

fun members :: "json \<Rightarrow> (string \<times> json) list" where
  "members (JObj kvs) = kvs"
| "members _ = []"

section \<open>Lookups after additions\<close>

named_theorems json_simps \<open>lookups in objects built by additions\<close>

lemma jget_eq_members [json_simps]: "jget j k = map_of (members j) k"
  by (cases j) simp_all

lemma members_new_object [json_simps]: "members (new_object new) = put_all [] new"
  by (simp add: new_object_def)

lemma put_all_Nil [simp]: "put_all kvs [] = kvs"
  by (simp add: put_all_def)

lemma put_all_Cons [simp]: "put_all kvs ((k, v) # new) = put_all (AList.update k v kvs) new"
  by (simp add: put_all_def)

lemma put_all_append: "put_all kvs (a @ b) = put_all (put_all kvs a) b"
  by (simp add: put_all_def)

text \<open>The last addition under a key wins.\<close>

lemma map_of_put_all:
  "map_of (put_all kvs new) k = (case map_of (rev new) k of None \<Rightarrow> map_of kvs k | Some v \<Rightarrow> Some v)"
proof (induction new arbitrary: kvs)
  case Nil
  then show ?case by simp
next
  case (Cons kv new)
  obtain k' v where kv: "kv = (k', v)" by (cases kv)
  show ?case
    by (auto simp: kv Cons.IH map_add_def update_conv' split: option.splits)
qed

lemma distinct_put_all:
  "distinct (map fst kvs) \<Longrightarrow> distinct (map fst (put_all kvs new))"
  by (induction new arbitrary: kvs) (auto simp: distinct_update)

text \<open>Additions under keys that are new and different from each other just append.\<close>

lemma update_append_fresh: "k \<notin> fst ` set kvs \<Longrightarrow> AList.update k v kvs = kvs @ [(k, v)]"
  by (induction kvs) auto

lemma put_all_fresh:
  "\<lbrakk>distinct (map fst new); fst ` set new \<inter> fst ` set kvs = {}\<rbrakk> \<Longrightarrow> put_all kvs new = kvs @ new"
proof (induction new arbitrary: kvs)
  case Nil
  then show ?case by simp
next
  case (Cons kv new)
  obtain k v where kv: "kv = (k, v)" by (cases kv)
  from Cons.prems have fresh: "k \<notin> fst ` set kvs" by (auto simp: kv)
  have "put_all (kvs @ [(k, v)]) new = (kvs @ [(k, v)]) @ new"
    by (rule Cons.IH) (use Cons.prems in \<open>auto simp: kv\<close>)
  then show ?case by (simp add: kv update_append_fresh [OF fresh])
qed

lemma members_new_object_distinct:
  "distinct (map fst new) \<Longrightarrow> members (new_object new) = new"
  by (simp add: new_object_def put_all_fresh)

text \<open>Additions keep the keys that were there in their order.\<close>

lemma keys_update: "map fst (AList.update k v kvs)
    = (if k \<in> fst ` set kvs then map fst kvs else map fst kvs @ [k])"
  by (simp add: update_keys)

lemma keys_put_all_prefix: "\<exists>ks. map fst (put_all kvs new) = map fst kvs @ ks"
proof (induction new arbitrary: kvs)
  case Nil
  then show ?case by simp
next
  case (Cons kv new)
  obtain k v where kv: "kv = (k, v)" by (cases kv)
  from Cons.IH [of "AList.update k v kvs"] show ?case
    by (auto simp: kv keys_update split: if_splits)
qed

section \<open>Well-formed documents\<close>

text \<open>Every object of the document has each key once, at every depth.\<close>

fun json_wf :: "json \<Rightarrow> bool" where
  "json_wf (JArr vs) = (\<forall>v \<in> set vs. json_wf v)"
| "json_wf (JObj kvs) = (distinct (map fst kvs) \<and> (\<forall>kv \<in> set kvs. json_wf (snd kv)))"
| "json_wf _ = True"

lemma set_update_subset: "set (AList.update k v kvs) \<subseteq> insert (k, v) (set kvs)"
  by (induction kvs) auto

lemma json_wf_object_add:
  "\<lbrakk>object_add j k v = Some j'; json_wf j; json_wf v\<rbrakk> \<Longrightarrow> json_wf j'"
  by (auto simp: object_add_def distinct_update split: json.splits dest!: subsetD [OF set_update_subset])

lemma json_wf_array_add:
  "\<lbrakk>array_add j v = Some j'; json_wf j; json_wf v\<rbrakk> \<Longrightarrow> json_wf j'"
  by (auto simp: array_add_def split: json.splits)

lemma set_put_all_subset: "set (put_all kvs new) \<subseteq> set kvs \<union> set new"
proof (induction new arbitrary: kvs)
  case Nil
  then show ?case by simp
next
  case (Cons kv new)
  obtain k v where kv: "kv = (k, v)" by (cases kv)
  from Cons.IH [of "AList.update k v kvs"] set_update_subset [of k v kvs] show ?case
    by (auto simp: kv)
qed

lemma json_wf_new_object [simp]: "(\<forall>kv \<in> set new. json_wf (snd kv)) \<Longrightarrow> json_wf (new_object new)"
  using set_put_all_subset [of "[]" new] distinct_put_all [of "[]" new]
  by (fastforce simp: new_object_def)

lemma json_wf_ints [simp]:
  "json_wf (json_object_new_int w)" "json_wf (json_object_new_int64 x)"
  by (simp_all add: json_object_new_int_def json_object_new_int64_def)

lemma object_add_object [simp]:
  "object_add (JObj kvs) k v = Some (JObj (AList.update k v kvs))"
  "object_add JNull k v = None"
  by (simp_all add: object_add_def)

lemma array_add_array [simp]:
  "array_add (JArr vs) v = Some (JArr (vs @ [v]))"
  "array_add JNull v = None"
  by (simp_all add: array_add_def)

lemma object_add_Some_iff: "(\<exists>j'. object_add j k v = Some j') \<longleftrightarrow> (\<exists>kvs. j = JObj kvs)"
  by (cases j) (simp_all add: object_add_def)

end
