(* ===== verification/Nt2json_Data.thy ===== *)
theory Nt2json_Data
  imports Json_Tree Libc
begin

text \<open>
  The answers of the Napatech driver that NT2JSON reads, one record per structure of the NTAPI
  and one datatype per enumeration.  The NTAPI headers are not part of the repository: a record
  has the fields that \<open>NT2JSON.c\<close> uses under the names it uses, an enumeration the constants that
  \<open>NT2JSON.c\<close> names, and a last constructor for every other value the driver may store.  A number
  that is passed to \<open>json_object_new_int\<close> is kept at 32 bits and one passed to
  \<open>json_object_new_int64\<close> at 64, the widths at which the program sees them.  A \<open>char\<close> array that
  is used as a string is its text, one that is copied by \<open>memcpy\<close> is its bytes.
\<close>

section \<open>System, adapter and port information\<close>

record nt_version =
  v_major :: u32
  v_minor :: u32
  v_patch :: u32
  v_tag :: u32

record NtInfoSystem =
  sys_numAdapters :: u32
  sys_numNumaNodes :: u32
  sys_numPorts :: u32
  sys_version :: nt_version

record NtInfoAdapter =
  adp_name :: string
  adp_numSensors :: u32
  adp_portOffset :: u32
  adp_numPorts :: u32

datatype NtProductInfoType_e =
    NT_PRODUCT_INFO_TYPE_GEN1
  | NT_PRODUCT_INFO_TYPE_GEN2
  | NT_PRODUCT_INFO_TYPE_GEN3
  | NT_PRODUCT_INFO_TYPE_other

record NtInfoProductInfo =
  pi_infoType :: NtProductInfoType_e
  pi_ProductId :: string
  pi_SerialNo :: "string list"
  pi_PbaId :: "string list"
  pi_CpldVersion :: string
  pi_AvrId :: "string list"
  pi_fpgaId1 :: string
  pi_fpgaId2 :: string

datatype NtLinkSpeed_e =
    NT_LINK_SPEED_UNKNOWN | NT_LINK_SPEED_10M | NT_LINK_SPEED_100M | NT_LINK_SPEED_1G
  | NT_LINK_SPEED_10G | NT_LINK_SPEED_40G | NT_LINK_SPEED_100G | NT_LINK_SPEED_other

datatype NtLinkState_e =
    NT_LINK_STATE_UNKNOWN | NT_LINK_STATE_DOWN | NT_LINK_STATE_UP | NT_LINK_STATE_ERROR
  | NT_LINK_STATE_other

datatype NtLinkDuplex_e =
    NT_LINK_DUPLEX_UNKNOWN | NT_LINK_DUPLEX_HALF | NT_LINK_DUPLEX_FULL | NT_LINK_DUPLEX_other

datatype NtLinkMDI_e =
    NT_LINK_MDI_NA | NT_LINK_MDI_AUTO | NT_LINK_MDI_MDI | NT_LINK_MDI_MDIX | NT_LINK_MDI_other

datatype NtPortType_e =
    NT_PORT_TYPE_NOT_AVAILABLE | NT_PORT_TYPE_NOT_RECOGNISED | NT_PORT_TYPE_RJ45
  | NT_PORT_TYPE_SFP_NOT_PRESENT | NT_PORT_TYPE_SFP_SX | NT_PORT_TYPE_SFP_SX_DD
  | NT_PORT_TYPE_SFP_LX | NT_PORT_TYPE_SFP_LX_DD | NT_PORT_TYPE_SFP_ZX | NT_PORT_TYPE_SFP_ZX_DD
  | NT_PORT_TYPE_SFP_CU | NT_PORT_TYPE_SFP_CU_DD | NT_PORT_TYPE_SFP_NOT_RECOGNISED
  | NT_PORT_TYPE_XFP | NT_PORT_TYPE_XPAK | NT_PORT_TYPE_SFP_CU_TRI_SPEED
  | NT_PORT_TYPE_SFP_CU_TRI_SPEED_DD | NT_PORT_TYPE_SFP_PLUS | NT_PORT_TYPE_SFP_PLUS_NOT_PRESENT
  | NT_PORT_TYPE_XFP_NOT_PRESENT | NT_PORT_TYPE_QSFP_PLUS_NOT_PRESENT | NT_PORT_TYPE_QSFP_PLUS
  | NT_PORT_TYPE_SFP_PLUS_PASSIVE_DAC | NT_PORT_TYPE_SFP_PLUS_ACTIVE_DAC | NT_PORT_TYPE_CFP4
  | NT_PORT_TYPE_CFP4_NOT_PRESENT | NT_PORT_TYPE_INITIALIZE | NT_PORT_TYPE_NIM_NOT_PRESENT
  | NT_PORT_TYPE_HCB | NT_PORT_TYPE_NOT_SUPPORTED | NT_PORT_TYPE_SFP_PLUS_DUAL_RATE
  | NT_PORT_TYPE_other

record NtInfoPort =
  prt_macAddress :: "u8 list"
  prt_speed :: NtLinkSpeed_e
  prt_state :: NtLinkState_e
  prt_type :: NtPortType_e
  prt_duplex :: NtLinkDuplex_e
  prt_flow :: u32
  prt_maxFrameSize :: u32
  prt_mdi :: NtLinkMDI_e
  prt_numSensors :: u32
  prt_numLevel1Sensors :: u32

section \<open>Sensors\<close>

datatype NtSensorSubType_e =
    NT_SENSOR_SUBTYPE_POWER_OMA | NT_SENSOR_SUBTYPE_POWER_AVERAGE | NT_SENSOR_SUBTYPE_other

datatype NtSensorType_e =
    NT_SENSOR_TYPE_TEMPERATURE | NT_SENSOR_TYPE_VOLTAGE | NT_SENSOR_TYPE_CURRENT
  | NT_SENSOR_TYPE_POWER | NT_SENSOR_TYPE_HIGH_POWER | NT_SENSOR_TYPE_FAN | NT_SENSOR_TYPE_other

datatype NtSensorState_e = NT_SENSOR_STATE_ALARM | NT_SENSOR_STATE_other

datatype NtSensorSource_e =
    NT_SENSOR_SOURCE_ADAPTER | NT_SENSOR_SOURCE_PORT | NT_SENSOR_SOURCE_LEVEL1_PORT

record NtInfoSensor =
  sen_name :: string
  sen_subType :: NtSensorSubType_e
  sen_type :: NtSensorType_e
  sen_state :: NtSensorState_e
  sen_limitLow :: u32
  sen_limitHigh :: u32
  sen_value :: u32
  sen_valueLowest :: u32
  sen_valueHighest :: u32

section \<open>Time synchronisation\<close>

datatype NtTimeSyncConnectorSetting_e =
    NT_TIMESYNC_CONNECTOR_SETTING_NONE | NT_TIMESYNC_CONNECTOR_SETTING_NTTS_IN
  | NT_TIMESYNC_CONNECTOR_SETTING_PPS_IN | NT_TIMESYNC_CONNECTOR_SETTING_10MPPS_IN
  | NT_TIMESYNC_CONNECTOR_SETTING_NTTS_OUT | NT_TIMESYNC_CONNECTOR_SETTING_PPS_OUT
  | NT_TIMESYNC_CONNECTOR_SETTING_10MPPS_OUT | NT_TIMESYNC_CONNECTOR_SETTING_REPEAT_INT1
  | NT_TIMESYNC_CONNECTOR_SETTING_REPEAT_INT2 | NT_TIMESYNC_CONNECTOR_SETTING_REPEAT_EXT1
  | NT_TIMESYNC_CONNECTOR_SETTING_other

datatype NtTimeSyncReference_e =
    NT_TIMESYNC_REFERENCE_INVALID | NT_TIMESYNC_REFERENCE_FREE_RUN | NT_TIMESYNC_REFERENCE_PTP
  | NT_TIMESYNC_REFERENCE_INT1 | NT_TIMESYNC_REFERENCE_INT2 | NT_TIMESYNC_REFERENCE_EXT1
  | NT_TIMESYNC_REFERENCE_OSTIME | NT_TIMESYNC_REFERENCE_other

datatype NtTimeSyncFreqReference_e =
    NT_TIMESYNC_FREQ_REFERENCE_INVALID | NT_TIMESYNC_FREQ_REFERENCE_FREE_RUN
  | NT_TIMESYNC_FREQ_REFERENCE_SYNC_E | NT_TIMESYNC_FREQ_REFERENCE_other

datatype NtTimeSyncInSyncStatus_e =
    NT_TIMESYNC_INSYNC_STATUS_NONE | NT_TIMESYNC_INSYNC_STATUS_IN_SYNC
  | NT_TIMESYNC_INSYNC_STATUS_NOT_IN_SYNC | NT_TIMESYNC_INSYNC_STATUS_other

datatype NtTimeSyncConnectorStatus_e =
    NT_TIMESYNC_CONNECTOR_STATUS_NONE | NT_TIMESYNC_CONNECTOR_STATUS_SIGNAL_LOST
  | NT_TIMESYNC_CONNECTOR_STATUS_SIGNAL_PRESENT | NT_TIMESYNC_CONNECTOR_STATUS_other

datatype NtTimeSyncPpsStatus_e =
    NT_TIMESYNC_PPS_STATUS_NONE | NT_TIMESYNC_PPS_STATUS_ENABLED
  | NT_TIMESYNC_PPS_STATUS_DISABLED | NT_TIMESYNC_PPS_STATUS_other

datatype NtTimeSyncPpsMode_e =
    NT_TIMESYNC_PPS_MODE_NOT_SYNCING | NT_TIMESYNC_PPS_MODE_PHASE_SYNCING
  | NT_TIMESYNC_PPS_MODE_TIME_SYNCING | NT_TIMESYNC_PPS_MODE_other

datatype NtTimeSyncStatSupport_e =
    NT_TIMESYNC_STATISTICS_NO_SUPPORT | NT_TIMESYNC_STATISTICS_PTP_ONLY
  | NT_TIMESYNC_STATISTICS_FULL_SUPPORT | NT_TIMESYNC_STATISTICS_other

record NtInfoTimeSync =
  ts_timeSyncSupported :: u32
  ts_ptpSupported :: u32
  ts_timeSyncConnectorExt1 :: NtTimeSyncConnectorSetting_e
  ts_timeSyncConnectorInt1 :: NtTimeSyncConnectorSetting_e
  ts_timeSyncConnectorInt2 :: NtTimeSyncConnectorSetting_e
  ts_tsRefPrio :: "NtTimeSyncReference_e list"
  ts_timeRef :: NtTimeSyncReference_e
  ts_tsFreqRefPrio :: "NtTimeSyncFreqReference_e list"
  ts_freqRef :: NtTimeSyncFreqReference_e
  ts_timeSyncNTTSInSyncLimit :: u32
  ts_timeSyncOSInSyncLimit :: u32
  ts_timeSyncPPSInSyncLimit :: u32
  ts_timeSyncPTPInSyncLimit :: u32
  ts_timeSyncInSyncStatus :: NtTimeSyncInSyncStatus_e
  ts_timeSyncCurrentConStatus :: NtTimeSyncConnectorStatus_e
  ts_timeSyncPpsEnable :: NtTimeSyncPpsStatus_e
  ts_timeSyncPpsSyncMode :: NtTimeSyncPpsMode_e
  ts_timeSyncClockAdjustmentMode :: u32
  ts_timeSyncHardReset :: u32
  ts_timeSyncTimeJumpThreshold :: u32
  ts_timeSyncTimeOffset :: u32
  ts_timeSyncPpsSampled :: u32
  ts_timeSyncTimeSkew :: u32
  ts_highFrequencySampling :: u32
  ts_timeSyncAdapterToOSSyncEnabled :: u32
  ts_timeSyncOSClockOffset :: u64
  ts_timeSyncOSClockRateAdjustment :: u64

record NtInfoTimeSyncStatusExt =
  tx_infoValid :: u32
  tx_extDevSyncSignalOk :: u32
  tx_extDevInSync :: u32
  tx_extDevTimeOfDayOk :: u32
  tx_extDevOsModeSyncEnabled :: u32
  tx_extDevOsModeInSync :: u32
  tx_extDevIsMaster :: u32
  tx_extAdapterIsMaster :: u32
  tx_extDevMasterID :: u32

record NtInfoTimeSyncStat =
  tt_supported :: NtTimeSyncStatSupport_e
  tt_samples :: u64
  tt_skew :: u64
  tt_min :: u64
  tt_max :: u64
  tt_mean :: u64
  tt_jitter :: u64
  tt_secSinceReset :: u64
  tt_stdDevSqr :: u64
  tt_signalLostCnt :: u64
  tt_syncLostCnt :: u64
  tt_hardResetCnt :: u64

end
