(* ===== verification/Nt2json_Counters.thy ===== *)
theory Nt2json_Counters
  imports Json_Tree Libc
begin

text \<open>
  The statistics query of the Napatech driver as NT2JSON reads it (\<open>NT_STATISTICS_READ_CMD_QUERY_V2\<close>):
  the counter groups of a port with the flags that say which groups the adapter fills, the
  per-stream counters and the 64 colour counters of an adapter.  The fields are the ones
  \<open>NT2JSON.c\<close> names; every counter is a \<open>uint64_t\<close>.  The arrays of the query are functions of
  their index: the driver dimensions them for every port, adapter and stream that it reports.
\<close>

definition NUM_COLOR_COUNTERS :: nat where
  "NUM_COLOR_COUNTERS = 64"

section \<open>Port counters\<close>

record NtRMON1Counters =
  rm_pkts :: u64
  rm_octets :: u64
  rm_dropEvents :: u64
  rm_pkts64Octets :: u64
  rm_pkts65to127Octets :: u64
  rm_pkts128to255Octets :: u64
  rm_pkts256to511Octets :: u64
  rm_pkts512to1023Octets :: u64
  rm_pkts1024to1518Octets :: u64
  rm_oversizePkts :: u64
  rm_undersizePkts :: u64
  rm_multicastPkts :: u64
  rm_jabbers :: u64
  rm_fragments :: u64
  rm_collisions :: u64
  rm_crcAlignErrors :: u64
  rm_broadcastPkts :: u64

record NtExtRMONCounters =
  er_pkts1519to2047Octets :: u64
  er_pkts2048to4095Octets :: u64
  er_pkts4096to8191Octets :: u64
  er_pkts8192toMaxOctets :: u64
  er_pktsAlignment :: u64
  er_pktsCodeViolation :: u64
  er_pktsCrc :: u64
  er_pktsHardSlice :: u64
  er_pktsHardSliceJabber :: u64
  er_unicastPkts :: u64

record NtExtDropCounters =
  ed_pktsDedup :: u64
  ed_octetsDedup :: u64
  ed_pktsNoFilter :: u64
  ed_octetsNoFilter :: u64
  ed_pktsOverflow :: u64
  ed_octetsOverflow :: u64
  ed_pktsMacBandwidth :: u64

record NtDecodeCounters =
  dc_pktsBabyGiant :: u64
  dc_pktsGiantUndersize :: u64
  dc_pktsIsl :: u64
  dc_pktsIslMpls :: u64
  dc_pktsIslVlan :: u64
  dc_pktsIslVlanMpls :: u64
  dc_pktsMpls :: u64
  dc_pktsNotIslVlanMpls :: u64
  dc_pktsVlan :: u64
  dc_pktsVlanMpls :: u64

record NtChecksumCounters =
  ck_pktsIpChkSumError :: u64
  ck_pktsTcpChkSumError :: u64
  ck_pktsUdpChkSumError :: u64

record NtIpFragCounters =
  fr_ipFragTableFirstHit :: u64
  fr_ipFragTableFirstNoHit :: u64
  fr_ipFragTableLastHit :: u64
  fr_ipFragTableLastNoHit :: u64
  fr_ipFragTableMidHit :: u64
  fr_ipFragTableMidNoHit :: u64

record NtPortStatistics =
  valid_RMON1 :: bool
  valid_extRMON :: bool
  valid_extDrop :: bool
  valid_decode :: bool
  valid_chksum :: bool
  valid_ipf :: bool
  ps_RMON1 :: NtRMON1Counters
  ps_extRMON :: NtExtRMONCounters
  ps_extDrop :: NtExtDropCounters
  ps_decode :: NtDecodeCounters
  ps_chksum :: NtChecksumCounters
  ps_ipf :: NtIpFragCounters

datatype NtTimestampType_e =
    NT_TIMESTAMP_TYPE_NATIVE | NT_TIMESTAMP_TYPE_NATIVE_NDIS | NT_TIMESTAMP_TYPE_NATIVE_UNIX
  | NT_TIMESTAMP_TYPE_PCAP | NT_TIMESTAMP_TYPE_PCAP_NANOTIME | NT_TIMESTAMP_TYPE_other

record NtPortQuery =
  pq_rx :: NtPortStatistics
  pq_tx :: NtPortStatistics
  pq_ts :: u64
  pq_tsType :: NtTimestampType_e

section \<open>Stream and colour counters\<close>

record nt_counter =
  ctr_pkts :: u64
  ctr_octets :: u64

record NtStreamCounters =
  st_forward :: nt_counter
  st_drop :: nt_counter
  st_flush :: nt_counter

record NtColorQuery =
  cq_ts :: u64
  cq_aColor :: "nat \<Rightarrow> nt_counter"

record NtStatQuery =
  q_aPorts :: "nat \<Rightarrow> NtPortQuery"
  q_stream_ts :: u64
  q_streamid :: "nat \<Rightarrow> NtStreamCounters"
  q_aAdapters_color :: "nat \<Rightarrow> NtColorQuery"

datatype NtStreamIdState_e =
    NT_STREAM_ID_STATE_UNKNOWN | NT_STREAM_ID_STATE_ACTIVE | NT_STREAM_ID_STATE_INACTIVE
  | NT_STREAM_ID_STATE_other

record NtInfoStreamId =
  sid_minHostBufferSize :: u32
  sid_numHostBuffers :: u32
  sid_numaNode :: u32
  sid_useCount :: u32
  sid_state :: NtStreamIdState_e

record NtInfoStreams =
  str_count :: u32
  str_streamIDList :: "nat \<Rightarrow> u32"

end
