(* ===== verification/Nt2json_Decode.thy ===== *)
theory Nt2json_Decode
  imports Nt2json_Data Nt2json_Counters
begin

text \<open>
  The functions of \<open>NT2JSON.c\<close> that turn an enumeration value or a time stamp into text.  Most
  overwrite the caller's buffer in every case and are functions of the value.  The two reference
  decoders leave the buffer alone for a value without a case of its own, so they take the text
  the buffer holds; and the two priority decoders print the buffer into itself.
\<close>

section \<open>Enumerations\<close>

fun decodeTimeStampType :: "NtTimestampType_e \<Rightarrow> string" where
  "decodeTimeStampType NT_TIMESTAMP_TYPE_NATIVE = ''NATIVE''"
| "decodeTimeStampType NT_TIMESTAMP_TYPE_NATIVE_NDIS = ''NDIS''"
| "decodeTimeStampType NT_TIMESTAMP_TYPE_NATIVE_UNIX = ''UNIX''"
| "decodeTimeStampType NT_TIMESTAMP_TYPE_PCAP = ''PCAP''"
| "decodeTimeStampType NT_TIMESTAMP_TYPE_PCAP_NANOTIME = ''PCAP_NANOTIME''"
| "decodeTimeStampType NT_TIMESTAMP_TYPE_other = ''Error''"

fun decodeTimeSyncConnector :: "NtTimeSyncConnectorSetting_e \<Rightarrow> string" where
  "decodeTimeSyncConnector NT_TIMESYNC_CONNECTOR_SETTING_NONE = ''NONE''"
| "decodeTimeSyncConnector NT_TIMESYNC_CONNECTOR_SETTING_NTTS_IN = ''NTTS_IN''"
| "decodeTimeSyncConnector NT_TIMESYNC_CONNECTOR_SETTING_PPS_IN = ''PPS_IN''"
| "decodeTimeSyncConnector NT_TIMESYNC_CONNECTOR_SETTING_10MPPS_IN = ''10MPPS_IN''"
| "decodeTimeSyncConnector NT_TIMESYNC_CONNECTOR_SETTING_NTTS_OUT = ''NTTS_OUT''"
| "decodeTimeSyncConnector NT_TIMESYNC_CONNECTOR_SETTING_PPS_OUT = ''PPS_OUT''"
| "decodeTimeSyncConnector NT_TIMESYNC_CONNECTOR_SETTING_10MPPS_OUT = ''10MPPS_OUT''"
| "decodeTimeSyncConnector NT_TIMESYNC_CONNECTOR_SETTING_REPEAT_INT1 = ''REPEAT_INT1''"
| "decodeTimeSyncConnector NT_TIMESYNC_CONNECTOR_SETTING_REPEAT_INT2 = ''REPEAT_INT2''"
| "decodeTimeSyncConnector NT_TIMESYNC_CONNECTOR_SETTING_REPEAT_EXT1 = ''REPEAT_EXT1''"
| "decodeTimeSyncConnector NT_TIMESYNC_CONNECTOR_SETTING_other = ''Error''"

fun decodeSpeed :: "NtLinkSpeed_e \<Rightarrow> string" where
  "decodeSpeed NT_LINK_SPEED_UNKNOWN = ''UNKNOWN''"
| "decodeSpeed NT_LINK_SPEED_10M = ''0.01''"
| "decodeSpeed NT_LINK_SPEED_100M = ''0.1''"
| "decodeSpeed NT_LINK_SPEED_1G = ''1''"
| "decodeSpeed NT_LINK_SPEED_10G = ''10''"
| "decodeSpeed NT_LINK_SPEED_40G = ''40''"
| "decodeSpeed NT_LINK_SPEED_100G = ''100''"
| "decodeSpeed NT_LINK_SPEED_other = ''ERROR''"

fun decodeState :: "NtLinkState_e \<Rightarrow> string" where
  "decodeState NT_LINK_STATE_UNKNOWN = ''UNKNOWN''"
| "decodeState NT_LINK_STATE_DOWN = ''DOWN''"
| "decodeState NT_LINK_STATE_UP = ''UP''"
| "decodeState NT_LINK_STATE_ERROR = ''ERROR''"
| "decodeState NT_LINK_STATE_other = ''READ_ERROR''"

fun decodePortType :: "NtPortType_e \<Rightarrow> string" where
  "decodePortType NT_PORT_TYPE_NOT_AVAILABLE = ''NOT_AVAILABLE''"
| "decodePortType NT_PORT_TYPE_NOT_RECOGNISED = ''NOT_RECOGNISED''"
| "decodePortType NT_PORT_TYPE_RJ45 = ''RJ45''"
| "decodePortType NT_PORT_TYPE_SFP_NOT_PRESENT = ''SFP_NOT_PRESENT''"
| "decodePortType NT_PORT_TYPE_SFP_SX = ''SFP_SX''"
| "decodePortType NT_PORT_TYPE_SFP_SX_DD = ''SFP_SX_DD''"
| "decodePortType NT_PORT_TYPE_SFP_LX = ''SFP_LX''"
| "decodePortType NT_PORT_TYPE_SFP_LX_DD = ''SFP_LX_DD''"
| "decodePortType NT_PORT_TYPE_SFP_ZX = ''SFP_ZX''"
| "decodePortType NT_PORT_TYPE_SFP_ZX_DD = ''SFP_ZX_DD''"
| "decodePortType NT_PORT_TYPE_SFP_CU = ''SFP_CU''"
| "decodePortType NT_PORT_TYPE_SFP_CU_DD = ''SFP_CU_DD''"
| "decodePortType NT_PORT_TYPE_SFP_NOT_RECOGNISED = ''SFP_NOT_RECOGNISED''"
| "decodePortType NT_PORT_TYPE_XFP = ''XFP''"
| "decodePortType NT_PORT_TYPE_XPAK = ''XPAK''"
| "decodePortType NT_PORT_TYPE_SFP_CU_TRI_SPEED = ''SFP_CU_TRI_SPEED''"
| "decodePortType NT_PORT_TYPE_SFP_CU_TRI_SPEED_DD = ''SFP_CU_TRI_SPEED_DD''"
| "decodePortType NT_PORT_TYPE_SFP_PLUS = ''SFP_PLUS''"
| "decodePortType NT_PORT_TYPE_SFP_PLUS_NOT_PRESENT = ''SFP_PLUS_NOT_PRESENT''"
| "decodePortType NT_PORT_TYPE_XFP_NOT_PRESENT = ''XFP_NOT_PRESENT''"
| "decodePortType NT_PORT_TYPE_QSFP_PLUS_NOT_PRESENT = ''QSFP_PLUS_NOT_PRESENT''"
| "decodePortType NT_PORT_TYPE_QSFP_PLUS = ''QSFP_PLUS''"
| "decodePortType NT_PORT_TYPE_SFP_PLUS_PASSIVE_DAC = ''SFP_PLUS_PASSIVE_DAC''"
| "decodePortType NT_PORT_TYPE_SFP_PLUS_ACTIVE_DAC = ''SFP_PLUS_ACTIVE_DAC''"
| "decodePortType NT_PORT_TYPE_CFP4 = ''CFP4''"
| "decodePortType NT_PORT_TYPE_CFP4_NOT_PRESENT = ''CFP4_NOT_PRESENT''"
| "decodePortType NT_PORT_TYPE_INITIALIZE = ''INITIALIZE''"
| "decodePortType NT_PORT_TYPE_NIM_NOT_PRESENT = ''NIM_NOT_PRESENT''"
| "decodePortType NT_PORT_TYPE_HCB = ''HCB''"
| "decodePortType NT_PORT_TYPE_NOT_SUPPORTED = ''NOT_SUPPORTED''"
| "decodePortType NT_PORT_TYPE_SFP_PLUS_DUAL_RATE = ''SFP_PLUS_DUAL_RATE''"
| "decodePortType NT_PORT_TYPE_other = ''ERROR''"

fun decodeDuplex :: "NtLinkDuplex_e \<Rightarrow> string" where
  "decodeDuplex NT_LINK_DUPLEX_UNKNOWN = ''UNKNOWN''"
| "decodeDuplex NT_LINK_DUPLEX_HALF = ''HALF''"
| "decodeDuplex NT_LINK_DUPLEX_FULL = ''FULL''"
| "decodeDuplex NT_LINK_DUPLEX_other = ''ERROR''"

text \<open>The switch on the state of a stream inside \<open>getStreamData\<close>.\<close>

fun streamState :: "NtStreamIdState_e \<Rightarrow> string" where
  "streamState NT_STREAM_ID_STATE_UNKNOWN = ''UNKNOWN''"
| "streamState NT_STREAM_ID_STATE_ACTIVE = ''ACTIVE''"
| "streamState NT_STREAM_ID_STATE_INACTIVE = ''INACTIVE''"
| "streamState NT_STREAM_ID_STATE_other = ''ERROR: not defined''"

section \<open>Time references\<close>

fun decodeTimeSyncRef :: "NtTimeSyncReference_e \<Rightarrow> string \<Rightarrow> string" where
  "decodeTimeSyncRef NT_TIMESYNC_REFERENCE_INVALID buffer = buffer"
| "decodeTimeSyncRef NT_TIMESYNC_REFERENCE_FREE_RUN buffer = ''FREE_RUN''"
| "decodeTimeSyncRef NT_TIMESYNC_REFERENCE_PTP buffer = ''PTP''"
| "decodeTimeSyncRef NT_TIMESYNC_REFERENCE_INT1 buffer = ''INT1''"
| "decodeTimeSyncRef NT_TIMESYNC_REFERENCE_INT2 buffer = ''INT2''"
| "decodeTimeSyncRef NT_TIMESYNC_REFERENCE_EXT1 buffer = ''EXT1''"
| "decodeTimeSyncRef NT_TIMESYNC_REFERENCE_OSTIME buffer = ''OSTIME''"
| "decodeTimeSyncRef NT_TIMESYNC_REFERENCE_other buffer = buffer"

fun decodeTimeSyncFreqRef :: "NtTimeSyncFreqReference_e \<Rightarrow> string \<Rightarrow> string" where
  "decodeTimeSyncFreqRef NT_TIMESYNC_FREQ_REFERENCE_INVALID buffer = buffer"
| "decodeTimeSyncFreqRef NT_TIMESYNC_FREQ_REFERENCE_FREE_RUN buffer = ''FREE_RUN''"
| "decodeTimeSyncFreqRef NT_TIMESYNC_FREQ_REFERENCE_SYNC_E buffer = ''SYNC_E''"
| "decodeTimeSyncFreqRef NT_TIMESYNC_FREQ_REFERENCE_other buffer = buffer"

text \<open>
  \<open>snprintf(buffer, NT_ERRBUF_SIZE, "%s...", buffer, ...)\<close> reads the buffer that it writes, which
  the C standard leaves undefined.  What the buffer then holds is the parameter \<open>ov\<close>, a function
  of its old text and of the text that follows \<open>%s\<close>; the code relies on \<open>ov b s = b @ s\<close>.
\<close>

definition ref_suffix :: "NtTimeSyncReference_e \<Rightarrow> string option" where
  "ref_suffix t = (case t of
       NT_TIMESYNC_REFERENCE_INVALID \<Rightarrow> None
     | NT_TIMESYNC_REFERENCE_FREE_RUN \<Rightarrow> Some ''FREE_RUN''
     | NT_TIMESYNC_REFERENCE_PTP \<Rightarrow> Some ''PTP''
     | NT_TIMESYNC_REFERENCE_INT1 \<Rightarrow> Some ''INT1''
     | NT_TIMESYNC_REFERENCE_INT2 \<Rightarrow> Some ''INT2''
     | NT_TIMESYNC_REFERENCE_EXT1 \<Rightarrow> Some ''EXT1''
     | NT_TIMESYNC_REFERENCE_OSTIME \<Rightarrow> Some ''OSTIME''
     | NT_TIMESYNC_REFERENCE_other \<Rightarrow> None)"

definition ref_priority_step ::
    "(string \<Rightarrow> string \<Rightarrow> string) \<Rightarrow> NtTimeSyncReference_e list \<Rightarrow> nat \<Rightarrow> string \<Rightarrow> string" where
  "ref_priority_step ov tsrp i buffer =
     (let buffer = (if i \<noteq> 0 \<and> tsrp ! i \<noteq> NT_TIMESYNC_REFERENCE_INVALID then ov buffer '';'' else buffer)
      in case ref_suffix (tsrp ! i) of None \<Rightarrow> buffer | Some s \<Rightarrow> ov buffer s)"

definition decodeTimeSyncRefPriority ::
    "(string \<Rightarrow> string \<Rightarrow> string) \<Rightarrow> NtTimeSyncReference_e list \<Rightarrow> string" where
  "decodeTimeSyncRefPriority ov tsrp = fold (ref_priority_step ov tsrp) [0, 1, 2, 3] '' ''"

definition freq_suffix :: "NtTimeSyncFreqReference_e \<Rightarrow> string option" where
  "freq_suffix t = (case t of
       NT_TIMESYNC_FREQ_REFERENCE_INVALID \<Rightarrow> None
     | NT_TIMESYNC_FREQ_REFERENCE_FREE_RUN \<Rightarrow> Some ''FREE_RUN''
     | NT_TIMESYNC_FREQ_REFERENCE_SYNC_E \<Rightarrow> Some ''SYNC_E''
     | NT_TIMESYNC_FREQ_REFERENCE_other \<Rightarrow> None)"

definition freq_priority_step ::
    "(string \<Rightarrow> string \<Rightarrow> string) \<Rightarrow> NtTimeSyncFreqReference_e list \<Rightarrow> nat \<Rightarrow> string \<Rightarrow> string" where
  "freq_priority_step ov tsrp i buffer =
     (let buffer = (if i \<noteq> 0 \<and> tsrp ! i \<noteq> NT_TIMESYNC_FREQ_REFERENCE_INVALID then ov buffer '';'' else buffer)
      in case freq_suffix (tsrp ! i) of None \<Rightarrow> buffer | Some s \<Rightarrow> ov buffer s)"

definition decodeTimeSyncFreqRefPriority ::
    "(string \<Rightarrow> string \<Rightarrow> string) \<Rightarrow> NtTimeSyncFreqReference_e list \<Rightarrow> string" where
  "decodeTimeSyncFreqRefPriority ov tsrp = fold (freq_priority_step ov tsrp) [0, 1, 2, 3] '' ''"

section \<open>Time stamps\<close>

text \<open>
  The broken-down time that \<open>localtime\<close> returns depends on the time zone of the host: the function
  \<open>lt\<close> from seconds to \<open>tm\<close> is a parameter.
\<close>

record tm =
  tm_year :: int
  tm_mon :: int
  tm_mday :: int
  tm_hour :: int
  tm_min :: int
  tm_sec :: int

text \<open>\<open>%0wd\<close> of an \<open>int\<close>: the sign comes first and counts for the width.\<close>

definition show_int0 :: "nat \<Rightarrow> int \<Rightarrow> string" where
  "show_int0 w i = (if i < 0 then ''-'' @ pad_left CHR ''0'' (w - 1) (show_dec (nat (- i)))
                    else pad_left CHR ''0'' w (show_dec (nat i)))"

definition time_stamp_text :: "tm \<Rightarrow> u64 \<Rightarrow> string" where
  "time_stamp_text t ts =
     show_int0 4 (tm_year t + 1900) @ ''/'' @ show_int0 2 (tm_mon t + 1) @ ''/'' @ show_int0 2 (tm_mday t)
     @ ''-'' @ show_int0 2 (tm_hour t) @ '':'' @ show_int0 2 (tm_min t) @ '':'' @ show_int0 2 (tm_sec t)
     @ ''.'' @ pad_left CHR ''0'' 9 (show_dec (unat (ts mod 100000000 * 10)))"

definition decodeTimeStamp :: "(int \<Rightarrow> tm) \<Rightarrow> u64 \<Rightarrow> string" where
  "decodeTimeStamp lt ts = fst (snprintf 32 (time_stamp_text (lt (sint (ts div 100000000))) ts))"

section \<open>Properties\<close>

lemma decodePortType_inj: "decodePortType a = decodePortType b \<Longrightarrow> a = b"
  by (cases a; cases b; simp)

end
