(* ===== verification/Nt2json_Options.thy ===== *)
theory Nt2json_Options
  imports Libc
begin

text \<open>
  The command line of NT2JSON (\<open>NT2JSON/NT2JSON.c\<close>): the global option flags, \<open>validateFilename\<close>
  and the option loop of \<open>main\<close>.  \<open>getopt_long\<close> belongs to the C library; its results, in order, are
  the input of the loop, with \<open>OPTION_invalid\<close> for the values the switch sends to its default case.
\<close>

definition FILENAME_MAXLEN :: nat where
  "FILENAME_MAXLEN = 256"

record nt2json_opts =
  opt_filename :: bool
  out_filename :: string
  opt_pretty_print :: bool
  opt_verbose :: bool
  opt_system :: bool
  opt_timesync :: bool
  opt_sensors :: bool
  opt_alarm :: bool
  opt_port :: bool
  opt_rxport :: bool
  opt_txport :: bool
  opt_portsummary :: bool
  opt_stream :: bool
  opt_color :: bool
  opt_mergedcolor :: bool
  opt_product :: bool
  all_output_options :: bool

definition initial_opts :: nt2json_opts where
  "initial_opts = \<lparr>opt_filename = False, out_filename = [], opt_pretty_print = False, opt_verbose = False,
     opt_system = False, opt_timesync = False, opt_sensors = False, opt_alarm = False,
     opt_port = False, opt_rxport = False, opt_txport = False, opt_portsummary = False,
     opt_stream = False, opt_color = False, opt_mergedcolor = False, opt_product = False,
     all_output_options = True\<rparr>"

section \<open>validateFilename\<close>

definition filename_char :: "char \<Rightarrow> bool" where
  "filename_char ch =
     (let c = of_char ch :: nat in
      of_char CHR ''a'' \<le> c \<and> c \<le> of_char CHR ''z'' \<or>
      of_char CHR ''A'' \<le> c \<and> c \<le> of_char CHR ''Z'' \<or>
      of_char CHR ''0'' \<le> c \<and> c \<le> of_char CHR ''9'' \<or>
      ch = CHR ''.'' \<or> ch = CHR ''/'' \<or> ch = CHR ''_'')"

text \<open>The loop over the characters, which leaves at the first one it does not accept.\<close>

fun validate_chars :: "string \<Rightarrow> bool" where
  "validate_chars [] = True"
| "validate_chars (c # cs) = (if filename_char c then validate_chars cs else False)"

definition validateFilename :: "string \<Rightarrow> bool" where
  "validateFilename filename =
     (if min (length filename) FILENAME_MAXLEN = FILENAME_MAXLEN then False
      else validate_chars filename)"

section \<open>The option loop\<close>

datatype nt2json_option =
    OPTION_HELP | OPTION_SHORT_HELP | OPTION_FILE string | OPTION_PRETTY | OPTION_VERBOSE
  | OPTION_SYSTEM | OPTION_TIMESYNC | OPTION_SENSORS | OPTION_ALARM | OPTION_PORT
  | OPTION_RXPORT | OPTION_TXPORT | OPTION_PORTSIMPLE | OPTION_STREAM | OPTION_COLOR
  | OPTION_MERGEDCOLOR | OPTION_PRODUCT | OPTION_invalid

text \<open>The ways out of the loop before its end, and the exit status of each.\<close>

datatype nt2json_exit = Exit_usage | Exit_filename | Exit_alarm_and_sensors | Exit_option

fun exit_status :: "nt2json_exit \<Rightarrow> int" where
  "exit_status Exit_usage = 1"
| "exit_status Exit_filename = -1"
| "exit_status Exit_alarm_and_sensors = -1"
| "exit_status Exit_option = -1"

fun option_step :: "nt2json_option \<Rightarrow> nt2json_opts \<Rightarrow> nt2json_exit + nt2json_opts" where
  "option_step OPTION_HELP s = Inl Exit_usage"
| "option_step OPTION_SHORT_HELP s = Inl Exit_usage"
| "option_step (OPTION_FILE optarg) s =
     (if validateFilename optarg
      then Inr (s\<lparr>out_filename := fst (snprintf FILENAME_MAXLEN optarg), opt_filename := True\<rparr>)
      else Inl Exit_filename)"
| "option_step OPTION_PRETTY s = Inr (s\<lparr>opt_pretty_print := True\<rparr>)"
| "option_step OPTION_VERBOSE s = Inr (s\<lparr>opt_verbose := True\<rparr>)"
| "option_step OPTION_SYSTEM s = Inr (s\<lparr>opt_system := True, all_output_options := False\<rparr>)"
| "option_step OPTION_TIMESYNC s = Inr (s\<lparr>opt_timesync := True, all_output_options := False\<rparr>)"
| "option_step OPTION_SENSORS s =
     (if opt_alarm s then Inl Exit_alarm_and_sensors
      else Inr (s\<lparr>opt_sensors := True, all_output_options := False\<rparr>))"
| "option_step OPTION_ALARM s =
     (if opt_sensors s then Inl Exit_alarm_and_sensors
      else Inr (s\<lparr>opt_alarm := True, all_output_options := False\<rparr>))"
| "option_step OPTION_PORT s = Inr (s\<lparr>opt_port := True, all_output_options := False\<rparr>)"
| "option_step OPTION_RXPORT s = Inr (s\<lparr>opt_rxport := True, all_output_options := False\<rparr>)"
| "option_step OPTION_TXPORT s = Inr (s\<lparr>opt_txport := True, all_output_options := False\<rparr>)"
| "option_step OPTION_PORTSIMPLE s = Inr (s\<lparr>opt_portsummary := True, all_output_options := False\<rparr>)"
| "option_step OPTION_STREAM s = Inr (s\<lparr>opt_stream := True, all_output_options := False\<rparr>)"
| "option_step OPTION_COLOR s = Inr (s\<lparr>opt_color := True, all_output_options := False\<rparr>)"
| "option_step OPTION_MERGEDCOLOR s = Inr (s\<lparr>opt_mergedcolor := True, all_output_options := False\<rparr>)"
| "option_step OPTION_PRODUCT s = Inr (s\<lparr>opt_product := True, all_output_options := False\<rparr>)"
| "option_step OPTION_invalid s = Inl Exit_option"

fun option_loop :: "nt2json_option list \<Rightarrow> nt2json_opts \<Rightarrow> nt2json_exit + nt2json_opts" where
  "option_loop [] s = Inr s"
| "option_loop (p # ps) s =
     (case option_step p s of Inl e \<Rightarrow> Inl e | Inr s' \<Rightarrow> option_loop ps s')"

text \<open>No output option means all of them but the alarm, summary and merged ones.\<close>

definition default_outputs :: "nt2json_opts \<Rightarrow> nt2json_opts" where
  "default_outputs s =
     (if all_output_options s
      then s\<lparr>opt_system := True, opt_timesync := True, opt_sensors := True, opt_port := True,
             opt_rxport := True, opt_txport := True, opt_stream := True, opt_color := True,
             opt_product := True\<rparr>
      else s)"

definition parse_options :: "nt2json_option list \<Rightarrow> nt2json_exit + nt2json_opts" where
  "parse_options ps =
     (case option_loop ps initial_opts of
        Inl e \<Rightarrow> Inl e
      | Inr s \<Rightarrow> (let s = default_outputs s in
                  Inr (if opt_filename s then s else s\<lparr>opt_verbose := True\<rparr>)))"

section \<open>Properties\<close>

lemma validate_chars_all: "validate_chars cs \<longleftrightarrow> list_all filename_char cs"
  by (induction cs) auto

lemma validateFilename_iff:
  "validateFilename s \<longleftrightarrow> length s < FILENAME_MAXLEN \<and> (\<forall>c \<in> set s. filename_char c)"
  by (auto simp: validateFilename_def validate_chars_all list_all_iff min_def)

text \<open>An accepted name is stored whole: the copy into \<open>filename[FILENAME_MAXLEN]\<close> never cuts it.\<close>

lemma filename_stored_whole:
  "\<lbrakk>option_step (OPTION_FILE name) s = Inr s'\<rbrakk> \<Longrightarrow> out_filename s' = name \<and> opt_filename s'"
  by (auto simp: validateFilename_iff snprintf_fits split: if_splits)

text \<open>The options that select an output group.\<close>

fun output_option :: "nt2json_option \<Rightarrow> bool" where
  "output_option OPTION_HELP = False"
| "output_option OPTION_SHORT_HELP = False"
| "output_option (OPTION_FILE n) = False"
| "output_option OPTION_PRETTY = False"
| "output_option OPTION_VERBOSE = False"
| "output_option OPTION_invalid = False"
| "output_option _ = True"

text \<open>
  The invariant of the loop: the alarm and sensor flags are never both set, a flag of an output
  group is set only after \<open>all_output_options\<close> was cleared.
\<close>

definition any_output :: "nt2json_opts \<Rightarrow> bool" where
  "any_output s \<longleftrightarrow> opt_system s \<or> opt_timesync s \<or> opt_sensors s \<or> opt_alarm s \<or> opt_port s \<or>
     opt_rxport s \<or> opt_txport s \<or> opt_portsummary s \<or> opt_stream s \<or> opt_color s \<or>
     opt_mergedcolor s \<or> opt_product s"

definition opts_inv :: "nt2json_opts \<Rightarrow> bool" where
  "opts_inv s \<longleftrightarrow> \<not> (opt_sensors s \<and> opt_alarm s) \<and> (all_output_options s \<longleftrightarrow> \<not> any_output s)"

lemma opts_inv_initial: "opts_inv initial_opts"
  by (simp add: opts_inv_def any_output_def initial_opts_def)

lemma any_output_step:
  "option_step p s = Inr s' \<Longrightarrow> any_output s' \<longleftrightarrow> any_output s \<or> output_option p"
  by (cases p; clarsimp simp: any_output_def split: if_splits)

lemma all_output_step:
  "option_step p s = Inr s' \<Longrightarrow> all_output_options s' \<longleftrightarrow> all_output_options s \<and> \<not> output_option p"
  by (cases p; clarsimp split: if_splits)

lemma sensors_step: "option_step p s = Inr s' \<Longrightarrow> opt_sensors s' \<longleftrightarrow> opt_sensors s \<or> p = OPTION_SENSORS"
  by (cases p; clarsimp split: if_splits)

lemma alarm_step: "option_step p s = Inr s' \<Longrightarrow> opt_alarm s' \<longleftrightarrow> opt_alarm s \<or> p = OPTION_ALARM"
  by (cases p; clarsimp split: if_splits)

lemma exclusive_step:
  "\<lbrakk>option_step p s = Inr s'; \<not> (opt_sensors s \<and> opt_alarm s)\<rbrakk> \<Longrightarrow> \<not> (opt_sensors s' \<and> opt_alarm s')"
  by (cases p; clarsimp split: if_splits)

lemmas option_step_flags = any_output_step all_output_step sensors_step alarm_step

lemma opts_inv_step: "\<lbrakk>option_step p s = Inr s'; opts_inv s\<rbrakk> \<Longrightarrow> opts_inv s'"
  using exclusive_step [of p s s'] any_output_step [of p s s'] all_output_step [of p s s']
  by (auto simp: opts_inv_def)

lemma opts_inv_loop: "\<lbrakk>option_loop ps s = Inr s'; opts_inv s\<rbrakk> \<Longrightarrow> opts_inv s'"
  by (induction ps arbitrary: s) (auto dest: opts_inv_step split: sum.splits)

text \<open>After the defaults: at least one group is on, and still not both sensor modes.\<close>

lemma parse_options_exclusive:
  assumes "parse_options ps = Inr s"
  shows "any_output s \<and> \<not> (opt_sensors s \<and> opt_alarm s)"
proof -
  obtain s1 where s1: "option_loop ps initial_opts = Inr s1"
    using assms by (auto simp: parse_options_def split: sum.splits)
  have "opts_inv s1" by (rule opts_inv_loop [OF s1 opts_inv_initial])
  then have "any_output (default_outputs s1)"
    and "\<not> (opt_sensors (default_outputs s1) \<and> opt_alarm (default_outputs s1))"
    by (auto simp: default_outputs_def opts_inv_def any_output_def)
  with assms s1 show ?thesis
    by (auto simp: parse_options_def Let_def any_output_def split: if_splits)
qed

lemma option_loop_Inr_flags:
  "option_loop ps s = Inr s' \<Longrightarrow>
     (opt_sensors s' \<longleftrightarrow> opt_sensors s \<or> OPTION_SENSORS \<in> set ps) \<and>
     (opt_alarm s' \<longleftrightarrow> opt_alarm s \<or> OPTION_ALARM \<in> set ps) \<and>
     (all_output_options s' \<longleftrightarrow> all_output_options s \<and> \<not> (\<exists>p \<in> set ps. output_option p))"
proof (induction ps arbitrary: s)
  case Nil
  then show ?case by simp
next
  case (Cons p ps)
  then obtain s1 where s1: "option_step p s = Inr s1" and rest: "option_loop ps s1 = Inr s'"
    by (auto split: sum.splits)
  from option_step_flags [OF s1] Cons.IH [OF rest] show ?case by auto
qed

end
