(* ===== verification/Nt2json_Info.thy ===== *)
theory Nt2json_Info
  imports Nt2json_Decode Nt2json_Options
begin

text \<open>
  The sections of the NT2JSON document that come from the information stream: system, product,
  adapter, sensors and time synchronisation (\<open>getSystemInfo\<close> to \<open>getTimeSyncStat\<close> of \<open>NT2JSON.c\<close>).
  Every \<open>NT_InfoRead\<close> of the driver is a function from the fields that the request sets to an
  answer: the status and what the structure holds afterwards.  After a failed read the structure
  holds whatever the driver or the stack left there, and the code that goes on regardless uses it.
  A result of type \<open>json\<close> is the returned pointer with \<open>JNull\<close> for \<open>NULL\<close>; \<open>None\<close> means that the
  process is aborted.
\<close>

type_synonym 'a answer = "int \<times> 'a"

definition NT_SUCCESS :: int where
  "NT_SUCCESS = 0"

section \<open>System and product\<close>

text \<open>\<open>getSystemInfo\<close> reports a failed read and uses the structure all the same.  The result is the
  object and the two counts it stores through its pointers.\<close>

definition show_d :: "u32 \<Rightarrow> string" where
  "show_d w = show_int (sint w)"

definition getSystemInfo :: "NtInfoSystem answer \<Rightarrow> json \<times> u32 \<times> u32" where
  "getSystemInfo ans =
     (let d = snd ans; v = sys_version d in
      (new_object
        [(''numAdapters'', json_object_new_int (sys_numAdapters d)),
         (''numNumaNodes'', json_object_new_int (sys_numNumaNodes d)),
         (''numPorts'', json_object_new_int (sys_numPorts d)),
         (''version'', JStr (show_d (v_major v) @ ''.'' @ show_d (v_minor v) @ ''.''
                             @ show_d (v_patch v) @ ''.'' @ show_d (v_tag v)))],
       sys_numAdapters d, sys_numPorts d))"

text \<open>\<open>memcpy(imageStr, bytes, sizeof bytes); imageStr[n] = 0\<close>: the text up to the first NUL.\<close>

definition image_str :: "nat \<Rightarrow> string \<Rightarrow> json" where
  "image_str n bytes = JStr (takeWhile (\<lambda>c. c \<noteq> CHR 0x00) (take n bytes))"

definition getProductInfo :: "NtInfoProductInfo answer \<Rightarrow> json option" where
  "getProductInfo ans =
     (let (status, info) = ans in
      if status \<noteq> NT_SUCCESS then Some JNull
      else case pi_infoType info of
        NT_PRODUCT_INFO_TYPE_GEN1 \<Rightarrow> Some (new_object
          [(''Product No'', JStr (pi_ProductId info)),
           (''Serial No'', JStr (pi_SerialNo info ! 0)),
           (''PBA'', JStr (pi_PbaId info ! 0)),
           (''CPLD'', JStr (pi_CpldVersion info)),
           (''FPGA flash image #0'', image_str 14 (pi_fpgaId1 info)),
           (''FPGA flash image #1'', image_str 14 (pi_fpgaId2 info))])
      | NT_PRODUCT_INFO_TYPE_GEN2 \<Rightarrow> Some (new_object
          [(''Product No'', JStr (pi_ProductId info)),
           (''Main Board Serial No'', JStr (pi_SerialNo info ! 0)),
           (''Main Board PBA'', JStr (pi_PbaId info ! 0)),
           (''Main Board AVR'', image_str 3 (pi_AvrId info ! 0)),
           (''FPGA flash image #0'', image_str 14 (pi_fpgaId1 info)),
           (''FPGA flash image #1'', image_str 14 (pi_fpgaId2 info)),
           (''Front Board Serial No'', JStr (pi_SerialNo info ! 1)),
           (''Front Board PBA'', JStr (pi_PbaId info ! 1)),
           (''Front Board AVR'', image_str 3 (pi_AvrId info ! 1))])
      | NT_PRODUCT_INFO_TYPE_GEN3 \<Rightarrow> Some (new_object
          [(''Product No'', JStr (pi_ProductId info)),
           (''Serial No'', JStr (pi_SerialNo info ! 0)),
           (''PBA'', JStr (pi_PbaId info ! 0)),
           (''AVR Version'', image_str 3 (pi_AvrId info ! 0)),
           (''FPGA flash image #0'', image_str 14 (pi_fpgaId1 info)),
           (''FPGA flash image #1'', image_str 14 (pi_fpgaId2 info))])
      | NT_PRODUCT_INFO_TYPE_other \<Rightarrow> None)"

section \<open>Sensors\<close>

fun sensor_unit :: "NtSensorType_e \<Rightarrow> nat \<times> string" where
  "sensor_unit NT_SENSOR_TYPE_TEMPERATURE = (10, ''Temp. [C]'')"
| "sensor_unit NT_SENSOR_TYPE_VOLTAGE = (100, ''Volt. [V]'')"
| "sensor_unit NT_SENSOR_TYPE_CURRENT = (1000, ''Curr. [mA]'')"
| "sensor_unit NT_SENSOR_TYPE_POWER = (10, ''Power [uW]'')"
| "sensor_unit NT_SENSOR_TYPE_HIGH_POWER = (10, ''Power [W]'')"
| "sensor_unit NT_SENSOR_TYPE_FAN = (1, ''RPM'')"
| "sensor_unit NT_SENSOR_TYPE_other = (1, ''**** ERROR UNKNOWN SENSOR TYPE'')"

definition sensor_title :: "NtInfoSensor \<Rightarrow> string \<times> json" where
  "sensor_title d = (case sen_subType d of
       NT_SENSOR_SUBTYPE_POWER_OMA \<Rightarrow> (sen_name d, JStr ''OMA'')
     | NT_SENSOR_SUBTYPE_POWER_AVERAGE \<Rightarrow> (sen_name d, JStr ''Average'')
     | NT_SENSOR_SUBTYPE_other \<Rightarrow> (''name'', JStr (sen_name d)))"

definition getSingleSensorData :: "NtInfoSensor \<Rightarrow> json" where
  "getSingleSensorData d =
     (let (fdivFac, unit) = sensor_unit (sen_type d);
          quot = (\<lambda>w :: u32. JQuot (sint w) fdivFac) in
      new_object
       [sensor_title d,
        (''unit'', JStr unit),
        (''limitLow'', quot (sen_limitLow d)),
        (''limitHigh'', quot (sen_limitHigh d)),
        (''value'', quot (sen_value d)),
        (''state'', JStr (if sen_state d = NT_SENSOR_STATE_ALARM then ''Alarm!'' else ''OK'')),
        (''valueLowest'', quot (sen_valueLowest d)),
        (''valueHighest'', quot (sen_valueHighest d))])"

definition sensor_wanted :: "nt2json_opts \<Rightarrow> NtInfoSensor \<Rightarrow> bool" where
  "sensor_wanted s d \<longleftrightarrow> opt_sensors s \<or> opt_alarm s \<and> sen_state d = NT_SENSOR_STATE_ALARM"

text \<open>A sensor read is asked for by source, index of the source and index of the sensor.\<close>

type_synonym sensor_reader = "NtSensorSource_e \<Rightarrow> u32 \<Rightarrow> u32 \<Rightarrow> NtInfoSensor answer"

definition sensor_with_port :: "NtInfoSensor \<Rightarrow> u32 \<Rightarrow> json" where
  "sensor_with_port d port =
     JObj (AList.update ''port'' (json_object_new_int port) (members (getSingleSensorData d)))"

text \<open>One of the two inner loops of \<open>getPortSensorInfo\<close>: a failed read is passed over.\<close>

fun port_sensor_loop ::
    "nt2json_opts \<Rightarrow> sensor_reader \<Rightarrow> NtSensorSource_e \<Rightarrow> u32 \<Rightarrow> nat list \<Rightarrow> json list \<Rightarrow> json list" where
  "port_sensor_loop s rd src port [] acc = acc"
| "port_sensor_loop s rd src port (i # is) acc =
     (let (status, d) = rd src port (of_nat i) in
      port_sensor_loop s rd src port is
        (if status = NT_SUCCESS \<and> sensor_wanted s d then acc @ [sensor_with_port d port] else acc))"

text \<open>The loop over the ports, left with \<open>None\<close> (the \<open>return NULL\<close>) when a port cannot be read.\<close>

fun port_loop ::
    "nt2json_opts \<Rightarrow> (u8 \<Rightarrow> NtInfoPort answer) \<Rightarrow> sensor_reader \<Rightarrow> nat list \<Rightarrow> json list \<Rightarrow> json list option" where
  "port_loop s rdp rd [] acc = Some acc"
| "port_loop s rdp rd (p # ps) acc =
     (let port = of_nat p; (status, info) = rdp (ucast port) in
      if status \<noteq> NT_SUCCESS then None
      else let acc = port_sensor_loop s rd NT_SENSOR_SOURCE_PORT port [0..<unat (prt_numSensors info)] acc;
               acc = port_sensor_loop s rd NT_SENSOR_SOURCE_LEVEL1_PORT port
                       [0..<unat (prt_numLevel1Sensors info)] acc
           in port_loop s rdp rd ps acc)"

definition getPortSensorInfo ::
    "nt2json_opts \<Rightarrow> (u8 \<Rightarrow> NtInfoPort answer) \<Rightarrow> sensor_reader \<Rightarrow> u32 \<Rightarrow> u32 \<Rightarrow> json" where
  "getPortSensorInfo s rdp rd firstPort lastPort =
     (case port_loop s rdp rd [unat firstPort..<unat lastPort] [] of
        None \<Rightarrow> JNull
      | Some sensors \<Rightarrow> new_object [(''PortSensors'', JArr sensors)])"

text \<open>The loop of \<open>getSensorInfo\<close> gives up, and returns \<open>NULL\<close>, at the first failed read.\<close>

fun sensor_loop ::
    "nt2json_opts \<Rightarrow> sensor_reader \<Rightarrow> u32 \<Rightarrow> nat list \<Rightarrow> json list \<Rightarrow> json list option" where
  "sensor_loop s rd adapter [] acc = Some acc"
| "sensor_loop s rd adapter (i # is) acc =
     (let (status, d) = rd NT_SENSOR_SOURCE_ADAPTER adapter (of_nat i) in
      if status = NT_SUCCESS
      then sensor_loop s rd adapter is (if sensor_wanted s d then acc @ [getSingleSensorData d] else acc)
      else None)"

definition getSensorInfo :: "nt2json_opts \<Rightarrow> sensor_reader \<Rightarrow> u32 \<Rightarrow> u32 \<Rightarrow> json" where
  "getSensorInfo s rd adapter numSensors =
     (case sensor_loop s rd adapter [0..<unat numSensors] [] of None \<Rightarrow> JNull | Some vs \<Rightarrow> JArr vs)"

section \<open>Adapter\<close>

text \<open>
  The result is the returned object and the values behind the three pointers, which the caller
  set to 0 and a failed read leaves alone.
\<close>

definition getAdapterInfo ::
    "nt2json_opts \<Rightarrow> (u8 \<Rightarrow> NtInfoAdapter answer) \<Rightarrow> (u8 \<Rightarrow> NtInfoProductInfo answer) \<Rightarrow> u32 \<Rightarrow>
     (json \<times> u32 \<times> u32 \<times> u32) option" where
  "getAdapterInfo s rda rdpi adapter =
     (let (status, d) = rda (ucast adapter) in
      if status \<noteq> NT_SUCCESS then Some (JNull, 0, 0, 0)
      else let base = [(''id'', json_object_new_int (ucast (ucast adapter :: u8))),
                       (''name'', JStr (adp_name d))];
               counts = (adp_numSensors d, adp_portOffset d, adp_portOffset d + adp_numPorts d)
           in if opt_product s
              then case getProductInfo (rdpi (ucast adapter)) of
                     None \<Rightarrow> None
                   | Some jsonProdInfo \<Rightarrow> Some (new_object (base @ [(''ProductInfo'', jsonProdInfo)]), counts)
              else Some (new_object base, counts))"

section \<open>Time synchronisation\<close>

definition getTimeSyncStatExt :: "NtInfoTimeSyncStatusExt answer \<Rightarrow> json" where
  "getTimeSyncStatExt ans =
     (let (status, d) = ans in
      if status \<noteq> NT_SUCCESS then JNull
      else new_object
        ([(''valid'', json_object_new_int (tx_infoValid d))] @
         (if tx_infoValid d \<noteq> 0 then
           [(''extDevSyncSignalOk'', json_object_new_int (tx_extDevSyncSignalOk d)),
            (''extDevInSync'', json_object_new_int (tx_extDevInSync d)),
            (''extDevTimeOfDayOk'', json_object_new_int (tx_extDevTimeOfDayOk d)),
            (''extDevOsModeSyncEnabled'', json_object_new_int (tx_extDevOsModeSyncEnabled d)),
            (''extDevOsModeInSync'', json_object_new_int (tx_extDevOsModeInSync d)),
            (''extDevIsMaster'', json_object_new_int (tx_extDevIsMaster d)),
            (''extAdapterIsMaster'', json_object_new_int (tx_extAdapterIsMaster d)),
            (''extDevMasterID'', json_object_new_int (tx_extDevMasterID d))]
          else [])))"

fun inSyncStatus_text :: "NtTimeSyncInSyncStatus_e \<Rightarrow> string" where
  "inSyncStatus_text NT_TIMESYNC_INSYNC_STATUS_NONE = ''None''"
| "inSyncStatus_text NT_TIMESYNC_INSYNC_STATUS_IN_SYNC = ''IN_SYNC''"
| "inSyncStatus_text NT_TIMESYNC_INSYNC_STATUS_NOT_IN_SYNC = ''NON_IN_SYNC''"
| "inSyncStatus_text NT_TIMESYNC_INSYNC_STATUS_other = ''Error''"

fun connectorStatus_text :: "NtTimeSyncConnectorStatus_e \<Rightarrow> string" where
  "connectorStatus_text NT_TIMESYNC_CONNECTOR_STATUS_NONE = ''None''"
| "connectorStatus_text NT_TIMESYNC_CONNECTOR_STATUS_SIGNAL_LOST = ''SIGNAL_LOST''"
| "connectorStatus_text NT_TIMESYNC_CONNECTOR_STATUS_SIGNAL_PRESENT = ''SIGNAL_PRESENT''"
| "connectorStatus_text NT_TIMESYNC_CONNECTOR_STATUS_other = ''Error''"

fun ppsStatus_text :: "NtTimeSyncPpsStatus_e \<Rightarrow> string" where
  "ppsStatus_text NT_TIMESYNC_PPS_STATUS_NONE = ''None''"
| "ppsStatus_text NT_TIMESYNC_PPS_STATUS_ENABLED = ''ENABLED''"
| "ppsStatus_text NT_TIMESYNC_PPS_STATUS_DISABLED = ''DISABLED''"
| "ppsStatus_text NT_TIMESYNC_PPS_STATUS_other = ''Error''"

fun ppsMode_text :: "NtTimeSyncPpsMode_e \<Rightarrow> string" where
  "ppsMode_text NT_TIMESYNC_PPS_MODE_NOT_SYNCING = ''NOT_SYNCING''"
| "ppsMode_text NT_TIMESYNC_PPS_MODE_PHASE_SYNCING = ''PHASE_SYNCING''"
| "ppsMode_text NT_TIMESYNC_PPS_MODE_TIME_SYNCING = ''MODE_TIME_SYNCING ''"
| "ppsMode_text NT_TIMESYNC_PPS_MODE_other = ''Error''"

fun statSupport_text :: "NtTimeSyncStatSupport_e \<Rightarrow> string" where
  "statSupport_text NT_TIMESYNC_STATISTICS_NO_SUPPORT = ''NO_SUPPORT''"
| "statSupport_text NT_TIMESYNC_STATISTICS_PTP_ONLY = ''PTP_ONLY''"
| "statSupport_text NT_TIMESYNC_STATISTICS_FULL_SUPPORT = ''FULL_SUPPORT''"
| "statSupport_text NT_TIMESYNC_STATISTICS_other = ''Error.''"

text \<open>
  The calls share one buffer: the decoder of \<open>timeRef\<close> finds the text of the priority list in it,
  and the decoder of \<open>freqRef\<close> that of the frequency priority list.
\<close>

definition getTimeSyncInfo :: "(string \<Rightarrow> string \<Rightarrow> string) \<Rightarrow> NtInfoTimeSync answer \<Rightarrow> json" where
  "getTimeSyncInfo ov ans =
     (let (status, d) = ans in
      if status \<noteq> NT_SUCCESS then JNull
      else
       (let tsRefPrio = decodeTimeSyncRefPriority ov (ts_tsRefPrio d);
            timeRef = decodeTimeSyncRef (ts_timeRef d) tsRefPrio;
            tsFreqRefPrio = decodeTimeSyncFreqRefPriority ov (ts_tsFreqRefPrio d);
            freqRef = decodeTimeSyncFreqRef (ts_freqRef d) tsFreqRefPrio in
        new_object
         [(''timeSyncSupported'', json_object_new_int (ts_timeSyncSupported d)),
          (''ptpSupported'', json_object_new_int (ts_ptpSupported d)),
          (''timeSyncConnectorExt1'', JStr (decodeTimeSyncConnector (ts_timeSyncConnectorExt1 d))),
          (''timeSyncConnectorInt1'', JStr (decodeTimeSyncConnector (ts_timeSyncConnectorInt1 d))),
          (''timeSyncConnectorInt2'', JStr (decodeTimeSyncConnector (ts_timeSyncConnectorInt1 d))),
          (''tsRefPrio'', JStr tsRefPrio),
          (''timeRef'', JStr timeRef),
          (''tsFreqRefPrio'', JStr tsFreqRefPrio),
          (''freqRef'', JStr freqRef),
          (''timeSyncNTTSInSyncLimit'', json_object_new_int (ts_timeSyncNTTSInSyncLimit d)),
          (''timeSyncOSInSyncLimit'', json_object_new_int (ts_timeSyncOSInSyncLimit d)),
          (''timeSyncPPSInSyncLimit'', json_object_new_int (ts_timeSyncPPSInSyncLimit d)),
          (''timeSyncPTPInSyncLimit'', json_object_new_int (ts_timeSyncPTPInSyncLimit d)),
          (''timeSyncInSyncStatus'', JStr (inSyncStatus_text (ts_timeSyncInSyncStatus d))),
          (''timeSyncCurrentConStatus'', JStr (connectorStatus_text (ts_timeSyncCurrentConStatus d))),
          (''timeSyncPpsEnable'', JStr (ppsStatus_text (ts_timeSyncPpsEnable d))),
          (''timeSyncPpsSyncMode'', JStr (ppsMode_text (ts_timeSyncPpsSyncMode d))),
          (''timeSyncClockAdjustmentMode'', json_object_new_int (ts_timeSyncClockAdjustmentMode d)),
          (''timeSyncHardReset'', json_object_new_int (ts_timeSyncHardReset d)),
          (''timeSyncTimeJumpThreshold'', json_object_new_int (ts_timeSyncTimeJumpThreshold d)),
          (''timeSyncTimeOffset'', json_object_new_int (ts_timeSyncTimeOffset d)),
          (''timeSyncPpsSampled'', json_object_new_int (ts_timeSyncPpsSampled d)),
          (''timeSyncTimeSkew'', json_object_new_int (ts_timeSyncTimeSkew d)),
          (''highFrequencySampling'', json_object_new_int (ts_highFrequencySampling d)),
          (''timeSyncAdapterToOSSyncEnabled'', json_object_new_int (ts_timeSyncAdapterToOSSyncEnabled d)),
          (''timeSyncOSClockOffset'', json_object_new_int64 (ts_timeSyncOSClockOffset d)),
          (''timeSyncOSClockRateAdjustment'', json_object_new_int64 (ts_timeSyncOSClockRateAdjustment d))]))"

definition getTimeSyncStat :: "NtInfoTimeSyncStat answer \<Rightarrow> json" where
  "getTimeSyncStat ans =
     (let (status, d) = ans in
      if status \<noteq> NT_SUCCESS then JNull
      else new_object
        [(''supported'', JStr (statSupport_text (tt_supported d))),
         (''samples'', json_object_new_int64 (tt_samples d)),
         (''skew'', json_object_new_int64 (tt_skew d)),
         (''min'', json_object_new_int64 (tt_min d)),
         (''max'', json_object_new_int64 (tt_max d)),
         (''mean'', json_object_new_int64 (tt_mean d)),
         (''jitter'', json_object_new_int64 (tt_jitter d)),
         (''secSinceReset'', json_object_new_int64 (tt_secSinceReset d)),
         (''stdDevSqr'', JDouble (tt_stdDevSqr d)),
         (''signalLostCnt'', json_object_new_int64 (tt_signalLostCnt d)),
         (''syncLostCnt'', json_object_new_int64 (tt_syncLostCnt d)),
         (''hardResetCnt'', json_object_new_int64 (tt_hardResetCnt d))])"

end
