(* ===== verification/Nt2json_Stats.thy ===== *)
theory Nt2json_Stats
  imports Nt2json_Info
begin

text \<open>
  The sections of the NT2JSON document that come from the statistics stream, and the port table:
  \<open>portSummary2JSON\<close> to \<open>getMergedColorStats\<close> of \<open>NT2JSON.c\<close>.  A \<open>NT_StatRead\<close> is an answer as
  in \<open>Nt2json_Info\<close>; a function that reads several times takes the answers by the number of the
  call.  \<open>lt\<close> is \<open>localtime\<close>.
\<close>

section \<open>Counter groups of a port\<close>

text \<open>The two functions add members to the object \<open>jsonPortStats\<close>, here its member list.\<close>

definition rmon_members :: "NtRMON1Counters \<Rightarrow> (string \<times> json) list" where
  "rmon_members c =
    [(''pkts'', json_object_new_int64 (rm_pkts c)),
     (''octets'', json_object_new_int64 (rm_octets c)),
     (''pkts_drop'', json_object_new_int64 (rm_dropEvents c)),
     (''pkts_64_Octets'', json_object_new_int64 (rm_pkts64Octets c)),
     (''pkts_65_127_Octets'', json_object_new_int64 (rm_pkts65to127Octets c)),
     (''pkts_128_255_Octets'', json_object_new_int64 (rm_pkts128to255Octets c)),
     (''pkts_256_511_Octets'', json_object_new_int64 (rm_pkts256to511Octets c)),
     (''pkts_512_1023_Octets'', json_object_new_int64 (rm_pkts512to1023Octets c)),
     (''pkts_1024_1518_Octets'', json_object_new_int64 (rm_pkts1024to1518Octets c)),
     (''pkts_oversize'', json_object_new_int64 (rm_oversizePkts c)),
     (''pkts_undersize'', json_object_new_int64 (rm_undersizePkts c)),
     (''pkts_multicast'', json_object_new_int64 (rm_multicastPkts c)),
     (''pkts_jabber'', json_object_new_int64 (rm_jabbers c)),
     (''pkts_fragments'', json_object_new_int64 (rm_fragments c)),
     (''pkts_collisions'', json_object_new_int64 (rm_collisions c)),
     (''pkts_crcAlignErrors'', json_object_new_int64 (rm_crcAlignErrors c)),
     (''pkts_broadcast'', json_object_new_int64 (rm_broadcastPkts c))]"

definition extRMON_members :: "NtExtRMONCounters \<Rightarrow> (string \<times> json) list" where
  "extRMON_members c =
    [(''pkts_1519to2047_Octets'', json_object_new_int64 (er_pkts1519to2047Octets c)),
     (''pkts_2048to4095_Octets'', json_object_new_int64 (er_pkts2048to4095Octets c)),
     (''pkts_4096to8191_Octets'', json_object_new_int64 (er_pkts4096to8191Octets c)),
     (''pkts_8192toMax_Octets'', json_object_new_int64 (er_pkts8192toMaxOctets c)),
     (''pkts_Alignment'', json_object_new_int64 (er_pktsAlignment c)),
     (''pkts_CodeViolation'', json_object_new_int64 (er_pktsCodeViolation c)),
     (''pkts_Crc'', json_object_new_int64 (er_pktsCrc c)),
     (''pkts_HardSlice'', json_object_new_int64 (er_pktsHardSlice c)),
     (''pkts_HardSliceJabber'', json_object_new_int64 (er_pktsHardSliceJabber c)),
     (''pkts_unicast'', json_object_new_int64 (er_unicastPkts c))]"

definition extDrop_members :: "NtExtDropCounters \<Rightarrow> (string \<times> json) list" where
  "extDrop_members c =
    [(''pkts_Dedup'', json_object_new_int64 (ed_pktsDedup c)),
     (''octets_Dedup'', json_object_new_int64 (ed_octetsDedup c)),
     (''pkts_NoFilter'', json_object_new_int64 (ed_pktsNoFilter c)),
     (''octets_NoFilter'', json_object_new_int64 (ed_octetsNoFilter c)),
     (''pkts_Overflow'', json_object_new_int64 (ed_pktsOverflow c)),
     (''octets_Overflow'', json_object_new_int64 (ed_octetsOverflow c)),
     (''pkts_MacBandwidth'', json_object_new_int64 (ed_pktsMacBandwidth c))]"

definition decode_members :: "NtDecodeCounters \<Rightarrow> (string \<times> json) list" where
  "decode_members c =
    [(''pkts_BabyGiant'', json_object_new_int64 (dc_pktsBabyGiant c)),
     (''pkts_GiantUndersize'', json_object_new_int64 (dc_pktsGiantUndersize c)),
     (''pkts_Isl'', json_object_new_int64 (dc_pktsIsl c)),
     (''pkts_IslMpls'', json_object_new_int64 (dc_pktsIslMpls c)),
     (''pkts_IslVlan'', json_object_new_int64 (dc_pktsIslVlan c)),
     (''pkts_IslVlanMpls'', json_object_new_int64 (dc_pktsIslVlanMpls c)),
     (''pkts_Mpls'', json_object_new_int64 (dc_pktsMpls c)),
     (''pkts_NotIslVlanMpls'', json_object_new_int64 (dc_pktsNotIslVlanMpls c)),
     (''pkts_Vlan'', json_object_new_int64 (dc_pktsVlan c)),
     (''pkts_VlanMpls'', json_object_new_int64 (dc_pktsVlanMpls c))]"

definition checksum_members :: "NtChecksumCounters \<Rightarrow> (string \<times> json) list" where
  "checksum_members c =
    [(''pkts_IpChkSumError'', json_object_new_int64 (ck_pktsIpChkSumError c)),
     (''pkts_TcpChkSumError'', json_object_new_int64 (ck_pktsTcpChkSumError c)),
     (''pkts_UdpChkSumError'', json_object_new_int64 (ck_pktsUdpChkSumError c))]"

definition ipFrag_members :: "NtIpFragCounters \<Rightarrow> (string \<times> json) list" where
  "ipFrag_members c =
    [(''pkts_FragTableFirstHit'', json_object_new_int64 (fr_ipFragTableFirstHit c)),
     (''pkts_FragTableFirstNoHit'', json_object_new_int64 (fr_ipFragTableFirstNoHit c)),
     (''pkts_FragTableLastHit'', json_object_new_int64 (fr_ipFragTableLastHit c)),
     (''pkts_FragTableLastNoHit'', json_object_new_int64 (fr_ipFragTableLastNoHit c)),
     (''pkts_FragTableMidHit'', json_object_new_int64 (fr_ipFragTableMidHit c)),
     (''pkts_FragTableMidNoHit'', json_object_new_int64 (fr_ipFragTableMidNoHit c))]"

definition summary_rmon_members :: "NtRMON1Counters \<Rightarrow> (string \<times> json) list" where
  "summary_rmon_members c =
    [(''pkts'', json_object_new_int64 (rm_pkts c)),
     (''octets'', json_object_new_int64 (rm_octets c)),
     (''pkts_drop'', json_object_new_int64 (rm_dropEvents c)),
     (''pkts_oversize'', json_object_new_int64 (rm_oversizePkts c)),
     (''pkts_undersize'', json_object_new_int64 (rm_undersizePkts c)),
     (''pkts_multicast'', json_object_new_int64 (rm_multicastPkts c)),
     (''pkts_jabber'', json_object_new_int64 (rm_jabbers c)),
     (''pkts_fragments'', json_object_new_int64 (rm_fragments c)),
     (''pkts_collisions'', json_object_new_int64 (rm_collisions c)),
     (''pkts_crcAlignErrors'', json_object_new_int64 (rm_crcAlignErrors c)),
     (''pkts_broadcast'', json_object_new_int64 (rm_broadcastPkts c))]"

definition summary_drop_members :: "NtExtDropCounters \<Rightarrow> (string \<times> json) list" where
  "summary_drop_members c =
    [(''pkts_drop_Dedup'', json_object_new_int64 (ed_pktsDedup c)),
     (''pkts_drop_NoFilter'', json_object_new_int64 (ed_pktsNoFilter c)),
     (''pkts_drop_Overflow'', json_object_new_int64 (ed_pktsOverflow c)),
     (''pkts_drop_MacBandwidth'', json_object_new_int64 (ed_pktsMacBandwidth c))]"

definition portSummary2JSON :: "NtPortStatistics \<Rightarrow> (string \<times> json) list \<Rightarrow> (string \<times> json) list" where
  "portSummary2JSON p kvs = put_all kvs
   ((if valid_RMON1 p then summary_rmon_members (ps_RMON1 p) else []) @
    (if valid_extDrop p then summary_drop_members (ps_extDrop p) else []))"

definition portStats2JSON :: "NtPortStatistics \<Rightarrow> (string \<times> json) list \<Rightarrow> (string \<times> json) list" where
  "portStats2JSON p kvs = put_all kvs
   ((if valid_RMON1 p then [(''RMON'', new_object (rmon_members (ps_RMON1 p)))] else []) @
    (if valid_extRMON p then [(''ExtRMON'', new_object (extRMON_members (ps_extRMON p)))] else []) @
    (if valid_extDrop p then [(''ExtDrop'', new_object (extDrop_members (ps_extDrop p)))] else []) @
    (if valid_decode p then [(''Decode'', new_object (decode_members (ps_decode p)))] else []) @
    (if valid_chksum p then [(''Checksum'', new_object (checksum_members (ps_chksum p)))] else []) @
    (if valid_ipf p then [(''IpFrag'', new_object (ipFrag_members (ps_ipf p)))] else []))"

section \<open>Ports\<close>

definition show_02X :: "u8 \<Rightarrow> string" where
  "show_02X b = pad_left CHR ''0'' 2 (show_hex (unat b))"

definition mac_text :: "u8 list \<Rightarrow> string" where
  "mac_text m = show_02X (m ! 0) @ '':'' @ show_02X (m ! 1) @ '':'' @ show_02X (m ! 2) @ '':''
              @ show_02X (m ! 3) @ '':'' @ show_02X (m ! 4) @ '':'' @ show_02X (m ! 5)"

fun mdi_text :: "NtLinkMDI_e \<Rightarrow> string" where
  "mdi_text NT_LINK_MDI_NA = ''NA''"
| "mdi_text NT_LINK_MDI_AUTO = ''AUTO''"
| "mdi_text NT_LINK_MDI_MDI = ''MDI''"
| "mdi_text NT_LINK_MDI_MDIX = ''MDIX''"
| "mdi_text NT_LINK_MDI_other = ''Unknown''"

text \<open>A failed read of the port is reported and what the structure holds is printed.\<close>

definition port_info :: "(u8 \<Rightarrow> NtInfoPort answer) \<Rightarrow> nat \<Rightarrow> json" where
  "port_info rdp port =
     (let d = snd (rdp (of_nat port)) in
      new_object
       [(''port'', json_object_new_int (of_nat port)),
        (''MAC'', JStr (mac_text (prt_macAddress d))),
        (''portSpeedGbps'', JStr (decodeSpeed (prt_speed d))),
        (''linkState'', JStr (decodeState (prt_state d))),
        (''type'', JStr (decodePortType (prt_type d))),
        (''duplex'', JStr (decodeDuplex (prt_duplex d))),
        (''flow_control'', JStr (if prt_flow d = 1 then ''yes'' else ''no'')),
        (''maxFrameSize'', json_object_new_int (prt_maxFrameSize d)),
        (''MDI'', JStr (mdi_text (prt_mdi d)))])"

definition getPortInfo :: "NtInfoSystem answer \<Rightarrow> (u8 \<Rightarrow> NtInfoPort answer) \<Rightarrow> json" where
  "getPortInfo sys rdp =
     (let (status, d) = sys in
      if status \<noteq> 0 then JNull
      else JArr (map (port_info rdp) [0..<unat (sys_numPorts d)]))"

text \<open>The members that give the time stamp of a port.\<close>

definition port_time :: "(int \<Rightarrow> tm) \<Rightarrow> NtPortQuery \<Rightarrow> (string \<times> json) list" where
  "port_time lt q =
     [(''ts'', json_object_new_int64 (pq_ts q))] @
     (if pq_tsType q = NT_TIMESTAMP_TYPE_NATIVE_UNIX then [(''tsStr'', JStr (decodeTimeStamp lt (pq_ts q)))]
      else []) @
     [(''tsType'', JStr (decodeTimeStampType (pq_tsType q)))]"

definition port_stats :: "nt2json_opts \<Rightarrow> (int \<Rightarrow> tm) \<Rightarrow> nat \<Rightarrow> NtPortQuery \<Rightarrow> json" where
  "port_stats s lt port q =
     new_object
      ([(''port'', json_object_new_int (of_nat port))] @ port_time lt q @
       (if \<not> opt_txport s \<and> valid_RMON1 (pq_rx q) then [(''Rx'', JObj (portStats2JSON (pq_rx q) []))] else []) @
       (if \<not> opt_rxport s \<and> valid_RMON1 (pq_tx q) then [(''Tx'', JObj (portStats2JSON (pq_tx q) []))] else []))"

text \<open>The statistics are read once to wait for a new set and then once more for every port.\<close>

fun port_stats_loop ::
    "nt2json_opts \<Rightarrow> (int \<Rightarrow> tm) \<Rightarrow> (nat \<Rightarrow> NtStatQuery answer) \<Rightarrow> nat list \<Rightarrow> json list \<Rightarrow> json list option" where
  "port_stats_loop s lt rds [] acc = Some acc"
| "port_stats_loop s lt rds (port # ps) acc =
     (let (status, q) = rds (Suc port) in
      if status \<noteq> NT_SUCCESS then None
      else port_stats_loop s lt rds ps (acc @ [port_stats s lt port (q_aPorts q port)]))"

definition getPortStats ::
    "nt2json_opts \<Rightarrow> (int \<Rightarrow> tm) \<Rightarrow> NtInfoSystem answer \<Rightarrow> (nat \<Rightarrow> NtStatQuery answer) \<Rightarrow> json" where
  "getPortStats s lt sys rds =
     (if fst (rds 0) \<noteq> NT_SUCCESS then JNull
      else case port_stats_loop s lt rds [0..<unat (sys_numPorts (snd sys))] [] of
             None \<Rightarrow> JNull
           | Some ports \<Rightarrow> JArr ports)"

section \<open>Port summary\<close>

definition port_summary ::
    "nt2json_opts \<Rightarrow> (int \<Rightarrow> tm) \<Rightarrow> u64 \<Rightarrow> nat \<Rightarrow> NtInfoPort \<Rightarrow> NtPortQuery \<Rightarrow> json" where
  "port_summary s lt sysTime port d q =
     (let kvs = put_all []
        ([(''port'', json_object_new_int (of_nat port)),
          (''sysTime'', json_object_new_int64 sysTime),
          (''portSpeedGbps'', JStr (decodeSpeed (prt_speed d))),
          (''linkState'', JStr (decodeState (prt_state d)))] @ port_time lt q)
      in JObj (if \<not> opt_txport s \<and> valid_RMON1 (pq_rx q) then portSummary2JSON (pq_rx q) kvs else kvs))"

text \<open>
  The caller's array \<open>jsonPorts\<close> is indexed by the port without a check: a store outside it is
  undefined, \<open>None\<close>.  A failed statistics read returns the count 0.
\<close>

fun summary_loop ::
    "nt2json_opts \<Rightarrow> (int \<Rightarrow> tm) \<Rightarrow> u64 \<Rightarrow> (u8 \<Rightarrow> NtInfoPort answer) \<Rightarrow> (nat \<Rightarrow> NtStatQuery answer) \<Rightarrow>
     nat list \<Rightarrow> nat \<Rightarrow> json list \<Rightarrow> (nat \<times> json list) option" where
  "summary_loop s lt sysTime rdp rds [] n jsonPorts = Some (n, jsonPorts)"
| "summary_loop s lt sysTime rdp rds (port # ps) n jsonPorts =
     (let (status, q) = rds (Suc port) in
      if status \<noteq> NT_SUCCESS then Some (0, jsonPorts)
      else if port < length jsonPorts
      then summary_loop s lt sysTime rdp rds ps (Suc port)
             (jsonPorts[port := port_summary s lt sysTime port (snd (rdp (of_nat port))) (q_aPorts q port)])
      else None)"

definition getPortSummary ::
    "nt2json_opts \<Rightarrow> (int \<Rightarrow> tm) \<Rightarrow> u64 \<Rightarrow> NtInfoSystem answer \<Rightarrow> (u8 \<Rightarrow> NtInfoPort answer) \<Rightarrow>
     (nat \<Rightarrow> NtStatQuery answer) \<Rightarrow> json list \<Rightarrow> (nat \<times> json list) option" where
  "getPortSummary s lt sysTime sys rdp rds jsonPorts =
     (if fst sys \<noteq> 0 then Some (0, jsonPorts)
      else if fst (rds 0) \<noteq> NT_SUCCESS then Some (0, jsonPorts)
      else summary_loop s lt sysTime rdp rds [0..<unat (sys_numPorts (snd sys))] 0 jsonPorts)"

section \<open>Streams\<close>

definition stream_json :: "u32 \<Rightarrow> NtInfoStreamId \<Rightarrow> NtStreamCounters \<Rightarrow> json" where
  "stream_json streamID d c =
     new_object
      [(''id'', json_object_new_int streamID),
       (''info'', new_object
         [(''minHostBufferSize'', json_object_new_int (sid_minHostBufferSize d)),
          (''numHostBuffers'', json_object_new_int (sid_numHostBuffers d)),
          (''numaNode'', json_object_new_int (sid_numaNode d)),
          (''useCount'', json_object_new_int (sid_useCount d)),
          (''state'', JStr (streamState (sid_state d)))]),
       (''stats'', new_object
         [(''pkts_forward'', json_object_new_int64 (ctr_pkts (st_forward c))),
          (''octets_forward'', json_object_new_int64 (ctr_octets (st_forward c))),
          (''pkts_drop'', json_object_new_int64 (ctr_pkts (st_drop c))),
          (''octets_drop'', json_object_new_int64 (ctr_octets (st_drop c))),
          (''pkts_flush'', json_object_new_int64 (ctr_pkts (st_flush c))),
          (''octets_flush'', json_object_new_int64 (ctr_octets (st_flush c)))])]"

fun stream_loop ::
    "(u32 \<Rightarrow> NtInfoStreamId answer) \<Rightarrow> NtInfoStreams \<Rightarrow> NtStatQuery \<Rightarrow> nat list \<Rightarrow> json list \<Rightarrow> json list option" where
  "stream_loop rdi info q [] acc = Some acc"
| "stream_loop rdi info q (stream # ss) acc =
     (let streamID = str_streamIDList info stream; (status, d) = rdi streamID in
      if status \<noteq> NT_SUCCESS then None
      else stream_loop rdi info q ss (acc @ [stream_json streamID d (q_streamid q (unat streamID))]))"

definition getStreamData ::
    "(int \<Rightarrow> tm) \<Rightarrow> NtInfoStreams answer \<Rightarrow> (u32 \<Rightarrow> NtInfoStreamId answer) \<Rightarrow> NtStatQuery answer \<Rightarrow> json" where
  "getStreamData lt streams rdi stat =
     (let (status, info) = streams; (status', q) = stat in
      if status \<noteq> NT_SUCCESS then JNull
      else if status' \<noteq> NT_SUCCESS then JNull
      else case stream_loop rdi info q [0..<unat (str_count info)] [] of
             None \<Rightarrow> JNull
           | Some ary \<Rightarrow> new_object
               [(''numStreams'', json_object_new_int (str_count info)),
                (''timestamp'', json_object_new_int64 (q_stream_ts q)),
                (''timestampStr'', JStr (decodeTimeStamp lt (q_stream_ts q))),
                (''streams'', JArr ary)])"

section \<open>Colours\<close>

definition color_json :: "nat \<Rightarrow> u64 \<Rightarrow> u64 \<Rightarrow> json" where
  "color_json color pkts octets =
     new_object [(''id'', json_object_new_int64 (of_nat color)),
                 (''pkts'', json_object_new_int64 pkts),
                 (''octets'', json_object_new_int64 octets)]"

text \<open>Only the colours that have counted a packet are listed.\<close>

definition color_array :: "(nat \<Rightarrow> u64) \<Rightarrow> (nat \<Rightarrow> u64) \<Rightarrow> json" where
  "color_array pkts octets =
     JArr (concat (map (\<lambda>color. if pkts color \<noteq> 0 then [color_json color (pkts color) (octets color)] else [])
                    [0..<NUM_COLOR_COUNTERS]))"

definition getColorStats :: "(int \<Rightarrow> tm) \<Rightarrow> NtInfoStreams answer \<Rightarrow> NtStatQuery answer \<Rightarrow> u32 \<Rightarrow> json" where
  "getColorStats lt streams stat adapter =
     (let (status, q) = stat; c = q_aAdapters_color q (unat adapter) in
      if fst streams \<noteq> NT_SUCCESS then JNull
      else if status \<noteq> NT_SUCCESS then JNull
      else new_object
        [(''timestamp'', json_object_new_int64 (cq_ts c)),
         (''timestampStr'', JStr (decodeTimeStamp lt (cq_ts c))),
         (''colors'', color_array (\<lambda>i. ctr_pkts (cq_aColor c i)) (\<lambda>i. ctr_octets (cq_aColor c i)))])"

text \<open>The two accumulation arrays of \<open>getMergedColorStats\<close>, and the loop nest that fills them.\<close>

definition merge_color :: "(nat \<Rightarrow> nt_counter) \<Rightarrow> nat \<Rightarrow> u64 list \<times> u64 list \<Rightarrow> u64 list \<times> u64 list" where
  "merge_color aColor color acc =
     (let (pkts, octets) = acc in
      (pkts[color := pkts ! color + ctr_pkts (aColor color)],
       octets[color := octets ! color + ctr_octets (aColor color)]))"

definition merge_adapter :: "NtStatQuery \<Rightarrow> nat \<Rightarrow> u64 list \<times> u64 list \<Rightarrow> u64 list \<times> u64 list" where
  "merge_adapter q adapter acc =
     fold (merge_color (cq_aColor (q_aAdapters_color q adapter))) [0..<NUM_COLOR_COUNTERS] acc"

definition getMergedColorStats :: "NtInfoStreams answer \<Rightarrow> NtStatQuery answer \<Rightarrow> u32 \<Rightarrow> json" where
  "getMergedColorStats streams stat numAdapters =
     (let (status, q) = stat in
      if fst streams \<noteq> NT_SUCCESS then JNull
      else if status \<noteq> NT_SUCCESS then JNull
      else let (pkts, octets) = fold (merge_adapter q) [0..<unat numAdapters]
                 (replicate NUM_COLOR_COUNTERS 0, replicate NUM_COLOR_COUNTERS 0)
           in new_object [(''colors'', color_array (nth pkts) (nth octets))])"

end
