(* ===== verification/Nt2json_Main.thy ===== *)
theory Nt2json_Main
  imports Nt2json_Stats "HOL-Library.Monad_Syntax"
begin

text \<open>
  \<open>main\<close> of \<open>NT2JSON.c\<close>: the assembly of the document from its sections and its output.  The
  surroundings of one run are a record with the answer to every driver call that the program
  makes, the local time zone, the wall clock, whether the output file can be opened, and the
  parameter \<open>ov\<close> of the priority decoders.  The same request made at two places of the program
  has two fields, because the state of the machine may change in between.
\<close>

record nt_env =
  e_init :: int
  e_info_open :: int
  e_stat_open :: int
  e_info_close :: int
  e_stat_close :: int
  e_sys :: "NtInfoSystem answer"
  e_sys_ports :: "NtInfoSystem answer"
  e_sys_stats :: "NtInfoSystem answer"
  e_sys_summary :: "NtInfoSystem answer"
  e_adapter :: "u8 \<Rightarrow> NtInfoAdapter answer"
  e_product :: "u8 \<Rightarrow> NtInfoProductInfo answer"
  e_sensor :: sensor_reader
  e_port_sensors :: "u8 \<Rightarrow> NtInfoPort answer"
  e_port_info :: "u8 \<Rightarrow> NtInfoPort answer"
  e_port_summary :: "u8 \<Rightarrow> NtInfoPort answer"
  e_timesync :: "u8 \<Rightarrow> NtInfoTimeSync answer"
  e_timesync_ext :: "u8 \<Rightarrow> NtInfoTimeSyncStatusExt answer"
  e_timesync_stat :: "u8 \<Rightarrow> NtInfoTimeSyncStat answer"
  e_streams_merged :: "NtInfoStreams answer"
  e_streams_color :: "u32 \<Rightarrow> NtInfoStreams answer"
  e_streams_data :: "NtInfoStreams answer"
  e_streamid :: "u32 \<Rightarrow> NtInfoStreamId answer"
  e_stat_merged :: "NtStatQuery answer"
  e_stat_color :: "u32 \<Rightarrow> NtStatQuery answer"
  e_stat_ports :: "nat \<Rightarrow> NtStatQuery answer"
  e_stat_summary :: "nat \<Rightarrow> NtStatQuery answer"
  e_stat_stream :: "NtStatQuery answer"
  e_localtime :: "int \<Rightarrow> tm"
  e_tv_sec :: u64
  e_tv_usec :: u64
  e_fopen :: "string \<Rightarrow> bool"
  e_ov :: "string \<Rightarrow> string \<Rightarrow> string"

section \<open>One adapter\<close>

definition timesync_container :: "nt_env \<Rightarrow> u32 \<Rightarrow> json" where
  "timesync_container e adapter = new_object
     [(''Info'', getTimeSyncInfo (e_ov e) (e_timesync e (ucast adapter))),
      (''ExternalStats'', getTimeSyncStatExt (e_timesync_ext e (ucast adapter))),
      (''Stats'', getTimeSyncStat (e_timesync_stat e (ucast adapter)))]"

text \<open>The body of the loop over the adapters; \<open>None\<close> when json-c aborts on a null pointer.\<close>

definition add_if :: "bool \<Rightarrow> json \<Rightarrow> string \<Rightarrow> json \<Rightarrow> json option" where
  "add_if c j k v = (if c then object_add j k v else Some j)"

definition adapter_json :: "nt2json_opts \<Rightarrow> nt_env \<Rightarrow> u32 \<Rightarrow> json option" where
  "adapter_json s e adapter = do {
     (jsonAdapter, numSensors, firstPort, lastPort) \<leftarrow> getAdapterInfo s (e_adapter e) (e_product e) adapter;
     let jsonSensors = getSensorInfo s (e_sensor e) adapter numSensors;
     let jsonPortSensors = getPortSensorInfo s (e_port_sensors e) (e_sensor e) firstPort lastPort;
     let jsonColorStats = getColorStats (e_localtime e) (e_streams_color e adapter) (e_stat_color e adapter) adapter;
     jsonAdapter \<leftarrow> add_if (opt_timesync s) jsonAdapter ''TimeSync'' (timesync_container e adapter);
     jsonAdapter \<leftarrow>
       (if opt_sensors s \<or> opt_alarm s
        then do { jsonSensors \<leftarrow> array_add jsonSensors jsonPortSensors;
                  object_add jsonAdapter ''sensors'' jsonSensors }
        else Some jsonAdapter);
     add_if (opt_color s) jsonAdapter ''colorStats'' jsonColorStats
   }"

fun adapter_loop :: "nt2json_opts \<Rightarrow> nt_env \<Rightarrow> nat list \<Rightarrow> json list \<Rightarrow> json list option" where
  "adapter_loop s e [] acc = Some acc"
| "adapter_loop s e (a # as) acc =
     do { j \<leftarrow> adapter_json s e (of_nat a); adapter_loop s e as (acc @ [j]) }"

section \<open>The document\<close>

definition sys_time :: "nt_env \<Rightarrow> u64" where
  "sys_time e = (e_tv_sec e * 1000000 + e_tv_usec e) * 100"

definition container :: "nt2json_opts \<Rightarrow> nt_env \<Rightarrow> json list \<Rightarrow> json" where
  "container s e adapters =
     (let (systemData, numAdapters, numPorts) = getSystemInfo (e_sys e);
          jsonPorts = new_object
            [(''info'', getPortInfo (e_sys_ports e) (e_port_info e)),
             (''stats'', getPortStats s (e_localtime e) (e_sys_stats e) (e_stat_ports e))];
          jsonStreamData = getStreamData (e_localtime e) (e_streams_data e) (e_streamid e) (e_stat_stream e);
          jsonMergedColorStats = getMergedColorStats (e_streams_merged e) (e_stat_merged e) numAdapters
      in new_object
        ([(''sysTime'', json_object_new_int64 (sys_time e)),
          (''sysTimeStr'', JStr (decodeTimeStamp (e_localtime e) (sys_time e)))] @
         (if opt_system s then [(''system'', systemData)] else []) @
         (if opt_timesync s \<or> opt_product s \<or> opt_sensors s \<or> opt_alarm s \<or> opt_color s
          then [(''adapters'', JArr adapters)] else []) @
         (if opt_port s \<or> opt_rxport s \<or> opt_txport s then [(''portData'', jsonPorts)] else []) @
         (if opt_stream s then [(''streamData'', jsonStreamData)] else []) @
         (if opt_mergedcolor s then [(''mergedColor'', jsonMergedColorStats)] else [])))"

text \<open>
  The documents that the program prints: one, or one per port with the summary option.  The
  array for the summaries has as many elements as the first system read reported; before it is
  filled its elements are indeterminate, \<open>JNull\<close> here, and none of them is printed.
\<close>

definition documents :: "nt2json_opts \<Rightarrow> nt_env \<Rightarrow> json list option" where
  "documents s e =
     (let (systemData, numAdapters, numPorts) = getSystemInfo (e_sys e) in
      do { adapters \<leftarrow> adapter_loop s e [0..<unat numAdapters] [];
           if \<not> opt_portsummary s then Some [container s e adapters]
           else do { (n, ports) \<leftarrow> getPortSummary s (e_localtime e) (sys_time e) (e_sys_summary e)
                        (e_port_summary e) (e_stat_summary e) (replicate (unat numPorts) JNull);
                     Some (take n ports) } })"

section \<open>main\<close>

text \<open>
  The end of a run: an exit status before any output, or the documents, where they went (a file
  or \<open>None\<close> for the standard output), whether they were pretty-printed, and the exit status.
\<close>

datatype nt2json_result =
    Failed int
  | Written "string option" bool "json list" int

definition close_status :: "nt_env \<Rightarrow> int" where
  "close_status e =
     (if e_info_close e \<noteq> NT_SUCCESS then -1
      else if e_stat_close e \<noteq> NT_SUCCESS then -1 else 0)"

definition write_output :: "nt2json_opts \<Rightarrow> nt_env \<Rightarrow> json list \<Rightarrow> nt2json_result" where
  "write_output s e docs =
     (if opt_filename s
      then if e_fopen e (out_filename s)
           then Written (Some (out_filename s)) (opt_pretty_print s) docs (close_status e)
           else Failed (-1)
      else Written None True docs (close_status e))"

definition nt2json_main :: "nt2json_option list \<Rightarrow> nt_env \<Rightarrow> nt2json_result option" where
  "nt2json_main argv e =
     (case parse_options argv of
        Inl x \<Rightarrow> Some (Failed (exit_status x))
      | Inr s \<Rightarrow>
          if e_init e \<noteq> NT_SUCCESS then Some (Failed (e_init e))
          else if e_info_open e \<noteq> NT_SUCCESS then Some (Failed (-1))
          else if e_stat_open e \<noteq> NT_SUCCESS then Some (Failed (-1))
          else do { docs \<leftarrow> documents s e; Some (write_output s e docs) })"

end
