(* ===== verification/Nt2json_Decode_Props.thy ===== *)
theory Nt2json_Decode_Props
  imports Nt2json_Decode
begin

text \<open>
  Properties of the text conversions of NT2JSON: the priority lists under the reading of
  \<open>snprintf\<close> that the code relies on and under another one, and the time stamps.
\<close>

section \<open>Priority lists\<close>

primrec join :: "string \<Rightarrow> string list \<Rightarrow> string" where
  "join sep [] = []"
| "join sep (x # xs) = x @ (case xs of [] \<Rightarrow> [] | _ \<Rightarrow> sep @ join sep xs)"

lemma join_Cons: "join sep (x # xs) = x @ concat (map (\<lambda>y. sep @ y) xs)"
  by (induction xs arbitrary: x) simp_all

lemma ref_priority_step_append:
  "ref_priority_step (@) tsrp i b =
     b @ (if i \<noteq> 0 \<and> tsrp ! i \<noteq> NT_TIMESYNC_REFERENCE_INVALID then '';'' else [])
       @ (case ref_suffix (tsrp ! i) of None \<Rightarrow> [] | Some s \<Rightarrow> s)"
  by (simp add: ref_priority_step_def Let_def split: option.splits)

lemma ref_suffix_None:
  "ref_suffix t = None \<longleftrightarrow> t = NT_TIMESYNC_REFERENCE_INVALID \<or> t = NT_TIMESYNC_REFERENCE_other"
  by (cases t) (simp_all add: ref_suffix_def)

lemma ref_priority_entry:
  "t \<noteq> NT_TIMESYNC_REFERENCE_other \<Longrightarrow>
     (if t \<noteq> NT_TIMESYNC_REFERENCE_INVALID then '';'' else []) @ (case ref_suffix t of None \<Rightarrow> [] | Some s \<Rightarrow> s)
       = concat (map (\<lambda>y. '';'' @ y) (List.map_filter ref_suffix [t]))"
  by (cases t) (simp_all add: ref_suffix_def List.map_filter_def)

lemma map_filter_append: "List.map_filter f (xs @ ys) = List.map_filter f xs @ List.map_filter f ys"
  by (simp add: List.map_filter_def)

lemma ref_priority_tail:
  assumes "t1 \<noteq> NT_TIMESYNC_REFERENCE_other" "t2 \<noteq> NT_TIMESYNC_REFERENCE_other"
    "t3 \<noteq> NT_TIMESYNC_REFERENCE_other"
  shows "decodeTimeSyncRefPriority (@) [t0, t1, t2, t3] =
     '' '' @ (case ref_suffix t0 of None \<Rightarrow> [] | Some s \<Rightarrow> s)
       @ concat (map (\<lambda>y. '';'' @ y) (List.map_filter ref_suffix [t1, t2, t3]))"
proof -
  have split: "List.map_filter ref_suffix [t1, t2, t3] = List.map_filter ref_suffix [t1] @
      List.map_filter ref_suffix [t2] @ List.map_filter ref_suffix [t3]"
    by (simp add: List.map_filter_def)
  show ?thesis
    unfolding split map_append concat_append
      ref_priority_entry [OF assms(1), symmetric] ref_priority_entry [OF assms(2), symmetric]
      ref_priority_entry [OF assms(3), symmetric]
    by (simp add: decodeTimeSyncRefPriority_def ref_priority_step_append)
qed

lemma decodeTimeSyncRefPriority_join:
  assumes "length tsrp = 4" "NT_TIMESYNC_REFERENCE_other \<notin> set tsrp"
    "tsrp ! 0 \<noteq> NT_TIMESYNC_REFERENCE_INVALID"
  shows "decodeTimeSyncRefPriority (@) tsrp = '' '' @ join '';'' (List.map_filter ref_suffix tsrp)"
proof -
  obtain t0 t1 t2 t3 where l: "tsrp = [t0, t1, t2, t3]"
    using assms(1) by (auto simp: length_Suc_conv eval_nat_numeral)
  from assms(2,3) have "t0 \<noteq> NT_TIMESYNC_REFERENCE_INVALID" "t0 \<noteq> NT_TIMESYNC_REFERENCE_other"
    by (auto simp: l)
  then obtain s where s: "ref_suffix t0 = Some s"
    using ref_suffix_None by auto
  have tail: "decodeTimeSyncRefPriority (@) [t0, t1, t2, t3] =
     '' '' @ s @ concat (map (\<lambda>y. '';'' @ y) (List.map_filter ref_suffix [t1, t2, t3]))"
    by (subst ref_priority_tail) (use assms(2) in \<open>auto simp: l s\<close>)
  have "List.map_filter ref_suffix tsrp = s # List.map_filter ref_suffix [t1, t2, t3]"
    by (simp add: l s List.map_filter_def)
  then show ?thesis by (simp only: l tail join_Cons append_assoc)
qed

text \<open>
  With the first entry invalid the list starts with a separator; and where the library clears the
  buffer before it reads the arguments, only the last valid entry is left.
\<close>

lemma ref_priority_first_invalid:
  "decodeTimeSyncRefPriority (@) [NT_TIMESYNC_REFERENCE_INVALID, NT_TIMESYNC_REFERENCE_PTP,
     NT_TIMESYNC_REFERENCE_INVALID, NT_TIMESYNC_REFERENCE_INVALID] = '' ;PTP''"
  by (simp add: decodeTimeSyncRefPriority_def ref_priority_step_def ref_suffix_def)

lemma ref_priority_cleared:
  "decodeTimeSyncRefPriority (\<lambda>b s. s) [NT_TIMESYNC_REFERENCE_EXT1, NT_TIMESYNC_REFERENCE_OSTIME,
     NT_TIMESYNC_REFERENCE_INVALID, NT_TIMESYNC_REFERENCE_INVALID] = ''OSTIME''"
  by (simp add: decodeTimeSyncRefPriority_def ref_priority_step_def ref_suffix_def)

section \<open>Time stamps\<close>

text \<open>The ranges that the C standard gives for the fields of a \<open>struct tm\<close>, for the years 0 to 9999.\<close>

definition tm_ok :: "tm \<Rightarrow> bool" where
  "tm_ok t \<longleftrightarrow> 0 \<le> tm_year t + 1900 \<and> tm_year t + 1900 \<le> 9999 \<and> 0 \<le> tm_mon t \<and> tm_mon t \<le> 11 \<and>
     1 \<le> tm_mday t \<and> tm_mday t \<le> 31 \<and> 0 \<le> tm_hour t \<and> tm_hour t \<le> 23 \<and> 0 \<le> tm_min t \<and> tm_min t \<le> 59 \<and>
     0 \<le> tm_sec t \<and> tm_sec t \<le> 60"

lemma length_show_dec: "n < 10 ^ k \<Longrightarrow> 0 < k \<Longrightarrow> length (show_dec n) \<le> k"
  unfolding show_dec_def by (rule length_show_base) simp_all

lemma length_show_int0: "\<lbrakk>0 \<le> i; i < 10 ^ w; 0 < w\<rbrakk> \<Longrightarrow> length (show_int0 w i) = w"
  using length_show_dec [of "nat i" w]
  by (simp add: show_int0_def pad_left_def nat_less_iff)

lemma fraction_unat: "unat (ts mod 100000000 * 10 :: u64) = unat ts mod 100000000 * 10"
proof -
  have "unat (ts mod 100000000) = unat ts mod 100000000"
    by (simp add: unat_mod)
  moreover have "unat ts mod 100000000 * 10 < 2 ^ 64"
    using mod_less_divisor [of 100000000 "unat ts"] by (simp del: mod_less_divisor)
  ultimately show ?thesis by (simp add: unat_mult_lem [THEN iffD1])
qed

lemma fraction_bound: "unat ts mod 100000000 * 10 < 10 ^ 9"
  using mod_less_divisor [of 100000000 "unat ts"] by simp

lemma length_fraction: "length (pad_left CHR ''0'' 9 (show_dec (unat (ts mod 100000000 * 10 :: u64)))) = 9"
  using length_show_dec [OF fraction_bound, of ts] by (simp add: fraction_unat pad_left_def)

lemma length_time_stamp_text:
  assumes "tm_ok t"
  shows "length (time_stamp_text t ts) = 29"
  using assms
  by (simp add: time_stamp_text_def tm_ok_def length_show_int0 length_fraction del: One_nat_def)

lemma digit_val_0: "digit_val CHR ''0'' = Some 0"
  by (simp add: digit_val_def)

lemma scan_digits_zeros: "scan_digits 10 0 (replicate n CHR ''0'' @ s) = scan_digits 10 0 s"
  by (induction n) (simp_all add: digit_val_0)

lemma scan_padded: "fst (scan_digits 10 0 (pad_left CHR ''0'' w (show_dec n))) = n"
  by (simp add: pad_left_def scan_digits_zeros show_dec_def scan_show_base)

lemma decodeTimeStamp_whole:
  "tm_ok (lt (sint (ts div 100000000))) \<Longrightarrow>
     decodeTimeStamp lt ts = time_stamp_text (lt (sint (ts div 100000000))) ts"
  by (simp add: decodeTimeStamp_def snprintf_def length_time_stamp_text)

lemma time_stamp_fraction:
  assumes "tm_ok t"
  shows "drop 20 (time_stamp_text t ts) = pad_left CHR ''0'' 9 (show_dec (unat ts mod 100000000 * 10))"
proof -
  define pre where "pre = show_int0 4 (tm_year t + 1900) @ ''/'' @ show_int0 2 (tm_mon t + 1) @ ''/'' @
    show_int0 2 (tm_mday t) @ ''-'' @ show_int0 2 (tm_hour t) @ '':'' @ show_int0 2 (tm_min t) @ '':'' @
    show_int0 2 (tm_sec t) @ ''.''"
  have "length pre = 20"
    using assms by (simp add: pre_def tm_ok_def length_show_int0 del: One_nat_def)
  moreover have "time_stamp_text t ts = pre @ pad_left CHR ''0'' 9 (show_dec (unat ts mod 100000000 * 10))"
    by (simp add: time_stamp_text_def pre_def fraction_unat)
  ultimately show ?thesis by simp
qed

end
