(* ===== verification/Nt2json_Props.thy ===== *)
theory Nt2json_Props
  imports Nt2json_Main Nt2json_Decode_Props
begin

text \<open>
  What a reader of an NT2JSON document may rely on: which sensors it lists, what the merged
  colour counters are, which options leave counters out, when a run aborts, and that every
  object in it has each key once.
\<close>

section \<open>Sensors\<close>

text \<open>The loop of \<open>getSensorInfo\<close> as a filter over the sensors, when every read succeeds.\<close>

lemma sensor_loop_Some:
  "(\<forall>i \<in> set is. fst (rd NT_SENSOR_SOURCE_ADAPTER adapter (of_nat i)) = NT_SUCCESS) \<Longrightarrow>
   sensor_loop s rd adapter is acc = Some (acc @ map getSingleSensorData
      (filter (sensor_wanted s) (map (\<lambda>i. snd (rd NT_SENSOR_SOURCE_ADAPTER adapter (of_nat i))) is)))"
  by (induction "is" arbitrary: acc) (auto simp: Let_def split: prod.splits)

lemma sensor_loop_None:
  "i \<in> set is \<Longrightarrow> fst (rd NT_SENSOR_SOURCE_ADAPTER adapter (of_nat i)) \<noteq> NT_SUCCESS \<Longrightarrow>
   sensor_loop s rd adapter is acc = None"
  by (induction "is" arbitrary: acc) (auto simp: Let_def split: prod.splits)

definition sensors_readable :: "sensor_reader \<Rightarrow> u32 \<Rightarrow> u32 \<Rightarrow> bool" where
  "sensors_readable rd adapter n \<longleftrightarrow>
     (\<forall>i < unat n. fst (rd NT_SENSOR_SOURCE_ADAPTER adapter (of_nat i)) = NT_SUCCESS)"

definition adapter_sensors :: "sensor_reader \<Rightarrow> u32 \<Rightarrow> u32 \<Rightarrow> NtInfoSensor list" where
  "adapter_sensors rd adapter n =
     map (\<lambda>i. snd (rd NT_SENSOR_SOURCE_ADAPTER adapter (of_nat i))) [0..<unat n]"

lemma getSensorInfo_eq:
  "getSensorInfo s rd adapter n =
     (if sensors_readable rd adapter n
      then JArr (map getSingleSensorData (filter (sensor_wanted s) (adapter_sensors rd adapter n)))
      else JNull)"
proof (cases "sensors_readable rd adapter n")
  case True
  then show ?thesis
    by (simp add: getSensorInfo_def sensors_readable_def adapter_sensors_def sensor_loop_Some)
next
  case False
  then obtain i where "i < unat n" "fst (rd NT_SENSOR_SOURCE_ADAPTER adapter (of_nat i)) \<noteq> NT_SUCCESS"
    by (auto simp: sensors_readable_def)
  then have "sensor_loop s rd adapter [0..<unat n] [] = None"
    by (intro sensor_loop_None [of i]) auto
  with False show ?thesis by (simp add: getSensorInfo_def)
qed

text \<open>The member \<open>state\<close> of a sensor object tells the alarm, whatever the sensor's name is.\<close>

lemma jget_state:
  "jget (getSingleSensorData d) ''state'' =
     Some (JStr (if sen_state d = NT_SENSOR_STATE_ALARM then ''Alarm!'' else ''OK''))"
  by (auto simp: getSingleSensorData_def Let_def json_simps map_of_put_all split: prod.splits)

definition in_alarm :: "json \<Rightarrow> bool" where
  "in_alarm j \<longleftrightarrow> jget j ''state'' = Some (JStr ''Alarm!'')"

lemma in_alarm_sensor: "in_alarm (getSingleSensorData d) \<longleftrightarrow> sen_state d = NT_SENSOR_STATE_ALARM"
  by (simp add: in_alarm_def jget_state)

lemma in_alarm_sensor_port: "in_alarm (sensor_with_port d port) \<longleftrightarrow> sen_state d = NT_SENSOR_STATE_ALARM"
proof -
  have "jget (sensor_with_port d port) ''state'' = jget (getSingleSensorData d) ''state''"
    by (simp add: sensor_with_port_def jget_eq_members update_conv')
  then show ?thesis by (simp add: in_alarm_def jget_state)
qed

lemma getSensorInfo_alarm:
  assumes "opt_sensors s" "opt_alarm t" "\<not> opt_sensors t"
  shows "getSensorInfo t rd adapter n =
    (case getSensorInfo s rd adapter n of JArr vs \<Rightarrow> JArr (filter in_alarm vs) | j \<Rightarrow> j)"
proof -
  have "sensor_wanted s = (\<lambda>_. True)" "sensor_wanted t = (\<lambda>d. sen_state d = NT_SENSOR_STATE_ALARM)"
    using assms by (auto simp: sensor_wanted_def fun_eq_iff)
  then show ?thesis
    by (simp add: getSensorInfo_eq filter_map comp_def in_alarm_sensor)
qed

section \<open>Merged colours\<close>

lemma nth_merge_color:
  assumes "merge_color aColor c (p, q) = (p', q')" "c < length p" "c < length q"
  shows "p' ! i = (if i = c then p ! c + ctr_pkts (aColor c) else p ! i)
       \<and> q' ! i = (if i = c then q ! c + ctr_octets (aColor c) else q ! i)
       \<and> length p' = length p \<and> length q' = length q"
  using assms by (auto simp: merge_color_def)

lemma merge_fold:
  assumes "fold (merge_color aColor) [0..<k] (p, q) = (p', q')" "k \<le> length p" "k \<le> length q"
  shows "(\<forall>i. p' ! i = (if i < k then p ! i + ctr_pkts (aColor i) else p ! i)
       \<and> q' ! i = (if i < k then q ! i + ctr_octets (aColor i) else q ! i))
       \<and> length p' = length p \<and> length q' = length q"
  using assms
proof (induction k arbitrary: p' q')
  case 0
  then show ?case by simp
next
  case (Suc k)
  obtain p1 q1 where pq: "fold (merge_color aColor) [0..<k] (p, q) = (p1, q1)" by (meson surj_pair)
  from Suc.prems have step: "merge_color aColor k (p1, q1) = (p', q')" by (simp add: pq)
  note IH = Suc.IH [OF pq]
  have "k < length p1" "k < length q1" using IH Suc.prems by auto
  from nth_merge_color [OF step this] IH Suc.prems(2,3) show ?case
    by (auto simp: less_Suc_eq)
qed

definition merged_pkts :: "NtStatQuery \<Rightarrow> nat \<Rightarrow> nat \<Rightarrow> u64" where
  "merged_pkts q n c = (\<Sum>a < n. ctr_pkts (cq_aColor (q_aAdapters_color q a) c))"

definition merged_octets :: "NtStatQuery \<Rightarrow> nat \<Rightarrow> nat \<Rightarrow> u64" where
  "merged_octets q n c = (\<Sum>a < n. ctr_octets (cq_aColor (q_aAdapters_color q a) c))"

lemma merge_adapters:
  assumes "fold (merge_adapter q) [0..<n] (replicate NUM_COLOR_COUNTERS 0, replicate NUM_COLOR_COUNTERS 0) = (p, t)"
  shows "(\<forall>c < NUM_COLOR_COUNTERS. p ! c = merged_pkts q n c \<and> t ! c = merged_octets q n c)
      \<and> length p = NUM_COLOR_COUNTERS \<and> length t = NUM_COLOR_COUNTERS"
  using assms
proof (induction n arbitrary: p t)
  case 0
  then show ?case by (auto simp: merged_pkts_def merged_octets_def)
next
  case (Suc n)
  obtain p1 t1 where pt: "fold (merge_adapter q) [0..<n]
      (replicate NUM_COLOR_COUNTERS 0, replicate NUM_COLOR_COUNTERS 0) = (p1, t1)" by (meson surj_pair)
  from Suc.prems have "fold (merge_color (cq_aColor (q_aAdapters_color q n))) [0..<NUM_COLOR_COUNTERS] (p1, t1) = (p, t)"
    by (simp add: pt) (simp add: merge_adapter_def)
  from merge_fold [OF this] Suc.IH [OF pt] show ?case
    by (simp add: merged_pkts_def merged_octets_def)
qed

lemma color_array_cong:
  "(\<And>c. c < NUM_COLOR_COUNTERS \<Longrightarrow> f c = f' c \<and> g c = g' c) \<Longrightarrow> color_array f g = color_array f' g'"
  by (auto simp: color_array_def intro!: arg_cong [where f = concat])


lemma getMergedColorStats_sums:
  "getMergedColorStats streams stat numAdapters =
     (if fst streams \<noteq> NT_SUCCESS \<or> fst stat \<noteq> NT_SUCCESS then JNull
      else new_object [(''colors'', color_array (merged_pkts (snd stat) (unat numAdapters))
                                                (merged_octets (snd stat) (unat numAdapters)))])"
proof -
  obtain status q where stat: "stat = (status, q)" by (cases stat)
  obtain p t where pt: "fold (merge_adapter q) [0..<unat numAdapters]
      (replicate NUM_COLOR_COUNTERS 0, replicate NUM_COLOR_COUNTERS 0) = (p, t)" by (meson surj_pair)
  from merge_adapters [OF pt] have "color_array (nth p) (nth t)
      = color_array (merged_pkts q (unat numAdapters)) (merged_octets q (unat numAdapters))"
    by (intro color_array_cong) auto
  then show ?thesis by (simp add: getMergedColorStats_def stat pt)
qed

text \<open>The colours listed, and where to find one of them.\<close>

lemma color_array_set:
  "set (elements (color_array f g)) = {color_json c (f c) (g c) | c. c < NUM_COLOR_COUNTERS \<and> f c \<noteq> 0}"
  by (auto simp: color_array_def)

section \<open>When an adapter aborts the program\<close>

lemma getSensorInfo_JNull: "getSensorInfo s rd adapter n = JNull \<longleftrightarrow> \<not> sensors_readable rd adapter n"
  by (simp add: getSensorInfo_eq)

lemma array_add_getSensorInfo:
  "array_add (getSensorInfo s rd adapter n) v =
     (if sensors_readable rd adapter n
      then Some (JArr (map getSingleSensorData (filter (sensor_wanted s) (adapter_sensors rd adapter n)) @ [v]))
      else None)"
  by (simp add: getSensorInfo_eq)

lemma new_object_add [simp]:
  "object_add (new_object kvs) k v = Some (JObj (AList.update k v (put_all [] kvs)))"
  by (simp add: new_object_def)

text \<open>
  The adapter part of the program aborts exactly when an adapter that cannot be read meets an
  option that adds to its object, when a product generation is unknown, or when a sensor of a
  readable adapter cannot be read while sensors are wanted.
\<close>

definition adapter_aborts :: "nt2json_opts \<Rightarrow> nt_env \<Rightarrow> u32 \<Rightarrow> bool" where
  "adapter_aborts s e adapter \<longleftrightarrow>
     (if fst (e_adapter e (ucast adapter)) \<noteq> NT_SUCCESS
      then opt_timesync s \<or> opt_sensors s \<or> opt_alarm s \<or> opt_color s
      else opt_product s \<and> getProductInfo (e_product e (ucast adapter)) = None \<or>
           (opt_sensors s \<or> opt_alarm s) \<and>
           \<not> sensors_readable (e_sensor e) adapter (adp_numSensors (snd (e_adapter e (ucast adapter)))))"

lemma getAdapterInfo_failed:
  "fst (rda (ucast adapter)) \<noteq> NT_SUCCESS \<Longrightarrow> getAdapterInfo s rda rdpi adapter = Some (JNull, 0, 0, 0)"
  by (auto simp: getAdapterInfo_def Let_def split: prod.splits)

lemma getAdapterInfo_read:
  assumes "fst (rda (ucast adapter)) = NT_SUCCESS"
  shows "opt_product s \<and> getProductInfo (rdpi (ucast adapter)) = None \<and> getAdapterInfo s rda rdpi adapter = None
    \<or> \<not> (opt_product s \<and> getProductInfo (rdpi (ucast adapter)) = None) \<and>
      (\<exists>kvs. getAdapterInfo s rda rdpi adapter = Some (JObj kvs, adp_numSensors (snd (rda (ucast adapter))),
          adp_portOffset (snd (rda (ucast adapter))),
          adp_portOffset (snd (rda (ucast adapter))) + adp_numPorts (snd (rda (ucast adapter)))))"
  using assms
  by (auto simp: getAdapterInfo_def new_object_def Let_def split: prod.splits option.splits)

lemma add_if_object: "\<exists>kvs'. add_if c (JObj kvs) k v = Some (JObj kvs')"
  by (simp add: add_if_def)

lemma add_if_simps [simp]:
  "add_if c (JObj kvs) k v = Some (if c then JObj (AList.update k v kvs) else JObj kvs)"
  "add_if c JNull k v = (if c then None else Some JNull)"
  by (simp_all add: add_if_def)

lemma adapter_json_None_iff: "adapter_json s e adapter = None \<longleftrightarrow> adapter_aborts s e adapter"
proof (cases "fst (e_adapter e (ucast adapter)) = NT_SUCCESS")
  case False
  then show ?thesis
    by (auto simp: adapter_json_def adapter_aborts_def getAdapterInfo_failed [where rda = "e_adapter e", OF False] array_add_getSensorInfo Let_def)
next
  case True
  from getAdapterInfo_read [where rda = "e_adapter e", OF True, of s "e_product e"] show ?thesis
  proof (elim disjE conjE exE)
    assume "getAdapterInfo s (e_adapter e) (e_product e) adapter = None" "opt_product s"
      "getProductInfo (e_product e (ucast adapter)) = None"
    with True show ?thesis by (simp add: adapter_json_def adapter_aborts_def)
  next
    fix kvs assume *: "\<not> (opt_product s \<and> getProductInfo (e_product e (ucast adapter)) = None)"
      "getAdapterInfo s (e_adapter e) (e_product e) adapter = Some (JObj kvs,
         adp_numSensors (snd (e_adapter e (ucast adapter))),
         adp_portOffset (snd (e_adapter e (ucast adapter))),
         adp_portOffset (snd (e_adapter e (ucast adapter))) + adp_numPorts (snd (e_adapter e (ucast adapter))))"
    with True show ?thesis
      by (auto simp: adapter_json_def adapter_aborts_def array_add_getSensorInfo Let_def)
  qed
qed

lemma adapter_loop_None:
  "adapter_loop s e as acc = None \<longleftrightarrow> (\<exists>a \<in> set as. adapter_aborts s e (of_nat a))"
  by (induction "as" arbitrary: acc) (auto simp: adapter_json_None_iff split: bind_splits simp flip: adapter_json_None_iff)

section \<open>Port sensors\<close>

lemma port_sensor_loop_alarm:
  assumes "opt_sensors s" "opt_alarm t" "\<not> opt_sensors t"
  shows "port_sensor_loop t rd src port is (filter in_alarm acc) = filter in_alarm (port_sensor_loop s rd src port is acc)"
  using assms
proof (induction "is" arbitrary: acc)
  case Nil
  then show ?case by simp
next
  case (Cons i "is")
  obtain status d where r: "rd src port (of_nat i) = (status, d)" by (meson surj_pair)
  from Cons.IH [OF Cons.prems, of "acc @ [sensor_with_port d port]"] Cons.IH [OF Cons.prems, of acc] Cons.prems
  show ?case by (auto simp: r sensor_wanted_def in_alarm_sensor_port)
qed

lemma port_loop_alarm:
  assumes "opt_sensors s" "opt_alarm t" "\<not> opt_sensors t"
  shows "port_loop t rdp rd ps (filter in_alarm acc) = map_option (filter in_alarm) (port_loop s rdp rd ps acc)"
proof (induction ps arbitrary: acc)
  case Nil
  then show ?case by simp
next
  case (Cons p ps)
  then show ?case
    by (simp add: Let_def port_sensor_loop_alarm [OF assms] split: prod.splits)
qed

lemma getPortSensorInfo_alarm:
  assumes "opt_sensors s" "opt_alarm t" "\<not> opt_sensors t"
  shows "getPortSensorInfo t rdp rd first end =
    (case jget (getPortSensorInfo s rdp rd first end) ''PortSensors'' of
       None \<Rightarrow> JNull | Some vs \<Rightarrow> new_object [(''PortSensors'', JArr (filter in_alarm (elements vs)))])"
  using port_loop_alarm [OF assms, of rdp rd "[unat first..<unat end]" "[]"]
  by (simp add: getPortSensorInfo_def json_simps split: option.splits)

section \<open>Port statistics\<close>

lemma port_stats_loop_map:
  "port_stats_loop s lt rds ps acc = Some vs \<Longrightarrow>
     vs = acc @ map (\<lambda>p. port_stats s lt p (q_aPorts (snd (rds (Suc p))) p)) ps"
  by (induction ps arbitrary: acc) (fastforce simp: Let_def split: prod.splits if_splits)+

lemma getPortStats_set:
  "p \<in> set (elements (getPortStats s lt sys rds)) \<Longrightarrow>
     \<exists>port. p = port_stats s lt port (q_aPorts (snd (rds (Suc port))) port)"
  by (fastforce simp: getPortStats_def dest: port_stats_loop_map split: if_splits option.splits)

lemma jget_port_stats_Rx:
  "jget (port_stats s lt port q) ''Rx'' =
     (if \<not> opt_txport s \<and> valid_RMON1 (pq_rx q) then Some (JObj (portStats2JSON (pq_rx q) [])) else None)"
  by (simp add: port_stats_def port_time_def json_simps map_of_put_all)

lemma jget_port_stats_Tx:
  "jget (port_stats s lt port q) ''Tx'' =
     (if \<not> opt_rxport s \<and> valid_RMON1 (pq_tx q) then Some (JObj (portStats2JSON (pq_tx q) [])) else None)"
  by (simp add: port_stats_def port_time_def json_simps map_of_put_all)

text \<open>The counter groups of a direction are the ones that the adapter declares valid.\<close>

lemma jget_portStats2JSON:
  "map_of (portStats2JSON p []) ''RMON'' =
     (if valid_RMON1 p then Some (new_object (rmon_members (ps_RMON1 p))) else None)"
  "map_of (portStats2JSON p []) ''ExtRMON'' =
     (if valid_extRMON p then Some (new_object (extRMON_members (ps_extRMON p))) else None)"
  "map_of (portStats2JSON p []) ''ExtDrop'' =
     (if valid_extDrop p then Some (new_object (extDrop_members (ps_extDrop p))) else None)"
  "map_of (portStats2JSON p []) ''Decode'' =
     (if valid_decode p then Some (new_object (decode_members (ps_decode p))) else None)"
  "map_of (portStats2JSON p []) ''Checksum'' =
     (if valid_chksum p then Some (new_object (checksum_members (ps_chksum p))) else None)"
  "map_of (portStats2JSON p []) ''IpFrag'' =
     (if valid_ipf p then Some (new_object (ipFrag_members (ps_ipf p))) else None)"
  by (simp_all add: portStats2JSON_def map_of_put_all)

section \<open>Port summary\<close>

lemma summary_loop_spec:
  assumes "\<forall>p \<in> {n..<m}. fst (rds (Suc p)) = NT_SUCCESS" "n \<le> m"
  shows "summary_loop s lt sysTime rdp rds [n..<m] n ports =
    (if m \<le> length ports \<or> n = m
     then Some (m, map (\<lambda>i. if n \<le> i \<and> i < m
        then port_summary s lt sysTime i (snd (rdp (of_nat i))) (q_aPorts (snd (rds (Suc i))) i)
        else ports ! i) [0..<length ports])
     else None)"
  using assms
proof (induction "m - n" arbitrary: n ports)
  case 0
  then have "m = n" by simp
  then show ?case by (auto intro!: nth_equalityI)
next
  case (Suc k)
  then have nm: "n < m" by simp
  then have up: "[n..<m] = n # [Suc n..<m]" by (simp add: upt_conv_Cons)
  obtain st q where r: "rds (Suc n) = (st, q)" by (meson surj_pair)
  with Suc.prems nm have st: "st = NT_SUCCESS" by (metis atLeastLessThan_iff fst_conv le_refl)
  show ?case
  proof (cases "n < length ports")
    case False
    with nm show ?thesis by (simp add: up r st)
  next
    case True
    let ?ports = "ports[n := port_summary s lt sysTime n (snd (rdp (of_nat n))) (q_aPorts q n)]"
    have "summary_loop s lt sysTime rdp rds [n..<m] n ports
        = summary_loop s lt sysTime rdp rds [Suc n..<m] (Suc n) ?ports"
      using True by (simp add: up r st)
    also have "\<dots> = (if m \<le> length ?ports \<or> Suc n = m
       then Some (m, map (\<lambda>i. if Suc n \<le> i \<and> i < m
          then port_summary s lt sysTime i (snd (rdp (of_nat i))) (q_aPorts (snd (rds (Suc i))) i)
          else ?ports ! i) [0..<length ?ports])
       else None)"
      by (rule Suc.hyps(1)) (use Suc.hyps(2) Suc.prems nm in auto)
    also have "\<dots> = (if m \<le> length ports \<or> n = m
       then Some (m, map (\<lambda>i. if n \<le> i \<and> i < m
          then port_summary s lt sysTime i (snd (rdp (of_nat i))) (q_aPorts (snd (rds (Suc i))) i)
          else ports ! i) [0..<length ports])
       else None)"
      using nm True by (auto simp: r nth_list_update)
    finally show ?thesis .
  qed
qed

section \<open>Well-formed documents\<close>

text \<open>
  The pieces of the document are built from new objects and arrays; what is left to check is that
  every member value is well formed in turn.
\<close>

lemma json_wf_product: "getProductInfo ans = Some j \<Longrightarrow> json_wf j"
  by (auto simp: getProductInfo_def image_str_def split: prod.splits if_splits NtProductInfoType_e.splits)

lemma json_wf_sensor [simp]: "json_wf (getSingleSensorData d)"
  unfolding getSingleSensorData_def Let_def case_prod_beta
  by (rule json_wf_new_object) (auto simp: sensor_title_def split: NtSensorSubType_e.splits)

lemma json_wf_members: "json_wf j \<Longrightarrow> json_wf (JObj (members j))"
  by (cases j) simp_all

lemma json_wf_update: "json_wf (JObj kvs) \<Longrightarrow> json_wf v \<Longrightarrow> json_wf (JObj (AList.update k v kvs))"
  using json_wf_object_add [of "JObj kvs" k v] by simp

lemma json_wf_sensor_port [simp]: "json_wf (sensor_with_port d port)"
  unfolding sensor_with_port_def by (intro json_wf_update json_wf_members) simp_all

lemma json_wf_getSensorInfo [simp]: "json_wf (getSensorInfo s rd adapter n)"
  by (auto simp: getSensorInfo_eq)

lemma port_sensor_loop_wf:
  "(\<forall>v \<in> set acc. json_wf v) \<Longrightarrow> \<forall>v \<in> set (port_sensor_loop s rd src port is acc). json_wf v"
proof (induction "is" arbitrary: acc)
  case Nil
  then show ?case by simp
next
  case (Cons i "is")
  obtain status d where r: "rd src port (of_nat i) = (status, d)" by (meson surj_pair)
  show ?case by (simp only: port_sensor_loop.simps r Let_def prod.case) (rule Cons.IH, simp add: Cons.prems)
qed

lemma port_loop_wf:
  "\<lbrakk>port_loop s rdp rd ps acc = Some vs; \<forall>v \<in> set acc. json_wf v\<rbrakk> \<Longrightarrow> \<forall>v \<in> set vs. json_wf v"
proof (induction ps arbitrary: acc)
  case Nil
  then show ?case by simp
next
  case (Cons p ps)
  obtain status info where r: "rdp (ucast (of_nat p :: u32)) = (status, info)" by (meson surj_pair)
  let ?acc = "port_sensor_loop s rd NT_SENSOR_SOURCE_LEVEL1_PORT (of_nat p) [0..<unat (prt_numLevel1Sensors info)]
    (port_sensor_loop s rd NT_SENSOR_SOURCE_PORT (of_nat p) [0..<unat (prt_numSensors info)] acc)"
  from Cons.prems(1) have "port_loop s rdp rd ps ?acc = Some vs"
    by (simp only: port_loop.simps r Let_def prod.case split: if_splits) simp
  then show ?case
    by (rule Cons.IH) (intro port_sensor_loop_wf Cons.prems(2))
qed

lemma json_wf_getPortSensorInfo [simp]: "json_wf (getPortSensorInfo s rdp rd a b)"
  by (auto simp: getPortSensorInfo_def dest: port_loop_wf split: option.splits)

lemma json_wf_getTimeSyncStatExt [simp]: "json_wf (getTimeSyncStatExt ans)"
  unfolding getTimeSyncStatExt_def Let_def case_prod_beta
  by (cases "fst ans = NT_SUCCESS") (auto split: if_splits)

lemma json_wf_getTimeSyncStat [simp]: "json_wf (getTimeSyncStat ans)"
  unfolding getTimeSyncStat_def Let_def case_prod_beta
  by (cases "fst ans = NT_SUCCESS") auto

lemma json_wf_getTimeSyncInfo [simp]: "json_wf (getTimeSyncInfo ov ans)"
  unfolding getTimeSyncInfo_def Let_def case_prod_beta
  by (cases "fst ans = NT_SUCCESS") auto

lemma json_wf_timesync_container [simp]: "json_wf (timesync_container e adapter)"
  by (simp add: timesync_container_def)

lemma json_wf_color_json [simp]: "json_wf (color_json c p t)"
  by (simp add: color_json_def)

lemma json_wf_color_array [simp]: "json_wf (color_array f g)"
  by (auto simp: color_array_def)

lemma json_wf_getColorStats [simp]: "json_wf (getColorStats lt streams stat adapter)"
  unfolding getColorStats_def Let_def case_prod_beta
  by auto

lemma json_wf_getMergedColorStats [simp]: "json_wf (getMergedColorStats streams stat n)"
  unfolding getMergedColorStats_sums by auto

lemma getAdapterInfo_wf:
  "getAdapterInfo s rda rdpi adapter = Some (j, x) \<Longrightarrow> json_wf j"
  by (auto simp: getAdapterInfo_def Let_def dest: json_wf_product
      split: prod.splits if_splits option.splits)

lemma add_if_wf: "\<lbrakk>add_if c j k v = Some j'; json_wf j; json_wf v\<rbrakk> \<Longrightarrow> json_wf j'"
  by (auto simp: add_if_def intro: json_wf_object_add split: if_splits)

lemma adapter_json_wf: "adapter_json s e adapter = Some j \<Longrightarrow> json_wf j"
proof -
  assume "adapter_json s e adapter = Some j"
  then obtain j0 n a b j1 j2 where j0: "getAdapterInfo s (e_adapter e) (e_product e) adapter = Some (j0, n, a, b)"
    and j1: "add_if (opt_timesync s) j0 ''TimeSync'' (timesync_container e adapter) = Some j1"
    and j2: "(if opt_sensors s \<or> opt_alarm s
        then do { v \<leftarrow> array_add (getSensorInfo s (e_sensor e) adapter n)
                         (getPortSensorInfo s (e_port_sensors e) (e_sensor e) a b);
                  object_add j1 ''sensors'' v }
        else Some j1) = Some j2"
    and j: "add_if (opt_color s) j2 ''colorStats''
       (getColorStats (e_localtime e) (e_streams_color e adapter) (e_stat_color e adapter) adapter) = Some j"
    by (auto simp: adapter_json_def Let_def bind_eq_Some_conv)
  have w1: "json_wf j1" by (rule add_if_wf [OF j1 getAdapterInfo_wf [OF j0]]) simp
  have w2: "json_wf j2"
  proof (cases "opt_sensors s \<or> opt_alarm s")
    case True
    with j2 obtain v where v: "array_add (getSensorInfo s (e_sensor e) adapter n)
        (getPortSensorInfo s (e_port_sensors e) (e_sensor e) a b) = Some v" "object_add j1 ''sensors'' v = Some j2"
      by (auto simp: bind_eq_Some_conv)
    have "json_wf v" by (rule json_wf_array_add [OF v(1)]) simp_all
    then show ?thesis by (rule json_wf_object_add [OF v(2) w1])
  next
    case False
    with j2 w1 show ?thesis by simp
  qed
  show ?thesis by (rule add_if_wf [OF j w2]) simp
qed

lemma json_wf_portStats2JSON [simp]: "json_wf (JObj (portStats2JSON p []))"
  unfolding portStats2JSON_def new_object_def [symmetric]
  by (rule json_wf_new_object)
    (auto simp: rmon_members_def extRMON_members_def extDrop_members_def decode_members_def
      checksum_members_def ipFrag_members_def)

lemma json_wf_put_all:
  "\<lbrakk>json_wf (JObj kvs); \<forall>kv \<in> set new. json_wf (snd kv)\<rbrakk> \<Longrightarrow> json_wf (JObj (put_all kvs new))"
  using set_put_all_subset [of kvs new] by (auto simp: distinct_put_all)

lemma json_wf_port_info [simp]: "json_wf (port_info rdp port)"
  by (simp add: port_info_def Let_def)

lemma json_wf_getPortInfo [simp]: "json_wf (getPortInfo sys rdp)"
  by (simp add: getPortInfo_def Let_def case_prod_beta)

lemma port_time_wf [dest]: "(k, v) \<in> set (port_time lt q) \<Longrightarrow> json_wf v"
  by (auto simp: port_time_def split: if_splits)

lemma json_wf_port_stats [simp]: "json_wf (port_stats s lt port q)"
  unfolding port_stats_def by (rule json_wf_new_object) (auto split: if_splits simp del: json_wf.simps)

lemma json_wf_getPortStats [simp]: "json_wf (getPortStats s lt sys rds)"
  by (auto simp: getPortStats_def dest!: port_stats_loop_map split: option.splits)

lemma json_wf_port_summary [simp]: "json_wf (port_summary s lt sysTime port d q)"
proof -
  have "json_wf (JObj (put_all [] ([(''port'', json_object_new_int (of_nat port)),
          (''sysTime'', json_object_new_int64 sysTime),
          (''portSpeedGbps'', JStr (decodeSpeed (prt_speed d))),
          (''linkState'', JStr (decodeState (prt_state d)))] @ port_time lt q)))"
    (is "json_wf (JObj ?kvs)") by (rule json_wf_put_all) auto
  moreover have "json_wf (JObj (portSummary2JSON p ?kvs))" for p
    unfolding portSummary2JSON_def
    by (rule json_wf_put_all [OF calculation]) (auto simp: summary_rmon_members_def summary_drop_members_def)
  ultimately show ?thesis
    unfolding port_summary_def Let_def by (simp del: json_wf.simps)
qed

lemma summary_loop_wf:
  "\<lbrakk>summary_loop s lt sysTime rdp rds ps n ports = Some (m, ports'); \<forall>v \<in> set ports. json_wf v\<rbrakk> \<Longrightarrow>
     \<forall>v \<in> set ports'. json_wf v"
proof (induction ps arbitrary: n ports)
  case Nil
  then show ?case by simp
next
  case (Cons p ps)
  obtain st q where r: "rds (Suc p) = (st, q)" by (meson surj_pair)
  let ?ports = "ports[p := port_summary s lt sysTime p (snd (rdp (of_nat p))) (q_aPorts q p)]"
  have wf: "\<forall>v \<in> set ?ports. json_wf v"
    using Cons.prems(2) set_update_subset_insert [of ports p] by fastforce
  show ?case
  proof (cases "st = NT_SUCCESS")
    case False
    with Cons.prems show ?thesis by (simp add: r)
  next
    case True
    with Cons.prems(1) have "summary_loop s lt sysTime rdp rds ps (Suc p) ?ports = Some (m, ports')"
      by (simp add: r split: if_splits)
    then show ?thesis using wf by (rule Cons.IH)
  qed
qed

lemma json_wf_getStreamData [simp]: "json_wf (getStreamData lt streams rdi stat)"
proof -
  have loop: "\<lbrakk>stream_loop rdi info q ss acc = Some vs; \<forall>v \<in> set acc. json_wf v\<rbrakk> \<Longrightarrow> \<forall>v \<in> set vs. json_wf v"
    for info q ss acc vs
  proof (induction ss arbitrary: acc)
    case Nil
    then show ?case by simp
  next
    case (Cons x ss)
    obtain st d where r: "rdi (str_streamIDList info x) = (st, d)" by (meson surj_pair)
    let ?j = "stream_json (str_streamIDList info x) d (q_streamid q (unat (str_streamIDList info x)))"
    from Cons.prems(1) have "stream_loop rdi info q ss (acc @ [?j]) = Some vs"
      by (simp add: r Let_def split: if_splits)
    moreover have "\<forall>v \<in> set (acc @ [?j]). json_wf v"
      using Cons.prems(2) by (simp add: stream_json_def)
    ultimately show ?case by (rule Cons.IH)
  qed
  obtain st info st' q where r: "streams = (st, info)" "stat = (st', q)" by (meson surj_pair)
  show ?thesis
  proof (cases "stream_loop rdi info q [0..<unat (str_count info)] []")
    case None
    then show ?thesis by (simp add: getStreamData_def r)
  next
    case (Some vs)
    from loop [OF Some] show ?thesis by (simp add: getStreamData_def r Some)
  qed
qed

lemma json_wf_getSystemInfo: "getSystemInfo ans = (j, a, p) \<Longrightarrow> json_wf j"
  by (auto simp: getSystemInfo_def Let_def)

lemma wf_members_if: "(c \<Longrightarrow> json_wf v) \<Longrightarrow> \<forall>kv \<in> set (if c then [(k, v)] else []). json_wf (snd kv)"
  by simp

lemma json_wf_container:
  assumes "\<forall>v \<in> set adapters. json_wf v"
  shows "json_wf (container s e adapters)"
proof -
  obtain j a p where sys: "getSystemInfo (e_sys e) = (j, a, p)" by (metis prod_cases3)
  have "json_wf (JArr adapters)" using assms by simp
  then show ?thesis
    unfolding container_def Let_def sys prod.case
    by (intro json_wf_new_object) (unfold set_append ball_Un, intro conjI wf_members_if,
        simp_all add: json_wf_getSystemInfo [OF sys] del: json_wf.simps(1,2))
qed

lemma adapter_loop_wf:
  "\<lbrakk>adapter_loop s e as acc = Some vs; \<forall>v \<in> set acc. json_wf v\<rbrakk> \<Longrightarrow> \<forall>v \<in> set vs. json_wf v"
proof (induction "as" arbitrary: acc)
  case Nil
  then show ?case by simp
next
  case (Cons a "as")
  from Cons.prems(1) obtain j where j: "adapter_json s e (of_nat a) = Some j"
    and rest: "adapter_loop s e as (acc @ [j]) = Some vs" by (auto simp: bind_eq_Some_conv)
  have "\<forall>v \<in> set (acc @ [j]). json_wf v" using Cons.prems(2) adapter_json_wf [OF j] by simp
  with rest show ?case by (rule Cons.IH)
qed

lemma documents_wf:
  assumes "documents s e = Some docs"
  shows "\<forall>d \<in> set docs. json_wf d"
proof -
  obtain j a p where sys: "getSystemInfo (e_sys e) = (j, a, p)" by (metis prod_cases3)
  with assms obtain adapters where ad: "adapter_loop s e [0..<unat a] [] = Some adapters"
    by (auto simp: documents_def bind_eq_Some_conv)
  show ?thesis
  proof (cases "opt_portsummary s")
    case False
    have "json_wf (container s e adapters)"
      by (rule json_wf_container) (use adapter_loop_wf [OF ad] in simp)
    with assms sys ad False show ?thesis by (auto simp: documents_def)
  next
    case True
    with assms sys ad obtain n ports where ps: "getPortSummary s (e_localtime e) (sys_time e) (e_sys_summary e)
        (e_port_summary e) (e_stat_summary e) (replicate (unat p) JNull) = Some (n, ports)"
      and docs: "docs = take n ports"
      by (auto simp: documents_def bind_eq_Some_conv)
    have "\<forall>v \<in> set ports. json_wf v"
      using ps by (auto simp: getPortSummary_def dest: summary_loop_wf split: if_splits)
    with docs show ?thesis by (auto dest: in_set_takeD)
  qed
qed

section \<open>Time synchronisation\<close>

text \<open>The second internal connector is printed with the setting of the first.\<close>

lemma connector_Int2_shows_Int1:
  "jget (getTimeSyncInfo ov (0, d)) ''timeSyncConnectorInt2'' =
     Some (JStr (decodeTimeSyncConnector (ts_timeSyncConnectorInt1 d)))"
  by (simp add: getTimeSyncInfo_def NT_SUCCESS_def Let_def json_simps map_of_put_all)

text \<open>An invalid current reference is printed as the text left in the buffer, the priority list.\<close>

lemma invalid_timeRef_shows_priorities:
  "ts_timeRef d = NT_TIMESYNC_REFERENCE_INVALID \<Longrightarrow>
     jget (getTimeSyncInfo ov (0, d)) ''timeRef'' = jget (getTimeSyncInfo ov (0, d)) ''tsRefPrio''"
  by (simp add: getTimeSyncInfo_def NT_SUCCESS_def Let_def json_simps map_of_put_all)

end
