(* ===== verification/Nt2json_Claims.thy ===== *)
theory Nt2json_Claims
  imports Nt2json_Props
begin

text \<open>
  The properties of NT2JSON, with an instance of each.  The instances share a machine with one
  adapter, one port and no streams, on which single answers are changed.
\<close>

section \<open>A machine\<close>

definition some_sensor :: NtInfoSensor where
  "some_sensor = \<lparr>sen_name = ''FPGA'', sen_subType = NT_SENSOR_SUBTYPE_other, sen_type = NT_SENSOR_TYPE_TEMPERATURE,
     sen_state = NT_SENSOR_STATE_other, sen_limitLow = 0, sen_limitHigh = 900, sen_value = 601,
     sen_valueLowest = 559, sen_valueHighest = 627\<rparr>"

definition some_counter :: nt_counter where
  "some_counter = \<lparr>ctr_pkts = 3, ctr_octets = 192\<rparr>"

definition some_colors :: "nat \<Rightarrow> NtColorQuery" where
  "some_colors a = \<lparr>cq_ts = 0, cq_aColor = (\<lambda>c. if c = 7 then some_counter else \<lparr>ctr_pkts = 0, ctr_octets = 0\<rparr>)\<rparr>"

definition some_tm :: tm where
  "some_tm = \<lparr>tm_year = 116, tm_mon = 1, tm_mday = 23, tm_hour = 13, tm_min = 48, tm_sec = 13\<rparr>"

definition some_system :: NtInfoSystem where
  "some_system = \<lparr>sys_numAdapters = 1, sys_numNumaNodes = 1, sys_numPorts = 1,
     sys_version = \<lparr>v_major = 3, v_minor = 0, v_patch = 7, v_tag = 5\<rparr>\<rparr>"

definition some_adapter :: NtInfoAdapter where
  "some_adapter = \<lparr>adp_name = ''NT100E3'', adp_numSensors = 1, adp_portOffset = 0, adp_numPorts = 1\<rparr>"

definition some_product :: NtInfoProductInfo where
  "some_product = \<lparr>pi_infoType = NT_PRODUCT_INFO_TYPE_GEN3, pi_ProductId = [],
     pi_SerialNo = [''0000-214999''], pi_PbaId = [''073-012101-03''], pi_CpldVersion = [],
     pi_AvrId = [''3.1''], pi_fpgaId1 = [], pi_fpgaId2 = []\<rparr>"

definition some_port :: NtInfoPort where
  "some_port = \<lparr>prt_macAddress = [0, 13, 233, 3, 91, 250], prt_speed = NT_LINK_SPEED_100G,
     prt_state = NT_LINK_STATE_UP, prt_type = NT_PORT_TYPE_CFP4, prt_duplex = NT_LINK_DUPLEX_FULL,
     prt_flow = 0, prt_maxFrameSize = 10000, prt_mdi = NT_LINK_MDI_NA, prt_numSensors = 0,
     prt_numLevel1Sensors = 0\<rparr>"

definition some_timesync :: NtInfoTimeSync where
  "some_timesync = \<lparr>ts_timeSyncSupported = 0, ts_ptpSupported = 0,
     ts_timeSyncConnectorExt1 = NT_TIMESYNC_CONNECTOR_SETTING_NTTS_IN,
     ts_timeSyncConnectorInt1 = NT_TIMESYNC_CONNECTOR_SETTING_NTTS_OUT,
     ts_timeSyncConnectorInt2 = NT_TIMESYNC_CONNECTOR_SETTING_NONE,
     ts_tsRefPrio = [NT_TIMESYNC_REFERENCE_EXT1, NT_TIMESYNC_REFERENCE_OSTIME, NT_TIMESYNC_REFERENCE_INVALID,
     NT_TIMESYNC_REFERENCE_INVALID],
     ts_timeRef = NT_TIMESYNC_REFERENCE_INVALID,
     ts_tsFreqRefPrio = replicate 4 NT_TIMESYNC_FREQ_REFERENCE_INVALID,
     ts_freqRef = NT_TIMESYNC_FREQ_REFERENCE_INVALID, ts_timeSyncNTTSInSyncLimit = 0,
     ts_timeSyncOSInSyncLimit = 0, ts_timeSyncPPSInSyncLimit = 0, ts_timeSyncPTPInSyncLimit = 0,
     ts_timeSyncInSyncStatus = NT_TIMESYNC_INSYNC_STATUS_NONE,
     ts_timeSyncCurrentConStatus = NT_TIMESYNC_CONNECTOR_STATUS_NONE,
     ts_timeSyncPpsEnable = NT_TIMESYNC_PPS_STATUS_NONE,
     ts_timeSyncPpsSyncMode = NT_TIMESYNC_PPS_MODE_NOT_SYNCING, ts_timeSyncClockAdjustmentMode = 0,
     ts_timeSyncHardReset = 0, ts_timeSyncTimeJumpThreshold = 0, ts_timeSyncTimeOffset = 0,
     ts_timeSyncPpsSampled = 0, ts_timeSyncTimeSkew = 0, ts_highFrequencySampling = 0,
     ts_timeSyncAdapterToOSSyncEnabled = 0, ts_timeSyncOSClockOffset = 0,
     ts_timeSyncOSClockRateAdjustment = 0\<rparr>"

definition some_timesync_ext :: NtInfoTimeSyncStatusExt where
  "some_timesync_ext = \<lparr>tx_infoValid = 0, tx_extDevSyncSignalOk = 0, tx_extDevInSync = 0,
     tx_extDevTimeOfDayOk = 0, tx_extDevOsModeSyncEnabled = 0, tx_extDevOsModeInSync = 0,
     tx_extDevIsMaster = 0, tx_extAdapterIsMaster = 0, tx_extDevMasterID = 0\<rparr>"

definition some_timesync_stat :: NtInfoTimeSyncStat where
  "some_timesync_stat = \<lparr>tt_supported = NT_TIMESYNC_STATISTICS_FULL_SUPPORT, tt_samples = 0, tt_skew = 0,
     tt_min = 0, tt_max = 0, tt_mean = 0, tt_jitter = 0, tt_secSinceReset = 0, tt_stdDevSqr = 0,
     tt_signalLostCnt = 0, tt_syncLostCnt = 0, tt_hardResetCnt = 0\<rparr>"

definition some_rmon :: NtRMON1Counters where
  "some_rmon = \<lparr>rm_pkts = 3, rm_octets = 192, rm_dropEvents = 0, rm_pkts64Octets = 0,
     rm_pkts65to127Octets = 0, rm_pkts128to255Octets = 0, rm_pkts256to511Octets = 0,
     rm_pkts512to1023Octets = 0, rm_pkts1024to1518Octets = 0, rm_oversizePkts = 0,
     rm_undersizePkts = 0, rm_multicastPkts = 0, rm_jabbers = 0, rm_fragments = 0,
     rm_collisions = 0, rm_crcAlignErrors = 0, rm_broadcastPkts = 0\<rparr>"

definition some_counters :: NtPortStatistics where
  "some_counters = \<lparr>valid_RMON1 = True, valid_extRMON = False, valid_extDrop = False, valid_decode = False,
     valid_chksum = False, valid_ipf = False, ps_RMON1 = some_rmon,
     ps_extRMON = \<lparr>er_pkts1519to2047Octets = 0, er_pkts2048to4095Octets = 0, er_pkts4096to8191Octets = 0,
     er_pkts8192toMaxOctets = 0, er_pktsAlignment = 0, er_pktsCodeViolation = 0, er_pktsCrc = 0,
     er_pktsHardSlice = 0, er_pktsHardSliceJabber = 0, er_unicastPkts = 0\<rparr>,
     ps_extDrop = \<lparr>ed_pktsDedup = 0, ed_octetsDedup = 0, ed_pktsNoFilter = 0, ed_octetsNoFilter = 0,
     ed_pktsOverflow = 0, ed_octetsOverflow = 0, ed_pktsMacBandwidth = 0\<rparr>,
     ps_decode = \<lparr>dc_pktsBabyGiant = 0, dc_pktsGiantUndersize = 0, dc_pktsIsl = 0, dc_pktsIslMpls = 0,
     dc_pktsIslVlan = 0, dc_pktsIslVlanMpls = 0, dc_pktsMpls = 0, dc_pktsNotIslVlanMpls = 0,
     dc_pktsVlan = 0, dc_pktsVlanMpls = 0\<rparr>,
     ps_chksum = \<lparr>ck_pktsIpChkSumError = 0, ck_pktsTcpChkSumError = 0, ck_pktsUdpChkSumError = 0\<rparr>,
     ps_ipf = \<lparr>fr_ipFragTableFirstHit = 0, fr_ipFragTableFirstNoHit = 0, fr_ipFragTableLastHit = 0,
     fr_ipFragTableLastNoHit = 0, fr_ipFragTableMidHit = 0, fr_ipFragTableMidNoHit = 0\<rparr>\<rparr>"

definition some_port_query :: NtPortQuery where
  "some_port_query = \<lparr>pq_rx = some_counters, pq_tx = some_counters, pq_ts = 0,
     pq_tsType = NT_TIMESTAMP_TYPE_NATIVE_UNIX\<rparr>"

definition some_query :: NtStatQuery where
  "some_query = \<lparr>q_aPorts = (\<lambda>p. some_port_query), q_stream_ts = 0,
     q_streamid = (\<lambda>i. \<lparr>st_forward = some_counter, st_drop = some_counter, st_flush = some_counter\<rparr>),
     q_aAdapters_color = some_colors\<rparr>"

definition no_streams :: NtInfoStreams where
  "no_streams = \<lparr>str_count = 0, str_streamIDList = (\<lambda>i. 0)\<rparr>"

definition some_env :: nt_env where
  "some_env = \<lparr>e_init = 0, e_info_open = 0, e_stat_open = 0, e_info_close = 0, e_stat_close = 0,
     e_sys = (0, some_system), e_sys_ports = (0, some_system), e_sys_stats = (0, some_system),
     e_sys_summary = (0, some_system),
     e_adapter = (\<lambda>a. (0, some_adapter)), e_product = (\<lambda>a. (0, some_product)),
     e_sensor = (\<lambda>src i k. (0, some_sensor)),
     e_port_sensors = (\<lambda>p. (0, some_port)), e_port_info = (\<lambda>p. (0, some_port)),
     e_port_summary = (\<lambda>p. (0, some_port)),
     e_timesync = (\<lambda>a. (0, some_timesync)), e_timesync_ext = (\<lambda>a. (0, some_timesync_ext)),
     e_timesync_stat = (\<lambda>a. (0, some_timesync_stat)),
     e_streams_merged = (0, no_streams), e_streams_color = (\<lambda>a. (0, no_streams)),
     e_streams_data = (0, no_streams),
     e_streamid = (\<lambda>i. (1, \<lparr>sid_minHostBufferSize = 0, sid_numHostBuffers = 0, sid_numaNode = 0,
       sid_useCount = 0, sid_state = NT_STREAM_ID_STATE_UNKNOWN\<rparr>)),
     e_stat_merged = (0, some_query), e_stat_color = (\<lambda>a. (0, some_query)),
     e_stat_ports = (\<lambda>n. (0, some_query)), e_stat_summary = (\<lambda>n. (0, some_query)),
     e_stat_stream = (0, some_query), e_localtime = (\<lambda>i. some_tm), e_tv_sec = 1456235293,
     e_tv_usec = 240339, e_fopen = (\<lambda>f. True), e_ov = (@)\<rparr>"

definition default_opts :: nt2json_opts where
  "default_opts = default_outputs initial_opts\<lparr>opt_verbose := True\<rparr>"


lemma parse_default: "parse_options [] = Inr default_opts"
  by (simp add: parse_options_def default_opts_def default_outputs_def initial_opts_def Let_def)


section \<open>Options\<close>

text \<open>A command line that asks for the sensors and for the alarms is refused, in whatever order and whatever else is on it.\<close>

theorem alarm_and_sensors_refused:
  assumes "OPTION_ALARM \<in> set ps" "OPTION_SENSORS \<in> set ps"
  shows "\<exists>x. parse_options ps = Inl x"
proof (cases "option_loop ps initial_opts")
  case (Inl x)
  then show ?thesis by (simp add: parse_options_def)
next
  case (Inr s)
  have "opts_inv s" by (rule opts_inv_loop [OF Inr opts_inv_initial])
  with option_loop_Inr_flags [OF Inr] assms show ?thesis by (simp add: opts_inv_def)
qed

theorem alarm_and_sensors_refused_witness:
  "\<exists>x. parse_options [OPTION_PRETTY, OPTION_SENSORS, OPTION_ALARM] = Inl x"
  by (rule alarm_and_sensors_refused) simp_all

lemma default_sets_both_directions:
  assumes "parse_options ps = Inr s" "\<forall>p \<in> set ps. \<not> output_option p"
  shows "opt_rxport s \<and> opt_txport s"
proof -
  obtain s1 where s1: "option_loop ps initial_opts = Inr s1"
    using assms(1) by (auto simp: parse_options_def split: sum.splits)
  have "all_output_options s1"
    using option_loop_Inr_flags [OF s1] assms(2) by (simp add: initial_opts_def)
  with assms(1) s1 show ?thesis
    by (auto simp: parse_options_def default_outputs_def Let_def split: if_splits)
qed

text \<open>C24: Without an output option, which is to select every output, the port statistics of the document contain neither received nor transmitted counters.\<close>

theorem no_option_no_counters:
  assumes "parse_options ps = Inr s" "\<forall>p \<in> set ps. \<not> output_option p"
    "r \<in> set (elements (getPortStats s lt sys rds))"
  shows "jget r ''Rx'' = None \<and> jget r ''Tx'' = None"
  using getPortStats_set [OF assms(3)] default_sets_both_directions [OF assms(1,2)]
  by (auto simp: jget_port_stats_Rx jget_port_stats_Tx)

theorem no_option_no_counters_witness:
  "jget (port_stats default_opts (\<lambda>i. some_tm) 0 some_port_query) ''Rx'' = None"
proof -
  have "port_stats default_opts (\<lambda>i. some_tm) 0 some_port_query
      \<in> set (elements (getPortStats default_opts (\<lambda>i. some_tm) (0, some_system) (\<lambda>n. (0, some_query))))"
    by (simp add: getPortStats_def some_system_def some_query_def NT_SUCCESS_def)
  with no_option_no_counters [OF parse_default] show ?thesis by simp
qed

section \<open>Sensors\<close>

text \<open>C25: The sensor lists of a document made with the alarm option are those of the sensors option restricted to the entries whose state is an alarm, for the adapter and for its ports.\<close>

theorem alarm_restricts_sensors:
  assumes "opt_sensors s" "opt_alarm t" "\<not> opt_sensors t"
  shows "elements (getSensorInfo t rd adapter n) = filter in_alarm (elements (getSensorInfo s rd adapter n))
     \<and> map_option elements (jget (getPortSensorInfo t rdp rd first end) ''PortSensors'') =
       map_option (filter in_alarm \<circ> elements) (jget (getPortSensorInfo s rdp rd first end) ''PortSensors'')"
proof
  show "elements (getSensorInfo t rd adapter n) = filter in_alarm (elements (getSensorInfo s rd adapter n))"
    by (simp only: getSensorInfo_alarm [OF assms]) (simp add: getSensorInfo_eq)
  show "map_option elements (jget (getPortSensorInfo t rdp rd first end) ''PortSensors'') =
       map_option (filter in_alarm \<circ> elements) (jget (getPortSensorInfo s rdp rd first end) ''PortSensors'')"
    by (simp add: getPortSensorInfo_alarm [OF assms] json_simps split: option.split)
qed

theorem alarm_restricts_sensors_witness:
  "elements (getSensorInfo (initial_opts\<lparr>opt_alarm := True\<rparr>) (\<lambda>src i k. (0, some_sensor)) 0 2) =
     filter in_alarm (elements (getSensorInfo (initial_opts\<lparr>opt_sensors := True\<rparr>) (\<lambda>src i k. (0, some_sensor)) 0 2))"
  using alarm_restricts_sensors [of "initial_opts\<lparr>opt_sensors := True\<rparr>" "initial_opts\<lparr>opt_alarm := True\<rparr>"]
  by (simp add: initial_opts_def)

section \<open>Colours\<close>

text \<open>C26: The merged colour counters list exactly the colours for which the sum of the packet counters over all adapters is not zero, each with the sums over the adapters.\<close>

theorem merged_colors_are_sums:
  assumes "getMergedColorStats streams (0, q) numAdapters = j" "fst streams = 0"
  shows "\<exists>cs. jget j ''colors'' = Some cs \<and> set (elements cs) =
    {color_json c (\<Sum>a < unat numAdapters. ctr_pkts (cq_aColor (q_aAdapters_color q a) c))
                  (\<Sum>a < unat numAdapters. ctr_octets (cq_aColor (q_aAdapters_color q a) c))
      | c. c < NUM_COLOR_COUNTERS \<and> (\<Sum>a < unat numAdapters. ctr_pkts (cq_aColor (q_aAdapters_color q a) c)) \<noteq> 0}"
  using assms
  by (simp add: getMergedColorStats_sums NT_SUCCESS_def json_simps color_array_set
      flip: assms(1)) (simp add: merged_pkts_def merged_octets_def)

theorem merged_colors_are_sums_witness:
  "\<exists>cs. jget (getMergedColorStats (0, no_streams) (0, some_query) 2) ''colors'' = Some cs
     \<and> color_json 7 6 384 \<in> set (elements cs)"
proof -
  have sums: "(\<Sum>a < (2 :: nat). ctr_pkts (cq_aColor (q_aAdapters_color some_query a) 7)) = 6"
    "(\<Sum>a < (2 :: nat). ctr_octets (cq_aColor (q_aAdapters_color some_query a) 7)) = 384"
    by (simp_all add: some_query_def some_colors_def some_counter_def)
  obtain cs where cs: "jget (getMergedColorStats (0, no_streams) (0, some_query) 2) ''colors'' = Some cs"
    "set (elements cs) =
      {color_json c (\<Sum>a < unat (2 :: u32). ctr_pkts (cq_aColor (q_aAdapters_color some_query a) c))
                    (\<Sum>a < unat (2 :: u32). ctr_octets (cq_aColor (q_aAdapters_color some_query a) c))
        | c. c < NUM_COLOR_COUNTERS \<and> (\<Sum>a < unat (2 :: u32). ctr_pkts (cq_aColor (q_aAdapters_color some_query a) c)) \<noteq> 0}"
    using merged_colors_are_sums [OF refl, of "(0, no_streams)" some_query 2] by auto
  have "color_json 7 6 384 \<in> set (elements cs)"
    unfolding cs(2) by (rule CollectI, rule exI [of _ 7]) (simp add: sums NUM_COLOR_COUNTERS_def)
  with cs(1) show ?thesis by blast
qed

section \<open>Time stamps\<close>

text \<open>A time stamp fills 29 characters, so the 32-byte buffer never cuts it, and the digits behind the point read back as the nanoseconds of the stamp.\<close>

theorem time_stamp_reads_back:
  assumes "tm_ok (lt (sint (ts div 100000000)))"
  shows "length (decodeTimeStamp lt ts) = 29 \<and>
    fst (scan_digits 10 0 (drop 20 (decodeTimeStamp lt ts))) = unat ts mod 100000000 * 10"
  using assms by (simp add: decodeTimeStamp_whole length_time_stamp_text time_stamp_fraction scan_padded)

theorem time_stamp_reads_back_witness:
  "fst (scan_digits 10 0 (drop 20 (decodeTimeStamp (\<lambda>i. some_tm) 145625329324033900))) = 240339000"
  using time_stamp_reads_back [of "\<lambda>i. some_tm" 145625329324033900]
  by (simp add: some_tm_def tm_ok_def)

section \<open>Port summary\<close>

text \<open>When the reads succeed, the summary fills the entries of all ports, leaves the rest of the array alone and returns the number of ports; an array that is too small is overrun.\<close>

theorem port_summary_fills_array:
  assumes "fst sys = 0" "fst (rds 0) = NT_SUCCESS"
    "\<forall>p < unat (sys_numPorts (snd sys)). fst (rds (Suc p)) = NT_SUCCESS"
    "0 < unat (sys_numPorts (snd sys))"
  shows "getPortSummary s lt sysTime sys rdp rds ports =
    (if unat (sys_numPorts (snd sys)) \<le> length ports
     then Some (unat (sys_numPorts (snd sys)),
       map (\<lambda>i. if i < unat (sys_numPorts (snd sys))
          then port_summary s lt sysTime i (snd (rdp (of_nat i))) (q_aPorts (snd (rds (Suc i))) i)
          else ports ! i) [0..<length ports])
     else None)"
  using assms
  by (simp add: getPortSummary_def summary_loop_spec del: upt.simps)

theorem port_summary_fills_array_witness:
  "getPortSummary default_opts (\<lambda>i. some_tm) 5 (0, some_system) (\<lambda>p. (0, some_port)) (\<lambda>n. (0, some_query)) []
     = None"
  by (subst port_summary_fills_array) (simp_all add: some_system_def NT_SUCCESS_def)

section \<open>Whole runs\<close>



text \<open>C28: A run without the summary option aborts exactly when an adapter cannot be read although an output that adds to it is on, a product generation is unknown, or one sensor of an adapter cannot be read while sensors or alarms are on.\<close>

theorem run_aborts_iff:
  assumes "parse_options argv = Inr s" "\<not> opt_portsummary s"
    "e_init e = NT_SUCCESS" "e_info_open e = NT_SUCCESS" "e_stat_open e = NT_SUCCESS"
  shows "nt2json_main argv e = None \<longleftrightarrow>
    (\<exists>a < unat (sys_numAdapters (snd (e_sys e))). adapter_aborts s e (of_nat a))"
proof -
  obtain j n p where sys: "getSystemInfo (e_sys e) = (j, n, p)" by (metis prod_cases3)
  then have n: "n = sys_numAdapters (snd (e_sys e))" by (simp add: getSystemInfo_def Let_def)
  have "nt2json_main argv e = None \<longleftrightarrow> adapter_loop s e [0..<unat n] [] = None"
    using assms by (simp add: nt2json_main_def documents_def sys bind_eq_None_conv)
  then show ?thesis by (auto simp: adapter_loop_None n)
qed

theorem run_aborts_iff_witness:
  "nt2json_main [] (some_env\<lparr>e_sensor := (\<lambda>src i k. (1, some_sensor))\<rparr>) = None"
proof -
  let ?e = "some_env\<lparr>e_sensor := (\<lambda>src i k. (1, some_sensor))\<rparr>"
  have "adapter_aborts default_opts ?e 0"
    by (simp add: adapter_aborts_def sensors_readable_def some_env_def some_adapter_def default_opts_def
        default_outputs_def initial_opts_def NT_SUCCESS_def)
  then show ?thesis
    by (subst run_aborts_iff [OF parse_default])
      (simp_all add: some_env_def some_system_def default_opts_def default_outputs_def initial_opts_def NT_SUCCESS_def)
qed

end
