(* ===== verification/Filter_Address.thy ===== *)
theory Filter_Address
  imports Libc "HOL-Library.List_Lexorder" "HOL-Library.Char_ord"
begin

text \<open>
  \<open>filter_daemon/IPAddress.cpp\<close> and \<open>IPAddress.h\<close>: one line of a filter file, how it is read, the
  filter command it stands for, and the order in which \<open>std::set\<close> keeps the addresses.

  A \<open>std::string\<close> is a list of characters; \<open>find\<close> is \<^const>\<open>find_sub\<close> and \<open>erase\<close> removes up to the
  given number of characters.  The identifiers that the library hands out are natural numbers, 0
  for none.
\<close>

datatype IPVersion = UNKNOWN | IPv4 | IPv6

record IPAddress =
  m_src :: bool
  m_dst :: bool
  m_addr :: string
  m_ver :: IPVersion
  m_ntplId :: nat
  m_netMask :: string
  m_rangeAddr :: string

definition IPAddress_new :: IPAddress where
  "IPAddress_new = \<lparr>m_src = False, m_dst = False, m_addr = [], m_ver = UNKNOWN, m_ntplId = 0, m_netMask = [],
     m_rangeAddr = []\<rparr>"

definition MatchKeyIPv4Src :: nat where "MatchKeyIPv4Src = 3"

definition MatchKeyIPv4Dst :: nat where "MatchKeyIPv4Dst = 5"

definition MatchKeyIPv6Src :: nat where "MatchKeyIPv6Src = 4"

definition MatchKeyIPv6Dst :: nat where "MatchKeyIPv6Dst = 6"

text \<open>The line in the log for an address.\<close>

definition version_name :: "IPVersion \<Rightarrow> string" where
  "version_name v = (case v of IPv4 \<Rightarrow> ''IPv4'' | IPv6 \<Rightarrow> ''IPv6'' | UNKNOWN \<Rightarrow> ''UNKNOWN'')"

definition display :: "IPAddress \<Rightarrow> string" where
  "display a =
     ''    '' @ (if m_src a then ''src '' else '' -  '') @ (if m_dst a then ''dst '' else '' -  '') @ '': ''
     @ version_name (m_ver a) @ '' '' @ m_addr a
     @ (if m_netMask a \<noteq> [] then '' - netmask: '' @ m_netMask a
        else if m_rangeAddr a \<noteq> [] then ''..'' @ m_rangeAddr a
        else [])"

text \<open>The version that the text of an address shows; without a dot or a colon it stays what it was.\<close>

definition address_version :: "string \<Rightarrow> IPVersion \<Rightarrow> IPVersion" where
  "address_version s v =
     (if find_sub ''.'' s \<noteq> None then IPv4 else if find_sub '':'' s \<noteq> None then IPv6 else v)"

definition verifyAddr :: "string \<Rightarrow> IPAddress \<Rightarrow> bool \<times> IPAddress" where
  "verifyAddr ipAddr a = (0 < length ipAddr, a\<lparr>m_ver := address_version ipAddr (m_ver a)\<rparr>)"

definition tolower :: "char \<Rightarrow> char" where
  "tolower c = (let n = of_char c :: nat in if 65 \<le> n \<and> n \<le> 90 then char_of (n + 32) else c)"

definition str_erase :: "nat \<Rightarrow> nat \<Rightarrow> string \<Rightarrow> string" where
  "str_erase i n s = take i s @ drop (i + n) s"

text \<open>A flag word is removed with the one character behind it, whatever it is.\<close>

definition take_flag :: "string \<Rightarrow> string \<Rightarrow> bool \<times> string" where
  "take_flag w s = (case find_sub w s of None \<Rightarrow> (False, s) | Some i \<Rightarrow> (True, str_erase i (length w + 1) s))"

text \<open>\<open>while ((i = s.find(c)) != npos) s.erase(i, 1)\<close>\<close>

function erase_all :: "char \<Rightarrow> string \<Rightarrow> string" where
  "erase_all c s = (case find_sub [c] s of None \<Rightarrow> s | Some i \<Rightarrow> erase_all c (str_erase i 1 s))"
  by pat_completeness auto

lemma find_sub_less: "find_sub w s = Some i \<Longrightarrow> w \<noteq> [] \<Longrightarrow> i < length s"
  by (induction w s arbitrary: i rule: find_sub.induct) (auto split: if_splits)

termination erase_all
  by (relation "measure (\<lambda>(c, s). length s)") (auto simp: str_erase_def dest: find_sub_less)

declare erase_all.simps [simp del]

text \<open>The loop that sets the leading bits of the mask.  The array has sixteen elements; \<open>None\<close> is a
  write behind it.\<close>

function subnet_loop :: "nat \<Rightarrow> nat \<Rightarrow> 16 word list \<Rightarrow> nat \<Rightarrow> 16 word list option" where
  "subnet_loop bits b subnet pos =
     (if b < bits then
        (if pos < length subnet
         then subnet_loop bits (b + 1) (subnet[pos := subnet ! pos OR push_bit (7 - b mod 8) 1])
                (if b mod 8 = 7 then pos + 1 else pos)
         else None)
      else Some subnet)"
  by pat_completeness auto

termination subnet_loop
  by (relation "measure (\<lambda>(bits, b, subnet, pos). bits - b)") auto

declare subnet_loop.simps [simp del]

definition hex2 :: "16 word \<Rightarrow> string" where
  "hex2 w = map lower_hex (pad_left CHR ''0'' 2 (show_hex (unat (w AND 0xff))))"

definition mask4 :: "16 word list \<Rightarrow> string" where
  "mask4 b = hex2 (b ! 0) @ ''.'' @ hex2 (b ! 1) @ ''.'' @ hex2 (b ! 2) @ ''.'' @ hex2 (b ! 3)"

definition mask6 :: "16 word list \<Rightarrow> string" where
  "mask6 b =
     hex2 (b ! 0) @ hex2 (b ! 1) @ '':'' @ hex2 (b ! 2) @ hex2 (b ! 3) @ '':'' @ hex2 (b ! 4) @ hex2 (b ! 5) @ '':''
     @ hex2 (b ! 6) @ hex2 (b ! 7) @ '':'' @ hex2 (b ! 8) @ hex2 (b ! 9) @ '':'' @ hex2 (b ! 10) @ hex2 (b ! 11) @ '':''
     @ hex2 (b ! 12) @ hex2 (b ! 13) @ '':'' @ hex2 (b ! 14) @ hex2 (b ! 15)"

text \<open>\<open>uint subnetBits = strtoul(...)\<close>: 64 bits cut to 32.\<close>

definition subnet_bits :: "string \<Rightarrow> nat" where
  "subnet_bits s = unat (word_of_int (st_value (strtoull 0 s)) :: 32 word)"

definition parse_mask :: "string \<Rightarrow> IPAddress \<Rightarrow> (string \<times> IPAddress) option" where
  "parse_mask s a =
     (case find_sub ''/'' s of
        None \<Rightarrow> Some (s, a)
      | Some i \<Rightarrow>
          map_option
            (\<lambda>subnet. (take i s,
               case m_ver a of
                 IPv4 \<Rightarrow> a\<lparr>m_netMask := mask4 subnet\<rparr>
               | IPv6 \<Rightarrow> a\<lparr>m_netMask := mask6 subnet\<rparr>
               | UNKNOWN \<Rightarrow> a))
            (subnet_loop (subnet_bits (drop (i + 1) s)) 0 (replicate 16 0) 0))"

definition parse_range :: "string \<Rightarrow> IPAddress \<Rightarrow> string \<times> IPAddress" where
  "parse_range s a =
     (case find_sub ''..'' s of
        None \<Rightarrow> (s, a)
      | Some i \<Rightarrow> (take i s, a\<lparr>m_rangeAddr := drop (i + 2) s\<rparr>))"

definition parse :: "string \<Rightarrow> IPAddress \<Rightarrow> (bool \<times> IPAddress) option" where
  "parse line a =
     (let s = map tolower line;
          (src, s) = take_flag ''src'' s;
          (dst, s) = take_flag ''dst'' s;
          src = (m_src a \<or> src); dst = (m_dst a \<or> dst);
          both = (\<not> src \<and> \<not> dst);
          s = erase_all CHR 0x09 (erase_all CHR '' '' s);
          a = a\<lparr>m_src := src \<or> both, m_dst := dst \<or> both, m_ver := address_version s (m_ver a)\<rparr>
      in map_option (\<lambda>(s, a). let (s, a) = parse_range s a in verifyAddr s (a\<lparr>m_addr := s\<rparr>)) (parse_mask s a))"

text \<open>The command that filters an address; \<open>None\<close> when its version is unknown or it has no direction.\<close>

definition ntplAddr :: "IPAddress \<Rightarrow> string" where
  "ntplAddr a =
     (if m_netMask a \<noteq> [] then ''{['' @ m_netMask a @ '']:['' @ m_addr a @ '']}''
      else if m_rangeAddr a \<noteq> [] then ''(['' @ m_addr a @ '']..['' @ m_rangeAddr a @ ''])''
      else ''['' @ m_addr a @ '']'')"

definition match_list :: "nat \<Rightarrow> string \<Rightarrow> string" where
  "match_list keyset eq = ''IPMatchList[KeySet='' @ show_dec keyset @ ''] = '' @ eq"

definition add_command :: "IPAddress \<Rightarrow> string option" where
  "add_command a =
     (case m_ver a of
        IPv4 \<Rightarrow>
          if m_src a \<and> m_dst a then Some (''IPMatchList = IPv4Addr == '' @ ntplAddr a)
          else if m_src a then Some (match_list MatchKeyIPv4Src ''IPv4Addr == '' @ ntplAddr a)
          else if m_dst a then Some (match_list MatchKeyIPv4Dst ''IPv4Addr == '' @ ntplAddr a)
          else None
      | IPv6 \<Rightarrow>
          if m_src a \<and> m_dst a then Some (''IPMatchList = IPv6Addr == '' @ ntplAddr a)
          else if m_src a then Some (match_list MatchKeyIPv6Src ''IPv6Addr  == '' @ ntplAddr a)
          else if m_dst a then Some (match_list MatchKeyIPv6Dst ''IPv6Addr == '' @ ntplAddr a)
          else None
      | UNKNOWN \<Rightarrow> None)"

text \<open>The comparisons.  All of them leave out the end of a range.\<close>

definition direction_bits :: "IPAddress \<Rightarrow> string" where
  "direction_bits a = (if m_src a then ''1'' else ''0'') @ (if m_dst a then ''1'' else ''0'')"

definition ip_key :: "IPAddress \<Rightarrow> string" where
  "ip_key a = m_addr a @ direction_bits a @ m_netMask a"

definition ip_less :: "IPAddress \<Rightarrow> IPAddress \<Rightarrow> bool" where
  "ip_less a b \<longleftrightarrow> ip_key a < ip_key b"

definition ip_greater :: "IPAddress \<Rightarrow> IPAddress \<Rightarrow> bool" where
  "ip_greater a b \<longleftrightarrow> ip_key b < ip_key a"

definition ip_eq :: "IPAddress \<Rightarrow> IPAddress \<Rightarrow> bool" where
  "ip_eq a b \<longleftrightarrow> m_addr a @ ''-'' @ direction_bits a @ m_netMask a = m_addr b @ ''-'' @ direction_bits b @ m_netMask b"

end
