(* ===== verification/Cpp_Set.thy ===== *)
theory Cpp_Set
  imports Main
begin

text \<open>
  The part of the C++ library that the filter daemon uses: \<open>std::set\<close> with a comparison function, as
  the list of its elements in order, and the algorithms \<open>set_difference\<close> and \<open>set_union\<close> on ordered
  ranges.  The locale \<open>compares_by\<close> is the contract between the container and its client: the
  comparison compares a key of the elements.
\<close>

text \<open>\<open>insert\<close> leaves an element with an equivalent key in its place.\<close>

fun set_insert :: "('a \<Rightarrow> 'a \<Rightarrow> bool) \<Rightarrow> 'a \<Rightarrow> 'a list \<Rightarrow> 'a list" where
  "set_insert lt a [] = [a]"
| "set_insert lt a (b # bs) =
     (if lt a b then a # b # bs else if lt b a then b # set_insert lt a bs else b # bs)"

definition inserter :: "('a \<Rightarrow> 'a \<Rightarrow> bool) \<Rightarrow> 'a list \<Rightarrow> 'a list \<Rightarrow> 'a list" where
  "inserter lt xs s = fold (set_insert lt) xs s"

fun set_difference :: "('a \<Rightarrow> 'a \<Rightarrow> bool) \<Rightarrow> 'a list \<Rightarrow> 'a list \<Rightarrow> 'a list" where
  "set_difference lt [] ys = []"
| "set_difference lt (x # xs) [] = x # xs"
| "set_difference lt (x # xs) (y # ys) =
     (if lt x y then x # set_difference lt xs (y # ys)
      else if lt y x then set_difference lt (x # xs) ys
      else set_difference lt xs ys)"

fun set_union :: "('a \<Rightarrow> 'a \<Rightarrow> bool) \<Rightarrow> 'a list \<Rightarrow> 'a list \<Rightarrow> 'a list" where
  "set_union lt [] ys = ys"
| "set_union lt (x # xs) [] = x # xs"
| "set_union lt (x # xs) (y # ys) =
     (if lt y x then y # set_union lt (x # xs) ys
      else if lt x y then x # set_union lt xs (y # ys)
      else x # set_union lt xs ys)"

locale compares_by =
  fixes lt :: "'a \<Rightarrow> 'a \<Rightarrow> bool"
    and key :: "'a \<Rightarrow> 'k::linorder"
  assumes less_key: "lt a b \<longleftrightarrow> key a < key b"
begin

abbreviation ordered :: "'a list \<Rightarrow> bool" where
  "ordered xs \<equiv> sorted_wrt (\<lambda>a b. key a < key b) xs"

lemma set_keys_insert: "key ` set (set_insert lt a xs) = insert (key a) (key ` set xs)"
  by (induction xs) (auto simp: less_key dest: antisym_conv3)

lemma insert_subset: "set (set_insert lt a xs) \<subseteq> insert a (set xs)"
  by (induction xs) auto

lemma insert_superset: "set xs \<subseteq> set (set_insert lt a xs)"
  by (induction xs) auto

lemma set_ordered_insert: "ordered xs \<Longrightarrow> ordered (set_insert lt a xs)"
proof (induction xs)
  case (Cons b bs)
  have "\<forall>c \<in> set (set_insert lt a bs). key b < key c" if "key b < key a"
    using that insert_subset[of a bs] Cons.prems by auto
  then show ?case using Cons by (force simp: less_key[abs_def])
qed simp

lemma insert_last: "ordered (xs @ [a]) \<Longrightarrow> set_insert lt a xs = xs @ [a]"
  by (induction xs) (auto simp: less_key sorted_wrt_append)

lemma inserter_empty: "ordered xs \<Longrightarrow> inserter lt xs [] = xs"
  by (induction xs rule: rev_induct) (auto simp: inserter_def insert_last sorted_wrt_append)

lemma insert_present: "ordered xs \<Longrightarrow> key a \<in> key ` set xs \<Longrightarrow> set_insert lt a xs = xs"
  by (induction xs) (auto simp: less_key)

lemma ordered_distinct: "ordered xs \<Longrightarrow> inj_on key (set xs)"
  by (induction xs) auto

lemma ordered_unique: "ordered xs \<Longrightarrow> a \<in> set xs \<Longrightarrow> b \<in> set xs \<Longrightarrow> key a = key b \<Longrightarrow> a = b"
  using inj_onD[OF ordered_distinct] by blast

lemma difference_filter:
  "ordered xs \<Longrightarrow> ordered ys \<Longrightarrow> set_difference lt xs ys = filter (\<lambda>x. key x \<notin> key ` set ys) xs"
proof (induction l \<equiv> lt xs ys rule: set_difference.induct)
  case (3 x xs y ys)
  consider "key x < key y" | "key y < key x" | "key x = key y" by fastforce
  then show ?case
  proof cases
    case 1
    then have "key x \<notin> key ` set ys" using "3.prems" by force
    with 1 show ?thesis using 3 by (simp add: less_key)
  next
    case 2
    then have "filter (\<lambda>x. key x \<notin> key ` set (y # ys)) (x # xs) = filter (\<lambda>x. key x \<notin> key ` set ys) (x # xs)"
      using "3.prems" by (intro filter_cong) auto
    with 2 show ?thesis using 3 by (simp add: less_key)
  next
    case 3
    then have "filter (\<lambda>x. key x \<notin> key ` set (y # ys)) xs = filter (\<lambda>x. key x \<notin> key ` set ys) xs"
      using "3.prems" by (intro filter_cong) auto
    with 3 show ?thesis using "3.hyps" "3.prems" by (simp add: less_key)
  qed
qed auto

lemma ordered_difference: "ordered xs \<Longrightarrow> ordered ys \<Longrightarrow> ordered (set_difference lt xs ys)"
  by (simp add: difference_filter sorted_wrt_filter)

lemma union_elements:
  "ordered xs \<Longrightarrow> ordered ys \<Longrightarrow> key ` set xs \<inter> key ` set ys = {} \<Longrightarrow> set (set_union lt xs ys) = set xs \<union> set ys"
proof (induction l \<equiv> lt xs ys rule: set_union.induct)
  case (3 x xs y ys)
  then show ?case by (auto simp: less_key)
qed auto

lemma ordered_union: "ordered xs \<Longrightarrow> ordered ys \<Longrightarrow> key ` set xs \<inter> key ` set ys = {} \<Longrightarrow> ordered (set_union lt xs ys)"
proof (induction l \<equiv> lt xs ys rule: set_union.induct)
  case (3 x xs y ys)
  consider "key x < key y" | "key y < key x" using "3.prems" by fastforce
  then show ?case
  proof cases
    case 1
    then show ?thesis using 3 union_elements[of xs "y # ys"] by (auto simp: less_key)
  next
    case 2
    then show ?thesis using 3 union_elements[of "x # xs" ys] by (auto simp: less_key)
  qed
qed auto

text \<open>Elements that come in order and are already there or are new end up in their places, also when the
  container receives them while it is read.\<close>

lemma inserter_keys: "key ` set (inserter lt xs s) = key ` set s \<union> key ` set xs"
  by (induction xs arbitrary: s) (auto simp: inserter_def set_keys_insert)

lemma inserter_elements: "set (inserter lt xs s) \<subseteq> set s \<union> set xs"
proof (induction xs arbitrary: s)
  case (Cons x xs)
  then show ?case using insert_subset[of x s] by (fastforce simp: inserter_def)
qed (simp add: inserter_def)

lemma inserter_set: "inj_on key (set s \<union> set xs) \<Longrightarrow> set (inserter lt xs s) = set s \<union> set xs"
proof -
  assume "inj_on key (set s \<union> set xs)"
  moreover have "key ` set (inserter lt xs s) = key ` (set s \<union> set xs)" by (simp add: inserter_keys image_Un)
  ultimately show ?thesis using inserter_elements[of xs s] by (simp add: inj_on_image_eq_iff)
qed

lemma ordered_inserter: "ordered s \<Longrightarrow> ordered (inserter lt xs s)"
  by (induction xs arbitrary: s) (auto simp: inserter_def set_ordered_insert)

end

end
