(* ===== verification/Filter_Daemon.thy ===== *)
theory Filter_Daemon
  imports Filter_Address Cpp_Set
begin

text \<open>
  \<open>filter_daemon/NTFileHandler.cpp\<close>, \<open>NTUtils.cpp\<close> and \<open>ntfilterd.cpp\<close>: the daemon that keeps the filters
  of an adapter the same as the addresses in a file.

  The adapter is the parameter \<open>api\<close>: given the commands so far and a new one it returns the identifier
  of what was created, or 0 when nothing was or the command was refused.  The handler's \<open>fh_log\<close> holds
  the commands sent with what they returned.  \<open>None\<close> is undefined behaviour: a write behind the mask, an
  iterator used after its element was erased, a time stamp that was never read.  What is written to
  the system log is left out.
\<close>

datatype ntpl_cmd = Ntpl_create string | Ntpl_delete string nat

definition cmd_text :: "ntpl_cmd \<Rightarrow> string" where
  "cmd_text c = (case c of Ntpl_create s \<Rightarrow> s | Ntpl_delete f i \<Rightarrow> f @ show_dec i)"

type_synonym ntpl_log = "(ntpl_cmd \<times> nat) list"

type_synonym ntpl_api = "ntpl_log \<Rightarrow> ntpl_cmd \<Rightarrow> nat"

definition NTPL :: "ntpl_api \<Rightarrow> ntpl_log \<Rightarrow> ntpl_cmd \<Rightarrow> nat \<times> ntpl_log" where
  "NTPL api log c = (let r = api log c in (r, log @ [(c, r)]))"

text \<open>The members of \<open>struct tm\<close> that are compared.\<close>

record file_time =
  tm_sec :: int
  tm_min :: int
  tm_hour :: int
  tm_yday :: int
  tm_year :: int

definition zero_time :: file_time where
  "zero_time = \<lparr>tm_sec = 0, tm_min = 0, tm_hour = 0, tm_yday = 0, tm_year = 0\<rparr>"

record file_handler =
  fh_prevTime :: file_time
  fh_appliedAddrs :: "IPAddress list"
  fh_readAddrs :: "IPAddress list"
  fh_log :: ntpl_log

definition file_handler_new :: file_handler where
  "file_handler_new = \<lparr>fh_prevTime = zero_time, fh_appliedAddrs = [], fh_readAddrs = [], fh_log = []\<rparr>"

text \<open>\<open>getline\<close> until the end of the file.\<close>

fun getlines :: "string \<Rightarrow> string \<Rightarrow> string list" where
  "getlines acc [] = (if acc = [] then [] else [acc])"
| "getlines acc (c # cs) = (if c = CHR 0x0A then acc # getlines [] cs else getlines (acc @ [c]) cs)"

definition strip_comment :: "string \<Rightarrow> string" where
  "strip_comment l = (case find_sub ''#'' l of None \<Rightarrow> l | Some i \<Rightarrow> take i l)"

text \<open>The addresses of a file; a line that is refused is only reported.\<close>

fun read_lines :: "string list \<Rightarrow> IPAddress list \<Rightarrow> IPAddress list option" where
  "read_lines [] s = Some s"
| "read_lines (l # ls) s =
     (let l = strip_comment l in
      if l = [] then read_lines ls s
      else case parse l IPAddress_new of
        None \<Rightarrow> None
      | Some (ok, a) \<Rightarrow> read_lines ls (if ok then set_insert ip_less a s else s))"

definition readFile :: "string \<Rightarrow> file_handler \<Rightarrow> file_handler option" where
  "readFile content h = map_option (\<lambda>s. h\<lparr>fh_readAddrs := s\<rparr>) (read_lines (getlines [] content) [])"

definition addNTPL :: "ntpl_api \<Rightarrow> ntpl_log \<Rightarrow> IPAddress \<Rightarrow> bool \<times> IPAddress \<times> ntpl_log" where
  "addNTPL api log a =
     (case add_command a of
        None \<Rightarrow> (if m_ver a = UNKNOWN then (False, a\<lparr>m_ntplId := 0\<rparr>, log) else (0 < m_ntplId a, a, log))
      | Some c \<Rightarrow> (let (r, log) = NTPL api log (Ntpl_create c) in (0 < r, a\<lparr>m_ntplId := r\<rparr>, log)))"

definition removeNTPL :: "ntpl_api \<Rightarrow> ntpl_log \<Rightarrow> IPAddress \<Rightarrow> ntpl_log" where
  "removeNTPL api log a =
     (if 0 < m_ntplId a then snd (NTPL api log (Ntpl_delete ''delete = '' (m_ntplId a))) else log)"

definition remove_all :: "ntpl_api \<Rightarrow> ntpl_log \<Rightarrow> IPAddress list \<Rightarrow> ntpl_log" where
  "remove_all api log as = foldl (removeNTPL api) log as"

text \<open>The loop over \<open>toAdd\<close>: an address that could not be added is erased from the set while the
  iterator stands on it, and the iterator is then advanced.\<close>

fun add_all :: "ntpl_api \<Rightarrow> ntpl_log \<Rightarrow> IPAddress list \<Rightarrow> (IPAddress list \<times> ntpl_log) option" where
  "add_all api log [] = Some ([], log)"
| "add_all api log (a # as) =
     (let (ok, a, log) = addNTPL api log a in
      if ok then map_option (\<lambda>(as, log). (a # as, log)) (add_all api log as) else None)"

definition process :: "ntpl_api \<Rightarrow> string \<Rightarrow> file_handler \<Rightarrow> file_handler option" where
  "process api content h =
     (case readFile content h of
        None \<Rightarrow> None
      | Some h \<Rightarrow>
          (let read = fh_readAddrs h; applied = fh_appliedAddrs h;
               toAdd = inserter ip_less (set_difference ip_less read applied) [];
               toRemove = inserter ip_less (set_difference ip_less applied read) [];
               toKeep = inserter ip_less (set_difference ip_less applied toRemove) [];
               log = remove_all api (fh_log h) toRemove
           in map_option
                (\<lambda>(toAdd, log). h\<lparr>fh_appliedAddrs := inserter ip_less (set_union ip_less toKeep toAdd) toKeep, fh_log := log\<rparr>)
                (add_all api log toAdd)))"

definition close_handler :: "ntpl_api \<Rightarrow> file_handler \<Rightarrow> file_handler" where
  "close_handler api h = h\<lparr>fh_log := remove_all api (fh_log h) (fh_appliedAddrs h)\<rparr>"

text \<open>One pass of the loop in \<open>watchFile\<close>, with the value of \<open>applicationRunning\<close>, the answer of \<open>stat\<close> and
  what is in the file then.  A failed \<open>stat\<close> leaves the time of the pass before in the buffer, \<open>last\<close>;
  there is none in the first pass after a change.\<close>

record watch_tick =
  wt_running :: bool
  wt_stat :: "file_time option"
  wt_content :: string

text \<open>The loop of \<open>main\<close> around \<open>watchFile\<close> and \<open>process\<close>.\<close>

fun watch_loop :: "ntpl_api \<Rightarrow> file_time option \<Rightarrow> watch_tick list \<Rightarrow> file_handler \<Rightarrow> file_handler option" where
  "watch_loop api buffer [] h = Some h"
| "watch_loop api buffer (t # ts) h =
     (if \<not> wt_running t then Some h
      else case (case wt_stat t of Some m \<Rightarrow> Some m | None \<Rightarrow> buffer) of
        None \<Rightarrow> None
      | Some m \<Rightarrow>
          if m \<noteq> fh_prevTime h
          then (case process api (wt_content t) (h\<lparr>fh_prevTime := m\<rparr>) of
                  None \<Rightarrow> None
                | Some h \<Rightarrow> watch_loop api None ts h)
          else watch_loop api (Some m) ts h)"

text \<open>What \<open>main\<close> sends before and after the loop.  The dummy filters are deleted at once; the identifiers of
  the others are kept in \<open>ntplIdx\<close>.\<close>

definition dummy_filters :: "string list" where
  "dummy_filters =
     [''IPMatchList[KeySet=3] = IPv4Addr == [0.0.0.0]'',
      ''IPMatchList[KeySet=5] = IPv4Addr == [0.0.0.0]'',
      ''IPMatchList[KeySet=4] = IPv6Addr == [0000:0000:0000:0000:0000:0000:0000:0000]'',
      ''IPMatchList[KeySet=6] = IPv6Addr == [0000:0000:0000:0000:0000:0000:0000:0000]'']"

definition make_dummy :: "ntpl_api \<Rightarrow> ntpl_log \<Rightarrow> string \<Rightarrow> ntpl_log" where
  "make_dummy api log s = (let (r, log) = NTPL api log (Ntpl_create s) in snd (NTPL api log (Ntpl_delete ''delete='' r)))"

definition stream_range :: "string \<Rightarrow> string" where
  "stream_range streamid = (if 3 < length streamid then ''('' @ streamid @ '')'' else streamid)"

definition assign_head :: "string \<Rightarrow> 32 word \<Rightarrow> 32 word \<Rightarrow> string" where
  "assign_head streams priority color =
     ''assign[streamid='' @ streams @ '';priority='' @ show_int (sint priority) @ '';color='' @ show_int (sint color) @ ''] = ''"

definition key_match :: "string \<Rightarrow> string \<Rightarrow> nat \<Rightarrow> string \<Rightarrow> nat \<Rightarrow> string" where
  "key_match v op1 k1 op2 k2 =
     ''(Layer3Protocol == '' @ v @ '') AND (KeyMatch('' @ v @ ''_SrcAddr) '' @ op1 @ '' '' @ show_dec k1
       @ '' AND KeyMatch('' @ v @ ''_DstAddr) '' @ op2 @ '' '' @ show_dec k2 @ '')''"

definition setup_commands :: "string \<Rightarrow> 32 word \<Rightarrow> 32 word \<Rightarrow> string list" where
  "setup_commands streamid priority color =
     (let hd = assign_head (stream_range streamid) in
      [''define IPv4_SrcAddr = Field(Layer3Header[12]/32)'',
       ''define IPv4_DstAddr = Field(Layer3Header[16]/32)'',
       ''define IPv6_SrcAddr = Field(Layer3Header[8]/128)'',
       ''define IPv6_DstAddr = Field(Layer3Header[24]/128)'',
       hd priority color @ key_match ''IPv4'' ''=='' MatchKeyIPv4Src ''!='' MatchKeyIPv4Src,
       hd (priority + 1) color @ key_match ''IPv4'' ''!='' MatchKeyIPv4Dst ''=='' MatchKeyIPv4Dst,
       hd priority color @ key_match ''IPv6'' ''=='' MatchKeyIPv6Src ''!='' MatchKeyIPv6Src,
       hd (priority + 1) color @ key_match ''IPv6'' ''!='' MatchKeyIPv6Dst ''=='' MatchKeyIPv6Dst,
       hd (priority + 2) color @ ''IPMatch == SrcIP,DstIP''])"

fun create_all :: "ntpl_api \<Rightarrow> ntpl_log \<Rightarrow> string list \<Rightarrow> nat list \<times> ntpl_log" where
  "create_all api log [] = ([], log)"
| "create_all api log (s # ss) =
     (let (r, log) = NTPL api log (Ntpl_create s); (rs, log) = create_all api log ss in (r # rs, log))"

definition delete_filters :: "ntpl_api \<Rightarrow> ntpl_log \<Rightarrow> nat list \<Rightarrow> ntpl_log" where
  "delete_filters api log ids =
     foldl (\<lambda>log i. if i \<noteq> 0 then snd (NTPL api log (Ntpl_delete ''delete='' i)) else log) log ids"

text \<open>\<open>open\<close> reports success only for a file that was there; a new one is created and given up.\<close>

definition open_handler :: "bool \<Rightarrow> bool" where
  "open_handler exists = exists"

text \<open>The main process of the daemon, from the stream assignments on; the result is what was sent.\<close>

definition daemon_process ::
  "ntpl_api \<Rightarrow> string \<Rightarrow> 32 word \<Rightarrow> 32 word \<Rightarrow> bool \<Rightarrow> watch_tick list \<Rightarrow> ntpl_log option" where
  "daemon_process api streamid priority color exists ticks =
     (let log = foldl (make_dummy api) [] dummy_filters;
          (ntplIdx, log) = create_all api log (setup_commands streamid priority color);
          h = file_handler_new\<lparr>fh_log := log\<rparr>
      in map_option (\<lambda>h. delete_filters api (fh_log (close_handler api h)) ntplIdx)
           (if open_handler exists then watch_loop api None ticks h else Some h))"

text \<open>The command line: the options as \<open>getopt_long\<close> delivers them.\<close>

record daemon_opts =
  do_debug :: bool
  do_verbose :: bool
  do_filename :: "string option"
  do_logfile :: string
  do_streamid :: string
  do_color :: "32 word"
  do_priority :: "32 word"

definition daemon_opts_init :: daemon_opts where
  "daemon_opts_init = \<lparr>do_debug = False, do_verbose = False, do_filename = None, do_logfile = [], do_streamid = [],
     do_color = 0, do_priority = 0\<rparr>"

text \<open>How \<open>main\<close> ends.  \<open>Kill\<close> carries the process that the signal is sent to; 0 is the own process group.
  The content of the process identifier file afterwards is part of the end.\<close>

datatype daemon_end = Daemon_exit int | Daemon_kill int | Daemon_done ntpl_log

definition arg_u32 :: "string \<Rightarrow> 32 word" where
  "arg_u32 s = word_of_int (st_value (strtol 10 s))"

text \<open>\<open>readPIDFile\<close>: 0 without a file.  \<open>writePIDFile\<close> rewinds the file before it tests that it was opened;
  that it can be opened is assumed.\<close>

definition readPIDFile :: "int option \<Rightarrow> int" where
  "readPIDFile pidfile = (case pidfile of None \<Rightarrow> 0 | Some p \<Rightarrow> p)"

definition writePIDFile :: "int \<Rightarrow> int option \<Rightarrow> int option" where
  "writePIDFile pid pidfile = Some pid"

fun daemon_options :: "(char \<times> string) list \<Rightarrow> int option \<Rightarrow> daemon_opts \<Rightarrow> (daemon_end \<times> int option) + daemon_opts" where
  "daemon_options [] pidfile o' = Inr o'"
| "daemon_options ((c, arg) # as) pidfile o' =
     (if c = CHR ''h'' then Inl (Daemon_exit 1, pidfile)
      else if c = CHR ''k'' then Inl (Daemon_kill (readPIDFile pidfile), writePIDFile 0 pidfile)
      else if c = CHR ''v'' then daemon_options as pidfile (o'\<lparr>do_verbose := True\<rparr>)
      else if c = CHR ''d'' then daemon_options as pidfile (o'\<lparr>do_debug := True\<rparr>)
      else if c = CHR ''f'' then daemon_options as pidfile (o'\<lparr>do_filename := Some arg\<rparr>)
      else if c = CHR ''l'' then daemon_options as pidfile (o'\<lparr>do_logfile := arg\<rparr>)
      else if c = CHR ''s'' then daemon_options as pidfile (o'\<lparr>do_streamid := arg\<rparr>)
      else if c = CHR ''c'' then daemon_options as pidfile (o'\<lparr>do_color := arg_u32 arg\<rparr>)
      else if c = CHR ''p'' then daemon_options as pidfile (o'\<lparr>do_priority := arg_u32 arg\<rparr>)
      else Inl (Daemon_exit 1, pidfile))"

text \<open>What the rest of \<open>main\<close> meets: the library, the daemon's process and the file.\<close>

record daemon_env =
  de_nt_init :: bool
  de_config_open :: bool
  de_fork :: int
  de_setsid :: int
  de_chdir :: bool
  de_cwd :: string
  de_exists :: "string \<Rightarrow> bool"
  de_ticks :: "string \<Rightarrow> watch_tick list"

text \<open>The file that a name stands for; a daemon has changed to the root directory before it opens it.\<close>

definition resolve :: "string \<Rightarrow> string \<Rightarrow> string" where
  "resolve cwd f = (if take 1 f = ''/'' then f else cwd @ ''/'' @ f)"

text \<open>Spawning the daemon; \<open>Inl\<close> is the end of a process that leaves here.\<close>

definition spawn :: "daemon_env \<Rightarrow> int option \<Rightarrow> (daemon_end \<times> int option) + int option" where
  "spawn e pidfile =
     (if de_fork e < 0 then Inl (Daemon_exit 1, pidfile)
      else if 0 < de_fork e then Inl (Daemon_exit 0, pidfile)
      else if de_setsid e < 0 then Inl (Daemon_exit 1, pidfile)
      else let pidfile = writePIDFile (de_setsid e) pidfile
           in if de_chdir e then Inr pidfile else Inl (Daemon_exit 1, pidfile))"

definition ntfilterd_main ::
  "ntpl_api \<Rightarrow> (char \<times> string) list \<Rightarrow> daemon_env \<Rightarrow> int option \<Rightarrow> (daemon_end \<times> int option) option" where
  "ntfilterd_main api args e pidfile =
     (case daemon_options args pidfile daemon_opts_init of
        Inl r \<Rightarrow> Some r
      | Inr o' \<Rightarrow>
          let run = (\<lambda>cwd pidfile.
                let f = resolve cwd (the (do_filename o'))
                in map_option (\<lambda>log. (Daemon_done log, pidfile))
                     (daemon_process api (do_streamid o') (do_priority o') (do_color o') (de_exists e f) (de_ticks e f)))
          in if do_filename o' = None then Some (Daemon_exit (- 1), pidfile)
             else if readPIDFile pidfile \<noteq> 0 then Some (Daemon_exit (- 1), pidfile)
             else if \<not> de_nt_init e \<or> \<not> de_config_open e then Some (Daemon_exit (- 1), pidfile)
             else if do_debug o' then run (de_cwd e) pidfile
             else (case spawn e pidfile of Inl r \<Rightarrow> Some r | Inr pidfile \<Rightarrow> run [] pidfile))"

end
