(* ===== verification/Filter_Address_Props.thy ===== *)
theory Filter_Address_Props
  imports Filter_Address
begin

text \<open>
  What \<^const>\<open>parse\<close> makes of a line: the mask of a prefix length, blanks, directions, and the three forms of
  an address; and what the comparison of two addresses depends on.
\<close>

lemma find_sub_absent: "c \<in> set w \<Longrightarrow> c \<notin> set s \<Longrightarrow> find_sub w s = None"
proof (induction w s rule: find_sub.induct)
  case (2 w d s)
  have "take (length w) (d # s) \<noteq> w" using 2(2,3) by (metis in_set_takeD)
  with 2 show ?case by simp
qed auto

lemma find_sub_char: "find_sub [c] s = (if c \<in> set s then Some (length (takeWhile (\<lambda>x. x \<noteq> c) s)) else None)"
  by (induction "[c]" s rule: find_sub.induct) auto

lemma find_sub_single: "c \<notin> set p \<Longrightarrow> find_sub [c] (p @ c # s) = Some (length p)"
  by (simp add: find_sub_char takeWhile_append)

lemma erase_all_filter: "erase_all c s = filter (\<lambda>x. x \<noteq> c) s"
proof (induction c s rule: erase_all.induct)
  case (1 c s)
  show ?case
  proof (cases "c \<in> set s")
    case True
    then obtain p q where s: "s = p @ c # q" "c \<notin> set p" by (meson split_list_first)
    then have "erase_all c s = erase_all c (p @ q)"
      using find_sub_single[of c p q] by (subst erase_all.simps) (simp add: str_erase_def)
    moreover have "erase_all c (p @ q) = filter (\<lambda>x. x \<noteq> c) (p @ q)"
      using 1[of "length p"] s find_sub_single[of c p q] by (simp add: str_erase_def)
    ultimately show ?thesis using s by simp
  next
    case False
    then have "filter (\<lambda>x. x \<noteq> c) s = s" by (simp add: filter_id_conv) (metis False)
    with False show ?thesis by (subst erase_all.simps) (simp add: find_sub_char)
  qed
qed

text \<open>The byte of a mask of which the first \<open>k\<close> bits are set, and all sixteen of them.\<close>

definition prefix_byte :: "nat \<Rightarrow> 16 word" where
  "prefix_byte k = mask 8 AND NOT (mask (8 - k))"

definition prefix_bytes :: "nat \<Rightarrow> 16 word list" where
  "prefix_bytes n = map (\<lambda>i. prefix_byte (n - 8 * i)) [0..<16]"

lemma bit_prefix_byte: "bit (prefix_byte k) j \<longleftrightarrow> j < 8 \<and> 8 - k \<le> j"
  by (auto simp: prefix_byte_def bit_simps)

lemma prefix_byte_Suc: "k < 8 \<Longrightarrow> prefix_byte k OR push_bit (7 - k) 1 = prefix_byte (Suc k)"
  by (rule bit_word_eqI) (auto simp: bit_or_iff bit_prefix_byte bit_exp_iff possible_bit_word)

lemma prefix_byte_full: "8 \<le> k \<Longrightarrow> prefix_byte k = prefix_byte 8"
  by (simp add: prefix_byte_def)

lemma prefix_bytes_Suc:
  assumes "b < 128"
  shows "(prefix_bytes b)[b div 8 := prefix_bytes b ! (b div 8) OR push_bit (7 - b mod 8) 1] = prefix_bytes (Suc b)"
proof (rule nth_equalityI)
  fix i assume "i < length ((prefix_bytes b)[b div 8 := prefix_bytes b ! (b div 8) OR push_bit (7 - b mod 8) 1])"
  then have i: "i < 16" by (simp add: prefix_bytes_def)
  consider "i = b div 8" | "i < b div 8" | "b div 8 < i" by linarith
  then show "(prefix_bytes b)[b div 8 := prefix_bytes b ! (b div 8) OR push_bit (7 - b mod 8) 1] ! i = prefix_bytes (Suc b) ! i"
  proof cases
    case 1
    have "b - 8 * (b div 8) = b mod 8" "Suc b - 8 * (b div 8) = Suc (b mod 8)"
      by (simp_all add: minus_mult_div_eq_mod Suc_diff_le)
    then show ?thesis using 1 i prefix_byte_Suc[of "b mod 8"] by (simp add: prefix_bytes_def)
  next
    case 2
    then have "8 * i + 8 \<le> b" by linarith
    then have "8 \<le> b - 8 * i" "8 \<le> Suc b - 8 * i" by linarith+
    then show ?thesis using 2 i prefix_byte_full[of "b - 8 * i"] prefix_byte_full[of "Suc b - 8 * i"]
      by (simp add: prefix_bytes_def)
  next
    case 3
    then have "b < 8 * i" by linarith
    then have "b - 8 * i = 0" "Suc b - 8 * i = 0" by linarith+
    then show ?thesis using 3 i by (simp add: prefix_bytes_def)
  qed
qed (simp add: prefix_bytes_def)

lemma length_prefix_bytes [simp]: "length (prefix_bytes n) = 16"
  by (simp add: prefix_bytes_def)

lemma subnet_loop_done: "bits \<le> b \<Longrightarrow> subnet_loop bits b subnet pos = Some subnet"
  by (subst subnet_loop.simps) simp

lemma subnet_loop_step:
  "b < bits \<Longrightarrow> pos < length subnet \<Longrightarrow>
   subnet_loop bits b subnet pos =
     subnet_loop bits (b + 1) (subnet[pos := subnet ! pos OR push_bit (7 - b mod 8) 1]) (if b mod 8 = 7 then pos + 1 else pos)"
  by (subst subnet_loop.simps) simp

lemma subnet_loop_overrun: "b < bits \<Longrightarrow> length subnet \<le> pos \<Longrightarrow> subnet_loop bits b subnet pos = None"
  by (subst subnet_loop.simps) simp

lemma subnet_loop_from:
  "b \<le> bits \<Longrightarrow> b \<le> 128 \<Longrightarrow>
   subnet_loop bits b (prefix_bytes b) (b div 8) = (if bits \<le> 128 then Some (prefix_bytes bits) else None)"
proof (induction "bits - b" arbitrary: b)
  case 0
  then show ?case by (simp add: subnet_loop_done)
next
  case (Suc d)
  show ?case
  proof (cases "b < 128")
    case True
    have "subnet_loop bits b (prefix_bytes b) (b div 8)
        = subnet_loop bits (b + 1) (prefix_bytes (Suc b)) (if b mod 8 = 7 then b div 8 + 1 else b div 8)"
      using subnet_loop_step[of b bits "b div 8" "prefix_bytes b", unfolded prefix_bytes_Suc[OF True]] True Suc.hyps(2)
      by simp
    also have "(if b mod 8 = 7 then b div 8 + 1 else b div 8) = (b + 1) div 8" by presburger
    finally show ?thesis using Suc.hyps(1)[of "b + 1"] Suc.hyps(2) Suc.prems True by simp
  next
    case False
    then have "b = 128" using Suc.prems by simp
    then show ?thesis using Suc.hyps(2) by (simp add: subnet_loop_overrun)
  qed
qed

lemma prefix_bytes_0: "prefix_bytes 0 = replicate 16 0"
  by (rule nth_equalityI) (auto simp: prefix_bytes_def prefix_byte_def intro!: bit_word_eqI)

lemma subnet_loop_prefix:
  "subnet_loop bits 0 (replicate 16 0) 0 = (if bits \<le> 128 then Some (prefix_bytes bits) else None)"
  using subnet_loop_from[of 0 bits] by (simp add: prefix_bytes_0)

text \<open>A number in decimal digits is read as such also with base 0: it has no leading zero.\<close>

lemma hd_show_dec: "0 < n \<Longrightarrow> hd (show_dec n) \<noteq> CHR ''0''"
  unfolding show_dec_def
proof (induction n rule: less_induct)
  case (less n)
  show ?case
  proof (cases "n < 10")
    case True
    then have "digit_val (digit_char n) \<noteq> digit_val CHR ''0''"
      using less.prems by (simp add: digit_val_digit_char) (simp add: digit_val_def)
    then have "digit_char n \<noteq> CHR ''0''" by metis
    with True show ?thesis by (subst show_base.simps) simp
  next
    case False
    then have "hd (show_base 10 (n div 10)) \<noteq> CHR ''0''" using less.IH[of "n div 10"] by simp
    with False show ?thesis by (subst show_base.simps) (simp add: show_base_nonempty)
  qed
qed

lemma scan_number_dec0: "scan_number 0 (show_dec n) = Some (False, n, [])"
proof (cases "n = 0")
  case True
  have "show_dec 0 = ''0''" by (subst show_dec_def, subst show_base.simps) (simp add: digit_char_def char_of_def bit_0)
  with True show ?thesis
    by (simp add: scan_number_def strip_base_def starts_digit_def digit_val_def is_space_def)
next
  case False
  obtain c cs where s: "show_dec n = c # cs"
    unfolding show_dec_def using show_base_nonempty by (cases "show_base 10 n") auto
  then obtain d where d: "d < 10" "digit_val c = Some d" using show_dec_digits [of c n] by auto
  note c = digit_not_special [OF d(2)]
  have "c \<noteq> CHR ''0''" using hd_show_dec[of n] False s by simp
  then have "strip_base 0 (c # cs) = (10, c # cs)" "strip_base 10 (c # cs) = (10, c # cs)" by (auto simp: strip_base_def)
  then show ?thesis using scan_number_dec[of n] c by (simp add: scan_number_def s Let_def)
qed

lemma subnet_bits_show_dec: "n < 2 ^ 32 \<Longrightarrow> subnet_bits (show_dec n) = n"
  by (simp add: subnet_bits_def strtoull_def scan_number_dec0 unat_of_nat take_bit_nat_eq_self)

lemma find_sub_dots: "find_sub ''..'' (p @ ''.'') = None \<Longrightarrow> find_sub ''..'' (p @ ''..'' @ q) = Some (length p)"
proof (induction p)
  case (Cons c p)
  then show ?case by (cases p) (auto split: if_splits)
qed simp

lemma find_sub_dots_prefix: "find_sub ''..'' (p @ ''.'') = None \<Longrightarrow> find_sub ''..'' p = None"
proof (induction p)
  case (Cons c p)
  then show ?case by (cases p) (auto split: if_splits)
qed simp

text \<open>The texts of an address: hexadecimal digits, dots and colons.\<close>

definition address_text :: "string \<Rightarrow> bool" where
  "address_text s \<longleftrightarrow> set s \<subseteq> set ''0123456789abcdef.:'' \<and> (CHR ''.'' \<in> set s \<or> CHR '':'' \<in> set s)
     \<and> find_sub ''..'' (s @ ''.'') = None"

datatype suffix = Whole | Subnet nat | Up_to string

fun suffix_text :: "suffix \<Rightarrow> string" where
  "suffix_text Whole = []"
| "suffix_text (Subnet n) = ''/'' @ show_dec n"
| "suffix_text (Up_to b) = ''..'' @ b"

fun suffix_ok :: "suffix \<Rightarrow> bool" where
  "suffix_ok Whole = True"
| "suffix_ok (Subnet n) = (n \<le> 128)"
| "suffix_ok (Up_to b) = address_text b"

definition directions :: "bool \<Rightarrow> bool \<Rightarrow> string set" where
  "directions src dst =
     (if src \<and> dst then {[], ''src dst '', ''dst src ''} else if src then {''src ''} else if dst then {''dst ''} else {})"

definition not_blank :: "char \<Rightarrow> bool" where
  "not_blank c \<longleftrightarrow> c \<noteq> CHR '' '' \<and> c \<noteq> CHR 0x09"

text \<open>The lines that say: filter this address in these directions.\<close>

definition says :: "string \<Rightarrow> bool \<Rightarrow> bool \<Rightarrow> string \<Rightarrow> suffix \<Rightarrow> bool" where
  "says line src dst addr sfx \<longleftrightarrow>
     (\<exists>w \<in> directions src dst. \<exists>r. map tolower line = w @ r \<and> filter not_blank r = addr @ suffix_text sfx)"

definition version_of :: "string \<Rightarrow> IPVersion" where
  "version_of addr = (if CHR ''.'' \<in> set addr then IPv4 else IPv6)"

definition meant :: "bool \<Rightarrow> bool \<Rightarrow> string \<Rightarrow> suffix \<Rightarrow> IPAddress" where
  "meant src dst addr sfx =
     \<lparr>m_src = src, m_dst = dst, m_addr = addr, m_ver = version_of addr, m_ntplId = 0,
      m_netMask = (case sfx of
          Subnet n \<Rightarrow> (if version_of addr = IPv4 then mask4 (prefix_bytes n) else mask6 (prefix_bytes n))
        | _ \<Rightarrow> []),
      m_rangeAddr = (case sfx of Up_to b \<Rightarrow> b | _ \<Rightarrow> [])\<rparr>"

lemma show_dec_chars: "set (show_dec n) \<subseteq> set ''0123456789''"
proof -
  have "set (show_base 10 n) \<subseteq> digit_char ` {..<10}"
  proof (induction n rule: less_induct)
    case (less n)
    then show ?case by (cases "n < 10"; subst show_base.simps) auto
  qed
  also have "{..<10} = {0, 1, 2, 3, 4, 5, 6, 7, 8, 9 :: nat}" by auto
  finally show ?thesis by (simp add: show_dec_def digit_char_def char_of_def bit_0)
qed

lemma suffix_chars: "suffix_ok sfx \<Longrightarrow> set (suffix_text sfx) \<subseteq> set ''0123456789abcdef.:/''"
proof (cases sfx)
  case (Subnet n)
  have "set (show_dec n) \<subseteq> set ''0123456789abcdef.:/''" using show_dec_chars by (rule order_trans) simp
  with Subnet show ?thesis by simp
next
  case (Up_to b)
  moreover assume "suffix_ok sfx"
  ultimately have "set b \<subseteq> set ''0123456789abcdef.:''" by (simp add: address_text_def)
  also have "\<dots> \<subseteq> set ''0123456789abcdef.:/''" by simp
  finally show ?thesis using Up_to by simp
qed simp

lemma directions_flags:
  assumes "w \<in> directions src dst" "CHR ''s'' \<notin> set r"
  shows "case take_flag ''src'' (w @ r) of (f, s) \<Rightarrow> case take_flag ''dst'' s of (g, t) \<Rightarrow>
    t = r \<and> (f \<or> \<not> f \<and> \<not> g) = src \<and> (g \<or> \<not> f \<and> \<not> g) = dst"
proof -
  have none: "find_sub ''src'' r = None" "find_sub ''dst'' r = None"
    using assms(2) find_sub_absent[of "CHR ''s''"] by auto
  show ?thesis using assms(1) none
    by (auto simp: directions_def take_flag_def str_erase_def eval_nat_numeral split: if_splits)
qed

lemma not_blank_filter: "filter (\<lambda>x. x \<noteq> CHR 0x09) (filter (\<lambda>x. x \<noteq> CHR '' '') r) = filter not_blank r"
  by (simp add: not_blank_def[abs_def])

lemma address_text_version: "address_text addr \<Longrightarrow> address_version addr v = version_of addr"
  by (auto simp: address_text_def address_version_def version_of_def find_sub_char)

lemma parse_range_meant:
  "address_text addr \<Longrightarrow> parse_range (addr @ CHR ''.'' # CHR ''.'' # b) a = (addr, a\<lparr>m_rangeAddr := b\<rparr>)"
  "address_text addr \<Longrightarrow> parse_range addr a = (addr, a)"
  using find_sub_dots[of addr b] find_sub_dots_prefix[of addr] by (auto simp: address_text_def parse_range_def)

lemma verifyAddr_address:
  "address_text addr \<Longrightarrow> verifyAddr addr a = (True, a\<lparr>m_ver := version_of addr\<rparr>)"
  by (auto simp: verifyAddr_def address_text_version) (auto simp: address_text_def)

lemma parse_mask_meant:
  assumes "address_text addr" "n \<le> 128" "m_ver a = version_of addr"
  shows "parse_mask (addr @ CHR ''/'' # show_dec n) a
    = Some (addr, a\<lparr>m_netMask := (if version_of addr = IPv4 then mask4 (prefix_bytes n) else mask6 (prefix_bytes n))\<rparr>)"
proof -
  have "CHR ''/'' \<notin> set addr" using assms(1) by (auto simp: address_text_def)
  then have "find_sub ''/'' (addr @ CHR ''/'' # show_dec n) = Some (length addr)" by (rule find_sub_single)
  then show ?thesis using assms(2,3)
    by (simp add: parse_mask_def subnet_bits_show_dec subnet_loop_prefix version_of_def)
qed

lemma parse_mask_none: "CHR ''/'' \<notin> set s \<Longrightarrow> parse_mask s a = Some (s, a)"
  by (simp add: parse_mask_def find_sub_char)

text \<open>The steps of \<^const>\<open>parse\<close> once the directions are taken out.\<close>

definition parse_rest :: "bool \<Rightarrow> bool \<Rightarrow> string \<Rightarrow> (bool \<times> IPAddress) option" where
  "parse_rest src dst t =
     map_option (\<lambda>(s, a). let (s, a) = parse_range s a in verifyAddr s (a\<lparr>m_addr := s\<rparr>))
       (parse_mask t (IPAddress_new\<lparr>m_src := src, m_dst := dst, m_ver := address_version t UNKNOWN\<rparr>))"

lemma parse_new:
  assumes "w \<in> directions src dst" "CHR ''s'' \<notin> set r" "map tolower line = w @ r"
  shows "parse line IPAddress_new = parse_rest src dst (filter not_blank r)"
proof -
  obtain f s g t where "take_flag ''src'' (w @ r) = (f, s)" "take_flag ''dst'' s = (g, t)" by (meson surj_pair)
  moreover then have "t = r" "(f \<or> \<not> f \<and> \<not> g) = src" "(g \<or> \<not> f \<and> \<not> g) = dst"
    using directions_flags[OF assms(1,2)] by simp_all
  ultimately show ?thesis
    by (simp add: parse_def parse_rest_def assms(3) erase_all_filter not_blank_filter IPAddress_new_def Let_def
      del: filter_filter)
qed

lemma parse_rest_meant:
  assumes "address_text addr" "suffix_ok sfx"
  shows "parse_rest src dst (addr @ suffix_text sfx) = Some (True, meant src dst addr sfx)"
proof -
  have slash: "CHR ''/'' \<notin> set addr" using assms(1) by (auto simp: address_text_def)
  show ?thesis
  proof (cases sfx)
    case Whole
    then show ?thesis using assms(1) slash
      by (simp add: parse_rest_def parse_mask_none parse_range_meant verifyAddr_address meant_def IPAddress_new_def)
  next
    case (Subnet n)
    have "CHR ''.'' \<notin> set (show_dec n)" using show_dec_chars[of n] by auto
    then have "address_version (addr @ ''/'' @ show_dec n) UNKNOWN = version_of addr"
      using assms(1) by (auto simp: address_text_def address_version_def version_of_def find_sub_char)
    then show ?thesis using assms Subnet
      by (simp add: parse_rest_def parse_mask_meant parse_range_meant verifyAddr_address meant_def IPAddress_new_def)
  next
    case (Up_to b)
    then have "CHR ''/'' \<notin> set (addr @ ''..'' @ b)" using slash assms(2) by (auto simp: address_text_def)
    then show ?thesis using assms(1) Up_to
      by (simp add: parse_rest_def parse_mask_none parse_range_meant verifyAddr_address meant_def IPAddress_new_def)
  qed
qed

lemma parse_says:
  assumes "says line src dst addr sfx" "address_text addr" "suffix_ok sfx"
  shows "parse line IPAddress_new = Some (True, meant src dst addr sfx)"
proof -
  obtain w r where w: "w \<in> directions src dst" "map tolower line = w @ r" "filter not_blank r = addr @ suffix_text sfx"
    using assms(1) by (auto simp: says_def)
  have "CHR ''s'' \<notin> set (filter not_blank r)"
    using suffix_chars[OF assms(3)] assms(2) by (auto simp: w(3) address_text_def)
  then have "CHR ''s'' \<notin> set r" by (simp add: not_blank_def)
  then show ?thesis using parse_new[OF w(1) _ w(2)] parse_rest_meant[OF assms(2,3)] by (simp add: w(3))
qed

text \<open>What the comparison looks at.  The last two digits of a mask are none of the marks for the
  directions, so that the parts of a key can be told apart.\<close>

lemma show_hex_two:
  "n < 16 \<Longrightarrow> show_hex n = [digit_char n]"
  "16 \<le> n \<Longrightarrow> n < 256 \<Longrightarrow> show_hex n = [digit_char (n div 16), digit_char (n mod 16)]"
  unfolding show_hex_def by (subst show_base.simps, simp, subst show_base.simps, subst show_base.simps, auto)

lemma hex2_digits:
  "hex2 w = map (lower_hex \<circ> digit_char) [unat (w AND 0xff) div 16, unat (w AND 0xff) mod 16]"
proof -
  have "w AND 0xff \<le> 0xff" by (rule word_and_le1)
  then have "unat (w AND 0xff) < 256" by (simp add: word_le_nat_alt)
  moreover have "digit_char 0 = CHR ''0''" by (simp add: digit_char_def char_of_def bit_0)
  moreover have "lower_hex CHR ''0'' = CHR ''0''" by (simp add: lower_hex_def)
  ultimately show ?thesis
    using show_hex_two[of "unat (w AND 0xff)"]
    by (cases "unat (w AND 0xff) < 16") (simp_all add: hex2_def pad_left_def)
qed

lemma length_hex2 [simp]: "length (hex2 w) = 2"
  by (simp add: hex2_digits)

lemma prefix_byte_cases: "prefix_byte k \<in> {0, 0x80, 0xc0, 0xe0, 0xf0, 0xf8, 0xfc, 0xfe, 0xff}"
proof (cases "k < 8")
  case True
  then consider "k = 0" | "k = 1" | "k = 2" | "k = 3" | "k = 4" | "k = 5" | "k = 6" | "k = 7" by linarith
  then show ?thesis by cases (simp_all add: prefix_byte_def mask_numeral)
next
  case False
  then show ?thesis by (simp add: prefix_byte_full prefix_byte_def mask_numeral)
qed

definition mask_texts :: "string set" where
  "mask_texts = {[]} \<union> range (\<lambda>n. mask4 (prefix_bytes n)) \<union> range (\<lambda>n. mask6 (prefix_bytes n))"

lemma hex2_values:
  "hex2 0 = ''00''" "hex2 0x80 = ''80''" "hex2 0xc0 = ''c0''" "hex2 0xe0 = ''e0''" "hex2 0xf0 = ''f0''"
  "hex2 0xf8 = ''f8''" "hex2 0xfc = ''fc''" "hex2 0xfe = ''fe''" "hex2 0xff = ''ff''"
  by (simp_all add: hex2_digits lower_hex_def digit_char_def char_of_def bit_0)

lemma hex2_prefix_byte: "hex2 (prefix_byte k) \<in> {''00'', ''80'', ''c0'', ''e0'', ''f0'', ''f8'', ''fc'', ''fe'', ''ff''}"
proof -
  have "hex2 (prefix_byte k) \<in> hex2 ` {0, 0x80, 0xc0, 0xe0, 0xf0, 0xf8, 0xfc, 0xfe, 0xff}"
    using prefix_byte_cases by (rule imageI)
  then show ?thesis by (simp only: image_insert image_empty hex2_values)
qed

lemma nth_prefix_bytes: "i < 16 \<Longrightarrow> prefix_bytes n ! i = prefix_byte (n - 8 * i)"
  by (simp add: prefix_bytes_def)

lemma mask4_tail: "length (mask4 b) = 11" "\<exists>p k. mask4 (prefix_bytes n) = p @ ''.'' @ hex2 (prefix_byte k)"
proof -
  let ?b = "prefix_bytes n"
  have "mask4 ?b = (hex2 (?b ! 0) @ ''.'' @ hex2 (?b ! 1) @ ''.'' @ hex2 (?b ! 2)) @ ''.'' @ hex2 (prefix_byte (n - 24))"
    using nth_prefix_bytes[of 3 n] by (simp add: mask4_def)
  then show "\<exists>p k. mask4 ?b = p @ ''.'' @ hex2 (prefix_byte k)" by blast
qed (simp add: mask4_def)

lemma mask6_tail:
  "length (mask6 b) = 39" "\<exists>p k k'. mask6 (prefix_bytes n) = p @ hex2 (prefix_byte k) @ hex2 (prefix_byte k')"
proof -
  let ?b = "prefix_bytes n"
  have "mask6 ?b =
      (hex2 (?b ! 0) @ hex2 (?b ! 1) @ '':'' @ hex2 (?b ! 2) @ hex2 (?b ! 3) @ '':'' @ hex2 (?b ! 4) @ hex2 (?b ! 5) @ '':''
       @ hex2 (?b ! 6) @ hex2 (?b ! 7) @ '':'' @ hex2 (?b ! 8) @ hex2 (?b ! 9) @ '':'' @ hex2 (?b ! 10) @ hex2 (?b ! 11)
       @ '':'' @ hex2 (?b ! 12) @ hex2 (?b ! 13) @ '':'') @ hex2 (prefix_byte (n - 112)) @ hex2 (prefix_byte (n - 120))"
    using nth_prefix_bytes[of 14 n] nth_prefix_bytes[of 15 n] by (simp add: mask6_def)
  then show "\<exists>p k k'. mask6 ?b = p @ hex2 (prefix_byte k) @ hex2 (prefix_byte k')" by blast
qed (simp add: mask6_def)

lemma hex2_second: "\<exists>u v. hex2 (prefix_byte k) = [u, v] \<and> v \<noteq> CHR ''.''"
  using hex2_prefix_byte[of k] by auto

lemma direction_bits_hex2: "m_src a \<or> m_dst a \<Longrightarrow> direction_bits a \<noteq> hex2 (prefix_byte k)"
  using hex2_prefix_byte[of k] by (auto simp: direction_bits_def)

lemma length_direction_bits [simp]: "length (direction_bits a) = 2"
  by (simp add: direction_bits_def)

lemma no_mask_key:
  assumes "x @ direction_bits a = y @ e @ m" "m \<in> mask_texts" "m_src a \<or> m_dst a"
  shows "m = []"
proof (rule ccontr)
  assume "m \<noteq> []"
  then obtain p k where "m = p @ hex2 (prefix_byte k)"
    using assms(2) mask4_tail(2) mask6_tail(2) unfolding mask_texts_def
    by (auto; metis append.assoc)
  then have "x @ direction_bits a = (y @ e @ p) @ hex2 (prefix_byte k)" using assms(1) by simp
  then have "direction_bits a = hex2 (prefix_byte k)" by (subst (asm) append_eq_append_conv) auto
  then show False using direction_bits_hex2 assms(3) by blast
qed

lemma mask4_not_mask6: "x @ mask4 (prefix_bytes n) \<noteq> y @ mask6 (prefix_bytes n')"
proof
  assume eq: "x @ mask4 (prefix_bytes n) = y @ mask6 (prefix_bytes n')"
  obtain p k where 4: "mask4 (prefix_bytes n) = p @ ''.'' @ hex2 (prefix_byte k)" using mask4_tail(2) by blast
  obtain q j j' where 6: "mask6 (prefix_bytes n') = q @ hex2 (prefix_byte j) @ hex2 (prefix_byte j')"
    using mask6_tail(2) by blast
  obtain u v where uv: "hex2 (prefix_byte j) = [u, v]" "v \<noteq> CHR ''.''" using hex2_second by blast
  have "(x @ p) @ (''.'' @ hex2 (prefix_byte k)) = (y @ q @ [u]) @ ([v] @ hex2 (prefix_byte j'))"
    using eq 4 6 uv(1) by simp
  then have "''.'' @ hex2 (prefix_byte k) = [v] @ hex2 (prefix_byte j')"
    by (subst (asm) append_eq_append_conv) auto
  then show False using uv(2) by simp
qed

lemma ip_key_eq_iff:
  assumes "m_netMask a \<in> mask_texts" "m_netMask b \<in> mask_texts" "m_src a \<or> m_dst a" "m_src b \<or> m_dst b"
  shows "ip_key a = ip_key b \<longleftrightarrow>
    m_addr a = m_addr b \<and> m_src a = m_src b \<and> m_dst a = m_dst b \<and> m_netMask a = m_netMask b"
proof
  assume eq: "ip_key a = ip_key b"
  have len: "length (m_netMask a) = length (m_netMask b)"
  proof -
    consider "m_netMask a = []" | "m_netMask b = []"
      | n n' where "m_netMask a = mask4 (prefix_bytes n)" "m_netMask b = mask4 (prefix_bytes n')"
      | n n' where "m_netMask a = mask6 (prefix_bytes n)" "m_netMask b = mask6 (prefix_bytes n')"
      | n n' where "m_netMask a = mask4 (prefix_bytes n)" "m_netMask b = mask6 (prefix_bytes n')"
      | n n' where "m_netMask b = mask4 (prefix_bytes n)" "m_netMask a = mask6 (prefix_bytes n')"
      using assms(1,2) unfolding mask_texts_def by blast
    then show ?thesis
    proof cases
      case 1
      then show ?thesis using eq assms no_mask_key[of "m_addr a" a "m_addr b" "direction_bits b" "m_netMask b"]
        by (simp add: ip_key_def)
    next
      case 2
      then show ?thesis using eq[symmetric] assms no_mask_key[of "m_addr b" b "m_addr a" "direction_bits a" "m_netMask a"]
        by (simp add: ip_key_def)
    next
      case (5 n n')
      then show ?thesis
        using eq mask4_not_mask6[of "m_addr a @ direction_bits a" n "m_addr b @ direction_bits b" n'] by (simp add: ip_key_def)
    next
      case (6 n n')
      then show ?thesis
        using eq[symmetric] mask4_not_mask6[of "m_addr b @ direction_bits b" n "m_addr a @ direction_bits a" n']
        by (simp add: ip_key_def)
    qed (simp_all add: mask4_tail(1) mask6_tail(1))
  qed
  then have "m_addr a = m_addr b \<and> direction_bits a = direction_bits b \<and> m_netMask a = m_netMask b"
    using eq unfolding ip_key_def by (subst (asm) append_eq_append_conv) (auto simp: append_eq_append_conv)
  then show "m_addr a = m_addr b \<and> m_src a = m_src b \<and> m_dst a = m_dst b \<and> m_netMask a = m_netMask b"
    by (auto simp: direction_bits_def split: if_splits)
qed (simp add: ip_key_def direction_bits_def)

text \<open>Every address that is read has a direction, one of the masks, and no identifier yet.\<close>

definition read_ok :: "IPAddress \<Rightarrow> bool" where
  "read_ok a \<longleftrightarrow> m_netMask a \<in> mask_texts \<and> (m_src a \<or> m_dst a)"

lemma parse_mask_ok: "parse_mask s a = Some (s', a') \<Longrightarrow> read_ok a \<Longrightarrow> read_ok a'"
  by (auto simp: parse_mask_def subnet_loop_prefix read_ok_def mask_texts_def split: option.splits if_splits IPVersion.splits)

lemma parse_read_ok: "parse line IPAddress_new = Some (ok, a) \<Longrightarrow> read_ok a"
proof -
  assume p: "parse line IPAddress_new = Some (ok, a)"
  obtain f s g t where fg: "take_flag ''src'' (map tolower line) = (f, s)" "take_flag ''dst'' s = (g, t)"
    by (meson surj_pair)
  obtain u b where m: "parse_mask (erase_all CHR 0x09 (erase_all CHR '' '' t))
      (IPAddress_new\<lparr>m_src := f \<or> \<not> f \<and> \<not> g, m_dst := g \<or> \<not> f \<and> \<not> g,
         m_ver := address_version (erase_all CHR 0x09 (erase_all CHR '' '' t)) UNKNOWN\<rparr>) = Some (u, b)"
    "(let (s, a) = parse_range u b in verifyAddr s (a\<lparr>m_addr := s\<rparr>)) = (ok, a)"
    using p fg by (auto simp: parse_def Let_def IPAddress_new_def)
  have "read_ok b" by (rule parse_mask_ok[OF m(1)]) (auto simp: read_ok_def mask_texts_def IPAddress_new_def)
  then show ?thesis using m(2)
    by (auto simp: parse_range_def verifyAddr_def read_ok_def Let_def split: option.splits)
qed

lemma add_command_meant: "src \<or> dst \<Longrightarrow> add_command (meant src dst addr sfx) \<noteq> None"
  by (auto simp: add_command_def meant_def version_of_def split: IPVersion.splits)

lemma says_direction: "says line src dst addr sfx \<Longrightarrow> src \<or> dst"
  by (auto simp: says_def directions_def split: if_splits)

end
