(* ===== verification/Filter_Daemon_Props.thy ===== *)
theory Filter_Daemon_Props
  imports Filter_Daemon Filter_Address_Props
begin

text \<open>
  The filters that the adapter holds, as the commands sent to it say, and their agreement with the
  addresses of the handler and of the file.  The locale \<open>compares_by\<close> of the container is interpreted on
  the comparison of \<open>IPAddress\<close>.
\<close>

interpretation ips: compares_by ip_less ip_key
  by unfold_locales (simp add: ip_less_def)

text \<open>The filters held: identifier and text of what was created and not deleted since.\<close>

definition live_step :: "(nat \<times> string) list \<Rightarrow> ntpl_cmd \<times> nat \<Rightarrow> (nat \<times> string) list" where
  "live_step L e =
     (case e of (Ntpl_create s, r) \<Rightarrow> (if r = 0 then L else L @ [(r, s)])
              | (Ntpl_delete f i, r) \<Rightarrow> filter (\<lambda>x. fst x \<noteq> i) L)"

definition live :: "ntpl_log \<Rightarrow> (nat \<times> string) list" where
  "live log = foldl live_step [] log"

text \<open>What is assumed of an adapter: a new filter gets an identifier that is not in use, and (where that is
  said) no command that creates is refused.\<close>

definition fresh_ids :: "ntpl_api \<Rightarrow> bool" where
  "fresh_ids api \<longleftrightarrow> (\<forall>log s. api log (Ntpl_create s) \<notin> fst ` set (live log))"

definition accepts :: "ntpl_api \<Rightarrow> bool" where
  "accepts api \<longleftrightarrow> (\<forall>log s. api log (Ntpl_create s) \<noteq> 0)"

lemma live_simps [simp]:
  "live [] = []"
  "live (log @ [(Ntpl_create s, r)]) = (if r = 0 then live log else live log @ [(r, s)])"
  "live (log @ [(Ntpl_delete f i, r)]) = filter (\<lambda>x. fst x \<noteq> i) (live log)"
  by (simp_all add: live_def live_step_def)

lemma NTPL_simp [simp]: "NTPL api log c = (api log c, log @ [(c, api log c)])"
  by (simp add: NTPL_def Let_def)

text \<open>Removing.\<close>

lemma remove_all_simps [simp]:
  "remove_all api log [] = log"
  "remove_all api log (a # as) = remove_all api (removeNTPL api log a) as"
  by (simp_all add: remove_all_def)

lemma remove_all_live:
  "(\<forall>a \<in> set as. m_ntplId a \<noteq> 0) \<Longrightarrow>
   live (remove_all api log as) = filter (\<lambda>x. fst x \<notin> m_ntplId ` set as) (live log)"
  by (induction as arbitrary: log) (auto simp: removeNTPL_def intro: filter_cong)

lemma remove_all_sent:
  "(\<forall>a \<in> set as. m_ntplId a \<noteq> 0) \<Longrightarrow>
   map fst (remove_all api log as) = map fst log @ map (\<lambda>a. Ntpl_delete ''delete = '' (m_ntplId a)) as"
  by (induction as arbitrary: log) (auto simp: removeNTPL_def)

text \<open>Adding.  An address changes nothing but its identifier.\<close>

definition no_id :: "IPAddress \<Rightarrow> IPAddress" where
  "no_id a = a\<lparr>m_ntplId := 0\<rparr>"

lemma no_id_key: "no_id a = no_id b \<Longrightarrow> ip_key a = ip_key b"
  by (cases a; cases b) (simp add: no_id_def ip_key_def direction_bits_def)

lemma no_id_command: "no_id a = no_id b \<Longrightarrow> add_command a = add_command b"
  by (cases a; cases b) (simp add: no_id_def add_command_def ntplAddr_def cong: IPVersion.case_cong)

lemma no_id_read_ok: "no_id a = no_id b \<Longrightarrow> read_ok a = read_ok b"
  by (cases a; cases b) (simp add: no_id_def read_ok_def)

definition filter_of :: "IPAddress \<Rightarrow> nat \<times> string" where
  "filter_of a = (m_ntplId a, the (add_command a))"

lemma addNTPL_added:
  assumes "read_ok a" "addNTPL api log a = (True, a', log')"
  shows "\<exists>c. add_command a = Some c \<and> a' = a\<lparr>m_ntplId := api log (Ntpl_create c)\<rparr> \<and> api log (Ntpl_create c) \<noteq> 0
    \<and> log' = log @ [(Ntpl_create c, api log (Ntpl_create c))]"
proof (cases "add_command a")
  case None
  with assms(1) have "m_ver a = UNKNOWN" by (auto simp: add_command_def read_ok_def split: IPVersion.splits if_splits)
  with None assms(2) show ?thesis by (simp add: addNTPL_def)
next
  case (Some c)
  with assms(2) show ?thesis by (auto simp: addNTPL_def Let_def)
qed

lemma add_all_added:
  assumes "add_all api log as = Some (as', log')" "\<forall>a \<in> set as. read_ok a" "fresh_ids api"
  shows "map no_id as' = map no_id as" "live log' = live log @ map filter_of as'"
    "\<forall>a \<in> set as'. m_ntplId a \<noteq> 0 \<and> add_command a \<noteq> None" "distinct (map m_ntplId as')"
    "m_ntplId ` set as' \<inter> fst ` set (live log) = {}"
    "map fst log' = map fst log @ map (\<lambda>a. Ntpl_create (the (add_command a))) as"
proof -
  have "map no_id as' = map no_id as \<and> live log' = live log @ map filter_of as'
    \<and> (\<forall>a \<in> set as'. m_ntplId a \<noteq> 0 \<and> add_command a \<noteq> None) \<and> distinct (map m_ntplId as')
    \<and> m_ntplId ` set as' \<inter> fst ` set (live log) = {}
    \<and> map fst log' = map fst log @ map (\<lambda>a. Ntpl_create (the (add_command a))) as"
    using assms(1,2)
  proof (induction as arbitrary: log as' log')
    case (Cons a as)
    obtain b log1 where b: "addNTPL api log a = (True, b, log1)"
      using Cons.prems(1) by (cases "addNTPL api log a") (auto split: if_splits)
    obtain bs where bs: "add_all api log1 as = Some (bs, log')" "as' = b # bs"
      using Cons.prems(1) b by auto
    obtain c where c: "add_command a = Some c" "b = a\<lparr>m_ntplId := api log (Ntpl_create c)\<rparr>" "api log (Ntpl_create c) \<noteq> 0"
      "log1 = log @ [(Ntpl_create c, api log (Ntpl_create c))]"
      using addNTPL_added[OF _ b] Cons.prems(2) by auto
    have "no_id b = no_id a" by (simp add: c(2) no_id_def)
    then have "add_command b = Some c" using no_id_command[of b a] c(1) by simp
    moreover have "api log (Ntpl_create c) \<notin> fst ` set (live log)" using assms(3) by (simp add: fresh_ids_def)
    moreover note Cons.IH[OF bs(1)] Cons.prems(2)
    ultimately show ?case using c bs(2) \<open>no_id b = no_id a\<close> by (auto simp: filter_of_def)
  qed simp
  then show "map no_id as' = map no_id as" "live log' = live log @ map filter_of as'"
    "\<forall>a \<in> set as'. m_ntplId a \<noteq> 0 \<and> add_command a \<noteq> None" "distinct (map m_ntplId as')"
    "m_ntplId ` set as' \<inter> fst ` set (live log) = {}"
    "map fst log' = map fst log @ map (\<lambda>a. Ntpl_create (the (add_command a))) as"
    by simp_all
qed

lemma add_all_total:
  "accepts api \<Longrightarrow> \<forall>a \<in> set as. add_command a \<noteq> None \<Longrightarrow> \<exists>as' log'. add_all api log as = Some (as', log')"
proof (induction as arbitrary: log)
  case (Cons a as)
  then obtain c where c: "add_command a = Some c" by auto
  have "api log (Ntpl_create c) \<noteq> 0" using Cons.prems(1) by (simp add: accepts_def)
  with c Cons show ?case by (fastforce simp: addNTPL_def)
qed simp

text \<open>Reading a file: the addresses that its lines name, whatever their order.\<close>

definition names :: "string list \<Rightarrow> IPAddress \<Rightarrow> bool" where
  "names ls a \<longleftrightarrow> (\<exists>l \<in> set ls. strip_comment l \<noteq> [] \<and> parse (strip_comment l) IPAddress_new = Some (True, a))"

lemma names_simps [simp]:
  "names [] a = False" "Collect (names []) = {}"
  "names (l # ls) a \<longleftrightarrow>
     strip_comment l \<noteq> [] \<and> parse (strip_comment l) IPAddress_new = Some (True, a) \<or> names ls a"
  by (auto simp: names_def)

lemma names_read_ok: "names ls a \<Longrightarrow> read_ok a"
  by (auto simp: names_def dest: parse_read_ok)

lemma read_lines_spec:
  assumes "read_lines ls s = Some s'" "ips.ordered s"
  shows "ips.ordered s'" "set s' \<subseteq> set s \<union> {a. names ls a}" "ip_key ` set s' = ip_key ` (set s \<union> {a. names ls a})"
proof -
  have "ips.ordered s' \<and> set s' \<subseteq> set s \<union> {a. names ls a} \<and> ip_key ` set s' = ip_key ` (set s \<union> {a. names ls a})"
    using assms
  proof (induction ls arbitrary: s)
    case (Cons l ls)
    show ?case
    proof (cases "strip_comment l = []")
      case False
      then obtain ok a where p: "parse (strip_comment l) IPAddress_new = Some (ok, a)"
        "read_lines ls (if ok then set_insert ip_less a s else s) = Some s'"
        using Cons.prems(1) by (auto simp: Let_def split: option.splits)
      show ?thesis
      proof (cases ok)
        case True
        with p False Cons.IH[of "set_insert ip_less a s"] Cons.prems(2) ips.set_ordered_insert ips.insert_subset[of a s]
          ips.set_keys_insert[of a s]
        show ?thesis by (auto simp: image_Un)
      qed (use p Cons.IH[of s] Cons.prems(2) in auto)
    qed (use Cons in auto)
  qed simp
  then show "ips.ordered s'" "set s' \<subseteq> set s \<union> {a. names ls a}" "ip_key ` set s' = ip_key ` (set s \<union> {a. names ls a})"
    by simp_all
qed

lemma read_lines_empty:
  assumes "read_lines ls [] = Some s"
  shows "ips.ordered s" "\<forall>a \<in> set s. names ls a \<and> read_ok a" "ip_key ` set s = ip_key ` {a. names ls a}"
  using read_lines_spec[OF assms] names_read_ok by auto

text \<open>The agreement of adapter and handler; \<open>base\<close> are the filters of \<open>main\<close>.\<close>

definition agree :: "(nat \<times> string) set \<Rightarrow> file_handler \<Rightarrow> bool" where
  "agree base h \<longleftrightarrow> ips.ordered (fh_appliedAddrs h)
     \<and> (\<forall>a \<in> set (fh_appliedAddrs h). read_ok a \<and> m_ntplId a \<noteq> 0 \<and> add_command a \<noteq> None)
     \<and> inj_on m_ntplId (set (fh_appliedAddrs h))
     \<and> m_ntplId ` set (fh_appliedAddrs h) \<inter> fst ` base = {}
     \<and> set (live (fh_log h)) = base \<union> filter_of ` set (fh_appliedAddrs h)"

text \<open>What \<^const>\<open>process\<close> computes with sets of addresses, once the containers are understood.\<close>

lemma process_sets:
  assumes "ips.ordered applied" "ips.ordered read"
  shows "inserter ip_less (set_difference ip_less read applied) [] = filter (\<lambda>a. ip_key a \<notin> ip_key ` set applied) read"
    "inserter ip_less (set_difference ip_less applied read) [] = filter (\<lambda>a. ip_key a \<notin> ip_key ` set read) applied"
    "inserter ip_less (set_difference ip_less applied (filter (\<lambda>a. ip_key a \<notin> ip_key ` set read) applied)) []
       = filter (\<lambda>a. ip_key a \<in> ip_key ` set read) applied"
proof -
  have "set_difference ip_less applied (filter (\<lambda>a. ip_key a \<notin> ip_key ` set read) applied)
      = filter (\<lambda>a. ip_key a \<in> ip_key ` set read) applied"
    using assms by (subst ips.difference_filter) (auto intro!: filter_cong simp: sorted_wrt_filter)
  then show "inserter ip_less (set_difference ip_less applied (filter (\<lambda>a. ip_key a \<notin> ip_key ` set read) applied)) []
       = filter (\<lambda>a. ip_key a \<in> ip_key ` set read) applied"
    using assms by (simp add: ips.inserter_empty sorted_wrt_filter)
qed (use assms in \<open>simp_all add: ips.difference_filter ips.inserter_empty sorted_wrt_filter\<close>)

lemma process_steps:
  assumes "process api content h = Some h'" "ips.ordered (fh_appliedAddrs h)"
  obtains read added log where
    "read_lines (getlines [] content) [] = Some read"
    "add_all api (remove_all api (fh_log h) (filter (\<lambda>a. ip_key a \<notin> ip_key ` set read) (fh_appliedAddrs h)))
       (filter (\<lambda>a. ip_key a \<notin> ip_key ` set (fh_appliedAddrs h)) read) = Some (added, log)"
    "fh_appliedAddrs h' = (let keep = filter (\<lambda>a. ip_key a \<in> ip_key ` set read) (fh_appliedAddrs h)
       in inserter ip_less (set_union ip_less keep added) keep)" "fh_log h' = log" "fh_readAddrs h' = read"
    "fh_prevTime h' = fh_prevTime h"
proof -
  obtain read where r: "read_lines (getlines [] content) [] = Some read"
    using assms(1) by (auto simp: process_def readFile_def split: option.splits)
  have o: "ips.ordered read" using read_lines_empty(1)[OF r] .
  from assms r show ?thesis
    by (auto simp: process_def readFile_def Let_def process_sets[OF assms(2) o] intro!: that)
qed

lemma map_no_id_set: "map no_id as' = map no_id as \<Longrightarrow> a' \<in> set as' \<Longrightarrow> \<exists>a \<in> set as. no_id a = no_id a'"
  by (metis (no_types, lifting) image_iff image_set)

lemma map_no_id_keys: "map no_id as' = map no_id as \<Longrightarrow> map ip_key as' = map ip_key as"
  by (induction as' as rule: list_induct2') (auto dest: no_id_key)

lemma ordered_keys: "ips.ordered as \<longleftrightarrow> sorted_wrt (<) (map ip_key as)"
  by (simp add: sorted_wrt_map)

text \<open>The new set of applied addresses: those kept, with their filters, and those added.\<close>

lemma merged_addresses:
  assumes "ips.ordered keep" "ips.ordered added" "ip_key ` set keep \<inter> ip_key ` set added = {}"
  shows "ips.ordered (inserter ip_less (set_union ip_less keep added) keep)"
    "set (inserter ip_less (set_union ip_less keep added) keep) = set keep \<union> set added"
proof -
  have "inj_on ip_key (set keep \<union> set added)"
    using ips.ordered_distinct assms by (auto simp: inj_on_Un)
  then show "set (inserter ip_less (set_union ip_less keep added) keep) = set keep \<union> set added"
    using ips.union_elements[OF assms] by (subst ips.inserter_set) (auto simp: Un_assoc[symmetric])
qed (simp add: ips.ordered_inserter assms)

lemma image_kept: "f ` {x \<in> A. f x \<in> B} = f ` A \<inter> B"
  by blast

lemma Int_Un_Diff: "A \<inter> B \<union> (B - A) = B"
  by blast

lemma image_dropped: "f ` {x \<in> A. f x \<notin> B} = f ` A - B"
  by blast

lemma process_agrees:
  assumes "agree base h" "process api content h = Some h'" "fresh_ids api"
  shows "agree base h'"
    "ip_key ` set (fh_appliedAddrs h') = ip_key ` {a. names (getlines [] content) a}"
proof -
  let ?old = "fh_appliedAddrs h"
  have old: "ips.ordered ?old" "\<forall>a \<in> set ?old. read_ok a \<and> m_ntplId a \<noteq> 0 \<and> add_command a \<noteq> None"
    "inj_on m_ntplId (set ?old)" "m_ntplId ` set ?old \<inter> fst ` base = {}"
    "set (live (fh_log h)) = base \<union> filter_of ` set ?old"
    using assms(1) by (simp_all add: agree_def)
  obtain read added log where st: "read_lines (getlines [] content) [] = Some read"
    "add_all api (remove_all api (fh_log h) (filter (\<lambda>a. ip_key a \<notin> ip_key ` set read) ?old))
       (filter (\<lambda>a. ip_key a \<notin> ip_key ` set ?old) read) = Some (added, log)"
    "fh_appliedAddrs h' = (let keep = filter (\<lambda>a. ip_key a \<in> ip_key ` set read) ?old
       in inserter ip_less (set_union ip_less keep added) keep)" "fh_log h' = log"
    using process_steps[OF assms(2) old(1)] by metis
  define keep where "keep = filter (\<lambda>a. ip_key a \<in> ip_key ` set read) ?old"
  define gone where "gone = filter (\<lambda>a. ip_key a \<notin> ip_key ` set read) ?old"
  define new where "new = filter (\<lambda>a. ip_key a \<notin> ip_key ` set ?old) read"
  note read = read_lines_empty[OF st(1)]
  have kg: "set keep \<union> set gone = set ?old" "set keep \<inter> set gone = {}" by (auto simp: keep_def gone_def)
  have live1: "set (live (remove_all api (fh_log h) gone)) = base \<union> filter_of ` set keep"
  proof -
    have "m_ntplId ` set keep \<inter> m_ntplId ` set gone = {}"
      using old(3) kg by (metis inj_on_image_Int sup_ge1 sup_ge2 image_empty)
    moreover have "m_ntplId ` set gone \<inter> fst ` base = {}" using old(4) kg(1) by blast
    then have "{x \<in> base. fst x \<notin> m_ntplId ` set gone} = base" by blast
    ultimately have "{x \<in> base \<union> filter_of ` (set keep \<union> set gone). fst x \<notin> m_ntplId ` set gone} = base \<union> filter_of ` set keep"
      by (auto simp: filter_of_def)
    moreover have "\<forall>a \<in> set gone. m_ntplId a \<noteq> 0" using old(2) kg(1) by blast
    ultimately show ?thesis by (simp add: remove_all_live old(5) kg(1))
  qed
  have "\<forall>a \<in> set new. read_ok a" using read(2) by (simp add: new_def)
  note add = add_all_added[OF st(2)[folded gone_def new_def] this assms(3), unfolded live1]
  have keys: "map ip_key added = map ip_key new" using map_no_id_keys add(1) by blast
  have ord: "ips.ordered keep" "ips.ordered added"
    using old(1) read(1) by (simp_all add: keep_def sorted_wrt_filter ordered_keys[of added] keys new_def sorted_wrt_map)
  have keys': "ip_key ` set added = ip_key ` set new" using keys by (metis image_set)
  moreover have "ip_key ` set keep \<subseteq> ip_key ` set ?old" using kg(1) by blast
  moreover have "ip_key ` set new \<inter> ip_key ` set ?old = {}" by (simp add: new_def image_dropped) blast
  ultimately have dis: "ip_key ` set keep \<inter> ip_key ` set added = {}" by blast
  note m = merged_addresses[OF ord dis]
  have app: "fh_appliedAddrs h' = inserter ip_less (set_union ip_less keep added) keep"
    using st(3) by (simp add: keep_def)
  have ok: "\<forall>a \<in> set added. read_ok a"
    using map_no_id_set[OF add(1)] no_id_read_ok \<open>\<forall>a \<in> set new. read_ok a\<close> by metis
  have "m_ntplId ` set added \<inter> m_ntplId ` set keep = {}" "m_ntplId ` set added \<inter> fst ` base = {}"
    using add(5) by (simp_all add: filter_of_def image_Un image_image Int_Un_distrib)
  moreover have "inj_on m_ntplId (set added)" "inj_on m_ntplId (set keep)"
    using add(4) old(3) kg(1) by (auto simp: distinct_map intro: inj_on_subset)
  ultimately have "inj_on m_ntplId (set keep \<union> set added)" by (auto simp: inj_on_Un)
  moreover have "\<forall>a \<in> set keep. read_ok a \<and> m_ntplId a \<noteq> 0 \<and> add_command a \<noteq> None"
    "m_ntplId ` set keep \<inter> fst ` base = {}" using old(2,4) kg(1) by auto
  ultimately show "agree base h'"
    using m ok add(2,3) live1 \<open>m_ntplId ` set added \<inter> fst ` base = {}\<close>
    by (simp add: agree_def app st(4) image_Un Int_Un_distrib2 Un_assoc ball_Un)
  have "ip_key ` set keep = ip_key ` set ?old \<inter> ip_key ` set read" by (simp add: keep_def image_kept)
  moreover have "ip_key ` set new = ip_key ` set read - ip_key ` set ?old" by (simp add: new_def image_dropped)
  ultimately have "ip_key ` set keep \<union> ip_key ` set new = ip_key ` set read" by (simp only: Int_Un_Diff)
  then show "ip_key ` set (fh_appliedAddrs h') = ip_key ` {a. names (getlines [] content) a}"
    by (simp add: app m(2) image_Un keys' read(3))
qed

text \<open>What \<^const>\<open>process\<close> sends: one delete for every address that is gone and one command for every new
  one.\<close>

lemma process_sends:
  assumes "agree base h" "process api content h = Some h'" "fresh_ids api"
  shows "\<exists>read. read_lines (getlines [] content) [] = Some read \<and>
    map fst (fh_log h') = map fst (fh_log h)
      @ map (\<lambda>a. Ntpl_delete ''delete = '' (m_ntplId a)) (filter (\<lambda>a. ip_key a \<notin> ip_key ` set read) (fh_appliedAddrs h))
      @ map (\<lambda>a. Ntpl_create (the (add_command a))) (filter (\<lambda>a. ip_key a \<notin> ip_key ` set (fh_appliedAddrs h)) read)"
proof -
  have old: "ips.ordered (fh_appliedAddrs h)" "\<forall>a \<in> set (fh_appliedAddrs h). m_ntplId a \<noteq> 0"
    using assms(1) by (simp_all add: agree_def)
  obtain read added log where st: "read_lines (getlines [] content) [] = Some read"
    "add_all api (remove_all api (fh_log h) (filter (\<lambda>a. ip_key a \<notin> ip_key ` set read) (fh_appliedAddrs h)))
       (filter (\<lambda>a. ip_key a \<notin> ip_key ` set (fh_appliedAddrs h)) read) = Some (added, log)" "fh_log h' = log"
    using process_steps[OF assms(2) old(1)] by metis
  have "\<forall>a \<in> set (filter (\<lambda>a. ip_key a \<notin> ip_key ` set (fh_appliedAddrs h)) read). read_ok a"
    using read_lines_empty(2)[OF st(1)] by simp
  from add_all_added(6)[OF st(2) this assms(3)] show ?thesis
    using old(2) st(1,3) by (intro exI[of _ read]) (simp add: remove_all_sent)
qed

text \<open>Files in which every line that is not empty names an address are processed without a fault.\<close>

definition good_line :: "string \<Rightarrow> bool" where
  "good_line l \<longleftrightarrow> strip_comment l = []
     \<or> (\<exists>src dst addr sfx. says (strip_comment l) src dst addr sfx \<and> address_text addr \<and> suffix_ok sfx)"

definition good_file :: "string \<Rightarrow> bool" where
  "good_file content \<longleftrightarrow> (\<forall>l \<in> set (getlines [] content). good_line l)"

lemma good_line_parse:
  "good_line l \<Longrightarrow> strip_comment l \<noteq> [] \<Longrightarrow>
   \<exists>a. parse (strip_comment l) IPAddress_new = Some (True, a) \<and> add_command a \<noteq> None"
  unfolding good_line_def using parse_says says_direction add_command_meant by blast

lemma read_lines_good:
  assumes "\<forall>l \<in> set ls. good_line l"
  obtains read where "read_lines ls s = Some read" "\<forall>a \<in> set read. a \<in> set s \<or> add_command a \<noteq> None"
proof -
  have "\<exists>read. read_lines ls s = Some read \<and> (\<forall>a \<in> set read. a \<in> set s \<or> add_command a \<noteq> None)"
    using assms
  proof (induction ls arbitrary: s)
    case (Cons l ls)
    show ?case
    proof (cases "strip_comment l = []")
      case False
      then obtain a where "parse (strip_comment l) IPAddress_new = Some (True, a)" "add_command a \<noteq> None"
        using good_line_parse Cons.prems by fastforce
      then show ?thesis using False Cons.IH[of "set_insert ip_less a s"] Cons.prems ips.insert_subset[of a s] by fastforce
    qed (use Cons in auto)
  qed simp
  then show thesis using that by blast
qed

lemma process_good:
  assumes "good_file content" "accepts api" "ips.ordered (fh_appliedAddrs h)"
  shows "\<exists>h'. process api content h = Some h'"
proof -
  obtain read where r: "read_lines (getlines [] content) [] = Some read" "\<forall>a \<in> set read. add_command a \<noteq> None"
    using read_lines_good[of "getlines [] content" "[]"] assms(1) by (auto simp: good_file_def)
  have o: "ips.ordered read" using read_lines_empty(1)[OF r(1)] .
  have "\<forall>a \<in> set (filter (\<lambda>a. ip_key a \<notin> ip_key ` set (fh_appliedAddrs h)) read). add_command a \<noteq> None"
    using r(2) by simp
  then obtain added log where "add_all api (remove_all api (fh_log h) (filter (\<lambda>a. ip_key a \<notin> ip_key ` set read) (fh_appliedAddrs h)))
       (filter (\<lambda>a. ip_key a \<notin> ip_key ` set (fh_appliedAddrs h)) read) = Some (added, log)"
    using add_all_total[OF assms(2)] by blast
  then show ?thesis using r(1)
    by (simp add: process_def readFile_def process_sets[OF assms(3) o] Let_def)
qed

text \<open>The whole process: what \<open>main\<close> sets up, the loop, and what is taken down.\<close>

lemma make_dummy_live: "fresh_ids api \<Longrightarrow> live (make_dummy api log s) = live log"
proof -
  assume "fresh_ids api"
  then have "api log (Ntpl_create s) \<notin> fst ` set (live log)" by (simp add: fresh_ids_def)
  then have "filter (\<lambda>x. fst x \<noteq> api log (Ntpl_create s)) (live log) = live log"
    by (intro filter_True ballI) (metis imageI)
  then show ?thesis
    by (cases "api log (Ntpl_create s) = 0") (simp_all add: make_dummy_def Let_def live_def live_step_def)
qed

lemma dummies_live: "fresh_ids api \<Longrightarrow> live (foldl (make_dummy api) log ss) = live log"
  by (induction ss arbitrary: log) (simp_all add: make_dummy_live)

lemma create_all_live: "create_all api log ss = (rs, log') \<Longrightarrow> fst ` set (live log') = fst ` set (live log) \<union> (set rs - {0})"
proof (induction ss arbitrary: log rs)
  case (Cons s ss)
  obtain qs where "create_all api (log @ [(Ntpl_create s, api log (Ntpl_create s))]) ss = (qs, log')"
    "rs = api log (Ntpl_create s) # qs"
    using Cons.prems by (auto simp: Let_def split: prod.splits)
  with Cons.IH show ?case by auto
qed simp

lemma delete_filters_live: "live (delete_filters api log ids) = filter (\<lambda>x. fst x \<notin> set ids - {0}) (live log)"
proof (induction ids arbitrary: log)
  case (Cons i ids)
  have "delete_filters api log (i # ids)
      = delete_filters api (if i \<noteq> 0 then log @ [(Ntpl_delete ''delete='' i, api log (Ntpl_delete ''delete='' i))] else log) ids"
    by (simp add: delete_filters_def)
  with Cons.IH show ?case by (auto intro: filter_cong)
qed (simp add: delete_filters_def)

lemma close_handler_live: "agree base h \<Longrightarrow> set (live (fh_log (close_handler api h))) = base"
proof -
  assume a: "agree base h"
  then have "m_ntplId ` set (fh_appliedAddrs h) \<inter> fst ` base = {}" by (simp add: agree_def)
  then have "{x \<in> base \<union> filter_of ` set (fh_appliedAddrs h). fst x \<notin> m_ntplId ` set (fh_appliedAddrs h)} = base"
    by (auto simp: filter_of_def)
  with a show ?thesis by (simp add: close_handler_def remove_all_live agree_def)
qed

definition good_tick :: "watch_tick \<Rightarrow> bool" where
  "good_tick t \<longleftrightarrow> wt_stat t \<noteq> None \<and> good_file (wt_content t)"

lemma agree_time: "agree base (h\<lparr>fh_prevTime := m\<rparr>) = agree base h"
  by (simp add: agree_def)

lemma watch_loop_agrees:
  "agree base h \<Longrightarrow> fresh_ids api \<Longrightarrow> watch_loop api buffer ts h = Some h' \<Longrightarrow> agree base h'"
proof (induction ts arbitrary: buffer h)
  case (Cons t ts)
  show ?case
  proof (cases "wt_running t")
    case True
    then obtain m where m: "(case wt_stat t of Some m \<Rightarrow> Some m | None \<Rightarrow> buffer) = Some m"
      using Cons.prems(3) by (cases "case wt_stat t of Some m \<Rightarrow> Some m | None \<Rightarrow> buffer") simp_all
    show ?thesis
    proof (cases "m = fh_prevTime h")
      case False
      then obtain h1 where "process api (wt_content t) (h\<lparr>fh_prevTime := m\<rparr>) = Some h1" "watch_loop api None ts h1 = Some h'"
        using Cons.prems(3) True m by (auto split: option.splits)
      moreover then have "agree base h1"
        using process_agrees(1)[of base "h\<lparr>fh_prevTime := m\<rparr>"] Cons.prems(1,2) by (simp add: agree_time)
      ultimately show ?thesis using Cons.IH Cons.prems(2) by blast
    qed (use Cons True m in \<open>simp\<close>)
  qed (use Cons.prems in simp)
qed simp

lemma watch_loop_good:
  "agree base h \<Longrightarrow> fresh_ids api \<Longrightarrow> accepts api \<Longrightarrow> \<forall>t \<in> set ts. good_tick t \<Longrightarrow>
   \<exists>h'. watch_loop api buffer ts h = Some h'"
proof (induction ts arbitrary: buffer h)
  case (Cons t ts)
  obtain m where m: "wt_stat t = Some m" using Cons.prems(4) by (auto simp: good_tick_def)
  have "agree base (h\<lparr>fh_prevTime := m\<rparr>)" using Cons.prems(1) by (simp add: agree_time)
  moreover then obtain h1 where "process api (wt_content t) (h\<lparr>fh_prevTime := m\<rparr>) = Some h1"
    using process_good[of "wt_content t" api "h\<lparr>fh_prevTime := m\<rparr>"] Cons.prems(3,4) by (auto simp: good_tick_def agree_def)
  ultimately show ?case
    using Cons.IH[of h] Cons.IH[of h1] Cons.prems process_agrees(1)[of base "h\<lparr>fh_prevTime := m\<rparr>" api "wt_content t" h1] m
    by simp
qed simp

lemma daemon_process_good:
  assumes "fresh_ids api" "accepts api" "\<forall>t \<in> set ticks. good_tick t"
  shows "\<exists>log. daemon_process api streamid priority color exists ticks = Some log \<and> live log = []"
proof -
  obtain ids log0 where c: "create_all api (foldl (make_dummy api) [] dummy_filters) (setup_commands streamid priority color) = (ids, log0)"
    by (meson surj_pair)
  have ids: "fst ` set (live log0) = set ids - {0}"
    using create_all_live[OF c] by (simp add: dummies_live assms(1))
  let ?h = "file_handler_new\<lparr>fh_log := log0\<rparr>"
  have ag: "agree (set (live log0)) ?h" by (simp add: agree_def file_handler_new_def)
  have "\<exists>h. (if open_handler exists then watch_loop api None ticks ?h else Some ?h) = Some h \<and> agree (set (live log0)) h"
  proof (cases "open_handler exists")
    case True
    then show ?thesis using watch_loop_good[OF ag assms, of None] watch_loop_agrees[OF ag assms(1), of None ticks] by auto
  qed (simp add: ag)
  then obtain h where h: "(if open_handler exists then watch_loop api None ticks ?h else Some ?h) = Some h"
    "agree (set (live log0)) h" by blast
  have "live (delete_filters api (fh_log (close_handler api h)) ids) = []"
    using close_handler_live[OF h(2), of api] ids by (auto simp: delete_filters_live filter_empty_conv)
  then show ?thesis using h(1) by (simp add: daemon_process_def c)
qed

end
