(* ===== verification/Filter_Claims.thy ===== *)
theory Filter_Claims
  imports Filter_Daemon_Props
begin

text \<open>
  The properties of the filter daemon: what a line means, that the filters of the adapter follow the
  file, that only differences are sent, which files crash the daemon, and that it leaves nothing behind.
  The witnesses use an adapter that numbers its filters.
\<close>

definition numbering_api :: ntpl_api where
  "numbering_api log c = Suc (sum_list (map snd log))"

lemma live_id_le: "(r, s) \<in> set (live log) \<Longrightarrow> r \<le> sum_list (map snd log)"
proof (induction log rule: rev_induct)
  case (snoc e log)
  then show ?case by (cases e; cases "fst e") (auto split: if_splits)
qed simp

lemma numbering_api_fresh: "fresh_ids numbering_api"
  unfolding fresh_ids_def
proof (intro allI notI)
  fix log s assume "numbering_api log (Ntpl_create s) \<in> fst ` set (live log)"
  then obtain t where "(Suc (sum_list (map snd log)), t) \<in> set (live log)" by (auto simp: numbering_api_def)
  from live_id_le[OF this] show False by simp
qed

lemma numbering_api_accepts: "accepts numbering_api"
  by (simp add: accepts_def numbering_api_def)

text \<open>An example: one line with a direction and a subnet.\<close>

definition example_line :: string where "example_line = ''src  17.17.17.0/24 # lab''"

lemma strip_example: "strip_comment example_line = ''src  17.17.17.0/24 ''"
  by (simp add: strip_comment_def example_line_def)

lemma says_example: "says ''src  17.17.17.0/24 '' True False ''17.17.17.0'' (Subnet 24)"
proof -
  have "map tolower ''src  17.17.17.0/24 '' = ''src '' @ '' 17.17.17.0/24 ''" by (simp add: tolower_def)
  moreover have "filter not_blank '' 17.17.17.0/24 '' = ''17.17.17.0'' @ suffix_text (Subnet 24)"
    by (simp add: not_blank_def show_dec_def show_base.simps digit_char_def char_of_def bit_0)
  ultimately show ?thesis unfolding says_def by (auto simp: directions_def)
qed

lemma address_example: "address_text ''17.17.17.0''"
  by (simp add: address_text_def)

lemma getlines_example: "getlines [] (example_line @ [CHR 0x0A]) = [example_line]"
  by (simp add: example_line_def)

lemma good_example: "good_file (example_line @ [CHR 0x0A])"
  using says_example address_example
  by (auto simp: good_file_def good_line_def getlines_example strip_example intro!: exI)

text \<open>C33: A line of a filter file that gives directions (none, \<open>src\<close>, \<open>dst\<close> or both, in any case and order), an
  address and possibly a prefix length up to 128 or the end of a range, with blanks and tabs anywhere
  behind the directions, is read as that address, with the mask of which as many leading bits are set as
  the prefix length says.\<close>

theorem line_read_as_meant:
  assumes "says line src dst addr sfx" "address_text addr" "suffix_ok sfx"
  shows "parse line IPAddress_new = Some (True, meant src dst addr sfx)"
  using assms by (rule parse_says)

theorem line_read_as_meant_witness:
  "parse ''src  17.17.17.0/24 '' IPAddress_new = Some (True, meant True False ''17.17.17.0'' (Subnet 24))"
  by (rule line_read_as_meant[OF says_example address_example]) simp

text \<open>The content that was processed last: that of the last tick on which the time of the file was another one.\<close>

fun last_seen :: "file_time \<Rightarrow> watch_tick list \<Rightarrow> string option \<Rightarrow> string option" where
  "last_seen prev [] c = c"
| "last_seen prev (t # ts) c =
     (if \<not> wt_running t then c
      else case wt_stat t of
        None \<Rightarrow> last_seen prev ts c
      | Some m \<Rightarrow> if m = prev then last_seen prev ts c else last_seen m ts (Some (wt_content t)))"

definition wanted_keys :: "string option \<Rightarrow> string set" where
  "wanted_keys c = (case c of None \<Rightarrow> {} | Some c \<Rightarrow> ip_key ` {a. names (getlines [] c) a})"

lemma process_time: "process api content h = Some h' \<Longrightarrow> fh_prevTime h' = fh_prevTime h"
  by (auto simp: process_def readFile_def Let_def split: option.splits)

lemma watch_loop_follows:
  "agree base h \<Longrightarrow> fresh_ids api \<Longrightarrow> \<forall>t \<in> set ts. good_tick t \<Longrightarrow> watch_loop api buffer ts h = Some h' \<Longrightarrow>
   ip_key ` set (fh_appliedAddrs h) = wanted_keys c \<Longrightarrow>
   ip_key ` set (fh_appliedAddrs h') = wanted_keys (last_seen (fh_prevTime h) ts c)"
proof (induction ts arbitrary: buffer h c)
  case (Cons t ts)
  obtain m where m: "wt_stat t = Some m" using Cons.prems(3) by (auto simp: good_tick_def)
  consider "\<not> wt_running t" | "wt_running t" "m = fh_prevTime h" | "wt_running t" "m \<noteq> fh_prevTime h" by blast
  then show ?case
  proof cases
    case 3
    then obtain h1 where h1: "process api (wt_content t) (h\<lparr>fh_prevTime := m\<rparr>) = Some h1" "watch_loop api None ts h1 = Some h'"
      using Cons.prems(4) m by (auto split: option.splits)
    have "agree base (h\<lparr>fh_prevTime := m\<rparr>)" using Cons.prems(1) by (simp add: agree_time)
    note a = process_agrees[OF this h1(1) Cons.prems(2)]
    have "fh_prevTime h1 = m" using process_time[OF h1(1)] by simp
    then show ?thesis
      using Cons.IH[OF a(1) Cons.prems(2) _ h1(2), of "Some (wt_content t)"] Cons.prems(3) a(2) 3 m
      by (simp add: wanted_keys_def)
  qed (use Cons m in simp_all)
qed simp

text \<open>C29: Whatever happens to the file, as long as its lines name addresses and the adapter accepts filters,
  the loop never fails, and afterwards the adapter holds the filters it had before and exactly one
  filter for every address (with its directions and mask) of the content that was seen last.\<close>

theorem filters_follow_file:
  assumes "fresh_ids api" "accepts api" "\<forall>t \<in> set ticks. good_tick t"
  shows "\<exists>h. watch_loop api None ticks (file_handler_new\<lparr>fh_log := log\<rparr>) = Some h
    \<and> set (live (fh_log h)) = set (live log) \<union> filter_of ` set (fh_appliedAddrs h)
    \<and> inj_on ip_key (set (fh_appliedAddrs h)) \<and> inj_on m_ntplId (set (fh_appliedAddrs h))
    \<and> ip_key ` set (fh_appliedAddrs h) = wanted_keys (last_seen zero_time ticks None)"
proof -
  let ?h = "file_handler_new\<lparr>fh_log := log\<rparr>"
  have ag: "agree (set (live log)) ?h" by (simp add: agree_def file_handler_new_def)
  obtain h where h: "watch_loop api None ticks ?h = Some h" using watch_loop_good[OF ag assms] by blast
  have "ip_key ` set (fh_appliedAddrs h) = wanted_keys (last_seen zero_time ticks None)"
    using watch_loop_follows[OF ag assms(1,3) h, of None] by (simp add: file_handler_new_def wanted_keys_def)
  moreover have "agree (set (live log)) h" using watch_loop_agrees[OF ag assms(1) h] .
  ultimately show ?thesis using h ips.ordered_distinct by (auto simp: agree_def)
qed

definition example_tick :: watch_tick where
  "example_tick = \<lparr>wt_running = True, wt_stat = Some (zero_time\<lparr>tm_sec := 5\<rparr>), wt_content = example_line @ [CHR 0x0A]\<rparr>"

lemma good_tick_example: "good_tick example_tick"
  by (simp add: good_tick_def example_tick_def good_example)

theorem filters_follow_file_witness:
  "\<exists>h. watch_loop numbering_api None [example_tick] (file_handler_new\<lparr>fh_log := []\<rparr>) = Some h
    \<and> ip_key ` set (fh_appliedAddrs h) = wanted_keys (Some (example_line @ [CHR 0x0A]))"
proof -
  have "\<forall>t \<in> set [example_tick]. good_tick t" by (simp add: good_tick_example)
  from filters_follow_file[OF numbering_api_fresh numbering_api_accepts this, of "[]"]
  show ?thesis by (auto simp: example_tick_def zero_time_def)
qed

text \<open>C30: When a changed file is processed, the daemon deletes one filter for every applied address that is
  gone, in order, then creates one for every address that is new, and sends nothing else: addresses that
  stay keep their filters.\<close>

theorem only_differences_sent:
  assumes "agree base h" "process api content h = Some h'" "fresh_ids api"
  shows "\<exists>read. read_lines (getlines [] content) [] = Some read \<and>
    map fst (fh_log h') = map fst (fh_log h)
      @ map (\<lambda>a. Ntpl_delete ''delete = '' (m_ntplId a)) (filter (\<lambda>a. ip_key a \<notin> ip_key ` set read) (fh_appliedAddrs h))
      @ map (\<lambda>a. Ntpl_create (the (add_command a))) (filter (\<lambda>a. ip_key a \<notin> ip_key ` set (fh_appliedAddrs h)) read)"
  using assms by (rule process_sends)

lemma read_example: "read_lines (getlines [] (example_line @ [CHR 0x0A])) [] = Some [meant True False ''17.17.17.0'' (Subnet 24)]"
proof -
  have "parse ''src  17.17.17.0/24 '' IPAddress_new = Some (True, meant True False ''17.17.17.0'' (Subnet 24))"
    by (rule parse_says[OF says_example address_example]) simp
  then show ?thesis by (simp add: getlines_example strip_example)
qed

lemma command_example:
  "the (add_command (meant True False ''17.17.17.0'' (Subnet 24)))
    = ''IPMatchList[KeySet=3] = IPv4Addr == {[ff.ff.ff.00]:[17.17.17.0]}''"
proof -
  have "show_dec 3 = ''3''" by (subst show_dec_def, subst show_base.simps) (simp add: digit_char_def char_of_def bit_0)
  moreover have "prefix_byte 8 = 0xff" "prefix_byte 0 = 0" "prefix_byte 16 = 0xff" "prefix_byte 24 = 0xff"
    by (simp_all add: prefix_byte_def mask_numeral)
  ultimately show ?thesis
    by (simp add: add_command_def meant_def version_of_def match_list_def MatchKeyIPv4Src_def ntplAddr_def mask4_def
      nth_prefix_bytes hex2_values)
qed

lemma agree_new: "agree {} file_handler_new"
  by (simp add: agree_def file_handler_new_def)

theorem only_differences_sent_witness:
  "\<exists>h'. process numbering_api (example_line @ [CHR 0x0A]) file_handler_new = Some h'
    \<and> map fst (fh_log h') = [Ntpl_create ''IPMatchList[KeySet=3] = IPv4Addr == {[ff.ff.ff.00]:[17.17.17.0]}'']"
proof -
  obtain h' where h': "process numbering_api (example_line @ [CHR 0x0A]) file_handler_new = Some h'"
    using process_good[OF good_example numbering_api_accepts, of file_handler_new] agree_new by (auto simp: agree_def)
  from only_differences_sent[OF agree_new this numbering_api_fresh] h' show ?thesis
    by (auto simp: read_example file_handler_new_def command_example)
qed

lemma add_all_None:
  "accepts api \<Longrightarrow> \<forall>a \<in> set as. read_ok a \<Longrightarrow> add_all api log as = None \<longleftrightarrow> (\<exists>a \<in> set as. m_ver a = UNKNOWN)"
proof (induction as arbitrary: log)
  case (Cons a as)
  show ?case
  proof (cases "add_command a")
    case None
    then have "m_ver a = UNKNOWN" using Cons.prems(2) by (auto simp: add_command_def read_ok_def split: IPVersion.splits if_splits)
    with None show ?thesis by (simp add: addNTPL_def)
  next
    case (Some c)
    then have "m_ver a \<noteq> UNKNOWN" by (auto simp: add_command_def)
    moreover have "api log (Ntpl_create c) \<noteq> 0" using Cons.prems(1) by (simp add: accepts_def)
    ultimately show ?thesis using Some Cons by (simp add: addNTPL_def)
  qed
qed simp

text \<open>C32: With an adapter that accepts filters, processing a file crashes the daemon exactly when reading it
  writes behind a mask or an address that was not yet applied has neither a dot nor a colon: the address is erased
  from the set in the loop that runs over the set.\<close>

theorem process_crashes_iff:
  assumes "agree base h" "accepts api"
  shows "process api content h = None \<longleftrightarrow>
    read_lines (getlines [] content) [] = None \<or>
    (\<exists>read a. read_lines (getlines [] content) [] = Some read \<and> a \<in> set read
       \<and> ip_key a \<notin> ip_key ` set (fh_appliedAddrs h) \<and> m_ver a = UNKNOWN)"
proof (cases "read_lines (getlines [] content) []")
  case (Some read)
  have o: "ips.ordered read" "\<forall>a \<in> set read. read_ok a" using read_lines_empty[OF Some] by auto
  have "ips.ordered (fh_appliedAddrs h)" using assms(1) by (simp add: agree_def)
  note s = process_sets[OF this o(1)]
  have "\<forall>a \<in> set (filter (\<lambda>a. ip_key a \<notin> ip_key ` set (fh_appliedAddrs h)) read). read_ok a" using o(2) by simp
  note n = add_all_None[OF assms(2) this]
  show ?thesis using Some by (simp add: process_def readFile_def Let_def s n)
qed (simp add: process_def readFile_def)

lemma read_hello: "\<exists>a. read_lines (getlines [] ''hello'') [] = Some [a] \<and> m_ver a = UNKNOWN"
  by (simp add: strip_comment_def parse_def take_flag_def erase_all_filter parse_mask_def parse_range_def verifyAddr_def
    address_version_def IPAddress_new_def tolower_def Let_def)

theorem process_crashes_iff_witness: "process numbering_api ''hello'' file_handler_new = None"
  using process_crashes_iff[OF agree_new numbering_api_accepts, of "''hello''"] read_hello
  by (auto simp: file_handler_new_def)



text \<open>The end of a range is not compared: changing it in the file, or turning a single address into a range,
  changes nothing on the adapter.\<close>

lemma range_end_not_compared:
  "ip_key (meant src dst addr (Up_to b)) = ip_key (meant src dst addr (Up_to b'))"
  "ip_key (meant src dst addr (Up_to b)) = ip_key (meant src dst addr Whole)"
  by (simp_all add: ip_key_def meant_def direction_bits_def)

text \<open>A file that has to be created is never watched, although the usage text tells the user to fill it then.\<close>

lemma new_file_not_watched: "daemon_process api s p c False ticks = daemon_process api s p c False []"
  by (simp add: daemon_process_def open_handler_def)

text \<open>A daemon that was stopped leaves its process identifier behind, and no other one starts after it.\<close>

lemma stopped_daemon_blocks:
  assumes "ntfilterd_main api args e None = Some (Daemon_done log, pidfile)" "0 < de_setsid e"
    "daemon_options args None daemon_opts_init = Inr opts" "\<not> do_debug opts"
    "daemon_options args' pidfile daemon_opts_init = Inr opts'"
  shows "ntfilterd_main api args' e' pidfile = Some (Daemon_exit (- 1), pidfile)"
proof -
  have "pidfile = Some (de_setsid e)"
    using assms(1,2,3,4) by (auto simp: ntfilterd_main_def Let_def spawn_def writePIDFile_def split: if_splits)
  then show ?thesis using assms(2,5) by (simp add: ntfilterd_main_def readPIDFile_def)
qed

text \<open>Killing a daemon that does not run signals the whole process group of the caller.\<close>

lemma kill_without_daemon: "daemon_options [(CHR ''k'', [])] None daemon_opts_init = Inl (Daemon_kill 0, Some 0)"
  by (simp add: readPIDFile_def writePIDFile_def)

text \<open>Started as the README says, with a relative file name, the daemon opens the file in the root
  directory.\<close>

lemma relative_name_in_root: "resolve [] ''./filters.ntf'' = ''/./filters.ntf''"
  by (simp add: resolve_def)

end
