(* ===== verification/Recent_Buffer.thy ===== *)
theory Recent_Buffer
  imports Main
begin

text \<open>
  A buffer that holds the most recent entries that were not reported yet, as a locale: adding drops the
  oldest pending entry when there are \<open>cap\<close> of them, flushing reports all of them.  Its client is a
  monitor that adds an entry every second and flushes while there is an alert and once afterwards.
  The lemma \<open>monitor_reports\<close> says which entries the client reports.
\<close>

definition recent :: "nat \<Rightarrow> 'a list \<Rightarrow> 'a list" where
  "recent n xs = drop (length xs - n) xs"

text \<open>One second of the client; \<open>prev\<close> says whether the second before had an alert.\<close>

definition monitor_step :: "('e \<Rightarrow> 's \<Rightarrow> 's) \<Rightarrow> ('s \<Rightarrow> 's) \<Rightarrow> bool \<times> 's \<Rightarrow> 'e \<times> bool \<Rightarrow> bool \<times> 's" where
  "monitor_step add flush st ea =
     (case st of (prev, s) \<Rightarrow> case ea of (e, alert) \<Rightarrow>
        (alert, if alert \<or> prev then flush (add e s) else add e s))"

text \<open>The seconds in which the client flushes, and the entries that are reported by then or pending: the
  entries of the last \<open>cap\<close> seconds up to a flush.\<close>

definition flushes :: "(nat \<Rightarrow> bool) \<Rightarrow> nat \<Rightarrow> bool" where
  "flushes alert j \<longleftrightarrow> alert j \<or> 0 < j \<and> alert (j - 1)"

definition reported :: "(nat \<Rightarrow> bool) \<Rightarrow> nat \<Rightarrow> nat \<Rightarrow> nat list" where
  "reported fl cap n = filter (\<lambda>i. \<exists>j. i \<le> j \<and> j < n \<and> j < i + cap \<and> fl j) [0..<n]"

definition waiting :: "(nat \<Rightarrow> bool) \<Rightarrow> nat \<Rightarrow> nat \<Rightarrow> nat list" where
  "waiting fl cap n = filter (\<lambda>i. \<forall>j. i \<le> j \<and> j < n \<longrightarrow> \<not> fl j) [n - cap..<n]"

lemma waiting_all:
  "(\<forall>j. n - cap \<le> j \<and> j < n \<longrightarrow> \<not> fl j) \<Longrightarrow> waiting fl cap n = [n - cap..<n]"
  by (auto simp: waiting_def filter_id_conv)

lemma filter_upt_from: "filter (\<lambda>i. t \<le> i) [a..<b] = [max a t..<b]"
  by (induction b) (auto simp: max_def)

text \<open>Behind the last flush before \<open>n\<close> everything waits.\<close>

lemma last_flush_ex: "\<exists>t \<le> (n :: nat). (\<forall>j. t \<le> j \<and> j < n \<longrightarrow> \<not> fl j) \<and> (0 < t \<longrightarrow> fl (t - 1))"
proof (induction n)
  case (Suc n)
  show ?case
  proof (cases "fl n")
    case True
    then show ?thesis by (intro exI[of _ "Suc n"]) auto
  next
    case False
    from Suc obtain t where "t \<le> n" "\<forall>j. t \<le> j \<and> j < n \<longrightarrow> \<not> fl j" "0 < t \<longrightarrow> fl (t - 1)" by blast
    with False show ?thesis by (intro exI[of _ t]) (auto simp: less_Suc_eq)
  qed
qed auto

lemma last_flush:
  obtains t where "t \<le> (n :: nat)" "\<And>j. t \<le> j \<Longrightarrow> j < n \<Longrightarrow> \<not> fl j" "0 < t \<Longrightarrow> fl (t - 1)"
proof -
  from last_flush_ex[of n fl] obtain t where
    "t \<le> n" "\<forall>j. t \<le> j \<and> j < n \<longrightarrow> \<not> fl j" "0 < t \<longrightarrow> fl (t - 1)" by auto
  then show thesis by (intro that[of t]) auto
qed

lemma quiet_since:
  assumes "t \<le> (n :: nat)" "\<And>j. t \<le> j \<Longrightarrow> j < n \<Longrightarrow> \<not> fl j" "0 < t \<Longrightarrow> fl (t - 1)" "i < Suc n"
  shows "(\<forall>j. i \<le> j \<and> j < n \<longrightarrow> \<not> fl j) \<longleftrightarrow> t \<le> i"
proof
  assume a: "\<forall>j. i \<le> j \<and> j < n \<longrightarrow> \<not> fl j"
  show "t \<le> i"
  proof (rule ccontr)
    assume "\<not> t \<le> i"
    then have t: "i \<le> t - 1" "t - 1 < n" "0 < t" using assms(1) by auto
    from assms(3)[OF t(3)] a t(1,2) show False by simp
  qed
qed (use assms(2) in auto)

lemma waiting_split:
  assumes "t \<le> n" "\<And>j. t \<le> j \<Longrightarrow> j < n \<Longrightarrow> \<not> fl j" "0 < t \<Longrightarrow> fl (t - 1)"
  shows "waiting fl cap n = [max (n - cap) t..<n]"
proof -
  have "waiting fl cap n = filter (\<lambda>i. t \<le> i) [n - cap..<n]"
    unfolding waiting_def by (intro filter_cong refl quiet_since assms) simp_all
  then show ?thesis by (simp add: filter_upt_from)
qed

lemma reported_split:
  assumes "t \<le> n" "\<And>j. t \<le> j \<Longrightarrow> j < n \<Longrightarrow> \<not> fl j"
  shows "reported fl cap n = filter (\<lambda>i. \<exists>j. i \<le> j \<and> j < n \<and> j < i + cap \<and> fl j) [0..<t]"
proof -
  have "filter (\<lambda>i. \<exists>j. i \<le> j \<and> j < n \<and> j < i + cap \<and> fl j) [t..<n] = []"
    using assms(2) by (auto simp: filter_empty_conv)
  moreover have "[0..<n] = [0..<t] @ [t..<n]" using assms(1) by (metis le0 le_Suc_ex upt_add_eq_append)
  ultimately show ?thesis by (simp add: reported_def)
qed

lemma recent_waiting:
  assumes "0 < cap"
  shows "recent cap (waiting fl cap n @ [n]) = filter (\<lambda>i. \<forall>j. i \<le> j \<and> j < n \<longrightarrow> \<not> fl j) [Suc n - cap..<Suc n]"
proof -
  obtain t where t: "t \<le> n" "\<And>j. t \<le> j \<Longrightarrow> j < n \<Longrightarrow> \<not> fl j" "0 < t \<Longrightarrow> fl (t - 1)" using last_flush[of n fl] by blast
  have w: "waiting fl cap n = [max (n - cap) t..<n]" using waiting_split[where fl=fl and n=n and t=t, OF t] .
  have "filter (\<lambda>i. \<forall>j. i \<le> j \<and> j < n \<longrightarrow> \<not> fl j) [Suc n - cap..<Suc n] = filter (\<lambda>i. t \<le> i) [Suc n - cap..<Suc n]"
    by (intro filter_cong refl quiet_since t) (auto simp del: upt_Suc)
  also have "\<dots> = [max (Suc n - cap) t..<Suc n]" by (simp only: filter_upt_from)
  also have "\<dots> = recent cap ([max (n - cap) t..<n] @ [n])"
  proof -
    have "[max (n - cap) t..<n] @ [n] = [max (n - cap) t..<Suc n]" using t(1) by simp
    moreover have "max (n - cap) t + (Suc n - max (n - cap) t - cap) = max (Suc n - cap) t" using t(1) assms by linarith
    ultimately show ?thesis by (simp add: recent_def drop_upt del: upt_Suc)
  qed
  finally show ?thesis by (simp add: w)
qed

lemma flush_step:
  assumes "0 < cap" "fl n"
  shows "reported fl cap (Suc n) = reported fl cap n @ recent cap (waiting fl cap n @ [n])" "waiting fl cap (Suc n) = []"
proof -
  obtain t where t: "t \<le> n" "\<And>j. t \<le> j \<Longrightarrow> j < n \<Longrightarrow> \<not> fl j" "0 < t \<Longrightarrow> fl (t - 1)" using last_flush[of n fl] by blast
  let ?P = "\<lambda>n i. \<exists>j. i \<le> j \<and> j < n \<and> j < i + cap \<and> fl j"
  have "[0..<Suc n] = [0..<t] @ [t..<Suc n]" using t(1) by (metis le0 le_SucI le_Suc_ex upt_add_eq_append)
  then have "reported fl cap (Suc n) = filter (?P (Suc n)) [0..<t] @ filter (?P (Suc n)) [t..<Suc n]"
    by (simp add: reported_def del: upt_Suc)
  moreover have "filter (?P (Suc n)) [0..<t] = filter (?P n) [0..<t]"
  proof (rule filter_cong)
    fix i assume "i \<in> set [0..<t]"
    then have i: "i < t" by simp
    show "?P (Suc n) i = ?P n i"
    proof
      assume "?P (Suc n) i"
      then obtain j where j: "i \<le> j" "j < Suc n" "j < i + cap" "fl j" by blast
      show "?P n i"
      proof (cases "j < n")
        case False
        then have "t - 1 < i + cap" using j t(1) by simp
        moreover have "i \<le> t - 1" "t - 1 < n" using i t(1) by auto
        ultimately show ?thesis using t(3) i by auto
      qed (use j in blast)
    qed (auto intro: less_SucI)
  qed simp
  moreover have "filter (?P (Suc n)) [t..<Suc n] = filter (\<lambda>i. Suc n - cap \<le> i) [t..<Suc n]"
  proof (rule filter_cong)
    fix i assume "i \<in> set [t..<Suc n]"
    then have i: "t \<le> i" "i \<le> n" by auto
    show "?P (Suc n) i = (Suc n - cap \<le> i)"
    proof
      assume "?P (Suc n) i"
      then obtain j where j: "i \<le> j" "j < Suc n" "j < i + cap" "fl j" by blast
      then have "j = n" using t(2)[of j] i(1) by fastforce
      with j show "Suc n - cap \<le> i" by simp
    next
      assume "Suc n - cap \<le> i"
      then have "n < i + cap" using assms(1) by linarith
      with i assms(2) show "?P (Suc n) i" by (intro exI[of _ n]) auto
    qed
  qed simp
  moreover have "filter (\<lambda>i. Suc n - cap \<le> i) [t..<Suc n] = recent cap (waiting fl cap n @ [n])"
  proof -
    have "max t (Suc n - cap) = max (n - cap) t + (Suc n - max (n - cap) t - cap)" using t(1) assms(1) by linarith
    moreover have "[max (n - cap) t..<n] @ [n] = [max (n - cap) t..<Suc n]" using t(1) by simp
    ultimately show ?thesis
      by (simp add: filter_upt_from waiting_split[where fl=fl and n=n and t=t, OF t] recent_def drop_upt del: upt_Suc)
  qed
  ultimately show "reported fl cap (Suc n) = reported fl cap n @ recent cap (waiting fl cap n @ [n])"
    using reported_split[where fl=fl and n=n and t=t, OF t(1,2)] by simp
  show "waiting fl cap (Suc n) = []" using assms(2) by (auto simp: waiting_def filter_empty_conv intro: exI[of _ n])
qed

lemma quiet_step:
  assumes "0 < cap" "\<not> fl n"
  shows "reported fl cap (Suc n) = reported fl cap n" "waiting fl cap (Suc n) = recent cap (waiting fl cap n @ [n])"
proof -
  show "reported fl cap (Suc n) = reported fl cap n"
    using assms(2) by (auto simp: reported_def less_Suc_eq intro!: filter_cong)
  have "(\<forall>j. i \<le> j \<and> j < Suc n \<longrightarrow> \<not> fl j) = (\<forall>j. i \<le> j \<and> j < n \<longrightarrow> \<not> fl j)" for i
    using assms(2) by (auto simp: less_Suc_eq)
  then show "waiting fl cap (Suc n) = recent cap (waiting fl cap n @ [n])"
    unfolding recent_waiting[OF assms(1)] by (simp add: waiting_def del: upt_Suc)
qed

locale recent_buffer =
  fixes add :: "'e \<Rightarrow> 's \<Rightarrow> 's"
    and flush :: "'s \<Rightarrow> 's"
    and pending :: "'s \<Rightarrow> 'e list"
    and shown :: "'s \<Rightarrow> 'o list"
    and render :: "'e \<Rightarrow> 'o list"
    and ok :: "'s \<Rightarrow> bool"
    and cap :: nat
  assumes cap_pos: "0 < cap"
    and ok_add: "ok s \<Longrightarrow> ok (add e s)"
    and pending_add: "ok s \<Longrightarrow> pending (add e s) = recent cap (pending s @ [e])"
    and shown_add: "ok s \<Longrightarrow> shown (add e s) = shown s"
    and ok_flush: "ok s \<Longrightarrow> ok (flush s)"
    and pending_flush: "ok s \<Longrightarrow> pending (flush s) = []"
    and shown_flush: "ok s \<Longrightarrow> shown (flush s) = shown s @ concat (map render (pending s))"
begin

lemma recent_map: "recent n (map f xs) = map f (recent n xs)"
  by (simp add: recent_def drop_map)

text \<open>The entries shown are those of the \<open>cap\<close> seconds up to a second with an alert or the second behind
  one, each once and in order.\<close>

lemma monitor_reports:
  assumes "ok s" "pending s = []"
  shows "case foldl (monitor_step add flush) (False, s) xs of (prev, s') \<Rightarrow>
    prev = (xs \<noteq> [] \<and> snd (last xs)) \<and> ok s'
    \<and> shown s' = shown s @ concat (map (\<lambda>i. render (fst (xs ! i))) (reported (flushes (\<lambda>i. snd (xs ! i))) cap (length xs)))
    \<and> pending s' = map (\<lambda>i. fst (xs ! i)) (waiting (flushes (\<lambda>i. snd (xs ! i))) cap (length xs))"
proof (induction xs rule: rev_induct)
  case Nil
  then show ?case using assms by (simp add: reported_def waiting_def)
next
  case (snoc x xs)
  let ?n = "length xs" and ?al = "\<lambda>i. snd (xs ! i)" and ?al' = "\<lambda>i. snd ((xs @ [x]) ! i)"
  obtain prev s1 where st: "foldl (monitor_step add flush) (False, s) xs = (prev, s1)" by fastforce
  with snoc have IH: "prev = (xs \<noteq> [] \<and> snd (last xs))" "ok s1"
    "shown s1 = shown s @ concat (map (\<lambda>i. render (fst (xs ! i))) (reported (flushes ?al) cap ?n))"
    "pending s1 = map (\<lambda>i. fst (xs ! i)) (waiting (flushes ?al) cap ?n)"
    by simp_all
  have fl: "flushes ?al' j = flushes ?al j" if "j < ?n" for j
    using that by (auto simp: flushes_def nth_append)
  have same: "reported (flushes ?al) cap ?n = reported (flushes ?al') cap ?n"
    "waiting (flushes ?al) cap ?n = waiting (flushes ?al') cap ?n"
    unfolding reported_def waiting_def by (auto intro!: filter_cong simp: fl)
  have idx: "map (\<lambda>i. render (fst (xs ! i))) (reported fl' cap ?n) = map (\<lambda>i. render (fst ((xs @ [x]) ! i))) (reported fl' cap ?n)"
    "map (\<lambda>i. fst (xs ! i)) (waiting fl' cap ?n) = map (\<lambda>i. fst ((xs @ [x]) ! i)) (waiting fl' cap ?n)" for fl'
    by (auto simp: reported_def waiting_def nth_append)
  have now: "flushes ?al' ?n \<longleftrightarrow> snd x \<or> prev"
    by (cases xs rule: rev_cases) (auto simp: flushes_def IH(1) nth_append)
  have pend: "pending (add (fst x) s1) = map (\<lambda>i. fst ((xs @ [x]) ! i)) (recent cap (waiting (flushes ?al') cap ?n @ [?n]))"
    using pending_add[OF IH(2)] by (simp add: IH(4) same(2) idx(2) flip: recent_map)
  have ok1: "ok (add (fst x) s1)" using ok_add[OF IH(2)] .
  have out: "shown (add (fst x) s1) = shown s @ concat (map (\<lambda>i. render (fst ((xs @ [x]) ! i))) (reported (flushes ?al') cap ?n))"
    using IH(3) by (simp only: shown_add[OF IH(2)] same(1) idx(1))
  have step: "foldl (monitor_step add flush) (False, s) (xs @ [x])
      = (snd x, if snd x \<or> prev then flush (add (fst x) s1) else add (fst x) s1)"
    by (simp add: st monitor_step_def split: prod.split)
  show ?case
  proof (cases "snd x \<or> prev")
    case True
    have "flushes ?al' ?n" using True now by blast
    note f = flush_step[where fl="flushes ?al'" and n="?n" and cap=cap, OF cap_pos this]
    show ?thesis unfolding step using True f
      by (simp add: shown_flush[OF ok1] ok_flush[OF ok1] pending_flush[OF ok1] out pend comp_def)
  next
    case False
    have "\<not> flushes ?al' ?n" using False now by blast
    note f = quiet_step[where fl="flushes ?al'" and n="?n" and cap=cap, OF cap_pos this]
    show ?thesis unfolding step using False f ok1 out pend by simp
  qed
qed

end

end
