(* ===== verification/Backlog.thy ===== *)
theory Backlog
  imports Libc Recent_Buffer
begin

text \<open>
  \<open>bufferProfile/backlog.cpp\<close> and \<open>backlog.h\<close>: the entries of the last \<open>NUM_ENTRIES\<close> seconds, in a ring,
  with a mark on those that were written out already.  The nine arrays of the class are one list of
  records.  \<open>m_file\<close> is what was written to the file so far, and \<open>None\<close> is the null pointer;
  \<open>b_stdout\<close> is what \<open>output\<close> and \<open>initialize\<close> wrote to the terminal.  A result \<open>None\<close> is undefined
  behaviour: \<open>fprintf\<close> to a null pointer.
\<close>

section \<open>Data and operations\<close>

definition NUM_ENTRIES :: nat where "NUM_ENTRIES = 5"

record log_entry =
  e_time :: string
  e_rxMbpsStr :: string
  e_numStreams :: string
  e_pktsStr :: string
  e_pktsRateStr :: string
  e_dropStr :: string
  e_hbFillStr :: string
  e_obFillStr :: string
  e_utilString :: string

definition entry_empty :: log_entry where
  "entry_empty = \<lparr>e_time = [], e_rxMbpsStr = [], e_numStreams = [], e_pktsStr = [], e_pktsRateStr = [],
     e_dropStr = [], e_hbFillStr = [], e_obFillStr = [], e_utilString = []\<rparr>"

record backlog =
  m_processed :: "bool list"
  m_entries :: "log_entry list"
  m_currPos :: nat
  m_file :: "string option"
  b_stdout :: string

text \<open>The constructor.  The object is static, so the file pointer starts as null.\<close>

definition backlog_new :: backlog where
  "backlog_new = \<lparr>m_processed = replicate NUM_ENTRIES True, m_entries = replicate NUM_ENTRIES entry_empty,
     m_currPos = 0, m_file = None, b_stdout = []\<rparr>"

definition nl :: string where "nl = [CHR 0x0A]"

definition DELIMITER :: string where "DELIMITER = replicate 102 CHR ''-'' @ nl"

definition ENDDELIMITER :: string where "ENDDELIMITER = replicate 102 CHR ''='' @ nl"

definition addEntry :: "log_entry \<Rightarrow> backlog \<Rightarrow> backlog" where
  "addEntry e b = b\<lparr>m_processed := (m_processed b)[m_currPos b := False],
     m_entries := (m_entries b)[m_currPos b := e],
     m_currPos := (m_currPos b + 1) mod NUM_ENTRIES\<rparr>"

text \<open>\<open>opened\<close> says whether \<open>fopen\<close> succeeds, which empties the file.\<close>

definition initialize :: "bool \<Rightarrow> string \<Rightarrow> string \<Rightarrow> backlog \<Rightarrow> bool \<times> backlog" where
  "initialize opened filename timeStr b =
     (let file = (if filename \<noteq> [] \<and> opened then Some [] else None);
          out = b_stdout b
            @ (if filename \<noteq> [] then nl @ ''Writing output to file: '' @ filename @ nl else [])
            @ nl @ ''Writing output to stdout: '' @ filename @ nl
      in case file of
           None \<Rightarrow> (False, b\<lparr>m_file := None, b_stdout := out\<rparr>)
         | Some s \<Rightarrow> (True, b\<lparr>m_file := Some (s @ ENDDELIMITER @ nl @ ''File created at: '' @ timeStr @ nl @ DELIMITER),
                            b_stdout := out\<rparr>))"

definition to_file :: "string \<Rightarrow> backlog \<Rightarrow> backlog" where
  "to_file s b = b\<lparr>m_file := map_option (\<lambda>t. t @ s) (m_file b)\<rparr>"

definition shutdown :: "string \<Rightarrow> backlog \<Rightarrow> backlog" where
  "shutdown timeStr b = to_file (ENDDELIMITER @ nl @ ''File closed at: '' @ timeStr @ nl @ ENDDELIMITER) b"

definition backlog_write :: "string \<Rightarrow> backlog \<Rightarrow> backlog" where
  "backlog_write s b = to_file s b"

text \<open>The lines written for an entry, to the file and to the terminal alike.\<close>

definition entry_text :: "log_entry \<Rightarrow> string" where
  "entry_text e =
     DELIMITER @ ''time: '' @ e_time e @ nl
     @ ''-------- Ports --------'' @ nl
     @ ''Mbps: '' @ nl @ e_rxMbpsStr e @ nl
     @ nl @ ''-------- Streams --------'' @ nl
     @ ''pkts: '' @ nl @ e_pktsStr e @ nl
     @ nl @ ''Gbps: '' @ nl @ e_pktsRateStr e @ nl
     @ nl @ ''hbuffUtil: '' @ nl @ e_hbFillStr e @ nl
     @ nl @ ''sdramUtil: '' @ nl @ e_obFillStr e @ nl
     @ nl @ ''pktsDrop : '' @ nl @ e_dropStr e @ nl
     @ nl @ ''-------- CPU --------'' @ nl
     @ ''Utilization:'' @ nl @ e_utilString e @ nl"

definition output_entry :: "nat \<Rightarrow> backlog \<Rightarrow> backlog" where
  "output_entry pos b =
     (if m_processed b ! pos then b
      else let t = entry_text (m_entries b ! pos);
               b = to_file t (b\<lparr>m_processed := (m_processed b)[pos := True]\<rparr>)
           in b\<lparr>b_stdout := b_stdout b @ t\<rparr>)"

text \<open>The loop of \<open>output\<close>, with the number of rounds that are left.\<close>

fun output_loop :: "nat \<Rightarrow> nat \<Rightarrow> backlog \<Rightarrow> backlog" where
  "output_loop 0 pos b = b"
| "output_loop (Suc n) pos b = output_loop n ((pos + 1) mod NUM_ENTRIES) (output_entry pos b)"

definition output_entries :: "backlog \<Rightarrow> backlog" where
  "output_entries b = output_loop (NUM_ENTRIES + 1) (m_currPos b) b"

definition backlog_output :: "bool \<Rightarrow> backlog \<Rightarrow> backlog option" where
  "backlog_output endDelimiter b =
     (let b = output_entries b in
      if endDelimiter then (if m_file b = None then None else Some (to_file ENDDELIMITER b)) else Some b)"

section \<open>The entries that wait\<close>

text \<open>The ring from its oldest entry on, and the entries of it that are not marked.\<close>

definition offsets :: "nat \<Rightarrow> nat list" where
  "offsets pos = map (\<lambda>j. (pos + j) mod NUM_ENTRIES) [0..<NUM_ENTRIES]"

definition pending :: "backlog \<Rightarrow> log_entry list" where
  "pending b = map ((!) (m_entries b)) (filter (\<lambda>p. \<not> m_processed b ! p) (offsets (m_currPos b)))"

text \<open>Well-formed: the marked entries are the oldest ones.\<close>

definition backlog_ok :: "backlog \<Rightarrow> bool" where
  "backlog_ok b \<longleftrightarrow> length (m_processed b) = NUM_ENTRIES \<and> length (m_entries b) = NUM_ENTRIES \<and> m_currPos b < NUM_ENTRIES
     \<and> (\<exists>k. map ((!) (m_processed b)) (offsets (m_currPos b)) = replicate k True @ replicate (NUM_ENTRIES - k) False)"


section \<open>The ring\<close>

text \<open>A ring of lists read from position \<open>pos\<close> on is the rotated list; overwriting the oldest element and
  moving on drops it and appends the new one.\<close>

lemma offsets_view: "length xs = NUM_ENTRIES \<Longrightarrow> pos < NUM_ENTRIES \<Longrightarrow> map ((!) xs) (offsets pos) = rotate pos xs"
  by (rule nth_equalityI) (auto simp: offsets_def nth_rotate)

lemma rotate_overwrite:
  assumes "pos < length xs"
  shows "rotate ((pos + 1) mod length xs) (xs[pos := v]) = tl (rotate pos xs) @ [v]"
proof -
  have r: "tl (rotate pos xs) = drop (Suc pos) xs @ take pos xs"
    using assms Cons_nth_drop_Suc[OF assms] by (simp add: rotate_drop_take tl_append split: list.split) (metis list.sel(3))
  show ?thesis
  proof (cases "Suc pos = length xs")
    case True
    then have "xs[pos := v] = take pos xs @ [v]" by (simp add: upd_conv_take_nth_drop)
    with True r show ?thesis by simp
  next
    case False
    with assms have "Suc pos < length xs" by simp
    with r show ?thesis by (simp add: rotate_drop_take take_Suc_conv_app_nth)
  qed
qed

lemma filter_marks:
  "map f os = replicate k True @ replicate m False \<Longrightarrow> filter (\<lambda>p. \<not> f p) os = drop k os"
proof (induction os arbitrary: k)
  case (Cons p os)
  show ?case
  proof (cases k)
    case 0
    with Cons.prems obtain m' where "m = Suc m'" by (cases m) auto
    with Cons.prems 0 have "\<not> f p" "map f os = replicate 0 True @ replicate m' False" by auto
    with Cons.prems 0 show ?thesis by (auto simp: filter_id_conv) (metis imageI image_set in_set_replicate)
  next
    case (Suc k')
    with Cons show ?thesis by simp
  qed
qed simp

lemma backlog_okE:
  assumes "backlog_ok b"
  obtains k where "length (m_processed b) = NUM_ENTRIES" "length (m_entries b) = NUM_ENTRIES" "m_currPos b < NUM_ENTRIES"
    "k \<le> NUM_ENTRIES" "rotate (m_currPos b) (m_processed b) = replicate k True @ replicate (NUM_ENTRIES - k) False"
    "pending b = drop k (rotate (m_currPos b) (m_entries b))"
proof -
  from assms obtain k where l: "length (m_processed b) = NUM_ENTRIES" "length (m_entries b) = NUM_ENTRIES" "m_currPos b < NUM_ENTRIES"
    and k: "map ((!) (m_processed b)) (offsets (m_currPos b)) = replicate k True @ replicate (NUM_ENTRIES - k) False"
    unfolding backlog_ok_def by blast
  from arg_cong[OF k, of length] have "k \<le> NUM_ENTRIES" by (simp add: offsets_def)
  moreover have "pending b = drop k (rotate (m_currPos b) (m_entries b))"
    using filter_marks[OF k] offsets_view[OF l(2,3)] by (simp add: pending_def flip: drop_map)
  ultimately show thesis using that[of k] l k offsets_view[OF l(1,3)] by simp
qed

lemma backlog_okI:
  "\<lbrakk>length (m_processed b) = NUM_ENTRIES; length (m_entries b) = NUM_ENTRIES; m_currPos b < NUM_ENTRIES;
    rotate (m_currPos b) (m_processed b) = replicate k True @ replicate (NUM_ENTRIES - k) False\<rbrakk> \<Longrightarrow> backlog_ok b"
  unfolding backlog_ok_def by (auto simp: offsets_view)

lemma NUM_ENTRIES_pos [simp]: "0 < NUM_ENTRIES" by (simp add: NUM_ENTRIES_def)

lemma backlog_new_ok: "backlog_ok backlog_new" "pending backlog_new = []"
proof -
  show "backlog_ok backlog_new"
    by (rule backlog_okI[where k = NUM_ENTRIES]) (simp_all add: backlog_new_def)
  show "pending backlog_new = []"
    by (auto simp: pending_def backlog_new_def offsets_def filter_empty_conv)
qed

lemma marks_shift:
  assumes "k \<le> n" "0 < n"
  shows "tl (replicate k True @ replicate (n - k) False) @ [False] = replicate (k - 1) True @ replicate (n - (k - 1)) False"
proof (cases k)
  case 0
  from assms(2) obtain m where "n = Suc m" by (cases n) auto
  with 0 show ?thesis by (simp add: replicate_append_same)
next
  case (Suc j)
  then have "n - j = Suc (n - Suc j)" using assms(1) by simp
  with Suc show ?thesis by (simp add: replicate_append_same)
qed

lemma drop_shift: "k \<le> length xs \<Longrightarrow> xs \<noteq> [] \<Longrightarrow> drop (k - 1) (tl xs @ [e]) = recent (length xs) (drop k xs @ [e])"
  by (cases k; cases xs) (auto simp: recent_def drop_Suc)

lemma addEntry_ring:
  assumes "backlog_ok b"
  shows "backlog_ok (addEntry e b)" "pending (addEntry e b) = recent NUM_ENTRIES (pending b @ [e])"
proof -
  from assms obtain k where b: "length (m_processed b) = NUM_ENTRIES" "length (m_entries b) = NUM_ENTRIES" "m_currPos b < NUM_ENTRIES"
    "k \<le> NUM_ENTRIES" "rotate (m_currPos b) (m_processed b) = replicate k True @ replicate (NUM_ENTRIES - k) False"
    "pending b = drop k (rotate (m_currPos b) (m_entries b))" by (rule backlog_okE)
  let ?b = "addEntry e b" and ?k = "k - 1"
  have p: "rotate (m_currPos ?b) (m_processed ?b) = replicate ?k True @ replicate (NUM_ENTRIES - ?k) False"
    using rotate_overwrite[of "m_currPos b" "m_processed b" False] marks_shift[OF b(4)] b(1,3,5)
    by (simp add: addEntry_def)
  have e: "rotate (m_currPos ?b) (m_entries ?b) = tl (rotate (m_currPos b) (m_entries b)) @ [e]"
    using rotate_overwrite[of "m_currPos b" "m_entries b" e] b(2,3) by (simp add: addEntry_def)
  have l: "length (m_processed ?b) = NUM_ENTRIES" "length (m_entries ?b) = NUM_ENTRIES" "m_currPos ?b < NUM_ENTRIES"
    using b by (simp_all add: addEntry_def)
  show "backlog_ok ?b" using l p by (rule backlog_okI)
  have "pending ?b = drop ?k (rotate (m_currPos ?b) (m_entries ?b))"
    using filter_marks[of "(!) (m_processed ?b)" "offsets (m_currPos ?b)" ?k "NUM_ENTRIES - ?k"] p l
    by (simp add: pending_def offsets_view flip: drop_map)
  then show "pending ?b = recent NUM_ENTRIES (pending b @ [e])"
    using b(2,4,6) e drop_shift[of k "rotate (m_currPos b) (m_entries b)" e] NUM_ENTRIES_pos by (cases "m_entries b") auto
qed

section \<open>Writing the waiting entries out\<close>

lemma output_loop_fold:
  "output_loop n pos b = fold output_entry (map (\<lambda>j. (pos + j) mod NUM_ENTRIES) [0..<n]) b" if "pos < NUM_ENTRIES"
  using that
proof (induction n arbitrary: pos b)
  case (Suc n)
  have "map (\<lambda>j. (pos + j) mod NUM_ENTRIES) [0..<Suc n]
      = pos # map (\<lambda>j. ((pos + 1) mod NUM_ENTRIES + j) mod NUM_ENTRIES) [0..<n]"
    using Suc.prems by (simp add: upt_conv_Cons map_Suc_upt[symmetric] mod_simps del: upt_Suc)
  with Suc.IH[of "(pos + 1) mod NUM_ENTRIES" "output_entry pos b"] show ?case by simp
qed simp

lemma output_entry_fields:
  "m_entries (output_entry pos b) = m_entries b" "m_currPos (output_entry pos b) = m_currPos b"
  "m_processed (output_entry pos b) = (m_processed b)[pos := True]"
  "(m_file (output_entry pos b) = None) = (m_file b = None)"
  by (auto simp: output_entry_def to_file_def Let_def list_update_same_conv list_update_beyond)
    (metis list_update_beyond list_update_id not_le_imp_less)

lemma output_fold:
  assumes "distinct ps" "\<forall>p \<in> set ps. p < length (m_processed b)"
  defines "text \<equiv> concat (map entry_text (map ((!) (m_entries b)) (filter (\<lambda>p. \<not> m_processed b ! p) ps)))"
  shows "fold output_entry ps b = b\<lparr>m_processed := map (\<lambda>p. m_processed b ! p \<or> p \<in> set ps) [0..<length (m_processed b)],
    m_file := map_option (\<lambda>t. t @ text) (m_file b), b_stdout := b_stdout b @ text\<rparr>"
  using assms(1,2) unfolding text_def
proof (induction ps arbitrary: b)
  case Nil
  then show ?case by (simp add: map_nth option.map_ident)
next
  case (Cons p ps)
  let ?b = "output_entry p b"
  note IH = Cons.IH[of ?b]
  have keep: "q \<in> set ps \<Longrightarrow> m_processed ?b ! q = m_processed b ! q" for q
    using Cons.prems by (auto simp: output_entry_fields nth_list_update)
  then have "filter (\<lambda>q. \<not> m_processed ?b ! q) ps = filter (\<lambda>q. \<not> m_processed b ! q) ps"
    by (intro filter_cong) auto
  moreover have "map (\<lambda>q. m_processed ?b ! q \<or> q \<in> set ps) [0..<length (m_processed ?b)]
      = map (\<lambda>q. m_processed b ! q \<or> q \<in> set (p # ps)) [0..<length (m_processed b)]"
    using Cons.prems by (auto simp: output_entry_fields nth_list_update)
  ultimately show ?case
    using IH Cons.prems by (auto simp: output_entry_fields output_entry_def to_file_def Let_def option.map_comp comp_def)
qed


text \<open>The sixth round meets the oldest entry again, which is marked by then.\<close>

lemma output_entries_spec:
  assumes "backlog_ok b"
  defines "text \<equiv> concat (map entry_text (pending b))"
  shows "output_entries b = b\<lparr>m_processed := replicate NUM_ENTRIES True,
    m_file := map_option (\<lambda>t. t @ text) (m_file b), b_stdout := b_stdout b @ text\<rparr>"
proof -
  from assms(1) have l: "length (m_processed b) = NUM_ENTRIES" "m_currPos b < NUM_ENTRIES" by (auto simp: backlog_ok_def)
  let ?ps = "offsets (m_currPos b)"
  have all: "set ?ps = {0..<NUM_ENTRIES}" "distinct ?ps"
  proof -
    have "map ((!) [0..<NUM_ENTRIES]) ?ps = rotate (m_currPos b) [0..<NUM_ENTRIES]" using l by (intro offsets_view) auto
    moreover have "map ((!) [0..<NUM_ENTRIES]) ?ps = ?ps" by (rule map_idI) (auto simp: offsets_def)
    ultimately have "?ps = rotate (m_currPos b) [0..<NUM_ENTRIES]" by simp
    then show "set ?ps = {0..<NUM_ENTRIES}" "distinct ?ps" by simp_all
  qed
  have "map (\<lambda>j. (m_currPos b + j) mod NUM_ENTRIES) [0..<NUM_ENTRIES + 1] = ?ps @ [m_currPos b]"
    using l by (simp add: offsets_def)
  moreover have "output_entries b = fold output_entry (map (\<lambda>j. (m_currPos b + j) mod NUM_ENTRIES) [0..<NUM_ENTRIES + 1]) b"
    unfolding output_entries_def using l(2) by (rule output_loop_fold)
  ultimately have "output_entries b = output_entry (m_currPos b) (fold output_entry ?ps b)"
    by (simp del: upt_Suc)
  also have "fold output_entry ?ps b = b\<lparr>m_processed := replicate NUM_ENTRIES True,
    m_file := map_option (\<lambda>t. t @ text) (m_file b), b_stdout := b_stdout b @ text\<rparr>"
  proof -
    have "map (\<lambda>p. m_processed b ! p \<or> p \<in> set ?ps) [0..<length (m_processed b)] = replicate NUM_ENTRIES True"
      by (rule nth_equalityI) (simp_all add: all l)
    then show ?thesis using all l by (subst output_fold) (simp_all add: text_def pending_def)
  qed
  also have "output_entry (m_currPos b) \<dots> = \<dots>" using l by (simp add: output_entry_def)
  finally show ?thesis .
qed

lemma rotate_replicate [simp]: "rotate n (replicate k x) = replicate k x"
  by (rule nth_equalityI) (simp_all add: nth_rotate)

lemma output_entries_ring:
  assumes "backlog_ok b"
  shows "backlog_ok (output_entries b)" "pending (output_entries b) = []"
proof -
  from assms have "m_currPos b < NUM_ENTRIES" "length (m_entries b) = NUM_ENTRIES" by (auto simp: backlog_ok_def)
  then show "backlog_ok (output_entries b)"
    by (intro backlog_okI[where k = NUM_ENTRIES]) (simp_all add: output_entries_spec[OF assms])
  show "pending (output_entries b) = []"
    by (auto simp: pending_def output_entries_spec[OF assms] offsets_def filter_empty_conv)
qed

interpretation ring: recent_buffer addEntry output_entries pending b_stdout entry_text backlog_ok NUM_ENTRIES
  by unfold_locales (simp_all only: addEntry_ring output_entries_ring NUM_ENTRIES_pos, simp_all add: addEntry_def output_entries_spec)

end
