(* ===== verification/C_Float.thy ===== *)
theory C_Float
  imports Libc
begin

text \<open>
  The binary floating point of C as far as the programs use it: rounding a non-negative rational to the
  nearest number with a significand of \<open>p\<close> bits, ties to even, and \<open>printf\<close>'s \<open>%w.kf\<close>, which rounds the
  exact value of its argument the same way.  A number is a numerator and a denominator.  The exponents
  that occur are far from the ends of the range, so overflow and subnormal numbers are left out.
\<close>

section \<open>Rounding\<close>

text \<open>The integer nearest to \<open>n / d\<close>.\<close>

definition rne :: "nat \<Rightarrow> nat \<Rightarrow> nat" where
  "rne n d = (let q = n div d; r = n mod d in if d < 2 * r \<or> (d = 2 * r \<and> odd q) then q + 1 else q)"

text \<open>Numbers of \<open>2 ^ p\<close> and above are halved until their integer part has \<open>p\<close> bits, small ones doubled.\<close>

function round_big :: "nat \<Rightarrow> nat \<Rightarrow> nat \<Rightarrow> nat" where
  "round_big p n d = (if 0 < d \<and> 2 ^ p * d \<le> n then 2 * round_big p n (2 * d) else rne n d)"
  by pat_completeness auto
termination
proof (relation "measure (\<lambda>(p, n, d). Suc n - d)")
  fix p n d :: nat
  assume a: "0 < d \<and> 2 ^ p * d \<le> n"
  have "1 * d \<le> 2 ^ p * d" by (rule mult_right_mono) simp_all
  with a have "d \<le> n" by linarith
  with a have "Suc n - 2 * d < Suc n - d" by (intro diff_less_mono2) simp_all
  then show "((p, n, 2 * d), (p, n, d)) \<in> measure (\<lambda>(p, n, d). Suc n - d)" by simp
qed simp

function round_small :: "nat \<Rightarrow> nat \<Rightarrow> nat \<Rightarrow> nat \<times> nat" where
  "round_small p n d =
     (if 0 < n \<and> n < 2 ^ (p - 1) * d then (case round_small p (2 * n) d of (a, b) \<Rightarrow> (a, 2 * b)) else (rne n d, 1))"
  by pat_completeness auto
termination
  by (relation "measure (\<lambda>(p, n, d). 2 ^ (p - 1) * d - n)") auto

declare round_big.simps [simp del] round_small.simps [simp del]

definition round_to :: "nat \<Rightarrow> nat \<times> nat \<Rightarrow> nat \<times> nat" where
  "round_to p x = (case x of (n, d) \<Rightarrow> if 2 ^ p * d \<le> n then (round_big p n d, 1) else round_small p n d)"

text \<open>Operations on numbers with \<open>p\<close> bits.\<close>

definition fl_mult :: "nat \<Rightarrow> nat \<times> nat \<Rightarrow> nat \<times> nat \<Rightarrow> nat \<times> nat" where
  "fl_mult p x y = round_to p (fst x * fst y, snd x * snd y)"

definition fl_add :: "nat \<Rightarrow> nat \<times> nat \<Rightarrow> nat \<times> nat \<Rightarrow> nat \<times> nat" where
  "fl_add p x y = round_to p (fst x * snd y + fst y * snd x, snd x * snd y)"

definition fl_div :: "nat \<Rightarrow> nat \<times> nat \<Rightarrow> nat \<times> nat \<Rightarrow> nat \<times> nat" where
  "fl_div p x y = round_to p (fst x * snd y, snd x * fst y)"

text \<open>Conversion from and to an unsigned integer.\<close>

definition fl_of :: "nat \<Rightarrow> nat \<Rightarrow> nat \<times> nat" where
  "fl_of p n = round_to p (n, 1)"

definition fl_trunc :: "nat \<times> nat \<Rightarrow> nat" where
  "fl_trunc x = fst x div snd x"

text \<open>\<open>%w.kf\<close> with \<open>k\<close> positive.\<close>

definition show_fixed :: "nat \<Rightarrow> nat \<Rightarrow> nat \<times> nat \<Rightarrow> string" where
  "show_fixed w k x =
     (let m = rne (fst x * 10 ^ k) (snd x) in
      pad_left CHR '' '' w (show_dec (m div 10 ^ k) @ ''.'' @ pad_left CHR ''0'' k (show_dec (m mod 10 ^ k))))"

section \<open>Numbers that need no rounding\<close>

lemma rne_dvd: "0 < d \<Longrightarrow> d dvd n \<Longrightarrow> rne n d = n div d"
  by (auto simp: rne_def Let_def)

lemma rne_error:
  assumes "0 < d"
  shows "2 * (rne n d * d) \<le> 2 * n + d" "2 * n \<le> 2 * (rne n d * d) + d"
proof -
  define q r where "q = n div d" and "r = n mod d"
  have n: "n = q * d + r" "r < d" using assms by (simp_all add: q_def r_def)
  have rn: "rne n d = (if d < 2 * r \<or> (d = 2 * r \<and> odd q) then q + 1 else q)"
    by (simp add: rne_def q_def r_def Let_def)
  show "2 * (rne n d * d) \<le> 2 * n + d" "2 * n \<le> 2 * (rne n d * d) + d"
    using n rn by (auto simp: algebra_simps split: if_splits)
qed

text \<open>A quotient that is an integer below \<open>2 ^ p\<close> stays the same.\<close>

lemma round_small_int:
  assumes "0 < d"
  shows "case round_small p (k * d) d of (a, b) \<Rightarrow> a = k * b \<and> 0 < b"
proof -
  have "case round_small p n d of (a, b) \<Rightarrow> a * d = n * b \<and> 0 < b" if "d dvd n" for n
    using assms that
  proof (induction p n d rule: round_small.induct)
    case (1 p n d)
    show ?case
    proof (cases "0 < n \<and> n < 2 ^ (p - 1) * d")
      case True
      obtain a b where ab: "round_small p (2 * n) d = (a, b)" by fastforce
      with "1.IH"[OF True] "1.prems" have "a * d = 2 * n * b \<and> 0 < b" by simp
      then show ?thesis using True ab by (simp add: round_small.simps[of p n d])
    next
      case False
      then have "round_small p n d = (rne n d, 1)" by (subst round_small.simps) auto
      with "1.prems" show ?thesis by (simp add: rne_dvd)
    qed
  qed
  from this[of "k * d"] assms show ?thesis by (auto split: prod.splits)
qed

lemma round_to_int: "0 < d \<Longrightarrow> k < 2 ^ p \<Longrightarrow> \<exists>b > 0. round_to p (k * d, d) = (k * b, b)"
  using round_small_int[where d = d and p = p and k = k] by (auto simp: round_to_def split: prod.splits)

text \<open>The relative error of a number below \<open>2 ^ p\<close> is at most one in \<open>2 ^ p\<close>.\<close>

lemma round_small_error:
  assumes "0 < d" "0 < p"
  shows "case round_small p n d of (a, b) \<Rightarrow>
    0 < b \<and> 2 ^ p * (a * d) \<le> (2 ^ p + 1) * (n * b) \<and> 2 ^ p * (n * b) \<le> 2 ^ p * (a * d) + n * b"
  using assms
proof (induction p n d rule: round_small.induct)
  case (1 p n d)
  have half: "(2 :: nat) ^ p = 2 * 2 ^ (p - 1)" if "0 < p" for p :: nat using that by (cases p) simp_all
  show ?case
  proof (cases "0 < n \<and> n < 2 ^ (p - 1) * d")
    case True
    obtain a b where ab: "round_small p (2 * n) d = (a, b)" by fastforce
    with "1.IH"[OF True] "1.prems" show ?thesis
      using True by (simp add: round_small.simps[of p n d] algebra_simps)
  next
    case False
    then have r: "round_small p n d = (rne n d, 1)" by (subst round_small.simps) auto
    note e = rne_error[OF "1.prems"(1), of n]
    show ?thesis
    proof (cases "n = 0")
      case True
      then show ?thesis using r by (simp add: rne_def)
    next
      case False
      with \<open>\<not> (0 < n \<and> n < 2 ^ (p - 1) * d)\<close> have big: "2 ^ (p - 1) * d \<le> n" by simp
      have "2 ^ (p - 1) * (2 * (rne n d * d)) \<le> 2 ^ (p - 1) * (2 * n + d)" by (rule mult_left_mono[OF e(1)]) simp
      moreover have "2 ^ (p - 1) * (2 * n) \<le> 2 ^ (p - 1) * (2 * (rne n d * d) + d)" by (rule mult_left_mono[OF e(2)]) simp
      ultimately show ?thesis using big r half[OF "1.prems"(2)] by (simp add: algebra_simps)
    qed
  qed
qed

text \<open>Below \<open>2 ^ p / d\<close> a quotient by \<open>d\<close> is not rounded up to the next integer.\<close>

lemma trunc_round_to:
  assumes "0 < d" "0 < p" "n < 2 ^ p"
  shows "fl_trunc (round_to p (n, d)) = n div d"
proof (cases "d dvd n")
  case True
  then obtain k where k: "n = k * d" by (auto simp: dvd_def mult.commute)
  then have "k < 2 ^ p" using assms by (metis leD leI le_trans mult_le_mono2 nat_mult_1_right Suc_leI One_nat_def)
  from round_to_int[OF assms(1) this] k assms(1) show ?thesis by (auto simp: fl_trunc_def)
next
  case False
  obtain a b where ab: "round_small p n d = (a, b)" by fastforce
  have small: "\<not> 2 ^ p * d \<le> n"
    using assms(1,3) by (metis leD leI le_trans mult_le_mono2 nat_mult_1_right Suc_leI One_nat_def)
  have e: "0 < b" "2 ^ p * (a * d) \<le> 2 ^ p * (n * b) + n * b" "2 ^ p * (n * b) \<le> 2 ^ p * (a * d) + n * b"
    using round_small_error[OF assms(1,2), of n] ab by (auto simp: algebra_simps)
  have lt: "n * b < 2 ^ p * b" using assms(3) e(1) by simp
  define k where "k = n div d"
  have kd: "k * d + 1 \<le> n" "n + 1 \<le> (k + 1) * d"
  proof -
    have "n mod d < d" "0 < n mod d" using assms(1) False by (auto simp: dvd_eq_mod_eq_0)
    moreover have "n = k * d + n mod d" by (simp add: k_def)
    ultimately show "k * d + 1 \<le> n" "n + 1 \<le> (k + 1) * d" by (simp_all add: algebra_simps)
  qed
  have up: "a * d < n * b + b"
  proof -
    have "2 ^ p * (a * d) < 2 ^ p * (n * b + b)" using e(2) lt unfolding distrib_left by linarith
    then show ?thesis by simp
  qed
  have down: "n * b < a * d + b"
  proof -
    have "2 ^ p * (n * b) < 2 ^ p * (a * d + b)" using e(3) lt unfolding distrib_left by linarith
    then show ?thesis by simp
  qed
  have "a < (k + 1) * b"
  proof -
    have "(n + 1) * b \<le> (k + 1) * d * b" using kd(2) by (rule mult_right_mono) simp
    with up have "a * d < (k + 1) * b * d" by (simp add: algebra_simps)
    then show ?thesis by simp
  qed
  moreover have "k * b \<le> a"
  proof -
    have "(k * d + 1) * b \<le> n * b" using kd(1) by (rule mult_right_mono) simp
    with down have "k * b * d < a * d + 1 * d"
      using assms(1) by (simp add: algebra_simps)
    then have "k * b * d < (a + 1) * d" by (simp add: algebra_simps)
    then have "k * b < a + 1" unfolding mult_less_cancel2 by simp
    then show ?thesis by simp
  qed
  ultimately have "a div b = k" using e(1) by (intro div_nat_eqI) (simp_all add: algebra_simps)
  then show ?thesis using small ab by (simp add: fl_trunc_def round_to_def k_def)
qed

lemma fl_of_int: "n < 2 ^ p \<Longrightarrow> \<exists>b > 0. fl_of p n = (n * b, b)"
  using round_to_int[of 1 n p] by (simp add: fl_of_def)

end
