(* ===== verification/Buffer_Profile.thy ===== *)
theory Buffer_Profile
  imports Backlog C_Float Nt2json_Decode "HOL-Library.Monad_Syntax"
begin

text \<open>
  The readings of \<open>bufferProfile.cpp\<close> and the entry that is made of them: the use of the host buffers of
  every stream (\<open>readStreamStats\<close>), the load of the processors (\<open>readCPUStats\<close>), the throughput of the
  ports (\<open>getPortSpeed\<close>, \<open>getPortsStats\<close>) and the tables of \<open>outputStats\<close>.

  What the library reports for a host buffer is a record of numbers; the arithmetic on them before they
  are narrowed is that of the natural numbers.  Local arrays that the program does not initialise are
  parameters.  A result \<open>None\<close> is undefined behaviour: an access outside of an array, a division by zero;
  for \<open>find_used_stream\<close> it is a search that never ends.  A status of 0 is \<open>NT_SUCCESS\<close>.
\<close>

section \<open>Streams\<close>

definition BP_MAX_STREAMS :: nat where "BP_MAX_STREAMS = 256"
definition BP_HIGHWATER :: u32 where "BP_HIGHWATER = 991"

record hbStats =
  hs_adapterNo :: u32
  hs_obFillLevel :: u32
  hs_hbFillLevel :: u32
  hs_numaNode :: u32
  hs_rxPktsPrev :: u64
  hs_rxPktsTotal :: u64
  hs_dropPrev :: u64
  hs_dropTotal :: u64
  hs_rxBytesPrev :: u64
  hs_rxBytesTotal :: u64

record streamStats =
  st_alert :: bool
  st_hb :: "hbStats list"
  st_dropCurr :: u64
  st_rxPktsCurr :: u64
  st_rxBytesCurr :: u64
  st_rxPktsRate :: u32
  st_aveOBFillLevel :: u32
  st_aveHBFillLevel :: u32

text \<open>What the library reports for one host buffer.\<close>

record hb_reading =
  hr_adapterNo :: u32
  hr_numaNode :: u32
  hr_used :: nat
  hr_size :: nat
  hr_enQueuedAdapter :: nat
  hr_deQueued :: nat
  hr_enQueued :: nat
  hr_rx_frames :: u64
  hr_rx_bytes :: u64
  hr_drop_frames :: u64

definition hr_bufSize :: "hb_reading \<Rightarrow> u32" where
  "hr_bufSize u = of_nat (hr_enQueuedAdapter u div 1024 + hr_deQueued u div 1024 + hr_enQueued u div 1024) - BP_HIGHWATER"

definition update_hbStats :: "hb_reading \<Rightarrow> hbStats \<Rightarrow> hbStats" where
  "update_hbStats u h =
     h\<lparr>hs_adapterNo := hr_adapterNo u, hs_numaNode := hr_numaNode u,
       hs_obFillLevel := of_nat (100 * hr_used u div hr_size u),
       hs_hbFillLevel := of_nat (100 * hr_deQueued u div 1024 div unat (hr_bufSize u)),
       hs_rxPktsPrev := hs_rxPktsTotal h, hs_rxBytesPrev := hs_rxBytesTotal h, hs_dropPrev := hs_dropTotal h,
       hs_rxPktsTotal := hr_rx_frames u, hs_rxBytesTotal := hr_rx_bytes u, hs_dropTotal := hr_drop_frames u\<rparr>"

text \<open>The body of the loop over the host buffers, for host buffer \<open>i\<close>.\<close>

definition read_hostbuffer :: "hb_reading \<Rightarrow> nat \<Rightarrow> streamStats \<Rightarrow> streamStats option" where
  "read_hostbuffer u i s =
     (if length (st_hb s) \<le> i \<or> hr_size u = 0 \<or> hr_bufSize u = 0 then None
      else let h = update_hbStats u (st_hb s ! i) in
        Some (s\<lparr>st_hb := (st_hb s)[i := h],
                st_alert := 0 < hs_dropTotal h - hs_dropPrev h,
                st_rxPktsCurr := hs_rxPktsTotal h - hs_rxPktsPrev h,
                st_rxBytesCurr := hs_rxBytesTotal h - hs_rxBytesPrev h,
                st_dropCurr := hs_dropTotal h - hs_dropPrev h,
                st_aveOBFillLevel := st_aveOBFillLevel s + hs_obFillLevel h,
                st_aveHBFillLevel := st_aveHBFillLevel s + hs_hbFillLevel h\<rparr>))"

fun read_hostbuffers :: "hb_reading list \<Rightarrow> nat \<Rightarrow> streamStats \<Rightarrow> streamStats option" where
  "read_hostbuffers [] i s = Some s"
| "read_hostbuffers (u # us) i s = do { s \<leftarrow> read_hostbuffer u i s; read_hostbuffers us (i + 1) s }"

definition read_streamStats :: "hb_reading list \<Rightarrow> streamStats \<Rightarrow> streamStats option" where
  "read_streamStats us s = do {
     s \<leftarrow> read_hostbuffers us 0 (s\<lparr>st_aveOBFillLevel := 0, st_aveHBFillLevel := 0\<rparr>);
     Some (s\<lparr>st_aveOBFillLevel := st_aveOBFillLevel s div of_nat (length us),
             st_aveHBFillLevel := st_aveHBFillLevel s div of_nat (length us)\<rparr>) }"

text \<open>
  The \<open>do\<close> loop that looks for the next stream with host buffers.  The stream is asked for by an 8-bit
  number; \<open>usage\<close> answers with the host buffers in use, or the reading fails.
\<close>

datatype found = Read_failed | Found nat "hb_reading list"

partial_function (option) find_used_stream :: "(nat \<Rightarrow> hb_reading list option) \<Rightarrow> nat \<Rightarrow> found option" where
  "find_used_stream usage stream_id =
     (case usage (stream_id mod 256) of
        None \<Rightarrow> Some Read_failed
      | Some us \<Rightarrow> if us = [] then find_used_stream usage (stream_id + 1) else Some (Found stream_id us))"

text \<open>The static \<open>firstTime\<close>, the caller's \<open>alert\<close> and the array of streams.\<close>

record stream_reader =
  sr_firstTime :: bool
  sr_alert :: bool
  sr_stats :: "streamStats list"

text \<open>How the program ends early: an exit status, the same after a signal to another process, undefined
  behaviour, or not at all.\<close>

datatype bp_stop = Bp_exit int | Bp_killed int | Bp_fault | Bp_hang

text \<open>The loop over the streams; \<open>False\<close> when a reading failed.\<close>

fun bp_stream_loop :: "(nat \<Rightarrow> hb_reading list option) \<Rightarrow> nat \<Rightarrow> nat \<Rightarrow> stream_reader \<Rightarrow> bp_stop + bool \<times> stream_reader" where
  "bp_stream_loop usage 0 stream_id r = Inr (True, r)"
| "bp_stream_loop usage (Suc n) stream_id r =
     (case find_used_stream usage stream_id of
        None \<Rightarrow> Inl Bp_hang
      | Some Read_failed \<Rightarrow> Inr (False, r)
      | Some (Found i us) \<Rightarrow>
          if length (sr_stats r) \<le> i then Inl Bp_fault
          else case read_streamStats us (sr_stats r ! i) of
            None \<Rightarrow> Inl Bp_fault
          | Some s \<Rightarrow>
              bp_stream_loop usage n (i + 1)
                (r\<lparr>sr_stats := (sr_stats r)[i := s],
                   sr_alert := if \<not> sr_firstTime r \<and> st_alert s then True else sr_alert r\<rparr>))"

text \<open>\<open>readStreamStats\<close>; \<open>count\<close> is the number of streams, when it can be read.\<close>

definition bp_readStreamStats ::
  "nat option \<Rightarrow> (nat \<Rightarrow> hb_reading list option) \<Rightarrow> stream_reader \<Rightarrow> bp_stop + nat \<times> stream_reader" where
  "bp_readStreamStats count usage r =
     (case count of
        None \<Rightarrow> Inr (0, r)
      | Some n \<Rightarrow>
          (case bp_stream_loop usage n 0 r of
             Inl e \<Rightarrow> Inl e
           | Inr (ok, r) \<Rightarrow> Inr (if ok then (n, r\<lparr>sr_firstTime := False\<rparr>) else (0, r))))"

section \<open>Processors\<close>

definition MAX_CPU :: nat where "MAX_CPU = 128"

text \<open>
  \<open>fscanf\<close> of a word and eleven numbers into a row of the array: a word of ten characters or more does not
  fit, and from the first number that is missing on the row keeps what it holds.
\<close>

fun scan_longs :: "u64 list \<Rightarrow> string \<Rightarrow> u64 list \<times> string" where
  "scan_longs [] s = ([], dropWhile is_space s)"
| "scan_longs (v # vs) s =
     (case scan_number 10 s of
        None \<Rightarrow> (v # vs, dropWhile is_space s)
      | Some (neg, m, rest) \<Rightarrow>
          (let (ws, s') = scan_longs vs rest in (word_of_int (st_value (strtol 10 s)) # ws, s')))"

definition scan_cpu_line :: "u64 list \<Rightarrow> string \<Rightarrow> (u64 list \<times> string) option" where
  "scan_cpu_line row s =
     (let s = dropWhile is_space s; w = takeWhile (\<lambda>c. \<not> is_space c) s in
      if w = [] then Some (row, s)
      else if 9 < length w then None
      else Some (scan_longs row (drop (length w) s)))"

fun scan_cpu_lines :: "u64 list list \<Rightarrow> string \<Rightarrow> u64 list list option" where
  "scan_cpu_lines [] s = Some []"
| "scan_cpu_lines (row # rows) s = do {
     (row, s) \<leftarrow> scan_cpu_line row s;
     rows \<leftarrow> scan_cpu_lines rows s;
     Some (row # rows) }"

record cpu_reader =
  cr_numCPU :: nat
  cr_prevTime :: u64
  cr_prevCpu :: "u64 list list"

text \<open>The rows of \<open>/proc/stat\<close> for \<open>n\<close> processors and their sum; \<open>cpu\<close> is what the array holds before.\<close>

definition read_proc_stat :: "nat \<Rightarrow> u64 list list \<Rightarrow> string option \<Rightarrow> u64 list list option" where
  "read_proc_stat n cpu proc_stat = do {
     s \<leftarrow> proc_stat;
     if MAX_CPU < n + 1 \<or> length cpu < n + 1 then None else scan_cpu_lines (take (n + 1) cpu) s }"

definition busy :: "u64 list \<Rightarrow> u64" where
  "busy row = row ! 0 + row ! 1 + row ! 2"

text \<open>The call with a null pointer, and the calls with an array.\<close>

definition readCPUStats_init :: "nat \<Rightarrow> u64 \<Rightarrow> u64 list list \<Rightarrow> string option \<Rightarrow> cpu_reader option" where
  "readCPUStats_init numCPU time cpu proc_stat = do {
     rows \<leftarrow> read_proc_stat numCPU cpu proc_stat;
     Some \<lparr>cr_numCPU = numCPU, cr_prevTime = time, cr_prevCpu = rows\<rparr> }"

definition readCPUStats ::
  "u64 \<Rightarrow> u64 list list \<Rightarrow> string option \<Rightarrow> u64 list \<Rightarrow> cpu_reader \<Rightarrow> (nat \<times> u64 list \<times> cpu_reader) option" where
  "readCPUStats time cpu proc_stat util c = do {
     rows \<leftarrow> read_proc_stat (cr_numCPU c) cpu proc_stat;
     if time = cr_prevTime c then None
     else
       (let u = map2 (\<lambda>row prev. (busy row - busy prev) div (time - cr_prevTime c)) rows (cr_prevCpu c)
        in Some (cr_numCPU c, u @ drop (length u) util, c\<lparr>cr_prevTime := time, cr_prevCpu := rows\<rparr>)) }"

section \<open>Ports\<close>

definition BP_MAX_PORTS :: nat where "BP_MAX_PORTS = 32"

fun port_mbit :: "NtLinkSpeed_e \<Rightarrow> u64" where
  "port_mbit NT_LINK_SPEED_10M = 10"
| "port_mbit NT_LINK_SPEED_100M = 100"
| "port_mbit NT_LINK_SPEED_1G = 1000"
| "port_mbit NT_LINK_SPEED_10G = 10000"
| "port_mbit NT_LINK_SPEED_40G = 40000"
| "port_mbit NT_LINK_SPEED_100G = 100000"
| "port_mbit _ = 0"

text \<open>The loop over the ports, with the ports that are left; a failed read carries its status.\<close>

fun port_speeds :: "(nat \<Rightarrow> int \<times> NtLinkSpeed_e) \<Rightarrow> nat list \<Rightarrow> u64 list \<Rightarrow> bp_stop + int \<times> u64 list" where
  "port_speeds read [] portSpeed = Inr (0, portSpeed)"
| "port_speeds read (port # ports) portSpeed =
     (case read port of (status, speed) \<Rightarrow>
        if status \<noteq> 0 then Inr (status, portSpeed)
        else if length portSpeed \<le> port then Inl Bp_fault
        else port_speeds read ports (portSpeed[port := port_mbit speed]))"

record info_calls =
  ic_open :: int
  ic_system :: "int \<times> nat"
  ic_port :: "nat \<Rightarrow> int \<times> NtLinkSpeed_e"
  ic_close :: int

text \<open>\<open>getPortSpeed\<close>: its result, the number of ports and their speeds.\<close>

definition getPortSpeed :: "info_calls \<Rightarrow> u64 list \<Rightarrow> bp_stop + int \<times> nat \<times> u64 list" where
  "getPortSpeed ic portSpeed =
     (if ic_open ic \<noteq> 0 \<or> fst (ic_system ic) \<noteq> 0 then Inr (-1, 0, portSpeed)
      else case port_speeds (ic_port ic) [0..<snd (ic_system ic)] portSpeed of
        Inl e \<Rightarrow> Inl e
      | Inr (status, portSpeed) \<Rightarrow>
          if status \<noteq> 0 then Inr (status, 0, portSpeed)
          else if ic_close ic \<noteq> 0 then Inr (-1, 0, portSpeed)
          else Inr (0, snd (ic_system ic), portSpeed))"

text \<open>
  The counters of a port in \<open>double\<close>; a number of packets of \<open>2 ^ 63\<close> and above, which the program takes for
  negative, is left out.
\<close>

definition port_Mbps :: "u64 \<Rightarrow> u64 \<Rightarrow> u64" where
  "port_Mbps pkts bytes =
     of_nat (fl_trunc (fl_div 53
       (fl_mult 53 (800, 1) (fl_add 53 (fl_mult 53 (fl_of 53 (unat pkts)) (20, 1)) (fl_of 53 (unat bytes))))
       (100000000, 1)))"

definition port_util :: "u64 \<Rightarrow> u64 \<Rightarrow> u64" where
  "port_util mbps speed =
     (if 0 < speed
      then of_nat (fl_trunc (fl_div 53 (fl_mult 53 (100, 1) (fl_of 53 (unat mbps))) (fl_of 53 (unat speed))))
      else 0)"

record port_reading =
  pr_valid :: bool
  pr_pkts :: u64
  pr_octets :: u64
  pr_overflow :: u64

record port_arrays =
  pa_rxPkts :: "u64 list"
  pa_rxDropped :: "u64 list"
  pa_rxUtilization :: "u64 list"
  pa_rxMbps :: "u64 list"

definition read_port :: "u64 list \<Rightarrow> port_reading \<Rightarrow> nat \<Rightarrow> port_arrays \<Rightarrow> port_arrays option" where
  "read_port portSpeed r port a =
     (if \<not> pr_valid r then Some a
      else if BP_MAX_PORTS \<le> port \<or> 2 ^ 63 \<le> pr_pkts r then None
      else let mbps = port_Mbps (pr_pkts r) (pr_octets r) in
        Some (a\<lparr>pa_rxPkts := (pa_rxPkts a)[port := pr_pkts r],
                pa_rxDropped := (pa_rxDropped a)[port := pr_overflow r],
                pa_rxMbps := (pa_rxMbps a)[port := mbps],
                pa_rxUtilization := (pa_rxUtilization a)[port := port_util mbps (portSpeed ! port)]\<rparr>))"

fun read_ports :: "u64 list \<Rightarrow> (nat \<Rightarrow> port_reading) \<Rightarrow> nat list \<Rightarrow> port_arrays \<Rightarrow> port_arrays option" where
  "read_ports portSpeed rd [] a = Some a"
| "read_ports portSpeed rd (port # ports) a = do {
     a \<leftarrow> read_port portSpeed (rd port) port a;
     read_ports portSpeed rd ports a }"

definition getPortsStats :: "int \<times> (nat \<Rightarrow> port_reading) \<Rightarrow> nat \<Rightarrow> u64 list \<Rightarrow> port_arrays \<Rightarrow> bp_stop + port_arrays" where
  "getPortsStats stat numPorts portSpeed a =
     (if fst stat \<noteq> 0 then Inl (Bp_exit (-1))
      else case read_ports portSpeed (snd stat) [0..<numPorts] a of None \<Rightarrow> Inl Bp_fault | Some a \<Rightarrow> Inr a)"

section \<open>The entry of a second\<close>

record sysStats =
  sy_time :: u64
  sy_numCPU :: nat
  sy_numStreams :: nat
  sy_CPUutil :: "u64 list"
  sy_streamStats :: "streamStats list"

definition bp_decodeTimeStamp :: "(int \<Rightarrow> tm) \<Rightarrow> u64 \<Rightarrow> string" where
  "bp_decodeTimeStamp lt ts = time_stamp_text (lt (sint (ts div 100000000))) ts"

text \<open>\<open>formatRate\<close>: the choice is made in 64 bits, the value is a \<open>float\<close>.\<close>

definition formatRate :: "u64 \<Rightarrow> string" where
  "formatRate bytes =
     (let t = 8 * bytes div 1000;
          x = fl_div 24 (fl_mult 24 (8, 1) (fl_of 24 (unat bytes))) (1000000000, 1)
      in if t < 1000000 then show_fixed 8 3 x
         else if t < 10000000 then show_fixed 8 2 x
         else show_fixed 8 1 x)"

text \<open>The conversions \<open>%8ld\<close>, \<open>%8d\<close> and \<open>%4ld\<close> of unsigned numbers.\<close>

definition ld :: "nat \<Rightarrow> u64 \<Rightarrow> string" where "ld w v = pad_left CHR '' '' w (show_int (sint v))"
definition d8 :: "u32 \<Rightarrow> string" where "d8 v = pad_left CHR '' '' 8 (show_int (sint v))"

text \<open>A table row grows by way of a copy, both buffers with 2048 bytes.\<close>

definition append2048 :: "string \<Rightarrow> string \<Rightarrow> string" where
  "append2048 s t = fst (snprintf 2048 (fst (snprintf 2048 s) @ t))"

definition stream_cell :: "(streamStats \<Rightarrow> string) \<Rightarrow> streamStats list \<Rightarrow> nat \<Rightarrow> string" where
  "stream_cell f ss i = '' '' @ f (ss ! i) @ (if i mod 8 = 7 then nl else '' '')"

definition stream_table :: "(streamStats \<Rightarrow> string) \<Rightarrow> streamStats list \<Rightarrow> nat \<Rightarrow> string" where
  "stream_table f ss n = foldl (\<lambda>s i. append2048 s (stream_cell f ss i)) [] [0..<n]"

definition port_row :: "u64 list \<Rightarrow> nat \<Rightarrow> string" where
  "port_row mbps n = foldl (\<lambda>s i. append2048 s ('' '' @ ld 8 (mbps ! i) @ '' '')) [] [0..<n]"

text \<open>The buffer of the processors has 4096 bytes and is written with \<open>sprintf\<close>.\<close>

definition cpu_cell :: "u64 list \<Rightarrow> nat \<Rightarrow> string" where
  "cpu_cell util i = '' '' @ ld 4 (util ! i) @ (if i mod 16 = 0 then nl else '' '')"

definition append_cpu :: "u64 list \<Rightarrow> string option \<Rightarrow> nat \<Rightarrow> string option" where
  "append_cpu util acc i = do {
     s \<leftarrow> acc;
     let t = fst (snprintf 2048 s) @ cpu_cell util i;
     if length t < 4096 then Some t else None }"

definition cpu_table :: "u64 list \<Rightarrow> nat \<Rightarrow> string option" where
  "cpu_table util n = foldl (append_cpu util) (Some []) [1..<n + 1]"

text \<open>
  The strings that \<open>outputStats\<close> makes.  It prints the time into itself, which works with the usual
  libraries.  The five tables of the streams grow in one loop; they are independent.
\<close>

definition make_entry :: "(int \<Rightarrow> tm) \<Rightarrow> sysStats \<Rightarrow> nat \<Rightarrow> u64 list \<Rightarrow> log_entry option" where
  "make_entry lt sys numPorts rxMbps =
     (let ss = sy_streamStats sys; n = sy_numStreams sys in
      if length rxMbps < numPorts \<or> 8 \<le> length (show_dec n) \<or> length ss < n \<or> length (sy_CPUutil sys) < sy_numCPU sys + 1 then None
      else do {
        utilBuf \<leftarrow> cpu_table (sy_CPUutil sys) (sy_numCPU sys);
        Some \<lparr>e_time = bp_decodeTimeStamp lt (sy_time sys) @ nl,
              e_rxMbpsStr = port_row rxMbps numPorts,
              e_numStreams = show_dec n,
              e_pktsStr = stream_table (\<lambda>s. ld 8 (st_rxPktsCurr s)) ss n,
              e_pktsRateStr = stream_table (\<lambda>s. formatRate (st_rxBytesCurr s)) ss n,
              e_dropStr = stream_table (\<lambda>s. ld 8 (st_dropCurr s)) ss n,
              e_hbFillStr = stream_table (\<lambda>s. d8 (st_aveHBFillLevel s)) ss n,
              e_obFillStr = stream_table (\<lambda>s. d8 (st_aveOBFillLevel s)) ss n,
              e_utilString = utilBuf\<rparr> })"

text \<open>\<open>outputStats\<close>; the state is the static \<open>prevAlert\<close> and the backlog.\<close>

definition bp_outputStats ::
  "(int \<Rightarrow> tm) \<Rightarrow> sysStats \<Rightarrow> nat \<Rightarrow> u64 list \<Rightarrow> bool \<Rightarrow> bool \<times> backlog \<Rightarrow> (bool \<times> backlog) option" where
  "bp_outputStats lt sys numPorts rxMbps alert st = (case st of (prevAlert, b) \<Rightarrow> do {
     e \<leftarrow> make_entry lt sys numPorts rxMbps;
     let b = addEntry e b;
     b \<leftarrow> if alert \<or> prevAlert then backlog_output (prevAlert \<and> \<not> alert) b else Some b;
     Some (alert, b) })"

end
