(* ===== verification/Buffer_Profile_Main.thy ===== *)
theory Buffer_Profile_Main
  imports Buffer_Profile
begin

text \<open>
  \<open>main\<close> of \<open>bufferProfile.cpp\<close>: the command line, the daemon's process, the loop that takes one reading
  a second, and the end.  What a second meets is a record: the clock, the text of \<open>/proc/stat\<close>, the answers
  of the library and what the local arrays hold.  The list of seconds ends when a signal clears
  \<open>g_appRunning\<close>.  The process identifier file is its number, if there is one.  Messages of \<open>main\<close> itself
  are left out.
\<close>

section \<open>One second\<close>

record bp_second =
  bs_time :: u64
  bs_cpu_time :: u64
  bs_cpu_rows :: "u64 list list"
  bs_proc_stat :: "string option"
  bs_count :: "nat option"
  bs_usage :: "nat \<Rightarrow> hb_reading list option"
  bs_stat :: "int \<times> (nat \<Rightarrow> port_reading)"
  bs_arrays :: port_arrays

record bp_readings =
  bp_cpu :: cpu_reader
  bp_util :: "u64 list"
  bp_streams :: stream_reader

record bp_state = bp_readings +
  bp_prevAlert :: bool
  bp_backlog :: backlog

text \<open>The readings of a second: what is known of the system, the throughput of the ports, and the alert.\<close>

definition read_second ::
  "bool \<Rightarrow> nat \<Rightarrow> u64 list \<Rightarrow> bp_second \<Rightarrow> bp_readings \<Rightarrow> bp_stop + (sysStats \<times> u64 list \<times> bool) \<times> bp_readings" where
  "read_second continuous numPorts portSpeed sec rd =
     (case readCPUStats (bs_cpu_time sec) (bs_cpu_rows sec) (bs_proc_stat sec) (bp_util rd) (bp_cpu rd) of
        None \<Rightarrow> Inl Bp_fault
      | Some (numCPU, util, cpu) \<Rightarrow>
     (case bp_readStreamStats (bs_count sec) (bs_usage sec) ((bp_streams rd)\<lparr>sr_alert := False\<rparr>) of
        Inl e \<Rightarrow> Inl e
      | Inr (numStreams, r) \<Rightarrow>
     (case getPortsStats (bs_stat sec) numPorts portSpeed (bs_arrays sec) of
        Inl e \<Rightarrow> Inl e
      | Inr a \<Rightarrow>
          Inr ((\<lparr>sy_time = bs_time sec, sy_numCPU = numCPU, sy_numStreams = numStreams, sy_CPUutil = util,
                 sy_streamStats = sr_stats r\<rparr>, pa_rxMbps a, continuous \<or> sr_alert r),
               \<lparr>bp_cpu = cpu, bp_util = util, bp_streams = r\<rparr>))))"

definition second_step ::
  "(int \<Rightarrow> tm) \<Rightarrow> bool \<Rightarrow> nat \<Rightarrow> u64 list \<Rightarrow> bp_second \<Rightarrow> bp_state \<Rightarrow> bp_stop + bp_state" where
  "second_step lt continuous numPorts portSpeed sec st =
     (case read_second continuous numPorts portSpeed sec (bp_readings.truncate st) of
        Inl e \<Rightarrow> Inl e
      | Inr ((sys, rxMbps, alert), rd) \<Rightarrow>
          (case bp_outputStats lt sys numPorts rxMbps alert (bp_prevAlert st, bp_backlog st) of
             None \<Rightarrow> Inl Bp_fault
           | Some (prev, b) \<Rightarrow> Inr (bp_readings.extend rd \<lparr>bp_prevAlert = prev, bp_backlog = b\<rparr>)))"

fun bp_loop :: "(int \<Rightarrow> tm) \<Rightarrow> bool \<Rightarrow> nat \<Rightarrow> u64 list \<Rightarrow> bp_second list \<Rightarrow> bp_state \<Rightarrow> bp_stop + bp_state" where
  "bp_loop lt continuous numPorts portSpeed [] st = Inr st"
| "bp_loop lt continuous numPorts portSpeed (sec # secs) st =
     (case second_step lt continuous numPorts portSpeed sec st of
        Inl e \<Rightarrow> Inl e
      | Inr st \<Rightarrow> bp_loop lt continuous numPorts portSpeed secs st)"

section \<open>The command line\<close>

record bp_opts =
  bo_filename :: "string option"
  bo_daemon :: bool
  bo_continuous :: bool

definition bp_opts_init :: bp_opts where
  "bp_opts_init = \<lparr>bo_filename = None, bo_daemon = False, bo_continuous = False\<rparr>"

text \<open>\<open>readPIDFile\<close>: 0 without a file.  \<open>writePIDFile\<close> rewinds the file before it tests that it was opened, so
  a file that cannot be opened is undefined behaviour.\<close>

definition bp_readPIDFile :: "int option \<Rightarrow> int" where
  "bp_readPIDFile pidfile = (case pidfile of None \<Rightarrow> 0 | Some p \<Rightarrow> p)"

definition bp_writePIDFile :: "bool \<Rightarrow> int \<Rightarrow> int option" where
  "bp_writePIDFile writable pid = (if writable then Some pid else None)"

text \<open>The options as \<open>getopt_long\<close> delivers them; the name of the file is copied into 256 bytes.
  \<open>-k\<close> sends \<open>SIGUSR1\<close> to the process of the file.\<close>

fun bp_options ::
  "bool \<Rightarrow> (char \<times> string) list \<Rightarrow> int option \<Rightarrow> bp_opts \<Rightarrow> (bp_stop \<times> int option) + bp_opts" where
  "bp_options writable [] pidfile o' = Inr o'"
| "bp_options writable ((c, arg) # as) pidfile o' =
     (if c = CHR ''h'' then Inl (Bp_exit 1, pidfile)
      else if c = CHR ''f'' then
        (if 256 \<le> length arg then Inl (Bp_fault, pidfile)
         else bp_options writable as pidfile (o'\<lparr>bo_filename := Some arg\<rparr>))
      else if c = CHR ''k'' then
        (if bp_readPIDFile pidfile = 0 then Inl (Bp_exit 0, pidfile)
         else case bp_writePIDFile writable 0 of
           None \<Rightarrow> Inl (Bp_fault, pidfile)
         | Some p \<Rightarrow> Inl (Bp_killed (bp_readPIDFile pidfile), Some p))
      else if c = CHR ''d'' then
        (if bp_readPIDFile pidfile = 0 then bp_options writable as pidfile (o'\<lparr>bo_daemon := True\<rparr>)
         else Inl (Bp_exit (-1), pidfile))
      else if c = CHR ''c'' then bp_options writable as pidfile (o'\<lparr>bo_continuous := True\<rparr>)
      else Inl (Bp_exit (-1), pidfile))"

section \<open>main\<close>

record bp_env =
  be_pid_writable :: bool
  be_fopen :: "string \<Rightarrow> bool"
  be_localtime :: "int \<Rightarrow> tm"
  be_start :: u64
  be_nt_init :: int
  be_info_open :: int
  be_stat_open :: int
  be_info :: info_calls
  be_portSpeed :: "u64 list"
  be_fork :: int
  be_setsid :: int
  be_chdir :: bool
  be_numCPU :: nat
  be_cpu_time :: u64
  be_cpu_rows :: "u64 list list"
  be_proc_stat :: "string option"
  be_CPUutil :: "u64 list"
  be_streams :: "streamStats list"
  be_seconds :: "bp_second list"
  be_info_close :: int
  be_stat_close :: int
  be_end :: u64

text \<open>How a run ends: before or in the loop, or behind it with what the backlog wrote and an exit status.\<close>

datatype bp_result = Bp_stopped bp_stop "int option" | Bp_finished backlog int "int option"

text \<open>The backlog before the first second; \<open>None\<close> is the usage text, for a daemon without a file.\<close>

definition open_backlog :: "bp_env \<Rightarrow> bp_opts \<Rightarrow> backlog option" where
  "open_backlog e o' =
     (let t = bp_decodeTimeStamp (be_localtime e) (be_start e) in
      case bo_filename o' of
        Some f \<Rightarrow> Some (snd (initialize (be_fopen e f) f t backlog_new))
      | None \<Rightarrow> if bo_daemon o' then None else Some (snd (initialize False [] t backlog_new)))"

text \<open>Spawning the daemon; the process that goes on has written its number.\<close>

definition bp_spawn :: "bp_env \<Rightarrow> bp_opts \<Rightarrow> int option \<Rightarrow> (bp_stop \<times> int option) + int option" where
  "bp_spawn e o' pidfile =
     (if \<not> bo_daemon o' then Inr pidfile
      else if be_fork e < 0 then Inl (Bp_exit 1, pidfile)
      else if 0 < be_fork e then Inl (Bp_exit 0, pidfile)
      else if be_setsid e < 0 then Inl (Bp_exit 1, pidfile)
      else case bp_writePIDFile (be_pid_writable e) (be_setsid e) of
        None \<Rightarrow> Inl (Bp_fault, pidfile)
      | Some p \<Rightarrow> if be_chdir e then Inr (Some p) else Inl (Bp_exit 1, Some p))"

text \<open>The end of \<open>main\<close>, behind the loop.\<close>

definition bp_cleanup :: "bp_env \<Rightarrow> backlog \<Rightarrow> backlog \<times> int" where
  "bp_cleanup e b =
     (let b = backlog_write (''Exit Loop!'' @ nl) b in
      if be_info_close e \<noteq> 0 \<or> be_stat_close e \<noteq> 0 then (b, -1)
      else (shutdown (bp_decodeTimeStamp (be_localtime e) (be_end e)) b, 0))"

definition bp_monitor :: "bp_env \<Rightarrow> bp_opts \<Rightarrow> nat \<Rightarrow> u64 list \<Rightarrow> backlog \<Rightarrow> bp_stop + bp_state" where
  "bp_monitor e o' numPorts portSpeed b =
     (case readCPUStats_init (be_numCPU e) (be_cpu_time e) (be_cpu_rows e) (be_proc_stat e) of
        None \<Rightarrow> Inl Bp_fault
      | Some c \<Rightarrow>
          bp_loop (be_localtime e) (bo_continuous o') numPorts portSpeed (be_seconds e)
            \<lparr>bp_cpu = c, bp_util = be_CPUutil e,
             bp_streams = \<lparr>sr_firstTime = True, sr_alert = False, sr_stats = be_streams e\<rparr>,
             bp_prevAlert = False, bp_backlog = b\<rparr>)"

definition bufferProfile_main :: "(char \<times> string) list \<Rightarrow> bp_env \<Rightarrow> int option \<Rightarrow> bp_result" where
  "bufferProfile_main args e pidfile =
     (case bp_options (be_pid_writable e) args pidfile bp_opts_init of
        Inl (s, pidfile) \<Rightarrow> Bp_stopped s pidfile
      | Inr o' \<Rightarrow>
     (case open_backlog e o' of
        None \<Rightarrow> Bp_stopped (Bp_exit 1) pidfile
      | Some b \<Rightarrow>
          if be_nt_init e \<noteq> 0 then Bp_stopped (Bp_exit (be_nt_init e)) pidfile
          else if be_info_open e \<noteq> 0 \<or> be_stat_open e \<noteq> 0 then Bp_stopped (Bp_exit (-1)) pidfile
          else (case getPortSpeed (be_info e) (be_portSpeed e) of
              Inl s \<Rightarrow> Bp_stopped s pidfile
            | Inr (status, numPorts, portSpeed) \<Rightarrow>
                if status \<noteq> 0 then Bp_stopped (Bp_exit (-1)) pidfile
                else (case bp_spawn e o' pidfile of
                    Inl (s, pidfile) \<Rightarrow> Bp_stopped s pidfile
                  | Inr pidfile \<Rightarrow>
                      (case bp_monitor e o' numPorts portSpeed b of
                         Inl s \<Rightarrow> Bp_stopped s pidfile
                       | Inr st \<Rightarrow> (case bp_cleanup e (bp_backlog st) of (b, status) \<Rightarrow> Bp_finished b status pidfile))))))"

end
