(* ===== verification/Buffer_Profile_Props.thy ===== *)
theory Buffer_Profile_Props
  imports Buffer_Profile_Main
begin

text \<open>
  Lemmas on \<open>bufferProfile\<close>: the search for a stream with host buffers and the streams that a reading
  finds, the tables as cut concatenations, the throughput of a port as integer arithmetic, and the loop of
  the program as a client of the ring in \<open>Backlog\<close>.
\<close>

section \<open>The search for a stream\<close>

lemma find_used_stream_skips:
  "find_used_stream usage i = (if usage (i mod 256) = Some [] then find_used_stream usage (i + 1)
     else case usage (i mod 256) of None \<Rightarrow> Some Read_failed | Some us \<Rightarrow> Some (Found i us))"
  by (subst find_used_stream.simps) (auto split: option.split)

lemma find_used_stream_reaches:
  assumes "usage ((i + k) mod 256) \<noteq> Some []" "\<And>j. j < k \<Longrightarrow> usage ((i + j) mod 256) = Some []"
  shows "find_used_stream usage i = (case usage ((i + k) mod 256) of None \<Rightarrow> Some Read_failed | Some us \<Rightarrow> Some (Found (i + k) us))"
  using assms
proof (induction k arbitrary: i)
  case 0
  then show ?case by (subst find_used_stream_skips) (simp split: option.split)
next
  case (Suc k)
  have "usage (i mod 256) = Some []" using Suc.prems(2)[of 0] by simp
  then have "find_used_stream usage i = find_used_stream usage (i + 1)" by (subst find_used_stream_skips) simp
  moreover have "usage ((i + 1 + j) mod 256) = Some []" if "j < k" for j using Suc.prems(2)[of "Suc j"] that by simp
  ultimately show ?case using Suc.IH[of "i + 1"] Suc.prems(1) by (simp split: option.splits)
qed

lemma find_used_stream_spins:
  assumes "\<And>j. j < 256 \<Longrightarrow> usage j = Some []"
  shows "find_used_stream usage i = None"
proof (cases "find_used_stream usage i")
  case (Some f)
  have "usage = usage' \<longrightarrow> False" if "find_used_stream usage' i = Some f" for usage' i f
  proof (rule find_used_stream.raw_induct[where P = "\<lambda>u i r. usage = u \<longrightarrow> False", OF _ that])
    fix g :: "(nat \<Rightarrow> hb_reading list option) \<Rightarrow> nat \<Rightarrow> found option" and u i r
    assume IH: "\<And>u i r. g u i = Some r \<Longrightarrow> usage = u \<longrightarrow> False"
      and eq: "(case u (i mod 256) of None \<Rightarrow> Some Read_failed
        | Some us \<Rightarrow> if us = [] then g u (i + 1) else Some (Found i us)) = Some r"
    show "usage = u \<longrightarrow> False"
    proof
      assume "usage = u"
      with eq assms[of "i mod 256"] have "g u (i + 1) = Some r" by simp
      with IH \<open>usage = u\<close> show False by blast
    qed
  qed
  with Some show ?thesis by blast
qed

text \<open>Every stream is met within 256 steps from anywhere.\<close>

lemma find_used_stream_cases:
  obtains (hang) "\<And>j. j < 256 \<Longrightarrow> usage j = Some []" "find_used_stream usage i = None"
  | (failed) j where "j < 256" "usage j = None" "find_used_stream usage i = Some Read_failed"
  | (found) k us where "find_used_stream usage i = Some (Found k us)" "i \<le> k" "usage (k mod 256) = Some us" "us \<noteq> []"
      "\<And>j. i \<le> j \<Longrightarrow> j < k \<Longrightarrow> usage (j mod 256) = Some []"
proof (cases "\<exists>k. usage ((i + k) mod 256) \<noteq> Some []")
  case False
  have "usage j = Some []" if "j < 256" for j
  proof -
    have "(i + (255 * i + j)) mod 256 = (j + 256 * i) mod 256" by (simp add: algebra_simps)
    also have "\<dots> = j" using that by (simp only: mod_mult_self2) simp
    finally show ?thesis using False by metis
  qed
  with find_used_stream_spins show thesis by (intro hang) auto
next
  case True
  then obtain k where k: "usage ((i + k) mod 256) \<noteq> Some []" "\<And>j. j < k \<Longrightarrow> usage ((i + j) mod 256) = Some []"
    using exists_least_iff[of "\<lambda>k. usage ((i + k) mod 256) \<noteq> Some []"] by blast
  note r = find_used_stream_reaches[of usage i k, OF k]
  show thesis
  proof (cases "usage ((i + k) mod 256)")
    case None
    with r show thesis by (intro failed[of "(i + k) mod 256"]) auto
  next
    case (Some us)
    have "usage (j mod 256) = Some []" if "i \<le> j" "j < i + k" for j using k(2)[of "j - i"] that by simp
    with r Some k(1) show thesis by (intro found[of "i + k" us]) auto
  qed
qed

lemma bp_stream_loop_hangs:
  "bp_stream_loop usage n i r = Inl Bp_hang \<longleftrightarrow> 0 < n \<and> (\<forall>j < 256. usage j = Some [])"
proof (induction usage n i r rule: bp_stream_loop.induct)
  case (2 usage n i r)
  show ?case
  proof (rule find_used_stream_cases[of usage i])
    assume "\<And>j. j < 256 \<Longrightarrow> usage j = Some []" "find_used_stream usage i = None"
    then show ?thesis by simp
  next
    fix j assume "j < 256" "usage j = None" "find_used_stream usage i = Some Read_failed"
    then show ?thesis by auto
  next
    fix k us assume f: "find_used_stream usage i = Some (Found k us)" "usage (k mod 256) = Some us" "us \<noteq> []"
    then have used: "\<not> (\<forall>j < 256. usage j = Some [])"
      by (metis mod_less_divisor option.inject zero_less_numeral)
    have "bp_stream_loop usage n (k + 1) r' \<noteq> Inl Bp_hang"
      if "length (sr_stats r) > k" "read_streamStats us (sr_stats r ! k) = Some s"
        "r' = r\<lparr>sr_stats := (sr_stats r)[k := s], sr_alert := if \<not> sr_firstTime r \<and> st_alert s then True else sr_alert r\<rparr>"
      for s r'
      using "2.IH"[OF f(1) refl _ that(2)] that(1,3) used by simp
    with f(1) used show ?thesis by (auto split: option.splits)
  qed
qed simp

section \<open>The host buffers of a stream\<close>

lemma read_hostbuffers_last:
  assumes "read_hostbuffers us i s = Some s'" "us \<noteq> []"
  shows "st_alert s' \<longleftrightarrow> hr_drop_frames (last us) \<noteq> hs_dropTotal (st_hb s ! (i + length us - 1))"
  using assms
proof (induction us i s rule: read_hostbuffers.induct)
  case (2 u us i s)
  then obtain s1 where s1: "read_hostbuffer u i s = Some s1" and r: "read_hostbuffers us (i + 1) s1 = Some s'"
    by (auto split: Option.bind_splits)
  show ?case
  proof (cases us)
    case Nil
    with s1 r show ?thesis
      by (auto simp: read_hostbuffer_def update_hbStats_def Let_def word_gt_0 split: if_splits)
  next
    case (Cons v vs)
    have "st_hb s1 ! (i + length us) = st_hb s ! (i + length us)"
      using s1 Cons by (auto simp: read_hostbuffer_def Let_def split: if_splits)
    with "2.IH"[OF s1 r] Cons show ?thesis by simp
  qed
qed simp

definition last_buffer_dropped :: "hb_reading list \<Rightarrow> streamStats \<Rightarrow> bool" where
  "last_buffer_dropped us s \<longleftrightarrow> hr_drop_frames (last us) \<noteq> hs_dropTotal (st_hb s ! (length us - 1))"

lemma read_streamStats_alert:
  "read_streamStats us s = Some s' \<Longrightarrow> us \<noteq> [] \<Longrightarrow> st_alert s' = last_buffer_dropped us s"
  by (auto simp: read_streamStats_def last_buffer_dropped_def read_hostbuffers_last split: Option.bind_splits)

text \<open>The streams that have host buffers, and the alert of a reading.\<close>

definition used_streams :: "(nat \<Rightarrow> hb_reading list option) \<Rightarrow> nat \<Rightarrow> nat list" where
  "used_streams usage i = filter (\<lambda>j. usage j \<noteq> Some []) [i..<BP_MAX_STREAMS]"

lemma used_streams_next:
  assumes "i \<le> k" "k < BP_MAX_STREAMS" "usage k \<noteq> Some []" "\<And>j. i \<le> j \<Longrightarrow> j < k \<Longrightarrow> usage j = Some []"
  shows "used_streams usage i = k # used_streams usage (k + 1)"
proof -
  have "[i..<BP_MAX_STREAMS] = [i..<k] @ k # [k + 1..<BP_MAX_STREAMS]"
    using assms(1,2) by (metis le_add_diff_inverse less_imp_le upt_add_eq_append upt_conv_Cons Suc_eq_plus1)
  moreover have "filter (\<lambda>j. usage j \<noteq> Some []) [i..<k] = []" using assms(4) by (simp add: filter_empty_conv)
  ultimately show ?thesis using assms(3) by (simp add: used_streams_def)
qed

lemma bp_stream_loop_finds:
  assumes "bp_stream_loop usage n i r = Inr (ok, r')" "\<forall>j < 256. usage j \<noteq> None" "length (sr_stats r) = BP_MAX_STREAMS"
  shows "ok \<and> sr_firstTime r' = sr_firstTime r
    \<and> (sr_alert r' \<longleftrightarrow> sr_alert r \<or> \<not> sr_firstTime r \<and>
        (\<exists>k \<in> set (take n (used_streams usage i)). last_buffer_dropped (the (usage k)) (sr_stats r ! k)))"
  using assms
proof (induction usage n i r rule: bp_stream_loop.induct)
  case (2 usage n i r)
  show ?case
  proof (rule find_used_stream_cases[of usage i])
    assume "find_used_stream usage i = None"
    with "2.prems"(1) show ?thesis by simp
  next
    fix j assume "j < 256" "usage j = None"
    with "2.prems"(2) show ?thesis by blast
  next
    fix k us assume f: "find_used_stream usage i = Some (Found k us)" "i \<le> k" "usage (k mod 256) = Some us" "us \<noteq> []"
      "\<And>j. i \<le> j \<Longrightarrow> j < k \<Longrightarrow> usage (j mod 256) = Some []"
    from "2.prems"(1) f(1) have k: "\<not> length (sr_stats r) \<le> k" by (auto split: if_splits)
    with "2.prems"(1) f(1) obtain s where s: "read_streamStats us (sr_stats r ! k) = Some s"
      by (auto split: option.splits)
    let ?r = "r\<lparr>sr_stats := (sr_stats r)[k := s], sr_alert := if \<not> sr_firstTime r \<and> st_alert s then True else sr_alert r\<rparr>"
    from "2.prems"(1) f(1) k s have l: "bp_stream_loop usage n (k + 1) ?r = Inr (ok, r')" by simp
    have k256: "k < BP_MAX_STREAMS" using k "2.prems"(3) by simp
    have "usage k = Some us" "\<And>j. i \<le> j \<Longrightarrow> j < k \<Longrightarrow> usage j = Some []"
      using f(3,5) k256 by (auto simp: BP_MAX_STREAMS_def)
    then have u: "used_streams usage i = k # used_streams usage (k + 1)" "usage k = Some us"
      using used_streams_next[OF f(2) k256, of usage] f(4) by auto
    have later: "k' \<in> set (take n (used_streams usage (k + 1))) \<Longrightarrow> sr_stats ?r ! k' = sr_stats r ! k'" for k'
      by (auto simp: used_streams_def dest!: in_set_takeD)
    have a: "st_alert s = last_buffer_dropped us (sr_stats r ! k)" using s f(4) by (rule read_streamStats_alert)
    from "2.IH"[OF f(1) refl k s l "2.prems"(2)] "2.prems"(3)
    have "ok \<and> sr_firstTime r' = sr_firstTime r \<and> (sr_alert r' \<longleftrightarrow> sr_alert ?r \<or> \<not> sr_firstTime r \<and>
        (\<exists>k' \<in> set (take n (used_streams usage (k + 1))). last_buffer_dropped (the (usage k')) (sr_stats ?r ! k')))" by simp
    then show ?thesis using u a later by auto
  qed
qed simp

section \<open>Tables\<close>

lemma append2048_take: "append2048 (take 2047 s) t = take 2047 (s @ t)"
  by (simp add: append2048_def snprintf_def take_map[symmetric] min_def)

lemma foldl_append2048: "foldl (\<lambda>s i. append2048 s (c i)) (take 2047 s) is = take 2047 (s @ concat (map c is))"
proof (induction "is" arbitrary: s)
  case (Cons i "is")
  have "foldl (\<lambda>s i. append2048 s (c i)) (take 2047 s) (i # is) = foldl (\<lambda>s i. append2048 s (c i)) (take 2047 (s @ c i)) is"
    by (simp only: foldl_Cons append2048_take)
  also have "\<dots> = take 2047 ((s @ c i) @ concat (map c is))" by (rule Cons.IH)
  finally show ?case by (simp only: append_assoc list.map concat.simps)
qed simp

lemma stream_table_cut: "stream_table f ss n = take 2047 (concat (map (stream_cell f ss) [0..<n]))"
  using foldl_append2048[of "stream_cell f ss" "[]" "[0..<n]"] by (simp add: stream_table_def)

lemma port_row_cut: "port_row mbps n = take 2047 (concat (map (\<lambda>i. '' '' @ ld 8 (mbps ! i) @ '' '') [0..<n]))"
  using foldl_append2048[of "\<lambda>i. '' '' @ ld 8 (mbps ! i) @ '' ''" "[]" "[0..<n]"] by (simp add: port_row_def)

lemma length_show_int64: "length (show_int (sint (v :: u64))) \<le> 20"
proof -
  have b: "- (2 ^ 63) \<le> sint v" "sint v < 2 ^ 63" using sint_ge[of v] sint_lt[of v] by simp_all
  then have n: "nat (- sint v) \<le> 2 ^ 63" "nat (sint v) \<le> 2 ^ 63" by (simp_all add: nat_le_iff)
  have "length (show_dec k) \<le> 19" if "k \<le> 2 ^ 63" for k
    unfolding show_dec_def using that by (intro length_show_base) simp_all
  from this[OF n(1)] this[OF n(2)] show ?thesis by (simp add: show_int_def)
qed

lemma length_cpu_cell: "length (cpu_cell util i) \<le> 22"
  using length_show_int64[of "util ! i"] by (auto simp: cpu_cell_def ld_def pad_left_def nl_def)

lemma cpu_table_defined: "\<exists>t. foldl (append_cpu util) (Some s) is = Some t \<and> (is = [] \<or> length t \<le> 2069)"
proof (induction "is" rule: rev_induct)
  case (snoc i "is")
  then obtain t where t: "foldl (append_cpu util) (Some s) is = Some t" by blast
  have "length (fst (snprintf 2048 t)) \<le> 2047" by (simp add: snprintf_def)
  with length_cpu_cell[of util i] have "append_cpu util (Some t) i = Some (fst (snprintf 2048 t) @ cpu_cell util i)"
    by (simp add: append_cpu_def)
  with t \<open>length (fst (snprintf 2048 t)) \<le> 2047\<close> length_cpu_cell[of util i] show ?case by simp
qed simp

lemma cpu_table_whole:
  "length (concat (map (cpu_cell util) [1..<n])) \<le> 2047 \<Longrightarrow> cpu_table util n = Some (concat (map (cpu_cell util) [1..<n + 1]))"
proof (induction n)
  case 0
  then show ?case by (simp add: cpu_table_def)
next
  case (Suc n)
  let ?c = "\<lambda>n. concat (map (cpu_cell util) [1..<n])"
  have le: "length (?c n) \<le> length (?c (Suc n))" by (cases n) simp_all
  have step: "cpu_table util (Suc n) = append_cpu util (cpu_table util n) (Suc n)" by (simp add: cpu_table_def)
  have "cpu_table util n = Some (?c (Suc n))" using Suc le by simp
  moreover have "snprintf 2048 (?c (Suc n)) = (?c (Suc n), length (?c (Suc n)))" using Suc.prems by (simp add: snprintf_fits)
  ultimately show ?case
    using step Suc.prems length_cpu_cell[of util "Suc n"] by (simp add: append_cpu_def)
qed

section \<open>Throughput\<close>

lemma rne_0 [simp]: "rne 0 d = 0"
  by (simp add: rne_def)

lemma rne_scale: "0 < c \<Longrightarrow> rne (n * c) (d * c) = rne n d"
  by (cases "n = 0") (simp_all add: rne_def Let_def mod_mult_mult2 div_mult_mult2)

lemma round_small_scale:
  assumes "0 < c"
  shows "round_small p (n * c) (d * c) = round_small p n d"
proof (induction p n d rule: round_small.induct)
  case (1 p n d)
  have "0 < n * c \<and> n * c < 2 ^ (p - 1) * (d * c) \<longleftrightarrow> 0 < n \<and> n < 2 ^ (p - 1) * d"
    using assms by (auto simp: mult.assoc[symmetric])
  with 1 assms show ?case
    by (subst (1 2) round_small.simps) (auto simp: rne_scale mult.assoc[symmetric])
qed

lemma trunc_scaled:
  assumes "0 < c" "0 < d" "0 < p" "n < 2 ^ p"
  shows "fl_trunc (round_to p (n * c, d * c)) = n div d"
proof -
  have "n < 2 ^ p * d" using assms(2,4) by (metis less_le_trans mult_le_mono2 nat_mult_1_right Suc_leI One_nat_def)
  then have "round_to p (n * c, d * c) = round_to p (n, d)"
    using round_small_scale[OF assms(1), of p n d] assms(1) by (simp add: round_to_def mult.assoc[symmetric])
  with trunc_round_to[OF assms(2-4)] show ?thesis by simp
qed

text \<open>Sums and products of integers that stay below \<open>2 ^ p\<close> are exact.\<close>

definition is_int :: "nat \<Rightarrow> nat \<times> nat \<Rightarrow> bool" where
  "is_int k x \<longleftrightarrow> 0 < snd x \<and> fst x = k * snd x"

lemma is_int_round: "0 < d \<Longrightarrow> k < 2 ^ p \<Longrightarrow> is_int k (round_to p (k * d, d))"
  using round_to_int[of d k p] by (auto simp: is_int_def)

lemma is_int_of: "k < 2 ^ p \<Longrightarrow> is_int k (fl_of p k)"
  using is_int_round[of 1 k p] by (simp add: fl_of_def)

lemma is_int_mult:
  assumes "is_int k x" "is_int j y" "k * j < 2 ^ p"
  shows "is_int (k * j) (fl_mult p x y)"
proof -
  have "fst x * fst y = (k * j) * (snd x * snd y)" "0 < snd x * snd y" using assms(1,2) by (auto simp: is_int_def algebra_simps)
  with is_int_round[OF this(2) assms(3)] show ?thesis unfolding fl_mult_def by metis
qed

lemma is_int_add:
  assumes "is_int k x" "is_int j y" "k + j < 2 ^ p"
  shows "is_int (k + j) (fl_add p x y)"
proof -
  have "fst x * snd y + fst y * snd x = (k + j) * (snd x * snd y)" "0 < snd x * snd y"
    using assms(1,2) by (auto simp: is_int_def algebra_simps)
  with is_int_round[OF this(2) assms(3)] show ?thesis unfolding fl_add_def by metis
qed

lemma trunc_div:
  assumes "is_int k x" "is_int j y" "0 < j" "0 < p" "k < 2 ^ p"
  shows "fl_trunc (fl_div p x y) = k div j"
proof -
  have "fst x * snd y = k * (snd x * snd y)" "snd x * fst y = j * (snd x * snd y)" "0 < snd x * snd y"
    using assms(1,2) by (auto simp: is_int_def algebra_simps)
  with trunc_scaled[OF this(3) assms(3-5)] show ?thesis unfolding fl_div_def by metis
qed

lemma port_Mbps_integer:
  assumes "800 * (20 * unat pkts + unat bytes) < 2 ^ 53"
  shows "port_Mbps pkts bytes = of_nat (800 * (20 * unat pkts + unat bytes) div 100000000)"
proof -
  have c: "is_int 20 (20, 1)" "is_int 800 (800, 1)" "is_int 100000000 (100000000, 1)" by (simp_all add: is_int_def)
  have "is_int (unat pkts * 20) (fl_mult 53 (fl_of 53 (unat pkts)) (20, 1))"
    using assms by (intro is_int_mult is_int_of c) simp_all
  moreover have "is_int (unat bytes) (fl_of 53 (unat bytes))" using assms by (intro is_int_of) simp
  ultimately have "is_int (unat pkts * 20 + unat bytes) (fl_add 53 (fl_mult 53 (fl_of 53 (unat pkts)) (20, 1)) (fl_of 53 (unat bytes)))"
    using assms by (intro is_int_add) simp_all
  from is_int_mult[OF c(2) this, of 53] assms
  have "is_int (800 * (unat pkts * 20 + unat bytes))
      (fl_mult 53 (800, 1) (fl_add 53 (fl_mult 53 (fl_of 53 (unat pkts)) (20, 1)) (fl_of 53 (unat bytes))))"
    by (simp add: mult.commute)
  from trunc_div[OF this c(3), of 53] assms show ?thesis by (simp add: port_Mbps_def mult.commute)
qed

section \<open>The loop of the program\<close>

text \<open>The entries of the seconds with their alerts, as far as the readings go; and what happens to them.\<close>

fun bp_trace :: "(int \<Rightarrow> tm) \<Rightarrow> bool \<Rightarrow> nat \<Rightarrow> u64 list \<Rightarrow> bp_second list \<Rightarrow> bp_readings \<Rightarrow> (log_entry \<times> bool) list" where
  "bp_trace lt continuous numPorts portSpeed [] rd = []"
| "bp_trace lt continuous numPorts portSpeed (sec # secs) rd =
     (case read_second continuous numPorts portSpeed sec rd of
        Inl x \<Rightarrow> []
      | Inr ((sys, rxMbps, alert), rd) \<Rightarrow>
          (case make_entry lt sys numPorts rxMbps of
             None \<Rightarrow> []
           | Some e \<Rightarrow> (e, alert) # bp_trace lt continuous numPorts portSpeed secs rd))"

fun log_seconds :: "(log_entry \<times> bool) list \<Rightarrow> bool \<times> backlog \<Rightarrow> (bool \<times> backlog) option" where
  "log_seconds [] st = Some st"
| "log_seconds ((e, alert) # tr) (prev, b) = do {
     b \<leftarrow> if alert \<or> prev then backlog_output (prev \<and> \<not> alert) (addEntry e b) else Some (addEntry e b);
     log_seconds tr (alert, b) }"

lemma truncate_extend [simp]: "bp_readings.truncate (bp_readings.extend rd x) = rd"
  by (cases rd) (simp add: bp_readings.defs)

lemma extend_fields [simp]:
  "bp_prevAlert (bp_readings.extend rd \<lparr>bp_prevAlert = p, bp_backlog = b\<rparr>) = p"
  "bp_backlog (bp_readings.extend rd \<lparr>bp_prevAlert = p, bp_backlog = b\<rparr>) = b"
  by (simp_all add: bp_readings.defs)

lemma bp_loop_trace:
  "case bp_loop lt continuous numPorts portSpeed secs st of
      Inr st' \<Rightarrow> length (bp_trace lt continuous numPorts portSpeed secs (bp_readings.truncate st)) = length secs
        \<and> log_seconds (bp_trace lt continuous numPorts portSpeed secs (bp_readings.truncate st)) (bp_prevAlert st, bp_backlog st) = Some (bp_prevAlert st', bp_backlog st')
    | Inl e \<Rightarrow> length (bp_trace lt continuous numPorts portSpeed secs (bp_readings.truncate st)) = length secs
        \<longrightarrow> e = Bp_fault \<and> log_seconds (bp_trace lt continuous numPorts portSpeed secs (bp_readings.truncate st)) (bp_prevAlert st, bp_backlog st) = None"
proof (induction lt continuous numPorts portSpeed secs st rule: bp_loop.induct)
  case (2 lt continuous numPorts portSpeed sec secs st)
  show ?case
  proof (cases "read_second continuous numPorts portSpeed sec (bp_readings.truncate st)")
    case (Inl x)
    then show ?thesis by (simp add: second_step_def)
  next
    case (Inr y)
    obtain sys rxMbps alert rd where y: "y = ((sys, rxMbps, alert), rd)" by (metis prod_cases3 surj_pair)
    show ?thesis
    proof (cases "make_entry lt sys numPorts rxMbps")
      case None
      then show ?thesis using Inr y by (simp add: second_step_def bp_outputStats_def)
    next
      case (Some e)
      define out where "out = (if alert \<or> bp_prevAlert st
        then backlog_output (bp_prevAlert st \<and> \<not> alert) (addEntry e (bp_backlog st)) else Some (addEntry e (bp_backlog st)))"
      have o': "bp_outputStats lt sys numPorts rxMbps alert (bp_prevAlert st, bp_backlog st) = map_option (Pair alert) out"
        by (cases out) (simp_all add: bp_outputStats_def Some out_def split: if_splits)
      have l: "log_seconds ((e, alert) # tr) (bp_prevAlert st, bp_backlog st) = (case out of None \<Rightarrow> None | Some b \<Rightarrow> log_seconds tr (alert, b))" for tr
        by (cases out) (simp_all add: out_def split: if_splits)
      show ?thesis
      proof (cases out)
        case None
        then show ?thesis using Inr y Some o' l by (simp add: second_step_def del: log_seconds.simps)
      next
        case (Some b)
        let ?st = "bp_readings.extend rd \<lparr>bp_prevAlert = alert, bp_backlog = b\<rparr>"
        have step: "second_step lt continuous numPorts portSpeed sec st = Inr ?st"
          using Inr y Some o' by (simp add: second_step_def)
        from "2.IH"[OF step] show ?thesis
          using Inr y \<open>make_entry lt sys numPorts rxMbps = Some e\<close> Some step l by (simp del: log_seconds.simps split: sum.splits)
      qed
    qed
  qed
qed simp

text \<open>Apart from the file the backlog is driven like the ring of the interface.\<close>

lemma no_file_addEntry: "(addEntry e b)\<lparr>m_file := f\<rparr> = addEntry e (b\<lparr>m_file := f\<rparr>)"
  by (simp add: addEntry_def)

lemma no_file_output_loop: "(output_loop n pos b)\<lparr>m_file := None\<rparr> = output_loop n pos (b\<lparr>m_file := None\<rparr>)"
proof (induction n arbitrary: pos b)
  case (Suc n)
  have "(output_entry pos b)\<lparr>m_file := None\<rparr> = output_entry pos (b\<lparr>m_file := None\<rparr>)"
    by (simp add: output_entry_def to_file_def Let_def)
  with Suc show ?case by simp
qed simp

lemma no_file_output_entries: "(output_entries b)\<lparr>m_file := None\<rparr> = output_entries (b\<lparr>m_file := None\<rparr>)"
  unfolding output_entries_def no_file_output_loop by simp

lemma file_output_loop: "m_file (output_loop n pos b) = None \<longleftrightarrow> m_file b = None"
  by (induction n arbitrary: pos b) (simp_all add: output_entry_def to_file_def Let_def)

lemma file_output_entries: "m_file (output_entries b) = None \<longleftrightarrow> m_file b = None"
  unfolding output_entries_def file_output_loop by simp

lemma backlog_output_cases:
  "backlog_output endDelimiter b = None \<longleftrightarrow> endDelimiter \<and> m_file b = None"
  "backlog_output endDelimiter b = Some b' \<Longrightarrow> b'\<lparr>m_file := None\<rparr> = output_entries (b\<lparr>m_file := None\<rparr>)
     \<and> (m_file b' = None \<longleftrightarrow> m_file b = None)"
  by (auto simp: backlog_output_def Let_def file_output_entries no_file_output_entries[symmetric] to_file_def split: if_splits)

lemma log_seconds_monitor:
  "log_seconds tr (prev, b) = Some (prev', b') \<Longrightarrow>
     foldl (monitor_step addEntry output_entries) (prev, b\<lparr>m_file := None\<rparr>) tr = (prev', b'\<lparr>m_file := None\<rparr>)"
proof (induction tr arbitrary: prev b)
  case (Cons x tr)
  obtain e alert where x: "x = (e, alert)" by fastforce
  with Cons.prems obtain b1 where b1: "(if alert \<or> prev then backlog_output (prev \<and> \<not> alert) (addEntry e b) else Some (addEntry e b)) = Some b1"
    and r: "log_seconds tr (alert, b1) = Some (prev', b')" by (auto split: Option.bind_splits)
  have "monitor_step addEntry output_entries (prev, b\<lparr>m_file := None\<rparr>) x = (alert, b1\<lparr>m_file := None\<rparr>)"
    using b1 backlog_output_cases(2)[of "prev \<and> \<not> alert" "addEntry e b" b1]
    by (auto simp: x monitor_step_def no_file_addEntry split: if_splits)
  with Cons.IH[OF r] show ?case by simp
qed simp

text \<open>Without a file the first second without an alert behind one with an alert is the last.\<close>

fun alert_ends :: "bool \<Rightarrow> bool list \<Rightarrow> bool" where
  "alert_ends prev [] = False"
| "alert_ends prev (a # as) = (prev \<and> \<not> a \<or> alert_ends a as)"

lemma ex_nat_Suc: "(\<exists>i. P i) \<longleftrightarrow> P 0 \<or> (\<exists>i. P (Suc i))"
  by (metis not0_implies_Suc)

lemma alert_ends_nth: "alert_ends prev as \<longleftrightarrow> (prev \<and> as \<noteq> [] \<and> \<not> as ! 0) \<or> (\<exists>i. Suc i < length as \<and> as ! i \<and> \<not> as ! Suc i)"
proof (induction as arbitrary: prev)
  case (Cons a as)
  have "(\<exists>i. Suc i < length (a # as) \<and> (a # as) ! i \<and> \<not> (a # as) ! Suc i)
      \<longleftrightarrow> (a \<and> as \<noteq> [] \<and> \<not> as ! 0) \<or> (\<exists>i. Suc i < length as \<and> as ! i \<and> \<not> as ! Suc i)"
    unfolding ex_nat_Suc[of "\<lambda>i. Suc i < length (a # as) \<and> (a # as) ! i \<and> \<not> (a # as) ! Suc i"] by auto
  with Cons.IH[of a] show ?case by auto
qed simp

lemma log_seconds_fails: "log_seconds tr (prev, b) = None \<longleftrightarrow> m_file b = None \<and> alert_ends prev (map snd tr)"
proof (induction tr arbitrary: prev b)
  case (Cons x tr)
  obtain e alert where x: "x = (e, alert)" by fastforce
  have f: "m_file (addEntry e b) = m_file b" by (simp add: addEntry_def)
  show ?case
  proof (cases "if alert \<or> prev then backlog_output (prev \<and> \<not> alert) (addEntry e b) else Some (addEntry e b)")
    case None
    then show ?thesis using backlog_output_cases(1)[of "prev \<and> \<not> alert" "addEntry e b"] f
      by (auto simp: x split: if_splits)
  next
    case (Some b1)
    have "m_file b1 = None \<longleftrightarrow> m_file b = None" "\<not> (prev \<and> \<not> alert \<and> m_file b = None)"
      using Some backlog_output_cases[of "prev \<and> \<not> alert" "addEntry e b"] f by (auto split: if_splits)
    with Cons.IH[of alert b1] Some show ?thesis by (auto simp: x)
  qed
qed simp

end
