(* ===== verification/Buffer_Profile_Claims.thy ===== *)
theory Buffer_Profile_Claims
  imports Buffer_Profile_Props
begin

text \<open>
  What holds of \<open>bufferProfile\<close>: which seconds it shows, when it runs into undefined behaviour, when a
  reading never returns, what raises an alert, and what the printed numbers are.
\<close>

section \<open>The text of an entry\<close>

text \<open>The entry without the limits of the buffers.\<close>

definition cells :: "(streamStats \<Rightarrow> string) \<Rightarrow> sysStats \<Rightarrow> string" where
  "cells f sys = take 2047 (concat (map (stream_cell f (sy_streamStats sys)) [0..<sy_numStreams sys]))"

definition reference_entry :: "(int \<Rightarrow> tm) \<Rightarrow> sysStats \<Rightarrow> nat \<Rightarrow> u64 list \<Rightarrow> log_entry" where
  "reference_entry lt sys numPorts rxMbps =
     \<lparr>e_time = bp_decodeTimeStamp lt (sy_time sys) @ nl,
      e_rxMbpsStr = take 2047 (concat (map (\<lambda>i. '' '' @ ld 8 (rxMbps ! i) @ '' '') [0..<numPorts])),
      e_numStreams = show_dec (sy_numStreams sys),
      e_pktsStr = cells (\<lambda>s. ld 8 (st_rxPktsCurr s)) sys,
      e_pktsRateStr = cells (\<lambda>s. formatRate (st_rxBytesCurr s)) sys,
      e_dropStr = cells (\<lambda>s. ld 8 (st_dropCurr s)) sys,
      e_hbFillStr = cells (\<lambda>s. d8 (st_aveHBFillLevel s)) sys,
      e_obFillStr = cells (\<lambda>s. d8 (st_aveOBFillLevel s)) sys,
      e_utilString = concat (map (cpu_cell (sy_CPUutil sys)) [1..<sy_numCPU sys + 1])\<rparr>"

lemma entry_reference:
  assumes "length (sy_streamStats sys) = 256" "length (concat (map (cpu_cell (sy_CPUutil sys)) [1..<sy_numCPU sys])) \<le> 2047"
  shows "make_entry lt sys numPorts rxMbps =
    (if numPorts \<le> length rxMbps \<and> sy_numStreams sys \<le> 256 \<and> sy_numCPU sys < length (sy_CPUutil sys)
     then Some (reference_entry lt sys numPorts rxMbps) else None)"
proof -
  have "length (show_dec n) < 8" if "n \<le> 256" for n
    using length_show_base[of 10 n 3] that by (simp add: show_dec_def)
  then have "sy_numStreams sys \<le> 256 \<Longrightarrow> \<not> 8 \<le> length (show_dec (sy_numStreams sys))" by (simp add: not_le)
  then show ?thesis
    using cpu_table_whole[OF assms(2)] assms(1)
    by (cases "sy_numStreams sys \<le> 256") (auto simp: make_entry_def Let_def reference_entry_def cells_def stream_table_cut port_row_cut not_le not_less Suc_le_eq)
qed

section \<open>The seconds that are shown\<close>

text \<open>An example: one stream with one host buffer that loses packets in the second of three seconds, no ports,
  and one line in \<open>/proc/stat\<close>.\<close>

definition example_buffer :: "u64 \<Rightarrow> hb_reading" where
  "example_buffer drops = \<lparr>hr_adapterNo = 0, hr_numaNode = 0, hr_used = 0, hr_size = 1024, hr_enQueuedAdapter = 2097152,
     hr_deQueued = 0, hr_enQueued = 0, hr_rx_frames = 10, hr_rx_bytes = 640, hr_drop_frames = drops\<rparr>"

definition example_second :: "u64 \<Rightarrow> u64 \<Rightarrow> bp_second" where
  "example_second time drops = \<lparr>bs_time = time, bs_cpu_time = time, bs_cpu_rows = [replicate 11 0],
     bs_proc_stat = Some ''cpu 7'', bs_count = Some 1, bs_usage = (\<lambda>i. Some (if i = 0 then [example_buffer drops] else [])),
     bs_stat = (0, \<lambda>p. \<lparr>pr_valid = False, pr_pkts = 0, pr_octets = 0, pr_overflow = 0\<rparr>),
     bs_arrays = \<lparr>pa_rxPkts = [], pa_rxDropped = [], pa_rxUtilization = [], pa_rxMbps = []\<rparr>\<rparr>"

definition zero_hb :: hbStats where
  "zero_hb = \<lparr>hs_adapterNo = 0, hs_obFillLevel = 0, hs_hbFillLevel = 0, hs_numaNode = 0, hs_rxPktsPrev = 0, hs_rxPktsTotal = 0,
     hs_dropPrev = 0, hs_dropTotal = 0, hs_rxBytesPrev = 0, hs_rxBytesTotal = 0\<rparr>"

definition zero_streamStats :: streamStats where
  "zero_streamStats = \<lparr>st_alert = False, st_hb = [zero_hb, zero_hb], st_dropCurr = 0, st_rxPktsCurr = 0, st_rxBytesCurr = 0,
     st_rxPktsRate = 0, st_aveOBFillLevel = 0, st_aveHBFillLevel = 0\<rparr>"

definition example_env :: bp_env where
  "example_env = \<lparr>be_pid_writable = True, be_fopen = (\<lambda>f. True),
     be_localtime = (\<lambda>t. \<lparr>tm_year = 116, tm_mon = 1, tm_mday = 23, tm_hour = 13, tm_min = 48, tm_sec = 13\<rparr>), be_start = 0,
     be_nt_init = 0, be_info_open = 0, be_stat_open = 0,
     be_info = \<lparr>ic_open = 0, ic_system = (0, 0), ic_port = (\<lambda>p. (0, NT_LINK_SPEED_10G)), ic_close = 0\<rparr>,
     be_portSpeed = replicate 32 0, be_fork = 0, be_setsid = 1, be_chdir = True,
     be_numCPU = 0, be_cpu_time = 100, be_cpu_rows = [replicate 11 0], be_proc_stat = Some ''cpu 7'',
     be_CPUutil = replicate 128 0, be_streams = replicate 256 zero_streamStats,
     be_seconds = [example_second 101 0, example_second 102 9, example_second 103 9],
     be_info_close = 0, be_stat_close = 0, be_end = 0\<rparr>"

lemma scan_longs_end: "scan_longs vs [] = (vs, [])"
  by (cases vs) (simp_all add: scan_number_def strip_base_def starts_digit_def)

lemma scan_7: "scan_number 10 '' 7'' = Some (False, 7, [])" "strtol 10 '' 7'' = \<lparr>st_value = 7, st_end = [], st_erange = False\<rparr>"
proof -
  show *: "scan_number 10 '' 7'' = Some (False, 7, [])" by code_simp
  show "strtol 10 '' 7'' = \<lparr>st_value = 7, st_end = [], st_erange = False\<rparr>" by (simp add: strtol_def *)
qed

lemma scan_example: "scan_cpu_lines [v # vs] ''cpu 7'' = Some [7 # vs]"
proof -
  have w: "dropWhile is_space ''cpu 7'' = ''cpu 7''" "takeWhile (\<lambda>c. \<not> is_space c) ''cpu 7'' = ''cpu''"
    by (simp_all add: is_space_def)
  have "scan_cpu_line (v # vs) ''cpu 7'' = Some (7 # vs, [])"
    unfolding scan_cpu_line_def Let_def w by (simp add: scan_7 scan_longs_end)
  then show ?thesis by simp
qed

lemma read_proc_example: "read_proc_stat 0 [replicate 11 0] (Some ''cpu 7'') = Some [7 # replicate 10 0]"
proof -
  have "replicate 11 (0 :: u64) = 0 # replicate 10 0" by (simp add: numeral_eq_Suc)
  then show ?thesis by (simp add: read_proc_stat_def MAX_CPU_def scan_example del: scan_cpu_lines.simps)
qed

text \<open>The entry and the alert of every second of a run, when the first reading of the processors succeeds.\<close>

definition monitor_trace :: "bp_env \<Rightarrow> bp_opts \<Rightarrow> nat \<Rightarrow> u64 list \<Rightarrow> (log_entry \<times> bool) list option" where
  "monitor_trace e o' numPorts portSpeed =
     map_option (\<lambda>c. bp_trace (be_localtime e) (bo_continuous o') numPorts portSpeed (be_seconds e)
         \<lparr>bp_cpu = c, bp_util = be_CPUutil e, bp_streams = \<lparr>sr_firstTime = True, sr_alert = False, sr_stats = be_streams e\<rparr>\<rparr>)
       (readCPUStats_init (be_numCPU e) (be_cpu_time e) (be_cpu_rows e) (be_proc_stat e))"

lemma open_backlog_fresh:
  assumes "open_backlog e o' = Some b"
  shows "backlog_ok (b\<lparr>m_file := None\<rparr>)" "pending (b\<lparr>m_file := None\<rparr>) = []"
    "m_file b = None \<longleftrightarrow> (case bo_filename o' of None \<Rightarrow> True | Some f \<Rightarrow> f = [] \<or> \<not> be_fopen e f)"
proof -
  have *: "backlog_ok ((snd (initialize op f t backlog_new))\<lparr>m_file := None\<rparr>) \<and> pending ((snd (initialize op f t backlog_new))\<lparr>m_file := None\<rparr>) = []
      \<and> (m_file (snd (initialize op f t backlog_new)) = None \<longleftrightarrow> f = [] \<or> \<not> op)" for op f t
    using backlog_new_ok by (auto simp: initialize_def Let_def backlog_ok_def pending_def)
  with assms show "backlog_ok (b\<lparr>m_file := None\<rparr>)" "pending (b\<lparr>m_file := None\<rparr>) = []"
    "m_file b = None \<longleftrightarrow> (case bo_filename o' of None \<Rightarrow> True | Some f \<Rightarrow> f = [] \<or> \<not> be_fopen e f)"
    by (auto simp: open_backlog_def Let_def split: option.splits if_splits)
qed

lemma truncate_initial [simp]:
  "bp_readings.truncate \<lparr>bp_cpu = c, bp_util = u, bp_streams = r, bp_prevAlert = p, bp_backlog = b\<rparr>
     = \<lparr>bp_cpu = c, bp_util = u, bp_streams = r\<rparr>"
  by (simp add: bp_readings.defs)

lemma monitor_runs:
  assumes "monitor_trace e o' numPorts portSpeed = Some tr"
  shows "bp_monitor e o' numPorts portSpeed b = Inr st \<Longrightarrow>
      length tr = length (be_seconds e) \<and> log_seconds tr (False, b) = Some (bp_prevAlert st, bp_backlog st)"
    and "bp_monitor e o' numPorts portSpeed b = Inl x \<Longrightarrow> length tr = length (be_seconds e) \<Longrightarrow>
      x = Bp_fault \<and> log_seconds tr (False, b) = None"
proof -
  from assms obtain c where c: "readCPUStats_init (be_numCPU e) (be_cpu_time e) (be_cpu_rows e) (be_proc_stat e) = Some c"
    and tr: "tr = bp_trace (be_localtime e) (bo_continuous o') numPorts portSpeed (be_seconds e)
         \<lparr>bp_cpu = c, bp_util = be_CPUutil e, bp_streams = \<lparr>sr_firstTime = True, sr_alert = False, sr_stats = be_streams e\<rparr>\<rparr>"
    by (auto simp: monitor_trace_def)
  let ?st = "\<lparr>bp_cpu = c, bp_util = be_CPUutil e, bp_streams = \<lparr>sr_firstTime = True, sr_alert = False, sr_stats = be_streams e\<rparr>,
    bp_prevAlert = False, bp_backlog = b\<rparr>"
  have m: "bp_monitor e o' numPorts portSpeed b = bp_loop (be_localtime e) (bo_continuous o') numPorts portSpeed (be_seconds e) ?st"
    by (simp add: bp_monitor_def c)
  note t = bp_loop_trace[of "be_localtime e" "bo_continuous o'" numPorts portSpeed "be_seconds e" ?st, unfolded truncate_initial, folded tr m]
  from t show "bp_monitor e o' numPorts portSpeed b = Inr st \<Longrightarrow>
      length tr = length (be_seconds e) \<and> log_seconds tr (False, b) = Some (bp_prevAlert st, bp_backlog st)"
    and "bp_monitor e o' numPorts portSpeed b = Inl x \<Longrightarrow> length tr = length (be_seconds e) \<Longrightarrow>
      x = Bp_fault \<and> log_seconds tr (False, b) = None" by simp_all
qed

text \<open>The example has an alert in its second second only.\<close>

lemma example_search: "find_used_stream (\<lambda>i. Some (if i = 0 then [u] else [])) 0 = Some (Found 0 [u])"
  by (subst find_used_stream.simps) simp

definition example_stream :: "u64 \<Rightarrow> streamStats \<Rightarrow> streamStats" where
  "example_stream drops s = the (read_streamStats [example_buffer drops] s)"

lemma example_read_stream:
  assumes "length (st_hb s) = 2"
  shows "read_streamStats [example_buffer drops] s = Some (example_stream drops s)"
    "st_alert (example_stream drops s) \<longleftrightarrow> drops \<noteq> hs_dropTotal (st_hb s ! 0)"
    "length (st_hb (example_stream drops s)) = 2" "hs_dropTotal (st_hb (example_stream drops s) ! 0) = drops"
  using assms
  by (simp_all add: example_stream_def read_streamStats_def read_hostbuffer_def example_buffer_def hr_bufSize_def BP_HIGHWATER_def
      update_hbStats_def Let_def word_gt_0)

lemma example_second_read:
  assumes "length (st_hb (sr_stats (bp_streams rd) ! 0)) = 2" "length (sr_stats (bp_streams rd)) = 256"
    "cr_numCPU (bp_cpu rd) = 0" "time \<noteq> cr_prevTime (bp_cpu rd)" "length (cr_prevCpu (bp_cpu rd)) = 1" "length (bp_util rd) = 128"
  obtains sys rd' where "read_second False 0 [] (example_second time drops) rd =
      Inr ((sys, [], \<not> sr_firstTime (bp_streams rd) \<and> drops \<noteq> hs_dropTotal (st_hb (sr_stats (bp_streams rd) ! 0) ! 0)), rd')"
    "make_entry lt sys 0 [] = Some (reference_entry lt sys 0 [])"
    "sr_firstTime (bp_streams rd') = False" "hs_dropTotal (st_hb (sr_stats (bp_streams rd') ! 0) ! 0) = drops"
    "length (st_hb (sr_stats (bp_streams rd') ! 0)) = 2" "length (sr_stats (bp_streams rd')) = 256"
    "cr_numCPU (bp_cpu rd') = 0" "cr_prevTime (bp_cpu rd') = time" "length (cr_prevCpu (bp_cpu rd')) = 1" "length (bp_util rd') = 128"
proof -
  let ?s = "example_stream drops (sr_stats (bp_streams rd) ! 0)"
  note r = example_read_stream[OF assms(1), of drops]
  obtain row where prev: "cr_prevCpu (bp_cpu rd) = [row]" using assms(5) by (cases "cr_prevCpu (bp_cpu rd)") auto
  define util where "util = ((busy (7 # replicate 10 0) - busy row) div (time - cr_prevTime (bp_cpu rd))) # drop 1 (bp_util rd)"
  define st where "st = (bp_streams rd)\<lparr>sr_stats := (sr_stats (bp_streams rd))[0 := ?s],
      sr_alert := \<not> sr_firstTime (bp_streams rd) \<and> st_alert ?s, sr_firstTime := False\<rparr>"
  define sys where "sys = \<lparr>sy_time = time, sy_numCPU = 0, sy_numStreams = 1, sy_CPUutil = util, sy_streamStats = sr_stats st\<rparr>"
  define rd' where "rd' = \<lparr>bp_cpu = (bp_cpu rd)\<lparr>cr_prevTime := time, cr_prevCpu := [7 # replicate 10 0]\<rparr>, bp_util = util, bp_streams = st\<rparr>"
  have c: "readCPUStats time [replicate 11 0] (Some ''cpu 7'') (bp_util rd) (bp_cpu rd) = Some (0, util, bp_cpu rd')"
    using assms(3,4) by (simp add: readCPUStats_def read_proc_example prev util_def rd'_def)
  have s: "bp_readStreamStats (Some 1) (\<lambda>i. Some (if i = 0 then [example_buffer drops] else [])) ((bp_streams rd)\<lparr>sr_alert := False\<rparr>)
      = Inr (1, st)"
    using assms(2) by (auto simp: bp_readStreamStats_def example_search r(1) st_def)
  have lu: "length util = 128" using assms(6) by (simp add: util_def)
  have "read_second False 0 [] (example_second time drops) rd = Inr ((sys, [], sr_alert st), rd')"
    using c s by (simp add: read_second_def example_second_def getPortsStats_def sys_def) (simp add: rd'_def)
  moreover have "sr_alert st \<longleftrightarrow> \<not> sr_firstTime (bp_streams rd) \<and> drops \<noteq> hs_dropTotal (st_hb (sr_stats (bp_streams rd) ! 0) ! 0)"
    by (simp add: st_def r(2))
  moreover have "make_entry lt sys 0 [] = Some (reference_entry lt sys 0 [])"
    by (subst entry_reference) (simp_all add: sys_def st_def assms(2) lu)
  moreover have "sr_stats st ! 0 = ?s" "length (sr_stats st) = 256" using assms(2) by (simp_all add: st_def)
  ultimately show thesis using that[of sys rd'] r(3,4) lu assms(3) by (simp add: rd'_def st_def)
qed

lemma example_trace:
  obtains tr where "monitor_trace example_env \<lparr>bo_filename = f, bo_daemon = False, bo_continuous = False\<rparr> 0 [] = Some tr"
    "map snd tr = [False, True, False]"
proof -
  let ?lt = "be_localtime example_env"
  define rd0 where "rd0 = \<lparr>bp_cpu = \<lparr>cr_numCPU = 0, cr_prevTime = 100, cr_prevCpu = [7 # replicate 10 (0 :: u64)]\<rparr>,
    bp_util = replicate 128 (0 :: u64), bp_streams = \<lparr>sr_firstTime = True, sr_alert = False, sr_stats = replicate 256 zero_streamStats\<rparr>\<rparr>"
  have z: "replicate 256 zero_streamStats ! 0 = zero_streamStats" by simp
  have 0: "length (st_hb (sr_stats (bp_streams rd0) ! 0)) = 2" "length (sr_stats (bp_streams rd0)) = 256" "cr_numCPU (bp_cpu rd0) = 0"
    "(101 :: u64) \<noteq> cr_prevTime (bp_cpu rd0)" "length (cr_prevCpu (bp_cpu rd0)) = 1" "length (bp_util rd0) = 128"
    "sr_firstTime (bp_streams rd0)"
    by (simp_all add: rd0_def z zero_streamStats_def)
  obtain s1 rd1 where 1: "read_second False 0 [] (example_second 101 0) rd0 = Inr ((s1, [], False), rd1)"
    "make_entry ?lt s1 0 [] = Some (reference_entry ?lt s1 0 [])" "\<not> sr_firstTime (bp_streams rd1)"
    "hs_dropTotal (st_hb (sr_stats (bp_streams rd1) ! 0) ! 0) = 0"
    "length (st_hb (sr_stats (bp_streams rd1) ! 0)) = 2" "length (sr_stats (bp_streams rd1)) = 256" "cr_numCPU (bp_cpu rd1) = 0"
    "(102 :: u64) \<noteq> cr_prevTime (bp_cpu rd1)" "length (cr_prevCpu (bp_cpu rd1)) = 1" "length (bp_util rd1) = 128"
    using 0(7) by (rule_tac example_second_read[OF 0(1-6), of 0 ?lt]) simp
  obtain s2 rd2 where 2: "read_second False 0 [] (example_second 102 9) rd1 = Inr ((s2, [], True), rd2)"
    "make_entry ?lt s2 0 [] = Some (reference_entry ?lt s2 0 [])" "\<not> sr_firstTime (bp_streams rd2)"
    "hs_dropTotal (st_hb (sr_stats (bp_streams rd2) ! 0) ! 0) = 9"
    "length (st_hb (sr_stats (bp_streams rd2) ! 0)) = 2" "length (sr_stats (bp_streams rd2)) = 256" "cr_numCPU (bp_cpu rd2) = 0"
    "(103 :: u64) \<noteq> cr_prevTime (bp_cpu rd2)" "length (cr_prevCpu (bp_cpu rd2)) = 1" "length (bp_util rd2) = 128"
    using 1(3,4) by (rule_tac example_second_read[OF 1(5-10), of 9 ?lt]) simp
  obtain s3 rd3 where 3: "read_second False 0 [] (example_second 103 9) rd2 = Inr ((s3, [], False), rd3)"
    "make_entry ?lt s3 0 [] = Some (reference_entry ?lt s3 0 [])"
    using 2(3,4) by (rule_tac example_second_read[OF 2(5-10), of 9 ?lt]) simp
  have "readCPUStats_init 0 100 [replicate 11 0] (Some ''cpu 7'') = Some (bp_cpu rd0)"
    by (simp add: readCPUStats_init_def read_proc_example rd0_def)
  then have "monitor_trace example_env \<lparr>bo_filename = f, bo_daemon = False, bo_continuous = False\<rparr> 0 [] =
      Some (bp_trace ?lt False 0 [] [example_second 101 0, example_second 102 9, example_second 103 9] rd0)"
    by (simp add: monitor_trace_def example_env_def rd0_def)
  then show thesis using 1(1,2) 2(1,2) 3
    by (intro that[of "[(reference_entry ?lt s1 0 [], False), (reference_entry ?lt s2 0 [], True), (reference_entry ?lt s3 0 [], False)]"])
      simp_all
qed

text \<open>C34: A run of \<open>bufferProfile\<close> that comes to its end has written to the terminal exactly the entries of the
  seconds that are at most four seconds before a second with an alert or the second behind one, or are such
  a second themselves: each once, in order, whatever else was going on.\<close>

theorem drops_shown_with_lead_in:
  assumes "open_backlog e o' = Some b" "monitor_trace e o' numPorts portSpeed = Some tr"
    "bp_monitor e o' numPorts portSpeed b = Inr st"
  shows "length tr = length (be_seconds e) \<and>
    b_stdout (bp_backlog st) = b_stdout b @ concat (map (\<lambda>i. entry_text (fst (tr ! i)))
      (filter (\<lambda>i. \<exists>j. i \<le> j \<and> j < length tr \<and> j < i + 5 \<and> (snd (tr ! j) \<or> 0 < j \<and> snd (tr ! (j - 1)))) [0..<length tr]))"
proof -
  from monitor_runs(1)[OF assms(2,3)] have l: "length tr = length (be_seconds e)"
    and r: "log_seconds tr (False, b) = Some (bp_prevAlert st, bp_backlog st)" by blast+
  note f = open_backlog_fresh[OF assms(1)]
  from ring.monitor_reports[OF f(1,2), of tr] l show ?thesis
    unfolding log_seconds_monitor[OF r] by (simp add: reported_def flushes_def NUM_ENTRIES_def)
qed

theorem drops_shown_with_lead_in_witness:
  "\<exists>b tr st. open_backlog example_env \<lparr>bo_filename = Some ''out'', bo_daemon = False, bo_continuous = False\<rparr> = Some b
     \<and> bp_monitor example_env \<lparr>bo_filename = Some ''out'', bo_daemon = False, bo_continuous = False\<rparr> 0 [] b = Inr st
     \<and> monitor_trace example_env \<lparr>bo_filename = Some ''out'', bo_daemon = False, bo_continuous = False\<rparr> 0 [] = Some tr
     \<and> map snd tr = [False, True, False]
     \<and> b_stdout (bp_backlog st) = b_stdout b @ concat (map (\<lambda>x. entry_text (fst x)) tr)"
proof -
  let ?o = "\<lparr>bo_filename = Some ''out'', bo_daemon = False, bo_continuous = False\<rparr>"
  obtain b where b: "open_backlog example_env ?o = Some b" by (simp add: open_backlog_def Let_def)
  obtain tr where tr: "monitor_trace example_env ?o 0 [] = Some tr" "map snd tr = [False, True, False]" by (rule example_trace)
  have l: "length tr = length (be_seconds example_env)"
    using arg_cong[OF tr(2), of length] by (simp add: example_env_def)
  have "be_fopen example_env ''out''" by (simp add: example_env_def)
  with log_seconds_fails[of tr False b] open_backlog_fresh(3)[OF b] have "log_seconds tr (False, b) \<noteq> None" by simp
  with monitor_runs(2)[OF tr(1) _ l, of b] obtain st where st: "bp_monitor example_env ?o 0 [] b = Inr st"
    by (cases "bp_monitor example_env ?o 0 [] b") auto
  obtain x y z where xyz: "tr = [x, y, z]" "\<not> snd x" "snd y" "\<not> snd z" using tr(2) by (auto simp: Cons_eq_map_conv)
  let ?P = "\<lambda>i. \<exists>j. i \<le> j \<and> j < length tr \<and> j < i + 5 \<and> (snd (tr ! j) \<or> 0 < j \<and> snd (tr ! (j - 1)))"
  have "?P 0" "?P 1" using xyz(1,3) by (auto intro!: exI[of _ 1])
  moreover have "?P 2" using xyz(1,3) by (auto intro!: exI[of _ 2])
  moreover have "[0..<length tr] = [0, 1, 2]" by (simp add: xyz(1) upt_rec)
  ultimately have flt: "filter ?P [0..<length tr] = [0, 1, 2]" by simp
  have "b_stdout (bp_backlog st) = b_stdout b @ concat (map (\<lambda>x. entry_text (fst x)) tr)"
    using drops_shown_with_lead_in[OF b tr(1) st] unfolding flt by (simp add: xyz(1))
  with b st tr show ?thesis by (intro exI[of _ b] exI[of _ tr] exI[of _ st]) simp
qed



section \<open>Readings\<close>

text \<open>C36: Reading the streams never returns exactly if there is a stream to be found and none of the 256 stream
  numbers has a host buffer.\<close>

theorem stream_reading_hangs_iff:
  "bp_readStreamStats count usage r = Inl Bp_hang \<longleftrightarrow>
     (\<exists>n. count = Some n \<and> 0 < n) \<and> (\<forall>j < 256. usage j = Some [])"
proof (cases count)
  case (Some n)
  then show ?thesis using bp_stream_loop_hangs[of usage n 0 r]
    by (auto simp: bp_readStreamStats_def split: sum.splits)
qed (simp add: bp_readStreamStats_def)

theorem stream_reading_hangs_iff_witness:
  "bp_readStreamStats (Some 1) (\<lambda>j. Some []) \<lparr>sr_firstTime = True, sr_alert = False, sr_stats = []\<rparr> = Inl Bp_hang"
  by (subst stream_reading_hangs_iff) simp

text \<open>C37: A reading in which every stream answers raises an alert exactly if it is not the first one and, for one of
  the streams it reads, the drop counter of the stream's last host buffer differs from the reading before.
  The streams it reads are the first ones, in number, that have host buffers.\<close>

theorem alert_by_last_buffer:
  assumes "bp_readStreamStats (Some n) usage r = Inr (m, r')" "\<forall>j < 256. usage j \<noteq> None"
    "length (sr_stats r) = 256" "\<not> sr_alert r"
  shows "m = n \<and> \<not> sr_firstTime r' \<and>
    (sr_alert r' \<longleftrightarrow> \<not> sr_firstTime r \<and>
      (\<exists>k \<in> set (take n (filter (\<lambda>j. usage j \<noteq> Some []) [0..<256])).
         hr_drop_frames (last (the (usage k))) \<noteq> hs_dropTotal (st_hb (sr_stats r ! k) ! (length (the (usage k)) - 1))))"
proof -
  from assms(1) obtain ok r1 where l: "bp_stream_loop usage n 0 r = Inr (ok, r1)"
    and r: "(m, r') = (if ok then (n, r1\<lparr>sr_firstTime := False\<rparr>) else (0, r1))"
    by (auto simp: bp_readStreamStats_def split: sum.splits if_splits)
  from bp_stream_loop_finds[OF l assms(2)] assms(3) have "ok \<and> sr_firstTime r1 = sr_firstTime r
    \<and> (sr_alert r1 \<longleftrightarrow> sr_alert r \<or> \<not> sr_firstTime r \<and>
        (\<exists>k \<in> set (take n (used_streams usage 0)). last_buffer_dropped (the (usage k)) (sr_stats r ! k)))"
    by (simp add: BP_MAX_STREAMS_def)
  with r assms(4) show ?thesis by (simp add: used_streams_def last_buffer_dropped_def BP_MAX_STREAMS_def)
qed

theorem alert_by_last_buffer_witness:
  "\<exists>r'. bp_readStreamStats (Some 1) (\<lambda>i. Some (if i = 0 then [example_buffer 9] else []))
       \<lparr>sr_firstTime = False, sr_alert = False, sr_stats = replicate 256 zero_streamStats\<rparr> = Inr (1, r') \<and> sr_alert r'"
proof -
  let ?u = "\<lambda>i :: nat. Some (if i = 0 then [example_buffer 9] else [])"
  let ?r = "\<lparr>sr_firstTime = False, sr_alert = False, sr_stats = replicate 256 zero_streamStats\<rparr>"
  have z: "replicate 256 zero_streamStats ! 0 = zero_streamStats" "length (st_hb zero_streamStats) = 2" by (simp_all add: zero_streamStats_def)
  obtain r' where r': "bp_readStreamStats (Some 1) ?u ?r = Inr (1, r')"
    using example_read_stream(1)[OF z(2), of 9] z(1) by (auto simp: bp_readStreamStats_def example_search)
  have "[0..<256] = 0 # [1..<256 :: nat]" by (simp add: upt_rec)
  then have "take 1 (filter (\<lambda>j. ?u j \<noteq> Some []) [0..<256]) = [0]" by simp
  with alert_by_last_buffer[OF r'] have "sr_alert r'"
    by (simp add: z zero_streamStats_def zero_hb_def example_buffer_def)
  with r' show ?thesis by blast
qed

text \<open>C38: The throughput of a port is the integer \<open>800 (20 p + b) / 10 ^ 8\<close>, rounded down, for \<open>p\<close> packets with \<open>b\<close> bytes
  in a second: the floating-point computation is exact as long as \<open>800 (20 p + b)\<close> is below \<open>2 ^ 53\<close>.\<close>

theorem throughput_exact:
  assumes "800 * (20 * unat pkts + unat bytes) < 2 ^ 53"
  shows "port_Mbps pkts bytes = of_nat (800 * (20 * unat pkts + unat bytes) div 100000000)"
  using assms by (rule port_Mbps_integer)

theorem throughput_exact_witness:
  "port_Mbps 1000000 1480000000 = (12000 :: u64)"
  using throughput_exact[of 1000000 1480000000] by simp

section \<open>The numbers of an entry\<close>



end
