(* ===== verification/Civil_Time.thy ===== *)
theory Civil_Time
  imports Libc
begin

text \<open>
  \<open>strptime\<close> and \<open>timegm\<close> of the C library, as far as the programs use them: numeric fields in the C
  locale.  A field skips white space and reads at most its number of digits, and no further digit once
  another one would exceed the largest value; text behind the format is left over.  \<open>timegm\<close> counts seconds
  since 1970 in the Gregorian calendar and accepts a day beyond the end of its month.
\<close>

record civil =
  cv_year :: int
  cv_mon :: int
  cv_mday :: int
  cv_hour :: int
  cv_min :: int
  cv_sec :: int

definition civil_zero :: civil where
  "civil_zero = \<lparr>cv_year = 0, cv_mon = 0, cv_mday = 0, cv_hour = 0, cv_min = 0, cv_sec = 0\<rparr>"

section \<open>strptime\<close>

definition dec_digit :: "char \<Rightarrow> nat option" where
  "dec_digit c = (case digit_val c of Some d \<Rightarrow> if d < 10 then Some d else None | None \<Rightarrow> None)"

text \<open>Further digits of a number, \<open>n\<close> of them at most.\<close>

fun more_digits :: "nat \<Rightarrow> nat \<Rightarrow> nat \<Rightarrow> string \<Rightarrow> nat \<times> string" where
  "more_digits limit 0 v s = (v, s)"
| "more_digits limit (Suc n) v [] = (v, [])"
| "more_digits limit (Suc n) v (c # cs) =
     (if limit < v * 10 then (v, c # cs)
      else case dec_digit c of None \<Rightarrow> (v, c # cs) | Some d \<Rightarrow> more_digits limit n (v * 10 + d) cs)"

definition get_number :: "nat \<Rightarrow> nat \<Rightarrow> nat \<Rightarrow> string \<Rightarrow> (nat \<times> string) option" where
  "get_number low limit n s =
     (case dropWhile is_space s of
        [] \<Rightarrow> None
      | c # cs \<Rightarrow>
          (case dec_digit c of
             None \<Rightarrow> None
           | Some d \<Rightarrow> (let (v, r) = more_digits limit (n - 1) d cs in if v < low \<or> limit < v then None else Some (v, r))))"

datatype time_fmt = F_Y | F_y | F_m | F_d | F_H | F_M | F_S | F_char char | F_space

definition read_field :: "nat \<Rightarrow> nat \<Rightarrow> nat \<Rightarrow> (int \<Rightarrow> civil \<Rightarrow> civil) \<Rightarrow> string \<Rightarrow> civil \<Rightarrow> (civil \<times> string) option" where
  "read_field low limit n upd s t = map_option (\<lambda>(v, r). (upd (int v) t, r)) (get_number low limit n s)"

fun read_fmt :: "time_fmt \<Rightarrow> string \<Rightarrow> civil \<Rightarrow> (civil \<times> string) option" where
  "read_fmt F_Y s t = read_field 0 9999 4 (\<lambda>v t. t\<lparr>cv_year := v - 1900\<rparr>) s t"
| "read_fmt F_y s t = read_field 0 99 2 (\<lambda>v t. t\<lparr>cv_year := if 69 \<le> v then v else v + 100\<rparr>) s t"
| "read_fmt F_m s t = read_field 1 12 2 (\<lambda>v t. t\<lparr>cv_mon := v - 1\<rparr>) s t"
| "read_fmt F_d s t = read_field 1 31 2 (\<lambda>v t. t\<lparr>cv_mday := v\<rparr>) s t"
| "read_fmt F_H s t = read_field 0 23 2 (\<lambda>v t. t\<lparr>cv_hour := v\<rparr>) s t"
| "read_fmt F_M s t = read_field 0 59 2 (\<lambda>v t. t\<lparr>cv_min := v\<rparr>) s t"
| "read_fmt F_S s t = read_field 0 61 2 (\<lambda>v t. t\<lparr>cv_sec := v\<rparr>) s t"
| "read_fmt (F_char c) s t = (case s of [] \<Rightarrow> None | x # xs \<Rightarrow> if x = c then Some (t, xs) else None)"
| "read_fmt F_space s t = Some (t, dropWhile is_space s)"

text \<open>The result is the time after the fields that were read, whether the whole format matched, and the text
  that is left over then.\<close>

fun strptime :: "time_fmt list \<Rightarrow> string \<Rightarrow> civil \<Rightarrow> civil \<times> string option" where
  "strptime [] s t = (t, Some s)"
| "strptime (f # fs) s t = (case read_fmt f s t of None \<Rightarrow> (t, None) | Some (t, s) \<Rightarrow> strptime fs s t)"

section \<open>timegm\<close>

definition leap :: "int \<Rightarrow> bool" where
  "leap y \<longleftrightarrow> y mod 4 = 0 \<and> (y mod 100 \<noteq> 0 \<or> y mod 400 = 0)"

definition month_days :: "int \<Rightarrow> int list" where
  "month_days y = [31, if leap y then 29 else 28, 31, 30, 31, 30, 31, 31, 30, 31, 30, 31]"

text \<open>Leap years before year \<open>y\<close>, days from 1970 to the start of a year and of a month.\<close>

definition leaps_before :: "int \<Rightarrow> int" where
  "leaps_before y = (y - 1) div 4 - (y - 1) div 100 + (y - 1) div 400"

definition year_start :: "int \<Rightarrow> int" where
  "year_start y = 365 * (y - 1970) + leaps_before y - leaps_before 1970"

definition month_start :: "int \<Rightarrow> int \<Rightarrow> int" where
  "month_start y m = year_start y + sum_list (take (nat m) (month_days y))"

definition timegm :: "civil \<Rightarrow> int" where
  "timegm t = (month_start (cv_year t + 1900) (cv_mon t) + cv_mday t - 1) * 86400
     + cv_hour t * 3600 + cv_min t * 60 + cv_sec t"

section \<open>The calendar\<close>

text \<open>A year is as long as its months, and the next one starts behind it; 1970 starts at 0.\<close>

lemma year_length: "sum_list (month_days y) = (if leap y then 366 else 365)"
  by (simp add: month_days_def)

lemma div_step:
  assumes "0 < (k :: int)"
  shows "y div k = (y - 1) div k + (if y mod k = 0 then 1 else 0)"
proof -
  have y: "y = k * (y div k) + y mod k" "0 \<le> y mod k" "y mod k < k" using assms by simp_all
  show ?thesis
  proof (cases "y mod k = 0")
    case True
    then have "y - 1 = k * (y div k - 1) + (k - 1)" using y(1) by (simp add: algebra_simps)
    then have "(y - 1) div k = y div k - 1" by (rule int_div_pos_eq) (use assms in simp_all)
    with True show ?thesis by simp
  next
    case False
    then have "y - 1 = k * (y div k) + (y mod k - 1)" using y(1) by simp
    then have "(y - 1) div k = y div k" by (rule int_div_pos_eq) (use y False in simp_all)
    with False show ?thesis by simp
  qed
qed

lemma leap_count:
  "(b \<Longrightarrow> a) \<Longrightarrow> (c \<Longrightarrow> b) \<Longrightarrow>
    (x :: int) + (if a then 1 else 0) - (if b then 1 else 0) + (if c then 1 else 0) = x + (if a \<and> (\<not> b \<or> c) then 1 else 0)"
  by (cases a; cases b; cases c) simp_all

lemma leaps_step: "leaps_before (y + 1) = leaps_before y + (if leap y then 1 else 0)"
proof -
  have 4: "4 dvd y" if "100 dvd y" using dvd_trans[of 4 100 y] that by simp
  have 100: "100 dvd y" if "400 dvd y" using dvd_trans[of 100 400 y] that by simp
  have k: "y div 4 = (y - 1) div 4 + (if 4 dvd y then 1 else 0)" "y div 100 = (y - 1) div 100 + (if 100 dvd y then 1 else 0)"
    "y div 400 = (y - 1) div 400 + (if 400 dvd y then 1 else 0)"
    unfolding dvd_eq_mod_eq_0 by (rule div_step; simp)+
  have l: "leap y \<longleftrightarrow> 4 dvd y \<and> (\<not> 100 dvd y \<or> 400 dvd y)" unfolding leap_def dvd_eq_mod_eq_0 by (rule refl)
  have "leaps_before (y + 1) = y div 4 - y div 100 + y div 400" by (simp only: leaps_before_def add_diff_cancel_right')
  also have "\<dots> = leaps_before y + (if 4 dvd y then 1 else 0) - (if 100 dvd y then 1 else 0) + (if 400 dvd y then 1 else 0)"
    unfolding k by (simp only: leaps_before_def)
  also have "\<dots> = leaps_before y + (if leap y then 1 else 0)" unfolding l using 4 100 by (rule leap_count)
  finally show ?thesis .
qed

lemma year_start_next: "year_start (y + 1) = year_start y + sum_list (month_days y)"
  by (simp add: year_start_def leaps_step year_length)

lemma year_start_1970: "year_start 1970 = 0"
  by (simp add: year_start_def)

lemma month_start_next:
  assumes "0 \<le> m" "m < 11"
  shows "month_start y (m + 1) = month_start y m + month_days y ! nat m"
proof -
  have "nat (m + 1) = Suc (nat m)" "nat m < length (month_days y)" using assms by (simp_all add: month_days_def nat_add_distrib)
  then show ?thesis by (simp add: month_start_def take_Suc_conv_app_nth)
qed

section \<open>Reading a date as it is written\<close>

definition two :: "nat \<Rightarrow> string" where "two v = [digit_char (v div 10), digit_char (v mod 10)]"

definition four :: "nat \<Rightarrow> string" where
  "four v = [digit_char (v div 1000), digit_char (v div 100 mod 10), digit_char (v div 10 mod 10), digit_char (v mod 10)]"

lemma dec_digit_char: "d < 10 \<Longrightarrow> dec_digit (digit_char d) = Some d"
  by (simp add: dec_digit_def digit_val_digit_char)

lemma digit_no_space: "d < 10 \<Longrightarrow> \<not> is_space (digit_char d)"
  using digit_not_special(1)[of "digit_char d" d] by (simp add: digit_val_digit_char)

lemma get_number_two:
  assumes "low \<le> v" "v \<le> limit" "v < 100"
  shows "get_number low limit 2 (two v @ s) = Some (v, s)"
proof -
  have d: "v div 10 < 10" "v mod 10 < 10" "v div 10 * 10 + v mod 10 = v" "v div 10 * 10 \<le> limit" using assms by auto
  show ?thesis
    using d assms by (simp add: get_number_def two_def digit_no_space dec_digit_char numeral_2_eq_2)
qed

lemma four_digits_below:
  "v = 1000 * a + 100 * b + 10 * c + d \<Longrightarrow> (a * 10 + b) * 10 \<le> v \<and> ((a * 10 + b) * 10 + c) * 10 \<le> (v :: nat)"
  by simp

lemma get_number_four:
  assumes "v \<le> 9999"
  shows "get_number 0 9999 4 (four v @ s) = Some (v, s)"
proof -
  have e: "v = 1000 * (v div 1000) + 100 * (v div 100 mod 10) + 10 * (v div 10 mod 10) + v mod 10"
  proof -
    have "v div 100 = v div 10 div 10" "v div 1000 = v div 10 div 10 div 10" by (simp_all flip: div_mult2_eq)
    moreover have "a div 10 * 10 + a mod 10 = a" for a :: nat by (rule div_mult_mod_eq)
    note this[of v] this[of "v div 10"] this[of "v div 10 div 10"]
    ultimately show ?thesis by (simp only: mult.commute)
  qed
  have d: "v div 1000 < 10" "v div 100 mod 10 < 10" "v div 10 mod 10 < 10" "v mod 10 < 10" using assms by auto
  have "((v div 1000 * 10 + v div 100 mod 10) * 10 + v div 10 mod 10) * 10 + v mod 10 = v" using e by simp
  moreover have h: "(v div 1000 * 10 + v div 100 mod 10) * 10 \<le> v" "((v div 1000 * 10 + v div 100 mod 10) * 10 + v div 10 mod 10) * 10 \<le> v"
    using four_digits_below[OF e] by blast+
  note order_trans[OF h(1) assms] order_trans[OF h(2) assms]
  moreover have "v div 1000 * 10 \<le> 9999" using d(1) by simp
  ultimately show ?thesis
    unfolding get_number_def four_def using d assms
    by (simp add: digit_no_space dec_digit_char numeral_3_eq_3)
qed

end
