(* ===== verification/Boundary_Time.thy ===== *)
theory Boundary_Time
  imports Boundary_Replay Civil_Time C_Float
begin

text \<open>
  \<open>ParseStartTime\<close> of \<open>boundary_replay.c\<close>, and the lines that \<open>main\<close> shows while the replay thread works.
  The date of the host is a parameter; the C locale is assumed, which the program never changes, so that
  \<open>%x\<close> is \<open>%m/%d/%y\<close> and \<open>%X\<close> is \<open>%H:%M:%S\<close>.
\<close>

section \<open>The start time\<close>

definition fmt_time :: "time_fmt list" where
  "fmt_time = [F_H, F_char CHR '':'', F_M, F_char CHR '':'', F_S]"

definition fmt_iso :: "time_fmt list" where
  "fmt_iso = [F_Y, F_char CHR ''/'', F_m, F_char CHR ''/'', F_d, F_char CHR ''-''] @ fmt_time"

definition fmt_locale :: "time_fmt list" where
  "fmt_locale = [F_m, F_char CHR ''/'', F_d, F_char CHR ''/'', F_y, F_space] @ fmt_time"

definition fmt_minutes :: "time_fmt list" where
  "fmt_minutes = [F_H, F_char CHR '':'', F_M]"

text \<open>\<open>now\<close> is the local date and time.  A failed attempt leaves the fields that it read; the second attempt
  starts with those of the first, the others from zero.\<close>

definition parse_civil :: "civil \<Rightarrow> string \<Rightarrow> civil option" where
  "parse_civil now dts =
     (case strptime fmt_iso dts civil_zero of (t, rem1) \<Rightarrow>
      if rem1 \<noteq> None then Some t
      else case strptime fmt_locale dts t of (t, rem2) \<Rightarrow>
      if rem2 \<noteq> None then Some t
      else
        (let today = (\<lambda>t. t\<lparr>cv_year := cv_year now, cv_mon := cv_mon now, cv_mday := cv_mday now\<rparr>) in
         case strptime fmt_time dts civil_zero of (t, rem3) \<Rightarrow>
         if rem3 \<noteq> None then Some (today t)
         else case strptime fmt_time dts civil_zero of (t, rem4) \<Rightarrow>
         if rem4 \<noteq> None then Some (today t)
         else case strptime fmt_minutes dts civil_zero of (t, rem5) \<Rightarrow>
         if rem5 \<noteq> None then Some (today t) else None))"

definition civil_ticks :: "civil \<Rightarrow> u64 option" where
  "civil_ticks t = (if timegm t = - 1 then None else Some (of_int (timegm t) * 100000000))"

definition ParseStartTime :: "civil \<Rightarrow> string \<Rightarrow> u64 option" where
  "ParseStartTime now dts = (case parse_civil now dts of None \<Rightarrow> None | Some t \<Rightarrow> civil_ticks t)"

text \<open>The start time option of \<open>main\<close>, the field \<open>bm_start\<close> of its record.\<close>

definition start_option :: "civil \<Rightarrow> string option \<Rightarrow> u64 option option" where
  "start_option now opt_start_time = map_option (ParseStartTime now) opt_start_time"

section \<open>The display of main\<close>

text \<open>\<open>(double)bytes * 8 / d\<close> with three digits.\<close>

definition show_rate :: "u64 \<Rightarrow> nat \<Rightarrow> string" where
  "show_rate bytes d =
     ''Throughput: '' @ show_fixed 8 3 (fl_div 53 (fl_mult 53 (fl_of 53 (unat bytes)) (8, 1)) (d, 1)) @ '' Mbps''"

text \<open>The division of two \<open>int64_t\<close>, towards zero.\<close>

definition tdiv :: "int \<Rightarrow> int \<Rightarrow> int" where
  "tdiv a b = sgn a * sgn b * (\<bar>a\<bar> div \<bar>b\<bar>)"

record display_state =
  ds_txWait :: bool
  ds_bytes :: u64
  ds_screen :: "string list"

datatype display_end = D_on | D_returns nat

text \<open>
  One pass of the second loop of \<open>main\<close>: \<open>timed\<close> is \<open>timedTx4GA\<close>, \<open>start\<close> the time stamp of the first packet with the
  offset added, \<open>c\<close> the access to the clock of the adapter.  The count of bytes is not cleared in the pass in
  which the wait for the start ends.
\<close>

definition display_step :: "bool \<Rightarrow> u32 \<Rightarrow> u64 \<Rightarrow> config_env \<Rightarrow> display_state \<Rightarrow> display_end \<times> display_state" where
  "display_step timed opt_loop start c ds =
     (let show = (\<lambda>line. (D_on, ds\<lparr>ds_screen := ds_screen ds @ [line], ds_bytes := 0\<rparr>)) in
      if timed then
        (case br_GetAdapterTimestamp c of (status, ts) \<Rightarrow>
           if status \<noteq> 0 then (D_returns NT_APPL_ERROR_NTAPI, ds)
           else if ds_txWait ds then
             (let diff = tdiv (sint (start - the ts + 10000)) 100000000 in
              if diff \<le> 0 then (D_on, ds\<lparr>ds_txWait := False\<rparr>)
              else show (show_rate (ds_bytes ds) 100000 @ '' - Awaiting TX begin in '' @ show_int diff
                     @ '' seconds            '' @ [CHR 0x0D]))
           else if 0 < opt_loop then
             show (show_rate (ds_bytes ds) 100000 @ '' - Awaiting tx completion            '' @ [CHR 0x0D])
           else show (show_rate (ds_bytes ds) 100000 @ ''                                     '' @ [CHR 0x0D]))
      else show (show_rate (ds_bytes ds) 1000000 @ [CHR 0x0D]))"

text \<open>The loop, with the bytes that the thread adds before every pass, whether it still runs, and the clock.\<close>

fun display_loop :: "bool \<Rightarrow> u32 \<Rightarrow> u64 \<Rightarrow> (u64 \<times> bool \<times> config_env) list \<Rightarrow> display_state \<Rightarrow> display_end \<times> display_state" where
  "display_loop timed opt_loop start [] ds = (D_on, ds)"
| "display_loop timed opt_loop start ((n, running, c) # ps) ds =
     (if \<not> running then (D_on, ds)
      else case display_step timed opt_loop start c (ds\<lparr>ds_bytes := ds_bytes ds + n\<rparr>) of
        (D_returns code, ds) \<Rightarrow> (D_returns code, ds)
      | (D_on, ds) \<Rightarrow> display_loop timed opt_loop start ps ds)"

section \<open>Properties\<close>

lemma read_fmt_two:
  "v \<le> 23 \<Longrightarrow> read_fmt F_H (two v @ s) t = Some (t\<lparr>cv_hour := int v\<rparr>, s)"
  "v \<le> 59 \<Longrightarrow> read_fmt F_M (two v @ s) t = Some (t\<lparr>cv_min := int v\<rparr>, s)"
  "v \<le> 61 \<Longrightarrow> read_fmt F_S (two v @ s) t = Some (t\<lparr>cv_sec := int v\<rparr>, s)"
  "1 \<le> v \<Longrightarrow> v \<le> 31 \<Longrightarrow> read_fmt F_d (two v @ s) t = Some (t\<lparr>cv_mday := int v\<rparr>, s)"
  "1 \<le> v \<Longrightarrow> v \<le> 12 \<Longrightarrow> read_fmt F_m (two v @ s) t = Some (t\<lparr>cv_mon := int v - 1\<rparr>, s)"
  by (simp_all add: read_field_def get_number_two)

lemma read_fmt_four: "v \<le> 9999 \<Longrightarrow> read_fmt F_Y (four v @ s) t = Some (t\<lparr>cv_year := int v - 1900\<rparr>, s)"
  by (simp add: read_field_def get_number_four)

definition clock_text :: "nat \<Rightarrow> nat \<Rightarrow> nat \<Rightarrow> string" where
  "clock_text h m s = two h @ CHR '':'' # two m @ CHR '':'' # two s"

definition date_text :: "nat \<Rightarrow> nat \<Rightarrow> nat \<Rightarrow> string" where
  "date_text y m d = four y @ CHR ''/'' # two m @ CHR ''/'' # two d"

lemma strptime_time:
  assumes "h \<le> 23" "m \<le> 59" "s \<le> 59"
  shows "strptime fmt_time (clock_text h m s @ rest) t = (t\<lparr>cv_hour := int h, cv_min := int m, cv_sec := int s\<rparr>, Some rest)"
  using assms by (simp add: fmt_time_def clock_text_def read_fmt_two del: read_fmt.simps(1-7))

lemma strptime_append:
  "strptime (fs @ gs) s t = (case strptime fs s t of (t, None) \<Rightarrow> (t, None) | (t, Some s) \<Rightarrow> strptime gs s t)"
  by (induction fs s t rule: strptime.induct) (auto split: option.splits)

lemma strptime_iso:
  assumes "y \<le> 9999" "1 \<le> mo" "mo \<le> 12" "1 \<le> d" "d \<le> 31" "h \<le> 23" "m \<le> 59" "s \<le> 59"
  shows "strptime fmt_iso (date_text y mo d @ CHR ''-'' # clock_text h m s @ rest) civil_zero
    = (\<lparr>cv_year = int y - 1900, cv_mon = int mo - 1, cv_mday = int d, cv_hour = int h, cv_min = int m, cv_sec = int s\<rparr>, Some rest)"
proof -
  let ?t = "\<lparr>cv_year = int y - 1900, cv_mon = int mo - 1, cv_mday = int d, cv_hour = 0, cv_min = 0, cv_sec = 0\<rparr>"
  have "strptime [F_Y, F_char CHR ''/'', F_m, F_char CHR ''/'', F_d, F_char CHR ''-''] (date_text y mo d @ CHR ''-'' # clock_text h m s @ rest) civil_zero
      = (?t, Some (clock_text h m s @ rest))"
    using assms(1-5) by (simp add: date_text_def read_fmt_two read_fmt_four civil_zero_def del: read_fmt.simps(1-7))
  then show ?thesis
    unfolding fmt_iso_def strptime_append using strptime_time[OF assms(6-8), of rest ?t] by simp
qed

text \<open>A time is not taken for a date: the separator does not fit.\<close>

lemma clock_is_no_date:
  assumes "h \<le> 23"
  shows "snd (strptime fmt_iso (two h @ CHR '':'' # r) t) = None" "snd (strptime fmt_locale (two h @ CHR '':'' # r) t) = None"
proof -
  have c: "dec_digit CHR '':'' = None" by (simp add: dec_digit_def digit_val_def)
  have d: "h div 10 < 10" "h mod 10 < 10" using assms by auto
  have 4: "(4 :: nat) - 1 = Suc (Suc (Suc 0))" by simp
  have y: "get_number 0 9999 4 (two h @ CHR '':'' # r) = Some (h, CHR '':'' # r)"
    using d c assms unfolding get_number_def two_def 4 by (simp add: digit_no_space dec_digit_char)
  show "snd (strptime fmt_iso (two h @ CHR '':'' # r) t) = None"
    by (simp add: fmt_iso_def read_field_def y)
  have "digit_val (digit_char (h mod 10)) = Some (h mod 10)" using d by (intro digit_val_digit_char) simp
  moreover have "digit_val CHR ''/'' = None" by (simp add: digit_val_def)
  ultimately have slash: "digit_char (h mod 10) \<noteq> CHR ''/''" by auto
  have "get_number 1 12 2 (two h @ CHR '':'' # r) = None \<or>
      (\<exists>v rest. get_number 1 12 2 (two h @ CHR '':'' # r) = Some (v, rest) \<and> take 1 rest \<noteq> ''/'')"
    using d slash unfolding get_number_def two_def numeral_2_eq_2
    by (simp add: digit_no_space dec_digit_char)
  then show "snd (strptime fmt_locale (two h @ CHR '':'' # r) t) = None"
    by (auto simp: fmt_locale_def read_field_def split: list.splits)
qed


lemma parse_date:
  assumes "y \<le> 9999" "1 \<le> mo" "mo \<le> 12" "1 \<le> d" "d \<le> 31" "h \<le> 23" "m \<le> 59" "s \<le> 59"
  shows "parse_civil now (date_text y mo d @ CHR ''-'' # clock_text h m s @ rest)
    = Some \<lparr>cv_year = int y - 1900, cv_mon = int mo - 1, cv_mday = int d, cv_hour = int h, cv_min = int m, cv_sec = int s\<rparr>"
  using strptime_iso[OF assms, of rest] by (simp add: parse_civil_def)

lemma parse_clock:
  assumes "h \<le> 23" "m \<le> 59" "s \<le> 59"
  shows "parse_civil now (clock_text h m s @ rest) = Some (now\<lparr>cv_hour := int h, cv_min := int m, cv_sec := int s\<rparr>)"
proof -
  have *: "clock_text h m s @ rest = two h @ CHR '':'' # (two m @ CHR '':'' # two s @ rest)" by (simp add: clock_text_def)
  note no = clock_is_no_date[OF assms(1), of "two m @ CHR '':'' # two s @ rest", folded *]
  have t: "strptime fmt_time (clock_text h m s @ rest) civil_zero = (civil_zero\<lparr>cv_hour := int h, cv_min := int m, cv_sec := int s\<rparr>, Some rest)"
    using strptime_time[OF assms] .
  show ?thesis
    using no(1)[of civil_zero] no(2)[of "fst (strptime fmt_iso (clock_text h m s @ rest) civil_zero)"] t
    by (simp add: parse_civil_def split_beta civil_zero_def)
qed

lemma parse_minutes:
  assumes "h \<le> 23" "m \<le> 59"
  shows "parse_civil now (two h @ CHR '':'' # two m) = Some (now\<lparr>cv_hour := int h, cv_min := int m, cv_sec := 0\<rparr>)"
proof -
  note no = clock_is_no_date[OF assms(1), of "two m"]
  have f: "snd (strptime fmt_time (two h @ CHR '':'' # two m) civil_zero) = None"
    and t: "strptime fmt_minutes (two h @ CHR '':'' # two m) civil_zero = (civil_zero\<lparr>cv_hour := int h, cv_min := int m\<rparr>, Some [])"
    using assms read_fmt_two(2)[of m "[]"] by (simp_all add: fmt_time_def fmt_minutes_def read_fmt_two(1) del: read_fmt.simps(1-7))
  show ?thesis
    using no(1)[of civil_zero] no(2)[of "fst (strptime fmt_iso (two h @ CHR '':'' # two m) civil_zero)"] f t
    by (simp add: parse_civil_def split_beta civil_zero_def)
qed

text \<open>C40: A start time written as a date and a time is read as that second of the calendar, in units of 10
  nanoseconds, whatever text stands behind it; a time alone, with or without seconds, is that time on the
  local date of the host.  The one second before 1970 is refused.\<close>

theorem start_time_read_as_meant:
  assumes "y \<le> 9999" "1 \<le> mo" "mo \<le> 12" "1 \<le> d" "d \<le> 31" "h \<le> 23" "m \<le> 59" "s \<le> 59"
  shows "ParseStartTime now (date_text y mo d @ CHR ''-'' # clock_text h m s @ rest)
      = civil_ticks \<lparr>cv_year = int y - 1900, cv_mon = int mo - 1, cv_mday = int d, cv_hour = int h, cv_min = int m, cv_sec = int s\<rparr>
    \<and> ParseStartTime now (clock_text h m s @ rest) = civil_ticks (now\<lparr>cv_hour := int h, cv_min := int m, cv_sec := int s\<rparr>)
    \<and> ParseStartTime now (two h @ CHR '':'' # two m) = civil_ticks (now\<lparr>cv_hour := int h, cv_min := int m, cv_sec := 0\<rparr>)"
  using assms by (simp add: ParseStartTime_def parse_date parse_clock parse_minutes)

theorem start_time_read_as_meant_witness:
  "ParseStartTime civil_zero ''2024/02/29-12:30:45'' = Some 170920984500000000"
proof -
  have "''2024/02/29-12:30:45'' = date_text 2024 2 29 @ CHR ''-'' # clock_text 12 30 45 @ []"
    by (simp add: date_text_def clock_text_def two_def four_def digit_char_def char_of_def bit_0)
  then show ?thesis
    using start_time_read_as_meant[of 2024 2 29 12 30 45 civil_zero "[]"]
    by (simp add: civil_ticks_def timegm_def month_start_def year_start_def leaps_before_def month_days_def leap_def numeral_2_eq_2)
qed

text \<open>What the option accepts besides: a day that its month does not have, and text behind the time.\<close>

lemma february_31_accepted:
  "ParseStartTime now (date_text 2023 2 31 @ CHR ''-'' # clock_text 0 0 0) = ParseStartTime now (date_text 2023 3 3 @ CHR ''-'' # clock_text 0 0 0)"
proof -
  have p: "parse_civil now (date_text 2023 mo d @ CHR ''-'' # clock_text 0 0 0)
      = Some \<lparr>cv_year = 123, cv_mon = int mo - 1, cv_mday = int d, cv_hour = 0, cv_min = 0, cv_sec = 0\<rparr>"
    if "1 \<le> mo" "mo \<le> 12" "1 \<le> d" "d \<le> 31" for mo d
    using parse_date[of 2023 mo d 0 0 0 now "[]"] that by simp
  show ?thesis
    by (simp add: ParseStartTime_def p civil_ticks_def timegm_def month_start_def year_start_def leaps_before_def month_days_def leap_def numeral_2_eq_2)
qed

text \<open>The display: every pass shows a line and clears the count of bytes, but the one that ends the wait.\<close>

lemma display_clears_bytes:
  "display_step timed opt_loop start c ds = (D_on, ds') \<Longrightarrow>
     (ds_txWait ds' = ds_txWait ds \<longrightarrow> ds_bytes ds' = 0 \<and> length (ds_screen ds') = Suc (length (ds_screen ds)))
     \<and> (ds_txWait ds' \<noteq> ds_txWait ds \<longrightarrow> timed \<and> ds_bytes ds' = ds_bytes ds \<and> ds_screen ds' = ds_screen ds)"
  by (auto simp: display_step_def Let_def split: prod.splits if_splits)

end
