(* ===== verification/Hb_Monitor_Main.thy ===== *)
theory Hb_Monitor_Main
  imports Hb_Monitor Nt2json_Decode C_Float
begin

text \<open>
  \<open>main\<close> of \<open>hbMonitor.c\<close>: the options, the opening of the streams, one reading before the loop and one per
  round, each shown on the screen.  The loop does not end by itself: the signal handler leaves the program
  with the number of the signal, which is where the list of rounds ends.  What is behind the loop is never
  reached and left out, as are the messages on the standard error output.
\<close>

definition hb_decodeTimeStamp :: "(int \<Rightarrow> tm) \<Rightarrow> u64 \<Rightarrow> string" where
  "hb_decodeTimeStamp lt ts =
     (let t = lt (sint (ts div 100000000)) in
      show_int0 4 (tm_year t + 1900) @ ''/'' @ show_int0 2 (tm_mon t + 1) @ ''/'' @ show_int0 2 (tm_mday t)
      @ ''-'' @ show_int0 2 (tm_hour t) @ '':'' @ show_int0 2 (tm_min t) @ '':'' @ show_int0 2 (tm_sec t))"

text \<open>\<open>formatRate\<close>, which nothing calls.\<close>

definition hb_formatRate :: "u64 \<Rightarrow> string" where
  "hb_formatRate bytes =
     (let t = 8 * bytes div 1000;
          x = fl_div 24 (fl_mult 24 (8, 1) (fl_of 24 (unat bytes))) (1000000000, 1)
      in if t < 1000000 then show_fixed 8 3 x
         else if t < 10000000 then show_fixed 8 2 x
         else show_fixed 8 1 x)"

text \<open>The answers of one reading: the number of streams, if it can be read, and the use of the host buffers.\<close>

type_synonym hb_answers = "nat option \<times> (nat \<Rightarrow> hb_usage list option)"

record hb_env =
  he_localtime :: "int \<Rightarrow> tm"
  he_init :: int
  he_info_open :: int
  he_stat_open :: int
  he_first :: hb_answers
  he_rounds :: "(u64 \<times> hb_answers) list"
  he_signal :: int

text \<open>How the program ends: with a status, or by undefined behaviour, and what was on the screen; the
  terminal is reset only by the signal handler.\<close>

datatype hb_end = Hb_status int | Hb_undefined

definition hb_stopped :: "hb_stop \<Rightarrow> hb_end" where
  "hb_stopped s = (case s of Hb_exit \<Rightarrow> Hb_status 0 | Hb_fault \<Rightarrow> Hb_undefined)"

definition hb_round :: "(int \<Rightarrow> tm) \<Rightarrow> u64 \<times> hb_answers \<Rightarrow> stream_stats list \<Rightarrow> hb_end + screen \<times> stream_stats list" where
  "hb_round lt round ss =
     (case round of (time, count, usage) \<Rightarrow>
        case readStreamStats count usage ss of
          Inl s \<Rightarrow> Inl (hb_stopped s)
        | Inr (n, ss) \<Rightarrow>
            (case outputStats (hb_decodeTimeStamp lt time) n ss of
               None \<Rightarrow> Inl Hb_undefined
             | Some scr \<Rightarrow> Inr (scr, ss)))"

fun hb_rounds :: "(int \<Rightarrow> tm) \<Rightarrow> int \<Rightarrow> (u64 \<times> hb_answers) list \<Rightarrow> stream_stats list \<Rightarrow> hb_end \<times> screen list" where
  "hb_rounds lt sig [] ss = (Hb_status sig, [])"
| "hb_rounds lt sig (r # rs) ss =
     (case hb_round lt r ss of
        Inl e \<Rightarrow> (e, [])
      | Inr (scr, ss) \<Rightarrow> (case hb_rounds lt sig rs ss of (e, scrs) \<Rightarrow> (e, scr # scrs)))"

text \<open>Every option but the help is refused, \<open>-f\<close> among them.\<close>

definition hb_main :: "char list \<Rightarrow> hb_env \<Rightarrow> hb_end \<times> screen list" where
  "hb_main options e =
     (case options of
        c # cs \<Rightarrow> (Hb_status (if c = CHR ''h'' then 1 else - 1), [])
      | [] \<Rightarrow>
          if he_init e \<noteq> 0 then (Hb_status (he_init e), [])
          else if he_info_open e \<noteq> 0 \<or> he_stat_open e \<noteq> 0 then (Hb_status (- 1), [])
          else (case readStreamStats (fst (he_first e)) (snd (he_first e)) streams_zero of
              Inl s \<Rightarrow> (hb_stopped s, [])
            | Inr (n, ss) \<Rightarrow> hb_rounds (he_localtime e) (he_signal e) (he_rounds e) ss))"

section \<open>The display never fails\<close>

lemma hb_round_reads:
  assumes "streams_ok ss" "hb_round lt (time, count, usage) ss = Inl Hb_undefined"
  shows "readStreamStats count usage ss = Inl Hb_fault"
  using assms display_finds_all_streams[of count usage ss _ _ "hb_decodeTimeStamp lt time"]
  by (auto simp: hb_round_def hb_stopped_def split: sum.splits option.splits hb_stop.splits)

lemma readStreamStats_table:
  assumes "readStreamStats count usage ss = Inr (n, ss')" "streams_ok ss"
  shows "streams_ok ss'"
proof -
  obtain i where "read_streams usage n 0 ss = Inr (i, ss')"
    using assms(1) by (auto simp: readStreamStats_def split: option.splits sum.splits)
  from read_streams_ok [OF this assms(2)] show ?thesis by blast
qed

lemma hb_round_table:
  "hb_round lt (time, count, usage) ss = Inr (scr, ss') \<Longrightarrow> streams_ok ss \<Longrightarrow> streams_ok ss'"
  using readStreamStats_table[of count usage ss] by (auto simp: hb_round_def split: sum.splits option.splits)

text \<open>A run is undefined behaviour only if some reading is: if every reading of a table in order succeeds or makes
  the program leave, so does the run.\<close>

lemma hb_rounds_defined:
  assumes "streams_ok ss" "\<And>r ss. r \<in> set rs \<Longrightarrow> streams_ok ss \<Longrightarrow> readStreamStats (fst (snd r)) (snd (snd r)) ss \<noteq> Inl Hb_fault"
  shows "fst (hb_rounds lt sig rs ss) \<noteq> Hb_undefined"
  using assms
proof (induction rs arbitrary: ss)
  case (Cons r rs)
  obtain time count usage where r: "r = (time, count, usage)" by (metis prod_cases3)
  show ?case
  proof (cases "hb_round lt r ss")
    case (Inl e)
    with hb_round_reads[OF Cons.prems(1), of lt time count usage] Cons.prems(2)[of r ss] Cons.prems(1) r show ?thesis by auto
  next
    case (Inr x)
    obtain scr ss' where x: "x = (scr, ss')" by fastforce
    with Inr r hb_round_table Cons.prems(1) have "streams_ok ss'" by blast
    from Cons.IH[OF this] Cons.prems(2) Inr x show ?thesis by (auto split: prod.split)
  qed
qed simp

end
