(* ===== verification/Napa_Stat.thy ===== *)
theory Napa_Stat
  imports Nt2json_Decode "HOL-Library.Monad_Syntax"
begin

text \<open>
  \<open>napa_stat.c\<close>: the counters of all ports, printed every second.  The answers of the library are a record; the
  readings are a list, and where it ends the program is still running.  The two nested loops of the program
  run over the same variable \<open>port\<close>.  Error messages are left out; they print a status that the program
  never sets, \<open>port_status\<close>, which it also returns.
\<close>

text \<open>The counters of a port, packets and bytes.\<close>

type_synonym port_counters = "u32 \<Rightarrow> u64 \<times> u64"

record napa_reading =
  nr_status :: int
  nr_counters :: port_counters
  nr_time :: tm

record napa_env =
  ne_port_status :: int
  ne_init :: int
  ne_info_open :: int
  ne_info_read :: int
  ne_version :: "nat \<times> nat \<times> nat \<times> nat"
  ne_ports :: u32
  ne_stat_open :: int
  ne_clear :: int
  ne_readings :: "napa_reading list"

definition newline :: string where "newline = [CHR 0x0A]"

definition rule_line :: string where "rule_line = replicate 80 CHR ''-'' @ newline"

text \<open>\<open>%016lld\<close> of a 64-bit counter, \<open>%2d\<close> of a 32-bit one.\<close>

definition port_line :: "port_counters \<Rightarrow> u32 \<Rightarrow> string" where
  "port_line counters port =
     ''Napatech Port '' @ pad_left CHR '' '' 2 (show_int (sint port))
     @ '' is OK - RX Packet Count: '' @ show_int0 16 (sint (fst (counters port)))
     @ '', Byte Count: '' @ show_int0 16 (sint (snd (counters port))) @ newline"

lemma unat_below_next: "port < ports \<Longrightarrow> unat (port + 1) = unat port + 1" for port ports :: u32
  using unsigned_less[of ports, where ?'a = nat] by (simp add: unat_word_ariths word_less_nat_alt)

text \<open>The inner loop: what it prints and the value it leaves in \<open>port\<close>.\<close>

function inner_loop :: "port_counters \<Rightarrow> u32 \<Rightarrow> u32 \<Rightarrow> string \<times> u32" where
  "inner_loop counters ports port =
     (if port < ports
      then (case inner_loop counters ports (port + 1) of (out, p) \<Rightarrow> (port_line counters port @ out, p))
      else ([], port))"
  by pat_completeness auto
termination
proof (relation "measure (\<lambda>(counters, ports, port). unat ports - unat port)")
  fix counters :: port_counters and ports port :: u32
  assume "port < ports"
  then show "((counters, ports, port + 1), (counters, ports, port)) \<in> measure (\<lambda>(counters, ports, port). unat ports - unat port)"
    using unat_below_next[of port ports] by (simp add: word_less_nat_alt)
qed simp

declare inner_loop.simps [simp del]

text \<open>The outer loop: the text, and how often it slept.  It need not end when \<open>port\<close> wraps around.\<close>

partial_function (option) outer_loop :: "port_counters \<Rightarrow> u32 \<Rightarrow> u32 \<Rightarrow> string \<Rightarrow> nat \<Rightarrow> (string \<times> nat) option" where
  "outer_loop counters ports port out slept =
     (if port < ports
      then (case inner_loop counters ports 0 of (rows, p) \<Rightarrow>
              outer_loop counters ports (p + 1) (out @ rows @ rule_line) (slept + 1))
      else Some (out, slept))"

definition time_lines :: "tm \<Rightarrow> string" where
  "time_lines t =
     newline @ ''Date: '' @ show_int (tm_mday t) @ '':'' @ show_int (tm_mon t + 1) @ '':'' @ show_int (tm_year t + 1900) @ newline
     @ ''Time: '' @ show_int (tm_hour t) @ '':'' @ show_int (tm_min t) @ '' '' @ show_int (tm_sec t) @ newline @ newline"

text \<open>The endless loop: the end of the program, if there is one, with what was printed and the seconds slept.\<close>

datatype napa_end = Napa_returns int | Napa_runs

fun napa_loop :: "u32 \<Rightarrow> napa_reading list \<Rightarrow> string \<Rightarrow> nat \<Rightarrow> (napa_end \<times> string \<times> nat) option" where
  "napa_loop ports [] out slept = Some (Napa_runs, out, slept)"
| "napa_loop ports (r # rs) out slept =
     (if nr_status r \<noteq> 0 then Some (Napa_returns (- 1), out, slept)
      else do {
        (out, slept) \<leftarrow> outer_loop (nr_counters r) ports 0 (out @ time_lines (nr_time r)) slept;
        napa_loop ports rs out slept })"

definition napa_head :: "napa_env \<Rightarrow> string" where
  "napa_head e = (case ne_version e of (major, minor, patch, tag) \<Rightarrow>
     ''System: '' @ show_dec major @ ''.'' @ show_dec minor @ ''.'' @ show_dec patch @ ''.'' @ show_dec tag @ newline @ newline
     @ ''Ports: '' @ show_dec (unat (ne_ports e)) @ newline @ newline)"

definition napa_main :: "napa_env \<Rightarrow> (napa_end \<times> string \<times> nat) option" where
  "napa_main e =
     (if ne_init e \<noteq> 0 \<or> ne_info_open e \<noteq> 0 \<or> ne_info_read e \<noteq> 0 then Some (Napa_returns (ne_port_status e), [], 0)
      else if ne_stat_open e \<noteq> 0 \<or> ne_clear e \<noteq> 0 then Some (Napa_returns (- 1), napa_head e, 0)
      else napa_loop (ne_ports e) (ne_readings e)
        (napa_head e @ ''Statistics for port 0 the next 10 seconds.'' @ newline @ rule_line) 0)"

section \<open>What the loops do\<close>

lemma inner_loop_end: "port \<le> ports \<Longrightarrow> snd (inner_loop counters ports port) = ports"
proof (induction counters ports port rule: inner_loop.induct)
  case (1 counters ports port)
  show ?case
  proof (cases "port < ports")
    case True
    then have "port + 1 \<le> ports" by (rule inc_le)
    with 1 True show ?thesis by (subst inner_loop.simps) (simp add: split_beta)
  next
    case False
    with 1 show ?thesis by (subst inner_loop.simps) simp
  qed
qed

text \<open>A table is printed once and followed by one second of sleep, unless there are no ports; then nothing is
  printed and the program does not sleep.\<close>

lemma outer_loop_once:
  assumes "ports \<noteq> - 1"
  shows "outer_loop counters ports 0 out slept =
    Some (if ports = 0 then (out, slept) else (out @ fst (inner_loop counters ports 0) @ rule_line, slept + 1))"
proof (cases "ports = 0")
  case True
  then show ?thesis by (subst outer_loop.simps) simp
next
  case False
  have "ports < ports + 1" using assms unat_below_next[of ports "- 1"]
    by (simp add: word_less_nat_alt word_order.not_eq_extremum)
  then have "\<not> ports + 1 < ports" by (rule less_not_sym)
  then have "outer_loop counters ports (ports + 1) o' s = Some (o', s)" for o' s
    by (subst outer_loop.simps) simp
  moreover have "0 < ports" using False by (simp add: word_gt_0)
  moreover have "snd (inner_loop counters ports 0) = ports" using inner_loop_end[of 0 ports counters] by simp
  ultimately show ?thesis using False by (subst outer_loop.simps) (simp add: split_beta)
qed

lemma no_ports_never_sleeps:
  assumes "napa_loop 0 rs out 0 = Some (e, out', slept)"
  shows "slept = 0"
  using assms
proof (induction "0 :: u32" rs out "0 :: nat" arbitrary: rule: napa_loop.induct)
  case (2 r rs out)
  then show ?case by (auto simp: outer_loop_once split: if_splits)
qed simp

end
