(* ===== verification/Text_Fields.thy ===== *)
theory Text_Fields
  imports Libc
begin

text \<open>
  The functions of \<open>bufferProfile/bufferProfile.cpp\<close> that pick fields out of the output of a command.
  A pointer into a text is what is left of the object from there on, with the terminating NUL and
  whatever lies behind it; \<open>None\<close> is an access behind the object, and \<open>Some None\<close> the null pointer.
  The size of the caller's buffer is the one it passes.
\<close>

type_synonym text_ptr = "string option"

abbreviation NUL :: char where "NUL \<equiv> CHR 0x00"
abbreviation ESC :: char where "ESC \<equiv> CHR 0x1B"

section \<open>The output of a command\<close>

text \<open>\<open>sysExec\<close> on what \<open>fgets\<close> returns piece by piece (\<open>None\<close>: the pipe cannot be opened).  The result
  is the returned text or null, and whether the pipe has been closed.  A piece is the text up to its NUL; a
  result of size 0 is never cleared, and its length is undefined.\<close>

fun sysExec_loop :: "u32 \<Rightarrow> string \<Rightarrow> string list \<Rightarrow> (text_ptr \<times> bool) option" where
  "sysExec_loop maxResult result [] = Some (Some result, True)"
| "sysExec_loop maxResult result (buffer # bs) =
     (if length result + length buffer > unat maxResult then Some (None, False)
      else if length result + length buffer + 1 > unat maxResult then None
      else sysExec_loop maxResult (result @ buffer) bs)"

definition sysExec :: "string list option \<Rightarrow> u32 \<Rightarrow> (text_ptr \<times> bool) option" where
  "sysExec pipe maxResult = (case pipe of
        None \<Rightarrow> Some (None, False)
      | Some bs \<Rightarrow> if maxResult = 0 \<and> bs \<noteq> [] then None else sysExec_loop maxResult [] bs)"

section \<open>Lines\<close>

fun strchr_from :: "char \<Rightarrow> string \<Rightarrow> text_ptr option" where
  "strchr_from c [] = None"
| "strchr_from c (x # xs) = (if x = c then Some (Some (x # xs)) else if x = NUL then Some None else strchr_from c xs)"

text \<open>The end of \<open>getLine\<close>: to the next decimal digit or the end of the text.\<close>

fun seek_digit :: "string \<Rightarrow> text_ptr option" where
  "seek_digit [] = None"
| "seek_digit (x # xs) =
     (if x \<noteq> NUL \<and> (of_char x < (48::nat) \<or> of_char x > (57::nat)) then seek_digit xs else Some (Some (x # xs)))"

fun getLine_loop :: "nat \<Rightarrow> string \<Rightarrow> text_ptr option" where
  "getLine_loop 0 p = (if p = [] then None else seek_digit (tl p))"
| "getLine_loop (Suc n) p =
     (if p = [] then None
      else case strchr_from (CHR 10) (tl p) of
        None \<Rightarrow> None
      | Some None \<Rightarrow> Some None
      | Some (Some q) \<Rightarrow> getLine_loop n q)"

definition getLine :: "u32 \<Rightarrow> string \<Rightarrow> text_ptr option" where
  "getLine line buf = getLine_loop (unat line) buf"

section \<open>Fields\<close>

definition field_end :: "char \<Rightarrow> bool" where
  "field_end c \<longleftrightarrow> c = CHR '' '' \<or> c = CHR 9 \<or> c = CHR 10 \<or> c = CHR 13 \<or> c = ESC"

fun copy_chars :: "nat \<Rightarrow> nat \<Rightarrow> string \<Rightarrow> string option" where
  "copy_chars limit pos [] = None"
| "copy_chars limit pos (x # xs) =
     (if field_end x then Some []
      else if limit \<le> pos + 1 then Some [x]
      else map_option ((#) x) (copy_chars limit (pos + 1) xs))"

text \<open>\<open>copyField\<close>: the text written to the buffer, which needs room for its NUL too.  The limit
  \<open>bufSize - 1\<close> is taken in 32 unsigned bits.\<close>

definition copyField :: "string \<Rightarrow> u32 \<Rightarrow> string option" where
  "copyField p bufSize =
     (case copy_chars (unat (bufSize - 1)) 0 p of
        None \<Rightarrow> None
      | Some f \<Rightarrow> if length f < unat bufSize then Some f else None)"

definition field_char :: "char \<Rightarrow> bool" where
  "field_char c \<longleftrightarrow> 32 < (of_char c :: nat) \<and> (of_char c :: nat) < 127"

text \<open>The rest of the current field; \<open>failSafeCnt\<close> gives up at the 1026th character.\<close>

fun skip_field :: "nat \<Rightarrow> string \<Rightarrow> text_ptr option" where
  "skip_field cnt [] = None"
| "skip_field cnt (x # xs) =
     (if field_char x \<or> x = ESC then if cnt > 1024 then Some None else skip_field (cnt + 1) xs
      else Some (Some (x # xs)))"

fun skip_blanks :: "string \<Rightarrow> string option" where
  "skip_blanks [] = None"
| "skip_blanks (x # xs) = (if x = CHR '' '' \<or> x = CHR 9 then skip_blanks xs else Some (x # xs))"

text \<open>The returned pointer, and what is in the buffer afterwards.\<close>

definition getNextField :: "text_ptr \<Rightarrow> string \<Rightarrow> u32 \<Rightarrow> (text_ptr \<times> string) option" where
  "getNextField p buf bufSize =
     (case p of None \<Rightarrow> Some (None, buf)
      | Some p \<Rightarrow>
     (case skip_field 0 p of None \<Rightarrow> None
      | Some None \<Rightarrow> Some (None, buf)
      | Some (Some p) \<Rightarrow>
     (case skip_blanks p of None \<Rightarrow> None
      | Some p \<Rightarrow>
     (case copyField p bufSize of None \<Rightarrow> None
      | Some f \<Rightarrow> Some (if hd p = CHR 10 \<or> hd p = CHR 13 \<or> hd p = ESC then None else Some p, f)))))"

fun getField_loop :: "nat \<Rightarrow> text_ptr \<Rightarrow> string \<Rightarrow> u32 \<Rightarrow> (text_ptr \<times> string) option" where
  "getField_loop 0 p buf bufSize = Some (p, buf)"
| "getField_loop (Suc n) p buf bufSize =
     (case getNextField p [] bufSize of None \<Rightarrow> None
      | Some (None, buf) \<Rightarrow> Some (None, buf)
      | Some (Some q, buf) \<Rightarrow> getField_loop n (Some q) buf bufSize)"

definition getField :: "u32 \<Rightarrow> text_ptr \<Rightarrow> string \<Rightarrow> u32 \<Rightarrow> (text_ptr \<times> string) option" where
  "getField fieldID p buf bufSize = getField_loop (unat fieldID) p buf bufSize"

text \<open>The debug printers: the pointer is tested before every character, but only a pointer that is null at
  the start is ever null.\<close>

definition print_chars :: "nat \<Rightarrow> text_ptr \<Rightarrow> string option" where
  "print_chars n p = (case p of None \<Rightarrow> Some [] | Some xs \<Rightarrow> if n \<le> length xs then Some (take n xs) else None)"

definition printLine :: "text_ptr \<Rightarrow> string option" where
  "printLine p = map_option (\<lambda>t. ''|||>'' @ t @ ''<|||'') (print_chars 96 p)"

definition printField :: "text_ptr \<Rightarrow> string option" where
  "printField p = print_chars 12 p"

section \<open>What \<open>sysExec\<close> returns\<close>

lemma sysExec_loop_fits:
  "length result + length (concat bs) < unat maxResult \<Longrightarrow>
     sysExec_loop maxResult result bs = Some (Some (result @ concat bs), True)"
  by (induction bs arbitrary: result) auto

text \<open>Output that leaves room for the NUL is returned whole.\<close>

theorem sysExec_fits:
  "length (concat bs) < unat maxResult \<Longrightarrow> sysExec (Some bs) maxResult = Some (Some (concat bs), True)"
  by (auto simp: sysExec_def sysExec_loop_fits)

text \<open>Output of exactly the size of the buffer passes the test, and its NUL is written behind the buffer.\<close>

lemma sysExec_loop_overrun:
  "length result + length (concat bs) = unat maxResult \<Longrightarrow> bs \<noteq> [] \<Longrightarrow> [] \<notin> set bs \<Longrightarrow>
     sysExec_loop maxResult result bs = None"
proof (induction bs arbitrary: result)
  case (Cons b bs)
  show ?case
  proof (cases "bs = []")
    case False
    with Cons.prems have "length (concat bs) > 0" by (cases bs) auto
    with Cons show ?thesis using False by auto
  qed (use Cons.prems in auto)
qed simp

theorem sysExec_overrun:
  "length (concat bs) = unat maxResult \<Longrightarrow> bs \<noteq> [] \<Longrightarrow> [] \<notin> set bs \<Longrightarrow> sysExec (Some bs) maxResult = None"
  by (auto simp: sysExec_def sysExec_loop_overrun)

section \<open>Which line \<open>getLine\<close> finds\<close>

lemma strchr_from_found:
  "c \<notin> set xs \<Longrightarrow> NUL \<notin> set xs \<Longrightarrow> strchr_from c (xs @ c # ys) = Some (Some (c # ys))"
  by (induction xs) auto

text \<open>With \<open>n\<close> more lines to go from the end of one, the search for a digit starts behind \<open>n\<close> line ends.\<close>

lemma getLine_loop_lines:
  assumes "length ls = n" "\<And>l. l \<in> set ls \<Longrightarrow> CHR 10 \<notin> set l \<and> NUL \<notin> set l"
  shows "getLine_loop n (x # concat (map (\<lambda>l. l @ [CHR 10]) ls) @ ys) = seek_digit ys"
  using assms
proof (induction ls arbitrary: x n)
  case (Cons l ls)
  then obtain m where "n = Suc m" "length ls = m" by auto
  with Cons show ?case by (simp add: strchr_from_found)
qed simp

text \<open>Line \<open>n\<close>, counted from 0, of a text whose first line is not empty: the first digit at or behind its
  start.\<close>

theorem getLine_finds_line:
  assumes "unat n = length ls" "ls = (c # l) # ls'" "\<And>l. l \<in> set ls \<Longrightarrow> CHR 10 \<notin> set l \<and> NUL \<notin> set l"
  shows "getLine n (concat (map (\<lambda>l. l @ [CHR 10]) ls) @ ys) = seek_digit ys"
proof -
  have "strchr_from (CHR 10) (l @ CHR 10 # concat (map (\<lambda>l. l @ [CHR 10]) ls') @ ys) =
        Some (Some (CHR 10 # concat (map (\<lambda>l. l @ [CHR 10]) ls') @ ys))"
    using assms(2) assms(3) [of "c # l"] by (intro strchr_from_found) simp_all
  then show ?thesis
    using assms getLine_loop_lines [of ls' "length ls'" "CHR 10" ys] by (simp add: getLine_def)
qed

text \<open>An empty first line is not counted, and line 0 is read without its first character.\<close>

lemma getLine_empty_first_line:
  assumes "CHR 10 \<notin> set l" "NUL \<notin> set l"
  shows "getLine 1 (CHR 10 # l @ CHR 10 # ys) = seek_digit ys"
  using assms by (simp add: getLine_def strchr_from_found)

lemma getLine_zero: "getLine 0 (x # xs) = seek_digit xs"
  by (simp add: getLine_def)

text \<open>The search does not stop at the end of the line: a line without a digit gives the next one's.\<close>

lemma seek_digit_passes_lines:
  "\<forall>c \<in> set xs. c \<noteq> NUL \<and> (of_char c < (48::nat) \<or> of_char c > (57::nat)) \<Longrightarrow> seek_digit (xs @ ys) = seek_digit ys"
  by (induction xs) auto

section \<open>Which field \<open>getField\<close> reads\<close>

lemma field_char_not_end: "field_char c \<Longrightarrow> \<not> field_end c"
  by (auto simp: field_char_def field_end_def)

lemma copy_chars_field:
  "(\<And>c. c \<in> set f \<Longrightarrow> \<not> field_end c) \<Longrightarrow> field_end d \<Longrightarrow> pos < limit \<Longrightarrow>
     copy_chars limit pos (f @ d # ys) = Some (take (limit - pos) f)"
proof (induction f arbitrary: pos)
  case (Cons c f)
  then show ?case by (cases "limit \<le> pos + 1") (simp_all add: take_Cons' Suc_diff_Suc)
qed simp

text \<open>A field that a blank or a line end closes is copied, cut to the size of the buffer.\<close>

theorem copyField_truncates:
  assumes "\<And>c. c \<in> set f \<Longrightarrow> \<not> field_end c" "field_end d" "2 \<le> unat n"
  shows "copyField (f @ d # ys) n = Some (take (unat n - 1) f)"
proof -
  have "unat (n - 1) = unat n - 1" using assms(3) by (intro unat_minus_one) auto
  then show ?thesis using copy_chars_field [of f d 0 "unat n - 1" ys] assms by (simp add: copyField_def)
qed

text \<open>One that ends with the text is not: the NUL is taken for a character of the field, and the copying
  runs on behind the text.\<close>

lemma copy_chars_overruns:
  "\<forall>c \<in> set f. \<not> field_end c \<Longrightarrow> pos + length f < limit \<Longrightarrow> copy_chars limit pos f = None"
  by (induction f arbitrary: pos) auto

theorem last_field_overruns:
  assumes "\<And>c. c \<in> set f \<Longrightarrow> \<not> field_end c" "length f + 2 < unat n"
  shows "copyField (f @ [NUL]) n = None"
proof -
  have "unat (n - 1) = unat n - 1" using assms(2) by (intro unat_minus_one) auto
  moreover have "\<not> field_end NUL" by (simp add: field_end_def)
  ultimately show ?thesis
    using copy_chars_overruns [of "f @ [NUL]" 0 "unat n - 1"] assms by (auto simp: copyField_def)
qed

lemma skip_field_chars:
  "(\<And>c. c \<in> set f \<Longrightarrow> field_char c) \<Longrightarrow> cnt + length f \<le> 1025 \<Longrightarrow> \<not> field_char d \<Longrightarrow> d \<noteq> ESC \<Longrightarrow>
     skip_field cnt (f @ d # ys) = Some (Some (d # ys))"
  by (induction f arbitrary: cnt) auto

definition blank :: "char \<Rightarrow> bool" where "blank c \<longleftrightarrow> c = CHR '' '' \<or> c = CHR 9"

lemma skip_blanks_all:
  "(\<And>c. c \<in> set s \<Longrightarrow> blank c) \<Longrightarrow> \<not> blank d \<Longrightarrow> skip_blanks (s @ d # ys) = Some (d # ys)"
  by (induction s) (auto simp: blank_def)

definition field_ok :: "string \<Rightarrow> bool" where
  "field_ok f \<longleftrightarrow> f \<noteq> [] \<and> length f \<le> 1025 \<and> (\<forall>c \<in> set f. field_char c)"

definition gap_ok :: "string \<Rightarrow> bool" where
  "gap_ok s \<longleftrightarrow> s \<noteq> [] \<and> (\<forall>c \<in> set s. blank c)"

text \<open>A line of fields, each behind a gap, up to its line end.\<close>

definition fields_text :: "(string \<times> string) list \<Rightarrow> string \<Rightarrow> string" where
  "fields_text sfs ys = concat (map (\<lambda>(s, f). s @ f) sfs) @ CHR 10 # ys"

lemma blank_chars: "blank c \<Longrightarrow> field_end c \<and> \<not> field_char c \<and> c \<noteq> ESC"
  by (auto simp: blank_def field_end_def field_char_def)

lemma fields_text_head:
  assumes "list_all (\<lambda>(s, f). gap_ok s \<and> field_ok f) sfs"
  obtains d zs where "fields_text sfs ys = d # zs" "field_end d" "\<not> field_char d" "d \<noteq> ESC"
proof (cases sfs)
  case Nil
  then show ?thesis using that by (simp add: fields_text_def field_end_def field_char_def)
next
  case (Cons sf sfs')
  with assms obtain s f where "sf = (s, f)" "gap_ok s" by (auto simp: list_all_iff)
  moreover from this obtain d t where "s = d # t" "blank d" by (cases s) (auto simp: gap_ok_def)
  ultimately show ?thesis using that blank_chars [of d] Cons by (simp add: fields_text_def)
qed

lemma getNextField_reads:
  assumes f0: "length f0 \<le> 1025" "\<forall>c \<in> set f0. field_char c"
    and ok: "gap_ok s" "field_ok f" "list_all (\<lambda>(s, f). gap_ok s \<and> field_ok f) sfs" and n: "2 \<le> unat n"
  shows "getNextField (Some (f0 @ fields_text ((s, f) # sfs) ys)) buf n =
         Some (Some (f @ fields_text sfs ys), take (unat n - 1) f)"
proof -
  obtain d t where s: "s = d # t" "blank d" using ok(1) by (cases s) (auto simp: gap_ok_def)
  obtain c u where f: "f = c # u" "field_char c" using ok(2) by (cases f) (auto simp: field_ok_def)
  obtain e zs where rest: "fields_text sfs ys = e # zs" "field_end e" by (rule fields_text_head [OF ok(3)])
  have eq: "fields_text ((s, f) # sfs) ys = d # t @ f @ fields_text sfs ys"
    by (simp add: fields_text_def s)
  have field: "skip_field 0 (f0 @ fields_text ((s, f) # sfs) ys) = Some (Some (s @ f @ fields_text sfs ys))"
    using skip_field_chars [of f0 0 d] f0 blank_chars [OF s(2)] eq s by simp
  have "\<not> blank c" using f(2) blank_chars by blast
  then have blanks: "skip_blanks (s @ f @ fields_text sfs ys) = Some (f @ fields_text sfs ys)"
    using skip_blanks_all [of s c] ok(1) f by (simp add: gap_ok_def)
  have copied: "copyField (f @ fields_text sfs ys) n = Some (take (unat n - 1) f)"
    using copyField_truncates [of f e n zs] ok(2) field_char_not_end rest n by (auto simp: field_ok_def)
  have "\<not> (c = CHR 10 \<or> c = CHR 13 \<or> c = ESC)" using field_char_not_end [OF f(2)] by (auto simp: field_end_def)
  with field blanks copied show ?thesis by (simp add: getNextField_def f(1))
qed

text \<open>Field \<open>k\<close> of a line is the \<open>k\<close>-th behind the text at the pointer: the fields are counted from 0 when the
  pointer stands on one, and from 1 when it stands on a blank.\<close>

lemma getField_loop_reads:
  assumes "length f0 \<le> 1025" "\<forall>c \<in> set f0. field_char c"
    and "list_all (\<lambda>(s, f). gap_ok s \<and> field_ok f) sfs" "k < length sfs" "2 \<le> unat n"
  shows "getField_loop (Suc k) (Some (f0 @ fields_text sfs ys)) buf n =
         Some (Some (snd (sfs ! k) @ fields_text (drop (Suc k) sfs) ys), take (unat n - 1) (snd (sfs ! k)))"
  using assms
proof (induction k arbitrary: f0 sfs buf)
  case 0
  then obtain s f sfs' where "sfs = (s, f) # sfs'" by (cases sfs) auto
  with 0 show ?case using getNextField_reads [of f0 s f sfs' n ys "[]"] by simp
next
  case (Suc k)
  then obtain s f sfs' where sfs: "sfs = (s, f) # sfs'" by (cases sfs) auto
  with Suc.prems have "length f \<le> 1025" "\<forall>c \<in> set f. field_char c" by (auto simp: field_ok_def)
  note IH = Suc.IH [OF this, of sfs' "take (unat n - 1) f"]
  have "getNextField (Some (f0 @ fields_text sfs ys)) [] n = Some (Some (f @ fields_text sfs' ys), take (unat n - 1) f)"
    using Suc.prems sfs getNextField_reads [of f0 s f sfs' n ys "[]"] by simp
  with IH Suc.prems sfs show ?case by (simp add: getField_loop.simps(2) [of "Suc k"])
qed

theorem getField_reads_field:
  assumes "length f0 \<le> 1025" "\<forall>c \<in> set f0. field_char c"
    and "list_all (\<lambda>(s, f). gap_ok s \<and> field_ok f) sfs" "0 < unat k" "unat k \<le> length sfs" "2 \<le> unat n"
  shows "getField k (Some (f0 @ fields_text sfs ys)) buf n =
         Some (Some (snd (sfs ! (unat k - 1)) @ fields_text (drop (unat k) sfs) ys), take (unat n - 1) (snd (sfs ! (unat k - 1))))"
proof -
  from assms(4) obtain j where "unat k = Suc j" using gr0_implies_Suc by blast
  with assms show ?thesis using getField_loop_reads [of f0 sfs j n ys buf] by (simp add: getField_def)
qed

text \<open>Field 0 is not read at all: the buffer keeps what it had.\<close>

lemma getField_zero: "getField 0 p buf n = Some (p, buf)"
  by (simp add: getField_def)

lemma getField_example: "getField 2 (Some (''cpu 12  345 6'' @ [CHR 10, NUL])) '''' 3 = Some (Some (''345 6'' @ [CHR 10, NUL]), ''34'')"
  by code_simp

end
