(* ===== verification/Spec2Isabelle.thy ===== *)
theory Spec2Isabelle
  imports Flow_Key Flow_Info Sw_Stats Mpmc_Concurrent Mpmc_Wait Rx Info_Streams Ntpl_Config Ntnetflow_Main Ntnetflow_Run
    Addrswap_Replay Boundary_Replay Hb_Monitor Nt2json_Claims Filter_Claims
    Buffer_Profile_Claims Boundary_Time Hb_Monitor_Main Napa_Stat Text_Fields
begin

text \<open>
  A verification development for the example programs of the Napatech adapter library (NTAPI).

  The repository is a collection of separate programs.  Each is linked with the NTAPI library, which
  is not part of it; wherever a program calls the library, or a third-party package, the outcome of
  the call is an input of the model (an argument, a field of a record of answers, or an element
  of a list of answers), so that what is proved holds for every behaviour of the library.

  \<^bold>\<open>Shared theories.\<close>  \<open>Ntapi_Prelude\<close>: C integer types as words, single-bit tests, bit scans.  \<open>Libc\<close>:
  \<open>memcpy\<close> with bounds, \<open>snprintf\<close> and its truncation, \<open>strtol\<close>/\<open>strtoull\<close>; printing and reading back a
  number are inverse.  Throughout, \<open>None\<close> (or a constructor of its own) stands for what C leaves
  undefined or what ends the process: an access outside an object or through a null pointer, a shift
  out of range, a failed assertion.  Fallible operations return a sum or an option, so that every error
  path of the source is a branch of the model.

  \<^bold>\<open>ntnetflow\<close> (\<open>src/ntnetflow\<close>) counts the packets of each network flow with the help of the
  adapter.  Receive threads look a packet up in the flow table, and hand new flows through a queue to
  the flow learner, which tells the adapter to count them and polls the counters.
    \<^item> \<open>Flow_Key\<close> (\<open>flowkey.h\<close>: \<open>fk_create\<close>) and \<open>Flow_Info\<close> (\<open>flowinfo.c\<close>): the key of a packet is
      the same in both directions of a connection; counters are sums.
    \<^item> \<open>Sw_Stats\<close> (\<open>stats.c\<close>): counters, rates, printers and the switching on and off of the timer.
    \<^item> \<open>Mpmc_Queue\<close>, \<open>Mpmc_Concurrent\<close>, \<open>Mpmc_Wait\<close> (\<open>mpmc_queue.h\<close>, \<open>futex.h\<close>): a bounded queue.  Run
      undisturbed it refines a bounded FIFO list (locale \<open>bounded_queue\<close>, interpreted as \<open>mpmc\<close>); the
      inductive relation \<open>mpmc_step\<close> interleaves the atomic accesses of any number of threads, and an
      invariant of \<open>mpmc_reach\<close> gives at-most-once delivery; the blocking wrappers take back the waiter
      counts that they announce, on every schedule.
    \<^item> \<open>Flow_Table\<close> (definitions), \<open>Flow_Table_Inv\<close> (representation invariant and the list of live
      entries of a chain), \<open>Flow_Table_Remove\<close>, \<open>Flow_Table_Props\<close> (\<open>flowtable.c\<close>): \<open>ft_init\<close>,
      \<open>ft_lookup\<close>, \<open>ft_add\<close>, \<open>ft_ref\<close>, \<open>ft_deref\<close>, \<open>ft_remove\<close>, \<open>ft_deinit\<close> act on the set of live entries.
    \<^item> \<open>Poll_Ring\<close> (circular doubly linked lists), \<open>Flow_Learn\<close>, \<open>Flow_Learn_Props\<close> (\<open>flowlearn.c\<close>): one
      definition per iteration of each of the four threads; the poll list is a ring of live entries.
    \<^item> \<open>Rx\<close> (\<open>rx.c\<close>): the receiving threads on top of the flow table, which they use through the
      locale \<open>flow_store\<close>, interpreted on the table as \<open>rxs\<close>.
    \<^item> \<open>Argparse\<close> (\<open>argparse.c\<close>), \<open>Info_Streams\<close> (\<open>info.c\<close>), \<open>Ntpl_Config\<close> (\<open>ntpl.c\<close>), \<open>Ntnetflow_Main\<close>
      (\<open>ntnetflow.c\<close>, \<open>common.c\<close>, \<open>signal.c\<close>, \<open>flowstats.c\<close>): options, queries with their caches, filter
      commands, bring-up and unwinding.  \<open>Ntnetflow_Run\<close>: the printing loop of \<open>main\<close>, and when \<open>main\<close> returns.

  \<^bold>\<open>addrswap_replay\<close> and \<^bold>\<open>boundary_replay\<close> transmit capture files.  \<open>Addr_Map\<close> (\<open>btree.c\<close>,
  \<open>subst_parse.c\<close>; locale \<open>first_wins\<close>, interpreted as \<open>bt\<close>) is the address substitution;
  \<open>Addrswap_Packet\<close> and \<open>Addrswap_Replay\<close> (\<open>addrswap_replay.c\<close>) treat one packet and the session;
  \<open>Boundary_Replay\<close> (\<open>boundary_replay.c\<close>) repeats a 10 ms file on the second; \<open>Civil_Time\<close> (\<open>strptime\<close>,
  \<open>timegm\<close>) and \<open>Boundary_Time\<close> are its start time and its display.  Both programs carry
  \<open>argparse.c\<close>, the version \<open>Addrswap\<close> of \<open>Argparse\<close>.

  \<^bold>\<open>hbMonitor\<close>: \<open>Hb_Monitor\<close> (\<open>hbMonitor.c\<close>): the table of host buffer levels and its display; \<open>Hb_Monitor_Main\<close>: the
  program around them.  \<^bold>\<open>napa_stat\<close>: \<open>Napa_Stat\<close> (\<open>napa_stat.c\<close>).

  \<^bold>\<open>NT2JSON\<close> (\<open>src/NT2JSON/NT2JSON.c\<close>) prints all that the adapter reports as one JSON document.
    \<^item> \<open>Json_Tree\<close>: documents, with the two rules of json-c that matter (a key that is there is
      replaced; adding to a null pointer aborts), lookups after additions, well-formed documents.
    \<^item> \<open>Nt2json_Data\<close>, \<open>Nt2json_Counters\<close>: the answers of the driver.  \<open>Nt2json_Options\<close>: \<open>validateFilename\<close>
      and the option loop, with its invariant.
    \<^item> \<open>Nt2json_Decode\<close>, \<open>Nt2json_Decode_Props\<close>: the \<open>decode...\<close> functions; priority lists, time stamps.
    \<^item> \<open>Nt2json_Info\<close>, \<open>Nt2json_Stats\<close>: one definition per \<open>get...\<close> function.  \<open>Nt2json_Main\<close>: \<open>main\<close> on the
      record \<open>nt_env\<close> of all answers.
    \<^item> \<open>Nt2json_Props\<close>, \<open>Nt2json_Claims\<close>: which sensors are listed, merged colours, when a run aborts,
      well-formedness of every printed document.

  \<^bold>\<open>filter_daemon\<close> (\<open>src/filter_daemon\<close>) keeps the filters of an adapter the same as the addresses in a file.
    \<^item> \<open>Filter_Address\<close>, \<open>Filter_Address_Props\<close> (\<open>IPAddress.cpp\<close>): reading a line, masks, the filter
      commands, the comparison.  \<open>Cpp_Set\<close>: \<open>std::set\<close> and its algorithms as ordered lists (locale
      \<open>compares_by\<close>, interpreted on the comparison of addresses as \<open>ips\<close>).
    \<^item> \<open>Filter_Daemon\<close>, \<open>Filter_Daemon_Props\<close>, \<open>Filter_Claims\<close> (\<open>NTFileHandler.cpp\<close>, \<open>NTUtils.cpp\<close>,
      \<open>ntfilterd.cpp\<close>): the log of commands and answers gives the filters that are live; after every pass
      over the file they are those of its addresses.

  \<^bold>\<open>bufferProfile\<close> (\<open>src/bufferProfile\<close>) shows the state of the system around packet loss.
    \<^item> \<open>Recent_Buffer\<close>: the contract of a buffer of the most recent entries (locale \<open>recent_buffer\<close>), and which
      entries a client shows that flushes it while there is an alert.  \<open>Backlog\<close> (\<open>backlog.cpp\<close>): the ring of
      five seconds, its invariant, and the interpretation \<open>ring\<close> of the contract.
    \<^item> \<open>C_Float\<close>: rounding to a significand of \<open>p\<close> bits and \<open>%w.kf\<close>; where integers come out exact.
    \<^item> \<open>Buffer_Profile\<close> (the readings and the text of an entry), \<open>Buffer_Profile_Main\<close> (one second, the loop,
      \<open>main\<close>), \<open>Buffer_Profile_Props\<close>, \<open>Buffer_Profile_Claims\<close> (\<open>bufferProfile.cpp\<close>).  \<open>Text_Fields\<close>: its
      functions on fields of text, which nothing calls yet.

  \<^bold>\<open>Bounds and fuel.\<close>  Loops over data of the program are structural recursions.  Three loops have
  fuel: \<open>fl_poll_round\<close>, for which \<open>poll_round_terminates\<close> shows that any fuel above the number of due
  entries is enough; \<open>free_chain\<close>, called with the number of buckets, which a chain cannot exceed
  because its buckets are distinct; \<open>fl_deinit_loop\<close>, where running out is reported.  Loops that wait for
  a thread, the adapter or the user run over the list of the answers they get; a list that ends
  before the loop does means that the program is still waiting.  Integers are words of their C width
  where they wrap or are narrowed.  The search of \<open>bufferProfile\<close> for a stream may run forever and is a
  \<open>partial_function\<close>; \<open>stream_reading_hangs_iff\<close> says when.  So is the printing loop of \<open>ntnetflow\<close>, with
  \<open>print_run_ends_iff\<close>.

  \<^bold>\<open>Not modelled.\<close>  Memory orders weaker than sequential consistency; the text that json-c and libyaml
  produce or scan; messages on the console that nothing depends on; terminal handling; system calls
  that only change the signal mask; \<open>queue.h\<close> (vendored list macros without a use) and the platform
  headers \<open>tool_def.h\<close> and \<open>nttime.h\<close>; \<open>src/boundary_replay/shared/argparse\<close>, which is the file of
  addrswap_replay but for white space and one include line; \<open>example_notify.c\<close>, a text-book
  listing that does not compile;
  the log of the filter daemon;
  the NTPL scripts of \<open>ntpl_examples\<close>, which are data for the adapter.
\<close>

end
